(* ===== verification/Styio_Prelude.thy ===== *)
theory Styio_Prelude
  imports Main "HOL-Library.Word"
begin

text \<open>
  Shared vocabulary of the development: the C++ string operations the program uses
  (\<open>substr\<close>, \<open>compare\<close>, \<open>find\<close>, \<open>rfind(p, 0) == 0\<close>, \<open>std::to_string\<close>,
  \<open>std::stoull\<close>), the character classes of the "C" locale, the scanning loop that
  every hand-written lexer of the repository repeats, and the generic lemmas about them.
  A C++ \<open>char\<close> is a byte, which is exactly Isabelle's \<open>char\<close>; a \<open>std::string\<close> is a
  list of them; \<open>std::size_t\<close> offsets are \<open>nat\<close>.
\<close>

named_theorems str_defs "definitions of the string operations"
named_theorems lex_simps "facts the scanners rest on"

subsection \<open>Substrings and comparison\<close>

text \<open>\<open>s.substr(pos, n)\<close>: at most \<open>n\<close> characters from \<open>pos\<close> on.\<close>

definition substr :: "string \<Rightarrow> nat \<Rightarrow> nat \<Rightarrow> string" where
  "substr s pos n = take n (drop pos s)"

text \<open>\<open>s.compare(pos, lit.size(), lit) == 0\<close>.\<close>

definition cmp_at :: "string \<Rightarrow> nat \<Rightarrow> string \<Rightarrow> bool" where
  "cmp_at s pos lit \<longleftrightarrow> substr s pos (length lit) = lit"

text \<open>\<open>s.rfind(p, 0) == 0\<close> and \<open>s.starts_with(p)\<close>.\<close>

definition starts_with :: "string \<Rightarrow> string \<Rightarrow> bool" where
  "starts_with s p \<longleftrightarrow> take (length p) s = p"

text \<open>\<open>!s.empty() && s.back() == c\<close>.\<close>

definition ends_with_char :: "string \<Rightarrow> char \<Rightarrow> bool" where
  "ends_with_char s c \<longleftrightarrow> s \<noteq> [] \<and> last s = c"

text \<open>\<open>s.find(c, from)\<close> and \<open>s.find(pat, from)\<close>; \<open>None\<close> is \<open>npos\<close>.\<close>

definition find_char_from :: "string \<Rightarrow> char \<Rightarrow> nat \<Rightarrow> nat option" where
  "find_char_from s c from_pos = List.find (\<lambda>i. s ! i = c) [from_pos..<length s]"

definition find_str_from :: "string \<Rightarrow> string \<Rightarrow> nat \<Rightarrow> nat option" where
  "find_str_from s pat from_pos =
     List.find (\<lambda>i. substr s i (length pat) = pat) [from_pos..<Suc (length s) - length pat]"

lemmas [str_defs] = substr_def cmp_at_def starts_with_def ends_with_char_def
  find_char_from_def find_str_from_def

lemma substr_append_adjacent:
  "i \<le> j \<Longrightarrow> j \<le> k \<Longrightarrow> substr s i (j - i) @ substr s j (k - j) = substr s i (k - i)"
proof -
  assume "i \<le> j" "j \<le> k"
  then have "k - i = (j - i) + (k - j)" by simp
  then have "take (k - i) (drop i s) = take (j - i) (drop i s) @ take (k - j) (drop (j - i) (drop i s))"
    by (simp only: take_add)
  then show ?thesis using \<open>i \<le> j\<close> by (simp add: substr_def)
qed

lemma take_substr [simp]: "i \<le> j \<Longrightarrow> take i s @ substr s i (j - i) = take j s"
  unfolding substr_def by (metis le_add_diff_inverse take_add)

lemma substr_length [simp]: "length (substr s i n) = min n (length s - i)"
  by (simp add: substr_def min.commute)

lemma substr_0 [simp]: "substr s i 0 = []"
  by (simp add: substr_def)

lemma substr_Suc: "i < length s \<Longrightarrow> substr s i (Suc n) = s ! i # substr s (Suc i) n"
  by (simp add: substr_def Cons_nth_drop_Suc [symmetric])

lemma substr_1: "i < length s \<Longrightarrow> substr s i (Suc 0) = [s ! i]"
  by (simp add: substr_Suc)

lemma substr_2: "Suc i < length s \<Longrightarrow> substr s i 2 = [s ! i, s ! Suc i]"
  by (simp add: numeral_2_eq_2 substr_Suc)

lemma substr_3: "Suc (Suc i) < length s \<Longrightarrow> substr s i 3 = [s ! i, s ! Suc i, s ! Suc (Suc i)]"
  by (simp add: numeral_3_eq_3 substr_Suc)

lemma substr_nth: "j < n \<Longrightarrow> i + j < length s \<Longrightarrow> substr s i n ! j = s ! (i + j)"
  by (simp add: substr_def)

lemma set_substr: "set (substr s i n) \<subseteq> set s"
  unfolding substr_def by (meson order_trans set_drop_subset set_take_subset)

lemma cmp_at_length: "cmp_at s i lit \<Longrightarrow> lit \<noteq> [] \<Longrightarrow> i + length lit \<le> length s"
proof -
  assume "cmp_at s i lit" "lit \<noteq> []"
  then have "length (substr s i (length lit)) = length lit" "0 < length lit"
    by (simp_all add: cmp_at_def)
  then have "length lit \<le> length s - i" by simp
  with \<open>0 < length lit\<close> show ?thesis by linarith
qed

lemma cmp_at_substr: "cmp_at s i lit \<Longrightarrow> n = length lit \<Longrightarrow> substr s i n = lit"
  by (simp add: cmp_at_def)

lemma find_Some_bounds:
  "List.find P [lo..<hi] = Some i \<Longrightarrow> lo \<le> i \<and> i < hi \<and> P i \<and> (\<forall>j\<in>{lo..<i}. \<not> P j)"
proof -
  assume "List.find P [lo..<hi] = Some i"
  then obtain k where k: "k < length [lo..<hi]" "P ([lo..<hi] ! k)" "i = [lo..<hi] ! k"
    "\<forall>j<k. \<not> P ([lo..<hi] ! j)"
    by (auto simp: find_Some_iff)
  have "\<not> P j" if "j \<in> {lo..<i}" for j
  proof -
    from that k have "j - lo < k" "j = [lo..<hi] ! (j - lo)" by auto
    then show ?thesis using k(4) by metis
  qed
  then show ?thesis using k(1,2,3) by auto
qed

lemma find_char_from_SomeD:
  "find_char_from s c p = Some i \<Longrightarrow> p \<le> i \<and> i < length s \<and> s ! i = c \<and> (\<forall>j\<in>{p..<i}. s ! j \<noteq> c)"
  unfolding find_char_from_def by (drule find_Some_bounds) auto

lemma find_str_from_SomeD:
  "find_str_from s pat p = Some i \<Longrightarrow> p \<le> i \<and> i + length pat \<le> length s \<and> substr s i (length pat) = pat"
  unfolding find_str_from_def by (drule find_Some_bounds) auto

lemma find_append: "List.find P (xs @ ys) = (case List.find P xs of None \<Rightarrow> List.find P ys | Some x \<Rightarrow> Some x)"
  by (induction xs) auto

lemma find_char_append:
  assumes "c \<notin> set xs"
  shows "find_char_from (xs @ c # ys) c 0 = Some (length xs)"
proof -
  have "List.find (\<lambda>i. (xs @ c # ys) ! i = c) ([0..<length xs] @ [length xs..<length (xs @ c # ys)])
      = Some (length xs)"
  proof -
    have "List.find (\<lambda>i. (xs @ c # ys) ! i = c) [0..<length xs] = None"
      using assms by (auto simp: find_None_iff nth_append)
    moreover have "[length xs..<length (xs @ c # ys)] = length xs # [Suc (length xs)..<length (xs @ c # ys)]"
      by (subst upt_conv_Cons) auto
    ultimately show ?thesis by (simp add: find_append)
  qed
  moreover have "[0..<length xs] @ [length xs..<length (xs @ c # ys)] = [0..<length (xs @ c # ys)]"
    by (metis le_add1 length_append plus_nat.add_0 upt_add_eq_append zero_le)
  ultimately show ?thesis by (simp only: find_char_from_def)
qed

lemma find_char_None: "find_char_from s c 0 = None \<longleftrightarrow> c \<notin> set s"
  by (auto simp: find_char_from_def find_None_iff in_set_conv_nth)

subsection \<open>Character classes of the "C" locale\<close>

definition ch_code :: "char \<Rightarrow> nat" where
  "ch_code c = of_char c"

definition isspace :: "char \<Rightarrow> bool" where
  "isspace c \<longleftrightarrow> ch_code c = 32 \<or> (9 \<le> ch_code c \<and> ch_code c \<le> 13)"

definition isdigit :: "char \<Rightarrow> bool" where
  "isdigit c \<longleftrightarrow> 48 \<le> ch_code c \<and> ch_code c \<le> 57"

definition isupper :: "char \<Rightarrow> bool" where
  "isupper c \<longleftrightarrow> 65 \<le> ch_code c \<and> ch_code c \<le> 90"

definition islower :: "char \<Rightarrow> bool" where
  "islower c \<longleftrightarrow> 97 \<le> ch_code c \<and> ch_code c \<le> 122"

definition isalpha :: "char \<Rightarrow> bool" where
  "isalpha c \<longleftrightarrow> isupper c \<or> islower c"

definition isalnum :: "char \<Rightarrow> bool" where
  "isalnum c \<longleftrightarrow> isalpha c \<or> isdigit c"

definition tolower :: "char \<Rightarrow> char" where
  "tolower c = (if isupper c then char_of (ch_code c + 32) else c)"

lemmas ctype_defs = isspace_def isdigit_def isupper_def islower_def isalpha_def isalnum_def

lemma ch_code_less [simp]: "ch_code c < 256"
  by (simp add: ch_code_def of_char_def)

lemma ch_code_inj [simp]: "ch_code c = ch_code d \<longleftrightarrow> c = d"
  by (simp add: ch_code_def)

lemma ch_code_char_of [simp]: "n < 256 \<Longrightarrow> ch_code (char_of n) = n"
  by (simp add: ch_code_def)

lemma char_of_ch_code [simp]: "char_of (ch_code c) = c"
  by (simp add: ch_code_def)

subsection \<open>Numbers in decimal\<close>

text \<open>\<open>std::to_string\<close> of an unsigned and of a signed integer.\<close>

definition digit_char :: "nat \<Rightarrow> char" where
  "digit_char d = char_of (48 + d)"

fun to_string_nat :: "nat \<Rightarrow> string" where
  "to_string_nat n = (if n < 10 then [digit_char n] else to_string_nat (n div 10) @ [digit_char (n mod 10)])"

declare to_string_nat.simps [simp del]

definition to_string_int :: "int \<Rightarrow> string" where
  "to_string_int i = (if i < 0 then ''-'' @ to_string_nat (nat (- i)) else to_string_nat (nat i))"

text \<open>The number a digit string denotes, and \<open>std::stoull(s)\<close> in base ten: leading
  whitespace and a sign are skipped, trailing characters ignored; \<open>None\<close> stands for the
  exceptions \<open>invalid_argument\<close> (no digit) and \<open>out_of_range\<close>.\<close>

definition digit_of :: "char \<Rightarrow> nat" where
  "digit_of c = ch_code c - 48"

definition digits_val :: "string \<Rightarrow> nat" where
  "digits_val s = foldl (\<lambda>a c. a * 10 + digit_of c) 0 s"

definition split_sign :: "string \<Rightarrow> bool \<times> string" where
  "split_sign s = (case s of
       [] \<Rightarrow> (False, [])
     | c # r \<Rightarrow> if c = CHR ''-'' then (True, r) else if c = CHR ''+'' then (False, r) else (False, s))"

definition stoull :: "string \<Rightarrow> nat option" where
  "stoull s =
     (let (neg, d) = split_sign (dropWhile isspace s); ds = takeWhile isdigit d in
      if ds = [] then None
      else let v = digits_val ds in
        if 2 ^ 64 \<le> v then None
        else Some (if neg then (2 ^ 64 - v) mod 2 ^ 64 else v))"

lemma digit_char [simp]: "d < 10 \<Longrightarrow> isdigit (digit_char d)" "d < 10 \<Longrightarrow> digit_of (digit_char d) = d"
  by (simp_all add: isdigit_def digit_char_def digit_of_def)

lemma digit_char_code [simp]:
  "digit_char 0 = CHR ''0''" "digit_char 1 = CHR ''1''" "digit_char (Suc 0) = CHR ''1''"
  "digit_char 2 = CHR ''2''" "digit_char 3 = CHR ''3''" "digit_char 4 = CHR ''4''"
  "digit_char 5 = CHR ''5''" "digit_char 6 = CHR ''6''" "digit_char 7 = CHR ''7''"
  "digit_char 8 = CHR ''8''" "digit_char 9 = CHR ''9''"
  by (simp_all add: digit_char_def char_of_def bit_Suc bit_0)

lemma digits_val_snoc [simp]: "digits_val (s @ [c]) = digits_val s * 10 + digit_of c"
  by (simp add: digits_val_def)

lemma digits_val_Nil [simp]: "digits_val [] = 0"
  by (simp add: digits_val_def)

lemma digits_val_to_string [simp]: "digits_val (to_string_nat n) = n"
proof (induction n rule: to_string_nat.induct)
  case (1 n)
  have "digits_val [digit_char n] = n" if "n < 10"
    using that digits_val_snoc [of "[]"] by simp
  with 1 show ?case by (subst to_string_nat.simps) simp
qed

lemma to_string_digits: "\<forall>c\<in>set (to_string_nat n). isdigit c"
proof (induction n rule: to_string_nat.induct)
  case (1 n)
  then show ?case by (subst to_string_nat.simps) auto
qed

lemma to_string_nonempty [simp]: "to_string_nat n \<noteq> []"
  by (subst to_string_nat.simps) simp

lemma to_string_nat_inj [simp]: "to_string_nat m = to_string_nat n \<longleftrightarrow> m = n"
  by (metis digits_val_to_string)

lemma isdigit_sep: "isdigit c \<Longrightarrow> \<not> isspace c \<and> c \<noteq> CHR ''-'' \<and> c \<noteq> CHR ''+'' \<and> c \<noteq> CHR '',''"
  by (auto simp: isdigit_def isspace_def ch_code_def)

lemma stoull_to_string:
  assumes "n < 2 ^ 64" "rest = [] \<or> \<not> isdigit (hd rest)"
  shows "stoull (to_string_nat n @ rest) = Some n"
proof -
  obtain c r where s: "to_string_nat n = c # r" by (cases "to_string_nat n") auto
  have d: "isdigit c" "\<forall>x\<in>set r. isdigit x" using to_string_digits [of n] s by auto
  have tw: "takeWhile isdigit (c # r @ rest) = c # r"
    using d assms(2) by (cases rest) (auto simp: takeWhile_append)
  have "split_sign (dropWhile isspace (c # r @ rest)) = (False, c # r @ rest)"
    using isdigit_sep [OF d(1)] by (simp add: split_sign_def)
  moreover have "digits_val (c # r) = n" using digits_val_to_string [of n] s by simp
  ultimately show ?thesis using assms(1) tw by (simp add: stoull_def s)
qed

subsection \<open>The scanning loop\<close>

text \<open>
  The loop \<open>while (loc < code.length() && cond) { literal += code.at(loc); loc += 1; }\<close>
  that every scanner of the repository uses; it returns the literal and the new offset.
\<close>

function accumulate :: "(nat \<Rightarrow> bool) \<Rightarrow> string \<Rightarrow> nat \<Rightarrow> string \<Rightarrow> string \<times> nat" where
  "accumulate cond code loc literal =
     (if loc < length code \<and> cond loc then accumulate cond code (loc + 1) (literal @ [code ! loc])
      else (literal, loc))"
  by pat_completeness auto
termination by (relation "measure (\<lambda>(cond, code, loc, literal). length code - loc)") auto

declare accumulate.simps [simp del]

lemma accumulate_spec:
  "accumulate cond code loc literal = (literal', loc') \<Longrightarrow> loc \<le> length code \<Longrightarrow>
     loc \<le> loc' \<and> loc' \<le> length code \<and> literal' = literal @ substr code loc (loc' - loc)
     \<and> (\<forall>j\<in>{loc..<loc'}. cond j) \<and> (loc' < length code \<longrightarrow> \<not> cond loc')"
proof (induction cond code loc literal rule: accumulate.induct)
  case (1 cond code loc literal)
  show ?case
  proof (cases "loc < length code \<and> cond loc")
    case True
    with "1.prems" have "accumulate cond code (loc + 1) (literal @ [code ! loc]) = (literal', loc')"
      by (simp add: accumulate.simps [of cond code loc])
    from "1.IH" [OF True this] True
    have ih: "loc + 1 \<le> loc'" "loc' \<le> length code"
      "literal' = literal @ [code ! loc] @ substr code (loc + 1) (loc' - (loc + 1))"
      "\<forall>j\<in>{loc + 1..<loc'}. cond j" "loc' < length code \<longrightarrow> \<not> cond loc'"
      by auto
    have "[code ! loc] = substr code loc (loc + 1 - loc)" using True by (simp add: substr_1)
    with ih(1,3) have "literal' = literal @ substr code loc (loc' - loc)"
      using substr_append_adjacent [of loc "loc + 1" loc' code] by simp
    moreover have "\<forall>j\<in>{loc..<loc'}. cond j"
      using ih(1,4) True by (auto simp: le_less Suc_le_eq)
    ultimately show ?thesis using ih by simp
  next
    case False
    with "1.prems" show ?thesis by (auto simp: accumulate.simps [of cond code loc])
  qed
qed

end
