(* ===== verification/Styio_Unicode.thy ===== *)
theory Styio_Unicode
  imports Styio_Prelude
begin

unbundle bit_operations_syntax

text \<open>
  \<open>StyioUnicode\<close> (src/src/StyioUnicode/Unicode.cpp and Unicode.hpp), in its default
  configuration without ICU: the character classes the lexer asks for, and the strict
  UTF-8 decoder. The decoder's two out-parameters and its result are returned as a triple
  \<open>(ok, codepoint, width)\<close>; bytes are \<open>8 word\<close> and code points \<open>32 word\<close>, as in the
  code. The two theorems say that it accepts exactly the UTF-8 encodings of the Unicode
  scalar values (no overlong form, no surrogate, nothing above U+10FFFF).
\<close>

definition as_uchar :: "char \<Rightarrow> 8 word" where
  "as_uchar ch = word_of_nat (ch_code ch)"

definition is_utf8_continuation :: "8 word \<Rightarrow> bool" where
  "is_utf8_continuation ch \<longleftrightarrow> ch AND 0xC0 = 0x80"

definition is_space :: "char \<Rightarrow> bool" where
  "is_space ch = isspace ch"

definition is_digit :: "char \<Rightarrow> bool" where
  "is_digit ch = isdigit ch"

definition is_ascii_alpha :: "char \<Rightarrow> bool" where
  "is_ascii_alpha ch = isalpha ch"

definition is_ascii_alnum :: "char \<Rightarrow> bool" where
  "is_ascii_alnum ch = isalnum ch"

definition is_identifier_start :: "char \<Rightarrow> bool" where
  "is_identifier_start ch \<longleftrightarrow> is_ascii_alpha ch \<or> ch = CHR ''_''"

definition is_identifier_continue :: "char \<Rightarrow> bool" where
  "is_identifier_continue ch \<longleftrightarrow> is_ascii_alnum ch \<or> ch = CHR ''_''"

lemmas unicode_class_defs = is_space_def is_digit_def is_ascii_alpha_def is_ascii_alnum_def
  is_identifier_start_def is_identifier_continue_def

text \<open>The overloads on code points, in the branch compiled without ICU.\<close>

definition is_identifier_start_cp :: "32 word \<Rightarrow> bool" where
  "is_identifier_start_cp cp \<longleftrightarrow>
     (if cp > 0x7F then False else is_identifier_start (char_of (unat cp)))"

definition is_identifier_continue_cp :: "32 word \<Rightarrow> bool" where
  "is_identifier_continue_cp cp \<longleftrightarrow>
     (if cp > 0x7F then False else is_identifier_continue (char_of (unat cp)))"

definition is_decimal_digit_cp :: "32 word \<Rightarrow> bool" where
  "is_decimal_digit_cp cp \<longleftrightarrow> (if cp > 0x7F then False else is_digit (char_of (unat cp)))"

definition bits :: "8 word \<Rightarrow> 8 word \<Rightarrow> nat \<Rightarrow> 32 word" where
  "bits b m n = push_bit n (ucast (b AND m))"

text \<open>The failure result, and the branches for lead bytes of two, three and four bytes.\<close>

abbreviation (input) decode_fail :: "bool \<times> 32 word \<times> nat" where
  "decode_fail \<equiv> (False, 0, 0)"

definition decode_two :: "string \<Rightarrow> nat \<Rightarrow> 8 word \<Rightarrow> bool \<times> 32 word \<times> nat" where
  "decode_two txt off b0 =
     (if off + 1 \<ge> length txt then decode_fail else
      let b1 = as_uchar (txt ! (off + 1)) in
      if \<not> is_utf8_continuation b1 \<or> b0 < 0xC2 then decode_fail
      else (True, bits b0 0x1F 6 OR bits b1 0x3F 0, 2))"

definition decode_three :: "string \<Rightarrow> nat \<Rightarrow> 8 word \<Rightarrow> bool \<times> 32 word \<times> nat" where
  "decode_three txt off b0 =
     (if off + 2 \<ge> length txt then decode_fail else
      let b1 = as_uchar (txt ! (off + 1)); b2 = as_uchar (txt ! (off + 2)) in
      if \<not> is_utf8_continuation b1 \<or> \<not> is_utf8_continuation b2 then decode_fail
      else if (b0 = 0xE0 \<and> b1 < 0xA0) \<or> (b0 = 0xED \<and> b1 \<ge> 0xA0) then decode_fail
      else (True, bits b0 0x0F 12 OR bits b1 0x3F 6 OR bits b2 0x3F 0, 3))"

definition decode_four :: "string \<Rightarrow> nat \<Rightarrow> 8 word \<Rightarrow> bool \<times> 32 word \<times> nat" where
  "decode_four txt off b0 =
     (if off + 3 \<ge> length txt then decode_fail else
      let b1 = as_uchar (txt ! (off + 1)); b2 = as_uchar (txt ! (off + 2));
          b3 = as_uchar (txt ! (off + 3)) in
      if \<not> is_utf8_continuation b1 \<or> \<not> is_utf8_continuation b2
         \<or> \<not> is_utf8_continuation b3 then decode_fail
      else if b0 < 0xF0 \<or> b0 > 0xF4 then decode_fail
      else if (b0 = 0xF0 \<and> b1 < 0x90) \<or> (b0 = 0xF4 \<and> b1 > 0x8F) then decode_fail
      else (True, bits b0 0x07 18 OR bits b1 0x3F 12 OR bits b2 0x3F 6 OR bits b3 0x3F 0, 4))"

definition decode_utf8_codepoint :: "string \<Rightarrow> nat \<Rightarrow> bool \<times> 32 word \<times> nat" where
  "decode_utf8_codepoint txt off =
     (if off \<ge> length txt then decode_fail else
      let b0 = as_uchar (txt ! off) in
      if b0 \<le> 0x7F then (True, ucast b0, 1)
      else if b0 AND 0xE0 = 0xC0 then decode_two txt off b0
      else if b0 AND 0xF0 = 0xE0 then decode_three txt off b0
      else if b0 AND 0xF8 = 0xF0 then decode_four txt off b0
      else decode_fail)"

subsection \<open>The encoding it should accept\<close>

text \<open>Unicode scalar values and their UTF-8 bytes, from the standard.\<close>

definition scalar_value :: "nat \<Rightarrow> bool" where
  "scalar_value cp \<longleftrightarrow> cp < 0x110000 \<and> \<not> (0xD800 \<le> cp \<and> cp < 0xE000)"

definition utf8_encode :: "nat \<Rightarrow> nat list" where
  "utf8_encode cp =
     (if cp < 0x80 then [cp]
      else if cp < 0x800 then [192 + cp div 64, 128 + cp mod 64]
      else if cp < 0x10000 then [224 + cp div 4096, 128 + cp div 64 mod 64, 128 + cp mod 64]
      else [240 + cp div 262144, 128 + cp div 4096 mod 64, 128 + cp div 64 mod 64, 128 + cp mod 64])"

subsection \<open>Bit masks as arithmetic\<close>

lemma unat_as_uchar [simp]: "unat (as_uchar c) = ch_code c"
  by (simp add: as_uchar_def unat_of_nat)

lemma and_high_bits: "(n :: nat) AND push_bit k (mask j) = n div 2 ^ k mod 2 ^ j * 2 ^ k"
proof -
  have "n AND push_bit k (mask j) = push_bit k (take_bit j (drop_bit k n))"
    by (rule bit_eqI) (auto simp: bit_simps)
  then show ?thesis by (simp add: push_bit_eq_mult take_bit_eq_mod drop_bit_eq_div)
qed

lemma masked_eq:
  fixes b :: "8 word"
  assumes "unat m = push_bit k (mask (8 - k))" "unat v = w * 2 ^ k" "k \<le> 8"
  shows "b AND m = v \<longleftrightarrow> unat b div 2 ^ k = w"
proof -
  have "unat b < 2 ^ 8" using unsigned_less [of b] by simp
  then have "unat b div 2 ^ k < 2 ^ (8 - k)"
    using assms(3) by (simp add: less_mult_imp_div_less flip: power_add)
  then show ?thesis
    by (simp add: word_unat_eq_iff unsigned_and_eq assms and_high_bits)
qed

lemma high_bits:
  fixes b :: "8 word"
  shows "b AND 0xC0 = 0x80 \<longleftrightarrow> unat b div 64 = 2"
    and "b AND 0xE0 = 0xC0 \<longleftrightarrow> unat b div 32 = 6"
    and "b AND 0xF0 = 0xE0 \<longleftrightarrow> unat b div 16 = 14"
    and "b AND 0xF8 = 0xF0 \<longleftrightarrow> unat b div 8 = 30"
  using masked_eq [of "0xC0" 6 "0x80" 2 b] masked_eq [of "0xE0" 5 "0xC0" 6 b]
    masked_eq [of "0xF0" 4 "0xE0" 14 b] masked_eq [of "0xF8" 3 "0xF0" 30 b]
  by (simp_all add: push_bit_eq_mult mask_eq_exp_minus_1)

lemma or_shifted_nat: "(x :: nat) < 2 ^ n \<Longrightarrow> a * 2 ^ n OR x = a * 2 ^ n + x"
proof -
  assume "x < 2 ^ n"
  then have "take_bit n x = x" by (simp add: take_bit_eq_mod)
  then have "push_bit n a AND x = 0"
    by (metis (no_types, lifting) and_zero_eq bit_eqI bit_and_iff bit_push_bit_iff bit_take_bit_iff bit_0_eq bot_apply not_le)
  then show ?thesis by (simp add: push_bit_eq_mult flip: disjunctive_add_eq_or)
qed

lemma unat_bits:
  assumes "unat m = mask k" "k \<le> 8" "k + n \<le> 32"
  shows "unat (bits b m n) = unat b mod 2 ^ k * 2 ^ n"
proof -
  have m: "unat (b AND m) = unat b mod 2 ^ k"
    by (simp add: unsigned_and_eq assms take_bit_eq_mod flip: take_bit_eq_mask)
  have "unat (b AND m) < 256" using unsigned_less [of "b AND m"] by simp
  then have "unat (ucast (b AND m) :: 32 word) = unat (b AND m)"
    by (subst unsigned_ucast_eq) (simp add: take_bit_eq_mod)
  with m have u: "unat (ucast (b AND m) :: 32 word) = unat b mod 2 ^ k" by simp
  have "unat b mod 2 ^ k * 2 ^ n < 2 ^ k * 2 ^ n" by simp
  also have "\<dots> \<le> 2 ^ 32"
    using power_increasing [OF assms(3), of "2 :: nat"] by (simp only: power_add)
  finally show ?thesis
    unfolding bits_def unsigned_push_bit_eq u by (simp add: take_bit_eq_mod push_bit_eq_mult)
qed

lemma mask_values: "unat (0x1F :: 8 word) = mask 5" "unat (0x0F :: 8 word) = mask 4"
    "unat (0x07 :: 8 word) = mask 3" "unat (0x3F :: 8 word) = mask 6"
  by (simp_all add: mask_eq_exp_minus_1)

lemma bits_simps:
  "unat (bits b 0x1F 6) = unat b mod 32 * 64"
  "unat (bits b 0x0F 12) = unat b mod 16 * 4096"
  "unat (bits b 0x07 18) = unat b mod 8 * 262144"
  "unat (bits b 0x3F 0) = unat b mod 64"
  "unat (bits b 0x3F 6) = unat b mod 64 * 64"
  "unat (bits b 0x3F 12) = unat b mod 64 * 4096"
  using unat_bits [of "0x1F" 5 6 b] unat_bits [of "0x0F" 4 12 b] unat_bits [of "0x07" 3 18 b]
    unat_bits [of "0x3F" 6 0 b] unat_bits [of "0x3F" 6 6 b] unat_bits [of "0x3F" 6 12 b]
  by (simp_all add: mask_eq_exp_minus_1)

lemma codepoint2: "unat (bits b0 0x1F 6 OR bits b1 0x3F 0) = unat b0 mod 32 * 64 + unat b1 mod 64"
  using or_shifted_nat [of "unat b1 mod 64" 6 "unat b0 mod 32"]
  by (simp add: unsigned_or_eq bits_simps)

lemma codepoint3:
  "unat (bits b0 0x0F 12 OR bits b1 0x3F 6 OR bits b2 0x3F 0)
     = unat b0 mod 16 * 4096 + unat b1 mod 64 * 64 + unat b2 mod 64"
  using or_shifted_nat [of "unat b2 mod 64" 6 "unat b1 mod 64"]
    or_shifted_nat [of "unat b1 mod 64 * 64 + unat b2 mod 64" 12 "unat b0 mod 16"]
  by (simp add: unsigned_or_eq bits_simps or.assoc)

lemma codepoint4:
  "unat (bits b0 0x07 18 OR bits b1 0x3F 12 OR bits b2 0x3F 6 OR bits b3 0x3F 0)
     = unat b0 mod 8 * 262144 + unat b1 mod 64 * 4096 + unat b2 mod 64 * 64 + unat b3 mod 64"
  using or_shifted_nat [of "unat b3 mod 64" 6 "unat b2 mod 64"]
    or_shifted_nat [of "unat b2 mod 64 * 64 + unat b3 mod 64" 12 "unat b1 mod 64"]
    or_shifted_nat [of "unat b1 mod 64 * 4096 + (unat b2 mod 64 * 64 + unat b3 mod 64)" 18 "unat b0 mod 8"]
  by (simp add: unsigned_or_eq bits_simps or.assoc)

subsection \<open>Encoded sequences\<close>

lemma div_decomp: "(b :: nat) div k = q \<Longrightarrow> 0 < k \<Longrightarrow> b = k * q + b mod k \<and> b mod k < k"
  by (metis mod_less_divisor mult_div_mod_eq)

lemma mod_decomp: "cp = x * 64 + r \<Longrightarrow> r < (64 :: nat) \<Longrightarrow> cp mod 64 = r"
  by simp

lemma encode2:
  fixes b0 b1 :: nat
  assumes "b0 div 32 = 6" "194 \<le> b0" "b1 div 64 = 2"
  defines "cp \<equiv> b0 mod 32 * 64 + b1 mod 64"
  shows "scalar_value cp" "utf8_encode cp = [b0, b1]"
proof -
  define r0 r1 where "r0 = b0 mod 32" and "r1 = b1 mod 64"
  have b: "b0 = 192 + r0" "b1 = 128 + r1" "r0 < 32" "r1 < 64"
    using div_decomp [OF assms(1)] div_decomp [OF assms(3)] by (simp_all add: r0_def r1_def)
  then have cp: "cp = r0 * 64 + r1" "2 \<le> r0"
    using assms(2) by (auto simp: cp_def r0_def r1_def)
  with b have "cp div 64 = r0" "cp mod 64 = r1" "128 \<le> cp" "cp < 2048" by auto
  with b show "scalar_value cp" "utf8_encode cp = [b0, b1]"
    by (auto simp: scalar_value_def utf8_encode_def)
qed

lemma encode3:
  fixes b0 b1 b2 :: nat
  assumes "b0 div 16 = 14" "b1 div 64 = 2" "b2 div 64 = 2"
    and "b0 = 224 \<longrightarrow> 160 \<le> b1" "b0 = 237 \<longrightarrow> b1 < 160"
  defines "cp \<equiv> b0 mod 16 * 4096 + b1 mod 64 * 64 + b2 mod 64"
  shows "scalar_value cp" "utf8_encode cp = [b0, b1, b2]"
proof -
  define r0 r1 r2 where "r0 = b0 mod 16" and "r1 = b1 mod 64" and "r2 = b2 mod 64"
  have b: "b0 = 224 + r0" "b1 = 128 + r1" "b2 = 128 + r2" "r0 < 16" "r1 < 64" "r2 < 64"
    using div_decomp [OF assms(1)] div_decomp [OF assms(2)] div_decomp [OF assms(3)]
    by (simp_all add: r0_def r1_def r2_def)
  have cp: "cp = r0 * 4096 + r1 * 64 + r2"
    by (simp add: cp_def r0_def r1_def r2_def)
  have q: "cp div 4096 = r0" "cp div 64 = r0 * 64 + r1"
    unfolding cp using b by auto
  have q3: "cp mod 64 = r2" using cp b(6) by (intro mod_decomp [of _ "r0 * 64 + r1"]) simp_all
  note q = q q3
  have m: "cp div 64 mod 64 = r1" unfolding q using b by simp
  have r: "2048 \<le> cp" "cp < 65536"
    using assms(4,5) b cp by auto
  have "\<not> (55296 \<le> cp \<and> cp < 57344)"
  proof -
    consider "r0 \<le> 12" | "r0 = 13" | "14 \<le> r0" by linarith
    then show ?thesis using assms(5) b cp by cases auto
  qed
  note r = r this
  with b q m show "scalar_value cp" "utf8_encode cp = [b0, b1, b2]"
    by (auto simp: scalar_value_def utf8_encode_def)
qed

lemma encode4:
  fixes b0 b1 b2 b3 :: nat
  assumes "b0 div 8 = 30" "b1 div 64 = 2" "b2 div 64 = 2" "b3 div 64 = 2"
    and "b0 \<le> 244" "b0 = 240 \<longrightarrow> 144 \<le> b1" "b0 = 244 \<longrightarrow> b1 \<le> 143"
  defines "cp \<equiv> b0 mod 8 * 262144 + b1 mod 64 * 4096 + b2 mod 64 * 64 + b3 mod 64"
  shows "scalar_value cp" "utf8_encode cp = [b0, b1, b2, b3]"
proof -
  define r0 r1 r2 r3 where "r0 = b0 mod 8" and "r1 = b1 mod 64" and "r2 = b2 mod 64"
    and "r3 = b3 mod 64"
  have b: "b0 = 240 + r0" "b1 = 128 + r1" "b2 = 128 + r2" "b3 = 128 + r3"
    "r0 < 8" "r1 < 64" "r2 < 64" "r3 < 64"
    using div_decomp [OF assms(1)] div_decomp [OF assms(2)] div_decomp [OF assms(3)]
      div_decomp [OF assms(4)]
    by (simp_all add: r0_def r1_def r2_def r3_def)
  have cp: "cp = r0 * 262144 + r1 * 4096 + r2 * 64 + r3"
    by (simp add: cp_def r0_def r1_def r2_def r3_def)
  have q: "cp div 262144 = r0" "cp div 4096 = r0 * 64 + r1" "cp div 64 = r0 * 4096 + r1 * 64 + r2"
    unfolding cp using b by auto
  have q4: "cp mod 64 = r3"
    using cp b(8) by (intro mod_decomp [of _ "r0 * 4096 + r1 * 64 + r2"]) simp_all
  have q5: "cp div 64 mod 64 = r2"
    unfolding q using b(7) by (intro mod_decomp [of _ "r0 * 64 + r1"]) simp_all
  note q = q q4 q5
  have m: "cp div 4096 mod 64 = r1" unfolding q using b by simp
  have r: "65536 \<le> cp" "cp < 1114112"
    using assms(5-7) b cp by auto
  with b q m show "scalar_value cp" "utf8_encode cp = [b0, b1, b2, b3]"
    by (auto simp: scalar_value_def utf8_encode_def)
qed

subsection \<open>The decoder accepts exactly the encodings\<close>

lemmas byte_conv = word_le_nat_alt word_less_nat_alt word_unat_eq_iff

lemma ucast_uchar: "unat (ucast (as_uchar c) :: 32 word) = ch_code c"
proof -
  have "ch_code c < 2 ^ 32" by (rule less_trans [OF ch_code_less]) simp
  then show ?thesis
    by (simp only: unsigned_ucast_eq unat_as_uchar) (simp add: take_bit_nat_eq_self)
qed

lemma uchar_cmp:
  "as_uchar c = w \<longleftrightarrow> ch_code c = unat w"
  "as_uchar c < w \<longleftrightarrow> ch_code c < unat w"
  "as_uchar c \<le> w \<longleftrightarrow> ch_code c \<le> unat w"
  "w < as_uchar c \<longleftrightarrow> unat w < ch_code c"
  "w \<le> as_uchar c \<longleftrightarrow> unat w \<le> ch_code c"
  by (simp_all add: byte_conv)

lemma continuation_byte: "is_utf8_continuation (as_uchar c) \<longleftrightarrow> ch_code c div 64 = 2"
  by (simp add: is_utf8_continuation_def high_bits)

text \<open>Each branch, with the masks and comparisons read on byte values.\<close>

lemma decode_two_True:
  "decode_two txt off (as_uchar (txt ! off)) = (True, cp, w) \<longleftrightarrow>
     off + 1 < length txt \<and> ch_code (txt ! (off + 1)) div 64 = 2 \<and> 194 \<le> ch_code (txt ! off)
     \<and> cp = bits (as_uchar (txt ! off)) 0x1F 6 OR bits (as_uchar (txt ! (off + 1))) 0x3F 0 \<and> w = 2"
  by (auto simp: decode_two_def Let_def continuation_byte uchar_cmp)

lemma decode_three_True:
  "decode_three txt off (as_uchar (txt ! off)) = (True, cp, w) \<longleftrightarrow>
     off + 2 < length txt \<and> ch_code (txt ! (off + 1)) div 64 = 2 \<and> ch_code (txt ! (off + 2)) div 64 = 2
     \<and> (ch_code (txt ! off) = 224 \<longrightarrow> 160 \<le> ch_code (txt ! (off + 1)))
     \<and> (ch_code (txt ! off) = 237 \<longrightarrow> ch_code (txt ! (off + 1)) < 160)
     \<and> cp = bits (as_uchar (txt ! off)) 0x0F 12 OR bits (as_uchar (txt ! (off + 1))) 0x3F 6
          OR bits (as_uchar (txt ! (off + 2))) 0x3F 0 \<and> w = 3"
  by (simp add: decode_three_def Let_def continuation_byte uchar_cmp not_less not_le) blast

lemma decode_four_True:
  "decode_four txt off (as_uchar (txt ! off)) = (True, cp, w) \<longleftrightarrow>
     off + 3 < length txt \<and> ch_code (txt ! (off + 1)) div 64 = 2 \<and> ch_code (txt ! (off + 2)) div 64 = 2
     \<and> ch_code (txt ! (off + 3)) div 64 = 2 \<and> 240 \<le> ch_code (txt ! off) \<and> ch_code (txt ! off) \<le> 244
     \<and> (ch_code (txt ! off) = 240 \<longrightarrow> 144 \<le> ch_code (txt ! (off + 1)))
     \<and> (ch_code (txt ! off) = 244 \<longrightarrow> ch_code (txt ! (off + 1)) \<le> 143)
     \<and> cp = bits (as_uchar (txt ! off)) 0x07 18 OR bits (as_uchar (txt ! (off + 1))) 0x3F 12
          OR bits (as_uchar (txt ! (off + 2))) 0x3F 6 OR bits (as_uchar (txt ! (off + 3))) 0x3F 0 \<and> w = 4"
  by (simp add: decode_four_def Let_def continuation_byte uchar_cmp not_less not_le) blast

lemma substr_4:
  "off + 3 < length s \<Longrightarrow> substr s off 4 = [s ! off, s ! (off + 1), s ! (off + 2), s ! (off + 3)]"
  by (simp add: eval_nat_numeral substr_Suc)

lemma two_sound:
  assumes "decode_two txt off (as_uchar (txt ! off)) = (True, cp, w)" "ch_code (txt ! off) div 32 = 6"
  shows "scalar_value (unat cp) \<and> map ch_code (substr txt off w) = utf8_encode (unat cp)"
  using assms encode2 [of "ch_code (txt ! off)" "ch_code (txt ! (off + 1))"]
  by (auto simp: decode_two_True codepoint2 substr_2)

lemma three_sound:
  assumes "decode_three txt off (as_uchar (txt ! off)) = (True, cp, w)" "ch_code (txt ! off) div 16 = 14"
  shows "scalar_value (unat cp) \<and> map ch_code (substr txt off w) = utf8_encode (unat cp)"
  using assms encode3 [of "ch_code (txt ! off)" "ch_code (txt ! (off + 1))" "ch_code (txt ! (off + 2))"]
  unfolding decode_three_True by (simp add: codepoint3 substr_3)

lemma four_sound:
  assumes "decode_four txt off (as_uchar (txt ! off)) = (True, cp, w)" "ch_code (txt ! off) div 8 = 30"
  shows "scalar_value (unat cp) \<and> map ch_code (substr txt off w) = utf8_encode (unat cp)"
  using assms encode4 [of "ch_code (txt ! off)" "ch_code (txt ! (off + 1))" "ch_code (txt ! (off + 2))"
      "ch_code (txt ! (off + 3))"]
  unfolding decode_four_True by (simp add: codepoint4 substr_4)

text \<open>
  C28: a successful decode yields a Unicode scalar value, and the bytes it consumed are
  exactly that value's UTF-8 encoding: overlong forms, surrogates and values above
  U+10FFFF are never accepted.
\<close>

theorem decode_utf8_sound:
  assumes "decode_utf8_codepoint txt off = (True, cp, w)"
  shows "scalar_value (unat cp) \<and> map ch_code (substr txt off w) = utf8_encode (unat cp)"
proof (cases "ch_code (txt ! off) < 128")
  case True
  with assms show ?thesis
    by (auto simp: decode_utf8_codepoint_def Let_def uchar_cmp substr_1 ucast_uchar
        utf8_encode_def scalar_value_def split: if_splits)
next
  case False
  with assms show ?thesis
    by (auto simp: decode_utf8_codepoint_def Let_def uchar_cmp high_bits
        dest: two_sound three_sound four_sound split: if_splits)
qed

subsection \<open>Completeness\<close>

lemma add_mult_div_mod:
  "r < k \<Longrightarrow> (q * k + r) div k = q" "r < k \<Longrightarrow> (q * k + r) mod k = r" for r :: nat
  by simp_all

lemma lead_byte_div:
  "r < 64 \<Longrightarrow> (128 + r) div 64 = 2" "r < 32 \<Longrightarrow> (192 + r) div 32 = 6"
  "r < 16 \<Longrightarrow> (224 + r) div 16 = 14" "r < 8 \<Longrightarrow> (240 + r) div 8 = 30"
  "r < 16 \<Longrightarrow> (224 + r) div 32 = 7" "r < 8 \<Longrightarrow> (240 + r) div 32 = 7"
  "r < 8 \<Longrightarrow> (240 + r) div 16 = 15" for r :: nat
  by (rule div_nat_eqI; simp)+

lemma lead_byte_mod:
  "r < 64 \<Longrightarrow> (128 + r) mod 64 = r" "r < 32 \<Longrightarrow> (192 + r) mod 32 = r"
  "r < 16 \<Longrightarrow> (224 + r) mod 16 = r" "r < 8 \<Longrightarrow> (240 + r) mod 8 = r" for r :: nat
  using add_mult_div_mod(2) [of r 64 2] apply simp
  using add_mult_div_mod(2) [of r 32 6] apply simp
  using add_mult_div_mod(2) [of r 16 14] apply simp
  using add_mult_div_mod(2) [of r 8 30] apply simp
  done

lemmas byte_parts = lead_byte_div lead_byte_mod

lemma word_of_scalar: "scalar_value cp \<Longrightarrow> unat (word_of_nat cp :: 32 word) = cp"
proof -
  assume "scalar_value cp"
  then have "cp < 2 ^ 32" by (simp add: scalar_value_def)
  then show ?thesis by (simp add: unsigned_of_nat take_bit_nat_eq_self)
qed

lemma two_complete:
  assumes "scalar_value cp" "128 \<le> cp" "cp < 2048" "off + 1 < length txt"
    and "ch_code (txt ! off) = 192 + cp div 64" "ch_code (txt ! (off + 1)) = 128 + cp mod 64"
  shows "decode_utf8_codepoint txt off = (True, word_of_nat cp, 2)"
proof -
  define a b where "a = cp div 64" and "b = cp mod 64"
  have cp: "cp = a * 64 + b" by (simp add: a_def b_def)
  have lt: "a < 32" "2 \<le> a" "b < 64" using assms(2,3) by (auto simp: a_def b_def)
  have bytes: "ch_code (txt ! off) = 192 + a" "ch_code (txt ! (off + 1)) = 128 + b"
    using assms(5,6) by (simp_all add: a_def b_def)
  have "decode_two txt off (as_uchar (txt ! off)) = (True, word_of_nat cp, 2)"
    unfolding decode_two_True word_unat_eq_iff codepoint2 word_of_scalar [OF assms(1)] unat_as_uchar bytes
    using assms(4) lt by (simp only: byte_parts cp) simp
  then show ?thesis
    using bytes assms(4) lt
    by (simp add: decode_utf8_codepoint_def Let_def uchar_cmp high_bits byte_parts)
qed

lemma three_complete:
  assumes "scalar_value cp" "2048 \<le> cp" "cp < 65536" "off + 2 < length txt"
    and "ch_code (txt ! off) = 224 + cp div 4096"
    and "ch_code (txt ! (off + 1)) = 128 + cp div 64 mod 64"
    and "ch_code (txt ! (off + 2)) = 128 + cp mod 64"
  shows "decode_utf8_codepoint txt off = (True, word_of_nat cp, 3)"
proof -
  define a b c where "a = cp div 4096" and "b = cp div 64 mod 64" and "c = cp mod 64"
  have d: "cp div 64 = a * 64 + b"
    unfolding a_def b_def using div_mult_mod_eq [of "cp div 64" 64] by (simp add: div_mult2_eq [symmetric])
  have cp: "cp = a * 4096 + b * 64 + c"
    using div_mult_mod_eq [of cp 64] by (simp add: d c_def)
  have lt: "a < 16" "b < 64" "c < 64" using assms(3) by (auto simp: a_def b_def c_def)
  have e: "a = 0 \<longrightarrow> 32 \<le> b" "a = 13 \<longrightarrow> b < 32"
    using assms(1,2) lt unfolding cp scalar_value_def by auto
  have bytes: "ch_code (txt ! off) = 224 + a"
    "ch_code (txt ! (off + 1)) = 128 + b" "ch_code (txt ! (off + 2)) = 128 + c"
    using assms(5-7) by (simp_all add: a_def b_def c_def)
  have "decode_three txt off (as_uchar (txt ! off)) = (True, word_of_nat cp, 3)"
    unfolding decode_three_True word_unat_eq_iff codepoint3 word_of_scalar [OF assms(1)] unat_as_uchar bytes
    using assms(4) lt e by (simp only: byte_parts cp) simp
  then show ?thesis
    using bytes assms(4) lt
    by (simp add: decode_utf8_codepoint_def Let_def uchar_cmp high_bits byte_parts)
qed

lemma four_complete:
  assumes "scalar_value cp" "65536 \<le> cp" "off + 3 < length txt"
    and "ch_code (txt ! off) = 240 + cp div 262144"
    and "ch_code (txt ! (off + 1)) = 128 + cp div 4096 mod 64"
    and "ch_code (txt ! (off + 2)) = 128 + cp div 64 mod 64"
    and "ch_code (txt ! (off + 3)) = 128 + cp mod 64"
  shows "decode_utf8_codepoint txt off = (True, word_of_nat cp, 4)"
proof -
  define a b c d where "a = cp div 262144" and "b = cp div 4096 mod 64" and "c = cp div 64 mod 64"
    and "d = cp mod 64"
  have 1: "cp div 4096 = a * 64 + b"
    unfolding a_def b_def using div_mult_mod_eq [of "cp div 4096" 64] by (simp add: div_mult2_eq [symmetric])
  have 2: "cp div 64 = cp div 4096 * 64 + c"
    unfolding c_def using div_mult_mod_eq [of "cp div 64" 64] by (simp add: div_mult2_eq [symmetric])
  have cp: "cp = a * 262144 + b * 4096 + c * 64 + d"
    using div_mult_mod_eq [of cp 64] by (simp add: 1 2 d_def)
  have lt: "a < 5" "b < 64" "c < 64" "d < 64"
    using assms(1) by (auto simp: scalar_value_def a_def b_def c_def d_def)
  have e: "a = 0 \<longrightarrow> 16 \<le> b" "a = 4 \<longrightarrow> b \<le> 15"
    using assms(1,2) lt unfolding cp scalar_value_def by auto
  have bytes: "ch_code (txt ! off) = 240 + a"
    "ch_code (txt ! (off + 1)) = 128 + b" "ch_code (txt ! (off + 2)) = 128 + c" "ch_code (txt ! (off + 3)) = 128 + d"
    using assms(4-7) by (simp_all add: a_def b_def c_def d_def)
  have "decode_four txt off (as_uchar (txt ! off)) = (True, word_of_nat cp, 4)"
    unfolding decode_four_True word_unat_eq_iff codepoint4 word_of_scalar [OF assms(1)] unat_as_uchar bytes
    using assms(3) lt e by (simp only: byte_parts cp) simp
  then show ?thesis
    using bytes assms(3) lt
    by (simp add: decode_utf8_codepoint_def Let_def uchar_cmp high_bits byte_parts)
qed

lemma substr_bytes:
  assumes "map ch_code (substr txt off (length bs)) = bs" "i < length bs"
  shows "off + i < length txt" "ch_code (txt ! (off + i)) = bs ! i"
proof -
  have "length (substr txt off (length bs)) = length bs"
    using assms(1) by (metis length_map)
  then show l: "off + i < length txt" using assms(2) by simp
  have "bs ! i = map ch_code (substr txt off (length bs)) ! i" using assms(1) by simp
  also have "\<dots> = ch_code (txt ! (off + i))" using assms(2) l by (simp add: substr_nth)
  finally show "ch_code (txt ! (off + i)) = bs ! i" by simp
qed

text \<open>
  C29: the converse: wherever the UTF-8 encoding of a scalar value stands in the text, the
  decoder returns that value and the length of its encoding.
\<close>

theorem decode_utf8_complete:
  assumes "scalar_value cp"
    and "map ch_code (substr txt off (length (utf8_encode cp))) = utf8_encode cp"
  shows "decode_utf8_codepoint txt off = (True, word_of_nat cp, length (utf8_encode cp))"
proof -
  note b = substr_bytes [OF assms(2)]
  consider "cp < 128" | "128 \<le> cp" "cp < 2048" | "2048 \<le> cp" "cp < 65536" | "65536 \<le> cp"
    by linarith
  then show ?thesis
  proof cases
    case 1
    with b [of 0] assms(1) show ?thesis
      by (simp add: utf8_encode_def decode_utf8_codepoint_def Let_def uchar_cmp
          word_unat_eq_iff ucast_uchar word_of_scalar)
  next
    case 2
    with b [of 0] b [of 1] two_complete [OF assms(1)] show ?thesis by (simp add: utf8_encode_def)
  next
    case 3
    with b [of 0] b [of 1] b [of 2] three_complete [OF assms(1)] show ?thesis
      by (simp add: utf8_encode_def)
  next
    case 4
    with b [of 0] b [of 1] b [of 2] b [of 3] four_complete [OF assms(1)] show ?thesis
      by (simp add: utf8_encode_def)
  qed
qed

text \<open>The euro sign, U+20AC, is the three bytes E2 82 AC.\<close>

definition euro :: string where
  "euro = [CHR ''A'', CHR 0xE2, CHR 0x82, CHR 0xAC]"

lemma euro_decode: "decode_utf8_codepoint euro 1 = (True, 0x20AC, 3)"
  using three_complete [of "0x20AC" 1 euro] by (simp add: scalar_value_def euro_def ch_code_def)

lemma decode_utf8_sound_witness:
  "scalar_value (unat (0x20AC :: 32 word)) \<and> map ch_code (substr euro 1 3) = utf8_encode (unat (0x20AC :: 32 word))"
  by (rule decode_utf8_sound [OF euro_decode])

lemma decode_utf8_complete_witness:
  "decode_utf8_codepoint euro 1 = (True, word_of_nat 0x20AC, length (utf8_encode 0x20AC))"
  by (rule decode_utf8_complete) (simp_all add: scalar_value_def utf8_encode_def euro_def ch_code_def substr_def)

end
