(* ===== verification/Styio_Token.thy ===== *)
theory Styio_Token
  imports Styio_Prelude
begin

text \<open>
  \<open>StyioToken\<close> (src/src/StyioToken/Token.hpp and Token.cpp): the token kinds with their numeric
  codes, tokens, the operators, and the naming tables used by diagnostics and by
  the parser's multi-token matcher. Enumerators keep their names; those of \<open>StyioOpType\<close>,
  \<open>LogicType\<close> and \<open>CompType\<close> carry the prefixes \<open>OP_\<close>, \<open>LT_\<close> and \<open>CT_\<close>. A table lookup that finds nothing is \<open>None\<close>.
\<close>

subsection \<open>Token kinds and tokens\<close>

datatype (plugins only:) styio_token_type =
    TOK_EOF | TOK_NULL | TOK_LF | TOK_CR | TOK_SPACE | TOK_EXCLAM
  | TOK_DQUOTE | TOK_HASH | TOK_DOLLAR | TOK_PERCENT | TOK_AMP | TOK_SQUOTE
  | TOK_LPAREN | TOK_RPAREN | TOK_STAR | TOK_PLUS | TOK_COMMA | TOK_MINUS
  | TOK_DOT | TOK_SLASH | TOK_COLON | TOK_SEMICOLON | TOK_LANGBRAC | TOK_EQUAL
  | TOK_RANGBRAC | TOK_QUEST | TOK_AT | TOK_LBOXBRAC | TOK_BACKSLASH | TOK_RBOXBRAC
  | TOK_HAT | TOK_UNDLINE | TOK_BQUOTE | TOK_LCURBRAC | TOK_PIPE | TOK_RCURBRAC
  | TOK_TILDE | TOK_DEL | NAME | INTEGER | DECIMAL | STRING
  | COMMENT_LINE | COMMENT_CLOSED | NATIVE_EXTERN_BODY | BINOP_BITAND | BINOP_BITOR | BINOP_BITXOR
  | EXTRACTOR | ITERATOR | LOGIC_NOT | LOGIC_AND | LOGIC_OR | LOGIC_XOR
  | UNARY_NEG | BINOP_ADD | BINOP_SUB | BINOP_MUL | BINOP_DIV | BINOP_MOD
  | BINOP_POW | BINOP_GT | BINOP_GE | BINOP_LT | BINOP_LE | BINOP_EQ
  | BINOP_NE | PRINT | WALRUS | MATCH | YIELD_PIPE | RETURN_PIPE
  | AWAIT_PIPE | PIPE_SEMICOLON | TASK_LAUNCH | ARROW_DOUBLE_RIGHT | ARROW_DOUBLE_LEFT | ARROW_SINGLE_RIGHT
  | ARROW_SINGLE_LEFT | ELLIPSIS | INFINITE_LIST | BOUNDED_BUFFER_OPEN | BOUNDED_BUFFER_CLOSE | SINGLE_SEP_LINE
  | DOUBLE_SEP_LINE | COMPOUND_ADD | COMPOUND_SUB | COMPOUND_MUL | COMPOUND_DIV | COMPOUND_MOD
  | WAVE_LEFT | WAVE_RIGHT | DBQUESTION | UNKNOWN

text \<open>The enumerator values: ASCII codes for single characters, 1024 and up for the others.\<close>

definition token_code :: "styio_token_type \<Rightarrow> int" where
  "token_code t = (case t of
     TOK_EOF \<Rightarrow> -1 | TOK_NULL \<Rightarrow> 0 | TOK_LF \<Rightarrow> 10 | TOK_CR \<Rightarrow> 13
   | TOK_SPACE \<Rightarrow> 32 | TOK_EXCLAM \<Rightarrow> 33 | TOK_DQUOTE \<Rightarrow> 34 | TOK_HASH \<Rightarrow> 35
   | TOK_DOLLAR \<Rightarrow> 36 | TOK_PERCENT \<Rightarrow> 37 | TOK_AMP \<Rightarrow> 38 | TOK_SQUOTE \<Rightarrow> 39
   | TOK_LPAREN \<Rightarrow> 40 | TOK_RPAREN \<Rightarrow> 41 | TOK_STAR \<Rightarrow> 42 | TOK_PLUS \<Rightarrow> 43
   | TOK_COMMA \<Rightarrow> 44 | TOK_MINUS \<Rightarrow> 45 | TOK_DOT \<Rightarrow> 46 | TOK_SLASH \<Rightarrow> 47
   | TOK_COLON \<Rightarrow> 58 | TOK_SEMICOLON \<Rightarrow> 59 | TOK_LANGBRAC \<Rightarrow> 60 | TOK_EQUAL \<Rightarrow> 61
   | TOK_RANGBRAC \<Rightarrow> 62 | TOK_QUEST \<Rightarrow> 63 | TOK_AT \<Rightarrow> 64 | TOK_LBOXBRAC \<Rightarrow> 91
   | TOK_BACKSLASH \<Rightarrow> 92 | TOK_RBOXBRAC \<Rightarrow> 93 | TOK_HAT \<Rightarrow> 94 | TOK_UNDLINE \<Rightarrow> 95
   | TOK_BQUOTE \<Rightarrow> 96 | TOK_LCURBRAC \<Rightarrow> 123 | TOK_PIPE \<Rightarrow> 124 | TOK_RCURBRAC \<Rightarrow> 125
   | TOK_TILDE \<Rightarrow> 126 | TOK_DEL \<Rightarrow> 127 | NAME \<Rightarrow> 1024 | INTEGER \<Rightarrow> 1025
   | DECIMAL \<Rightarrow> 1026 | STRING \<Rightarrow> 1027 | COMMENT_LINE \<Rightarrow> 1028 | COMMENT_CLOSED \<Rightarrow> 1029
   | NATIVE_EXTERN_BODY \<Rightarrow> 1030 | BINOP_BITAND \<Rightarrow> 1031 | BINOP_BITOR \<Rightarrow> 1032 | BINOP_BITXOR \<Rightarrow> 1033
   | EXTRACTOR \<Rightarrow> 1034 | ITERATOR \<Rightarrow> 1035 | LOGIC_NOT \<Rightarrow> 1036 | LOGIC_AND \<Rightarrow> 1037
   | LOGIC_OR \<Rightarrow> 1038 | LOGIC_XOR \<Rightarrow> 1039 | UNARY_NEG \<Rightarrow> 1040 | BINOP_ADD \<Rightarrow> 1041
   | BINOP_SUB \<Rightarrow> 1042 | BINOP_MUL \<Rightarrow> 1043 | BINOP_DIV \<Rightarrow> 1044 | BINOP_MOD \<Rightarrow> 1045
   | BINOP_POW \<Rightarrow> 1046 | BINOP_GT \<Rightarrow> 1047 | BINOP_GE \<Rightarrow> 1048 | BINOP_LT \<Rightarrow> 1049
   | BINOP_LE \<Rightarrow> 1050 | BINOP_EQ \<Rightarrow> 1051 | BINOP_NE \<Rightarrow> 1052 | PRINT \<Rightarrow> 1053
   | WALRUS \<Rightarrow> 1054 | MATCH \<Rightarrow> 1055 | YIELD_PIPE \<Rightarrow> 1056 | RETURN_PIPE \<Rightarrow> 1057
   | AWAIT_PIPE \<Rightarrow> 1058 | PIPE_SEMICOLON \<Rightarrow> 1059 | TASK_LAUNCH \<Rightarrow> 1060 | ARROW_DOUBLE_RIGHT \<Rightarrow> 1061
   | ARROW_DOUBLE_LEFT \<Rightarrow> 1062 | ARROW_SINGLE_RIGHT \<Rightarrow> 1063 | ARROW_SINGLE_LEFT \<Rightarrow> 1064 | ELLIPSIS \<Rightarrow> 1065
   | INFINITE_LIST \<Rightarrow> 1066 | BOUNDED_BUFFER_OPEN \<Rightarrow> 1067 | BOUNDED_BUFFER_CLOSE \<Rightarrow> 1068 | SINGLE_SEP_LINE \<Rightarrow> 1069
   | DOUBLE_SEP_LINE \<Rightarrow> 1070 | COMPOUND_ADD \<Rightarrow> 1071 | COMPOUND_SUB \<Rightarrow> 1072 | COMPOUND_MUL \<Rightarrow> 1073
   | COMPOUND_DIV \<Rightarrow> 1074 | COMPOUND_MOD \<Rightarrow> 1075 | WAVE_LEFT \<Rightarrow> 1076 | WAVE_RIGHT \<Rightarrow> 1077
   | DBQUESTION \<Rightarrow> 1078 | UNKNOWN \<Rightarrow> 1079)"

record styio_token =
  tok_type :: styio_token_type
  original :: string

definition Create :: "styio_token_type \<Rightarrow> string \<Rightarrow> styio_token" where
  "Create token_type original_string = \<lparr> tok_type = token_type, original = original_string \<rparr>"

definition token_length :: "styio_token \<Rightarrow> nat" where
  "token_length tok = length (original tok)"

lemma Create_simps [simp]:
  "tok_type (Create t s) = t" "original (Create t s) = s" "token_length (Create t s) = length s"
  by (simp_all add: Create_def token_length_def)

definition getTokName :: "styio_token_type \<Rightarrow> string" where
  "getTokName t = (case t of
     TOK_SPACE \<Rightarrow> '' ''
   | TOK_CR \<Rightarrow> ''<CR>''
   | TOK_LF \<Rightarrow> ''<LF>''
   | TOK_EOF \<Rightarrow> ''<EOF>''
   | NAME \<Rightarrow> ''<ID>''
   | INTEGER \<Rightarrow> ''<INT>''
   | DECIMAL \<Rightarrow> ''<FLOAT>''
   | STRING \<Rightarrow> ''<STRING>''
   | COMMENT_LINE \<Rightarrow> ''// COMMENT ''
   | COMMENT_CLOSED \<Rightarrow> ''/* COMMENT */''
   | NATIVE_EXTERN_BODY \<Rightarrow> ''<NATIVE_EXTERN_BODY>''
   | TOK_COMMA \<Rightarrow> '',''
   | TOK_PLUS \<Rightarrow> ''+''
   | TOK_MINUS \<Rightarrow> ''-''
   | TOK_STAR \<Rightarrow> ''*''
   | TOK_DOT \<Rightarrow> ''.''
   | TOK_COLON \<Rightarrow> '':''
   | TOK_TILDE \<Rightarrow> ''~''
   | TOK_EXCLAM \<Rightarrow> ''!''
   | TOK_AT \<Rightarrow> ''@''
   | TOK_HASH \<Rightarrow> ''#''
   | TOK_DOLLAR \<Rightarrow> ''$''
   | TOK_PERCENT \<Rightarrow> ''%''
   | TOK_HAT \<Rightarrow> ''^''
   | TOK_QUEST \<Rightarrow> ''?''
   | TOK_SLASH \<Rightarrow> ''/''
   | TOK_BACKSLASH \<Rightarrow> [CHR 0x5C]
   | TOK_PIPE \<Rightarrow> ''|''
   | TOK_AMP \<Rightarrow> ''&''
   | ELLIPSIS \<Rightarrow> ''...''
   | TOK_SQUOTE \<Rightarrow> [CHR 0x27]
   | TOK_DQUOTE \<Rightarrow> [CHR 0x22]
   | TOK_BQUOTE \<Rightarrow> [CHR 0x60]
   | TOK_LPAREN \<Rightarrow> ''(''
   | TOK_RPAREN \<Rightarrow> '')''
   | TOK_LBOXBRAC \<Rightarrow> ''[''
   | TOK_RBOXBRAC \<Rightarrow> '']''
   | TOK_LCURBRAC \<Rightarrow> ''{''
   | TOK_RCURBRAC \<Rightarrow> ''}''
   | TOK_EQUAL \<Rightarrow> ''=''
   | TOK_LANGBRAC \<Rightarrow> ''<''
   | TOK_RANGBRAC \<Rightarrow> ''>''
   | LOGIC_NOT \<Rightarrow> ''<NOT>''
   | LOGIC_AND \<Rightarrow> ''<AND>''
   | LOGIC_OR \<Rightarrow> ''<OR>''
   | LOGIC_XOR \<Rightarrow> ''<XOR>''
   | BINOP_BITAND \<Rightarrow> ''<BIT_AND>''
   | BINOP_BITOR \<Rightarrow> ''<BIT_OR>''
   | BINOP_BITXOR \<Rightarrow> ''<BIT_XOR>''
   | EXTRACTOR \<Rightarrow> ''<<''
   | ITERATOR \<Rightarrow> ''>>''
   | PRINT \<Rightarrow> ''>_''
   | UNARY_NEG \<Rightarrow> ''<NEG>''
   | BINOP_ADD \<Rightarrow> ''<ADD>''
   | BINOP_SUB \<Rightarrow> ''<SUB>''
   | BINOP_MUL \<Rightarrow> ''<MUL>''
   | BINOP_DIV \<Rightarrow> ''<DIV>''
   | BINOP_MOD \<Rightarrow> ''<MOD>''
   | BINOP_POW \<Rightarrow> ''<POW>''
   | BINOP_GT \<Rightarrow> ''<GT>''
   | BINOP_GE \<Rightarrow> ''<GE>''
   | BINOP_LT \<Rightarrow> ''<LT>''
   | BINOP_LE \<Rightarrow> ''<LE>''
   | BINOP_EQ \<Rightarrow> ''<EQ>''
   | BINOP_NE \<Rightarrow> ''<NE>''
   | ARROW_DOUBLE_RIGHT \<Rightarrow> ''=>''
   | ARROW_DOUBLE_LEFT \<Rightarrow> ''<=''
   | ARROW_SINGLE_RIGHT \<Rightarrow> ''->''
   | ARROW_SINGLE_LEFT \<Rightarrow> ''<-''
   | WALRUS \<Rightarrow> '':=''
   | COMPOUND_ADD \<Rightarrow> ''+=''
   | COMPOUND_SUB \<Rightarrow> ''-=''
   | COMPOUND_MUL \<Rightarrow> ''*=''
   | COMPOUND_DIV \<Rightarrow> ''/=''
   | COMPOUND_MOD \<Rightarrow> ''%=''
   | WAVE_LEFT \<Rightarrow> ''<~''
   | WAVE_RIGHT \<Rightarrow> ''~>''
   | DBQUESTION \<Rightarrow> ''??''
   | MATCH \<Rightarrow> ''?=''
   | YIELD_PIPE \<Rightarrow> ''<|''
   | RETURN_PIPE \<Rightarrow> ''|<|''
   | AWAIT_PIPE \<Rightarrow> ''?|''
   | PIPE_SEMICOLON \<Rightarrow> ''|;''
   | TASK_LAUNCH \<Rightarrow> ''||>''
   | INFINITE_LIST \<Rightarrow> ''[...]''
   | BOUNDED_BUFFER_OPEN \<Rightarrow> ''[|''
   | BOUNDED_BUFFER_CLOSE \<Rightarrow> ''|]''
   | _ \<Rightarrow> ''<UNKNOWN>'')"

definition as_str :: "styio_token \<Rightarrow> string" where
  "as_str tok =
     (if tok_type tok = TOK_LF then ''<LF>''
      else if tok_type tok = TOK_SPACE then ''<SPACE>''
      else if tok_type tok = NAME \<or> tok_type tok = INTEGER \<or> tok_type tok = DECIMAL
        then getTokName (tok_type tok) @ '' = '' @ original tok
      else if tok_type tok = STRING then [CHR 0x22] @ original tok @ [CHR 0x22]
      else getTokName (tok_type tok))"

definition StyioTokenMap :: "styio_token_type \<Rightarrow> styio_token_type list option" where
  "StyioTokenMap t = (case t of
     ARROW_DOUBLE_RIGHT \<Rightarrow> Some [TOK_EQUAL, TOK_RANGBRAC]
   | ARROW_DOUBLE_LEFT \<Rightarrow> Some [TOK_LANGBRAC, TOK_EQUAL]
   | ARROW_SINGLE_RIGHT \<Rightarrow> Some [TOK_MINUS, TOK_RANGBRAC]
   | ARROW_SINGLE_LEFT \<Rightarrow> Some [TOK_LANGBRAC, TOK_MINUS]
   | BINOP_EQ \<Rightarrow> Some [TOK_EQUAL, TOK_EQUAL]
   | BINOP_NE \<Rightarrow> Some [TOK_EXCLAM, TOK_EQUAL]
   | BINOP_GE \<Rightarrow> Some [TOK_RANGBRAC, TOK_EQUAL]
   | BINOP_GT \<Rightarrow> Some [TOK_RANGBRAC]
   | BINOP_LE \<Rightarrow> Some [TOK_LANGBRAC, TOK_EQUAL]
   | BINOP_LT \<Rightarrow> Some [TOK_LANGBRAC]
   | PRINT \<Rightarrow> Some [TOK_RANGBRAC, TOK_UNDLINE]
   | WALRUS \<Rightarrow> Some [TOK_COLON, TOK_EQUAL]
   | MATCH \<Rightarrow> Some [TOK_QUEST, TOK_EQUAL]
   | LOGIC_NOT \<Rightarrow> Some [TOK_EXCLAM]
   | LOGIC_AND \<Rightarrow> Some [TOK_AMP, TOK_AMP]
   | LOGIC_OR \<Rightarrow> Some [TOK_PIPE, TOK_AMP]
   | _ \<Rightarrow> None)"

subsection \<open>Operators\<close>

datatype styio_op_type =
    OP_Undefined | OP_End_Of_File | OP_Unary_Positive | OP_Unary_Negative | OP_Binary_Add
  | OP_Binary_Sub | OP_Binary_Mul | OP_Binary_Div | OP_Binary_Pow | OP_Binary_Mod
  | OP_Greater_Than | OP_Less_Than | OP_Greater_Than_Equal | OP_Less_Than_Equal | OP_Self_Add_Assign
  | OP_Self_Sub_Assign | OP_Self_Mul_Assign | OP_Self_Div_Assign | OP_Self_Mod_Assign | OP_Bitwise_NOT
  | OP_Bitwise_AND | OP_Bitwise_OR | OP_Bitwise_XOR | OP_Bitwise_Left_Shift | OP_Bitwise_Right_Shift
  | OP_Logic_NOT | OP_Logic_AND | OP_Logic_XOR | OP_Logic_OR | OP_Equal
  | OP_Not_Equal | OP_If_Else_Flow | OP_Iterate | OP_Extract | OP_Next
  | OP_Comment_SingleLine | OP_Comment_MultiLine

datatype logic_type =
    LT_RAW | LT_NOT | LT_AND | LT_OR | LT_XOR

datatype comp_type =
    CT_EQ | CT_GT | CT_GE | CT_LT | CT_LE | CT_NE

definition TokenPrecedenceMap :: "styio_op_type \<Rightarrow> int option" where
  "TokenPrecedenceMap t = (case t of
     OP_Unary_Positive \<Rightarrow> Some 999
   | OP_Unary_Negative \<Rightarrow> Some 999
   | OP_Bitwise_NOT \<Rightarrow> Some 999
   | OP_Logic_NOT \<Rightarrow> Some 999
   | OP_Binary_Pow \<Rightarrow> Some 704
   | OP_Binary_Mul \<Rightarrow> Some 703
   | OP_Binary_Div \<Rightarrow> Some 703
   | OP_Binary_Mod \<Rightarrow> Some 703
   | OP_Binary_Add \<Rightarrow> Some 702
   | OP_Binary_Sub \<Rightarrow> Some 702
   | OP_Bitwise_Left_Shift \<Rightarrow> Some 701
   | OP_Bitwise_Right_Shift \<Rightarrow> Some 701
   | OP_Greater_Than \<Rightarrow> Some 502
   | OP_Less_Than \<Rightarrow> Some 502
   | OP_Greater_Than_Equal \<Rightarrow> Some 502
   | OP_Less_Than_Equal \<Rightarrow> Some 502
   | OP_Equal \<Rightarrow> Some 501
   | OP_Not_Equal \<Rightarrow> Some 501
   | OP_Bitwise_AND \<Rightarrow> Some 303
   | OP_Bitwise_XOR \<Rightarrow> Some 302
   | OP_Bitwise_OR \<Rightarrow> Some 301
   | OP_Logic_AND \<Rightarrow> Some 203
   | OP_Logic_XOR \<Rightarrow> Some 202
   | OP_Logic_OR \<Rightarrow> Some 201
   | OP_If_Else_Flow \<Rightarrow> Some 101
   | OP_Self_Add_Assign \<Rightarrow> Some 1
   | OP_Self_Sub_Assign \<Rightarrow> Some 1
   | OP_Self_Mul_Assign \<Rightarrow> Some 1
   | OP_Self_Div_Assign \<Rightarrow> Some 1
   | OP_Self_Mod_Assign \<Rightarrow> Some 1
   | OP_Undefined \<Rightarrow> Some 0
   | OP_End_Of_File \<Rightarrow> Some 0
   | _ \<Rightarrow> None)"

definition TokenStrMap :: "styio_op_type \<Rightarrow> string option" where
  "TokenStrMap t = (case t of
     OP_Undefined \<Rightarrow> Some ''undefined''
   | OP_End_Of_File \<Rightarrow> Some ''EOF''
   | OP_Binary_Pow \<Rightarrow> Some ''**''
   | OP_Binary_Mul \<Rightarrow> Some ''*''
   | OP_Binary_Div \<Rightarrow> Some ''/''
   | OP_Binary_Mod \<Rightarrow> Some ''%''
   | OP_Binary_Add \<Rightarrow> Some ''+''
   | OP_Binary_Sub \<Rightarrow> Some ''-''
   | OP_Greater_Than \<Rightarrow> Some ''>''
   | OP_Less_Than \<Rightarrow> Some ''<''
   | OP_Greater_Than_Equal \<Rightarrow> Some ''>=''
   | OP_Less_Than_Equal \<Rightarrow> Some ''<=''
   | OP_Equal \<Rightarrow> Some ''==''
   | OP_Not_Equal \<Rightarrow> Some ''!=''
   | OP_Bitwise_AND \<Rightarrow> Some ''&''
   | OP_Bitwise_XOR \<Rightarrow> Some ''^''
   | OP_Bitwise_OR \<Rightarrow> Some ''|''
   | OP_Logic_AND \<Rightarrow> Some ''&&''
   | OP_Logic_XOR \<Rightarrow> Some [CHR 0xE2, CHR 0x8A, CHR 0x95]
   | OP_Logic_OR \<Rightarrow> Some ''||''
   | OP_Self_Add_Assign \<Rightarrow> Some ''+=''
   | OP_Self_Sub_Assign \<Rightarrow> Some ''-=''
   | OP_Self_Mul_Assign \<Rightarrow> Some ''*=''
   | OP_Self_Div_Assign \<Rightarrow> Some ''/=''
   | OP_Self_Mod_Assign \<Rightarrow> Some ''%=''
   | _ \<Rightarrow> None)"

text \<open>The map from spellings to operators: the initializer list of the source.\<close>

definition StrTokenTable :: "(string \<times> styio_op_type) list" where
  "StrTokenTable =
    [('''', OP_Undefined),
     (''EOF'', OP_End_Of_File),
     (''**'', OP_Binary_Pow),
     (''*'', OP_Binary_Mul),
     (''/'', OP_Binary_Div),
     (''%'', OP_Binary_Mod),
     (''+'', OP_Binary_Add),
     (''-'', OP_Binary_Sub),
     (''>'', OP_Greater_Than),
     (''<'', OP_Less_Than),
     (''>='', OP_Greater_Than_Equal),
     (''<='', OP_Less_Than_Equal),
     (''=='', OP_Equal),
     (''!='', OP_Not_Equal),
     (''&'', OP_Bitwise_AND),
     (''^'', OP_Bitwise_XOR),
     (''|'', OP_Bitwise_OR),
     (''&&'', OP_Logic_AND),
     ([CHR 0xE2, CHR 0x8A, CHR 0x95], OP_Logic_XOR),
     (''||'', OP_Logic_OR),
     (''+='', OP_Self_Add_Assign),
     (''-='', OP_Self_Sub_Assign),
     (''*='', OP_Self_Mul_Assign),
     (''/='', OP_Self_Div_Assign),
     (''%='', OP_Self_Mod_Assign)]"

definition StrTokenMap :: "string \<Rightarrow> styio_op_type option" where
  "StrTokenMap s = map_of StrTokenTable s"

definition reprOpType :: "styio_op_type \<Rightarrow> string" where
  "reprOpType t = (case t of
     OP_Binary_Add \<Rightarrow> ''<Add>''
   | OP_Binary_Sub \<Rightarrow> ''<Sub>''
   | OP_Binary_Mul \<Rightarrow> ''<Mul>''
   | OP_Binary_Div \<Rightarrow> ''<Div>''
   | OP_Binary_Pow \<Rightarrow> ''<Pow>''
   | OP_Binary_Mod \<Rightarrow> ''<Mod>''
   | OP_Self_Add_Assign \<Rightarrow> ''+=''
   | OP_Self_Sub_Assign \<Rightarrow> ''-=''
   | OP_Self_Mul_Assign \<Rightarrow> ''*=''
   | OP_Self_Div_Assign \<Rightarrow> ''/=''
   | OP_Self_Mod_Assign \<Rightarrow> ''%=''
   | _ \<Rightarrow> ''<Undefined>'')"

definition reprLogicType :: "logic_type \<Rightarrow> string" where
  "reprLogicType t = (case t of
     LT_NOT \<Rightarrow> ''<NOT>''
   | LT_AND \<Rightarrow> ''<AND>''
   | LT_OR \<Rightarrow> ''<OR>''
   | LT_XOR \<Rightarrow> ''<OR>''
   | _ \<Rightarrow> ''<NULL>'')"

definition reprCompType :: "comp_type \<Rightarrow> string" where
  "reprCompType t = (case t of
     CT_EQ \<Rightarrow> ''<EQ>''
   | CT_NE \<Rightarrow> ''<NE>''
   | CT_GT \<Rightarrow> ''<GT>''
   | CT_GE \<Rightarrow> ''<GE>''
   | CT_LT \<Rightarrow> ''<LT>''
   | CT_LE \<Rightarrow> ''<LE>'')"

end
