(* ===== verification/Styio_DataType.thy ===== *)
theory Styio_DataType
  imports Styio_Prelude
begin

unbundle bit_operations_syntax

text \<open>
  Static types (\<open>StyioDataType\<close> and the inline functions of src/src/StyioToken/Token.hpp, with
  \<open>getMaxType\<close> and \<open>reprDataTypeOption\<close> of Token.cpp). A type carries its own name; container
  types are recognised and taken apart again by reading that name, so the theorems are about
  the agreement between the functions that build names and those that read them back, and
  about numeric promotion. Fields carry the prefix \<open>dt_\<close>; \<open>std::size_t\<close> is \<open>nat\<close>, and the
  capability set is a \<open>32 word\<close> of flags.
\<close>

subsection \<open>Enumerations\<close>

datatype styio_data_type_option =
    DT_Undefined | DT_Defined | DT_Bool | DT_Integer | DT_Float | DT_Decimal
  | DT_Char | DT_String | DT_Tuple | DT_List | DT_Dict | DT_Matrix
  | DT_Struct | DT_Func

datatype styio_handle_family =
    HF_None | HF_List | HF_Dict | HF_Matrix | HF_Range | HF_File
  | HF_Stream | HF_Task

datatype styio_type_state =
    TS_None | TS_Open | TS_Materialized | TS_Pending | TS_Ready | TS_Done
  | TS_Cancelled | TS_Closed

datatype styio_resource_shape_kind =
    RS_None | RS_Scalar | RS_Fixed | RS_Recent | RS_Sequence | RS_TupleSequence

datatype styio_value_family =
    VF_Unknown | VF_Bool | VF_Integer | VF_Float | VF_String | VF_ListHandle
  | VF_DictHandle | VF_MatrixHandle | VF_RangeHandle | VF_FileHandle | VF_StreamHandle | VF_TaskHandle
  | VF_UserDefined

datatype styio_type_capability =
    TC_None | TC_Iterable | TC_Indexable | TC_Sized | TC_Readable | TC_Writable
  | TC_Cloneable | TC_Collectable | TC_Pull | TC_Push | TC_Close | TC_Send
  | TC_Sync

datatype std_stream_kind =
    SK_Stdin | SK_Stdout | SK_Stderr

fun styio_caps :: "styio_type_capability \<Rightarrow> 32 word" where
  "styio_caps TC_None = 0"
| "styio_caps TC_Iterable = push_bit 0 1"
| "styio_caps TC_Indexable = push_bit 1 1"
| "styio_caps TC_Sized = push_bit 2 1"
| "styio_caps TC_Readable = push_bit 3 1"
| "styio_caps TC_Writable = push_bit 4 1"
| "styio_caps TC_Cloneable = push_bit 5 1"
| "styio_caps TC_Collectable = push_bit 6 1"
| "styio_caps TC_Pull = push_bit 7 1"
| "styio_caps TC_Push = push_bit 8 1"
| "styio_caps TC_Close = push_bit 9 1"
| "styio_caps TC_Send = push_bit 10 1"
| "styio_caps TC_Sync = push_bit 11 1"

subsection \<open>The type record\<close>

record styio_data_type =
  dt_option :: styio_data_type_option
  dt_name :: string
  dt_num_of_bit :: nat
  dt_handle_family :: styio_handle_family
  dt_state :: styio_type_state
  dt_capabilities :: "32 word"
  dt_item_type_name :: string
  dt_key_type_name :: string
  dt_has_std_stream_kind :: bool
  dt_std_stream_kind :: int
  dt_value_family :: styio_value_family
  dt_item_value_family :: styio_value_family
  dt_key_value_family :: styio_value_family
  dt_is_resource_type :: bool
  dt_resource_value_type_name :: string
  dt_resource_shape :: styio_resource_shape_kind
  dt_resource_shape_bound :: nat

text \<open>The aggregate initialiser with three fields, the others at their defaults.\<close>

definition scalar_type :: "styio_data_type_option \<Rightarrow> string \<Rightarrow> nat \<Rightarrow> styio_data_type" where
  "scalar_type opt nm bits =
     \<lparr> dt_option = opt, dt_name = nm, dt_num_of_bit = bits, dt_handle_family = HF_None,
       dt_state = TS_None, dt_capabilities = 0, dt_item_type_name = [], dt_key_type_name = [],
       dt_has_std_stream_kind = False, dt_std_stream_kind = - 1, dt_value_family = VF_Unknown,
       dt_item_value_family = VF_Unknown, dt_key_value_family = VF_Unknown,
       dt_is_resource_type = False, dt_resource_value_type_name = [],
       dt_resource_shape = RS_None, dt_resource_shape_bound = 0 \<rparr>"

text \<open>The aggregate initialiser of the handle types, up to the value families.\<close>

definition handle_type :: "styio_data_type_option \<Rightarrow> string \<Rightarrow> styio_handle_family \<Rightarrow> styio_type_state
    \<Rightarrow> 32 word \<Rightarrow> string \<Rightarrow> string \<Rightarrow> styio_value_family \<Rightarrow> styio_data_type" where
  "handle_type opt nm fam st caps item key vf =
     (scalar_type opt nm 0) \<lparr> dt_handle_family := fam, dt_state := st, dt_capabilities := caps,
       dt_item_type_name := item, dt_key_type_name := key, dt_value_family := vf \<rparr>"

definition isUndefined :: "styio_data_type \<Rightarrow> bool" where
  "isUndefined t \<longleftrightarrow> dt_option t = DT_Undefined"

definition isInteger :: "styio_data_type \<Rightarrow> bool" where
  "isInteger t \<longleftrightarrow> dt_option t = DT_Integer"

definition isFloat :: "styio_data_type \<Rightarrow> bool" where
  "isFloat t \<longleftrightarrow> dt_option t = DT_Float"

definition type_equals :: "styio_data_type \<Rightarrow> styio_data_type \<Rightarrow> bool" where
  "type_equals a b \<longleftrightarrow>
     dt_option a = dt_option b
     \<and> dt_name a = dt_name b
     \<and> dt_num_of_bit a = dt_num_of_bit b
     \<and> dt_handle_family a = dt_handle_family b
     \<and> dt_state a = dt_state b
     \<and> dt_capabilities a = dt_capabilities b
     \<and> dt_item_type_name a = dt_item_type_name b
     \<and> dt_key_type_name a = dt_key_type_name b
     \<and> dt_has_std_stream_kind a = dt_has_std_stream_kind b
     \<and> dt_std_stream_kind a = dt_std_stream_kind b
     \<and> dt_value_family a = dt_value_family b
     \<and> dt_item_value_family a = dt_item_value_family b
     \<and> dt_key_value_family a = dt_key_value_family b
     \<and> dt_is_resource_type a = dt_is_resource_type b
     \<and> dt_resource_value_type_name a = dt_resource_value_type_name b
     \<and> dt_resource_shape a = dt_resource_shape b
     \<and> dt_resource_shape_bound a = dt_resource_shape_bound b"

subsection \<open>Recognisers\<close>

definition styio_is_list_type :: "styio_data_type \<Rightarrow> bool" where
  "styio_is_list_type t \<longleftrightarrow>
     dt_option t = DT_List \<or> dt_handle_family t = HF_List \<or> starts_with (dt_name t) ''list[''"

definition styio_is_dict_type :: "styio_data_type \<Rightarrow> bool" where
  "styio_is_dict_type t \<longleftrightarrow>
     dt_option t = DT_Dict \<or> dt_handle_family t = HF_Dict \<or> starts_with (dt_name t) ''dict[''"

definition styio_is_matrix_type :: "styio_data_type \<Rightarrow> bool" where
  "styio_is_matrix_type t \<longleftrightarrow>
     dt_option t = DT_Matrix \<or> dt_handle_family t = HF_Matrix \<or> dt_name t = ''matrix''
     \<or> starts_with (dt_name t) ''matrix[''"

definition styio_is_topology_resource_type :: "styio_data_type \<Rightarrow> bool" where
  "styio_is_topology_resource_type t = dt_is_resource_type t"

definition styio_type_has_capability :: "styio_data_type \<Rightarrow> styio_type_capability \<Rightarrow> bool" where
  "styio_type_has_capability t cap \<longleftrightarrow> dt_capabilities t AND styio_caps cap \<noteq> 0"

definition styio_type_is_iterable :: "styio_data_type \<Rightarrow> bool" where
  "styio_type_is_iterable t = styio_type_has_capability t TC_Iterable"

definition styio_type_is_indexable :: "styio_data_type \<Rightarrow> bool" where
  "styio_type_is_indexable t = styio_type_has_capability t TC_Indexable"

definition styio_type_is_sized :: "styio_data_type \<Rightarrow> bool" where
  "styio_type_is_sized t = styio_type_has_capability t TC_Sized"

definition styio_type_is_readable :: "styio_data_type \<Rightarrow> bool" where
  "styio_type_is_readable t = styio_type_has_capability t TC_Readable"

definition styio_type_is_writable :: "styio_data_type \<Rightarrow> bool" where
  "styio_type_is_writable t = styio_type_has_capability t TC_Writable"

definition styio_type_is_cloneable :: "styio_data_type \<Rightarrow> bool" where
  "styio_type_is_cloneable t = styio_type_has_capability t TC_Cloneable"

definition styio_type_is_resource_handle :: "styio_data_type \<Rightarrow> bool" where
  "styio_type_is_resource_handle t \<longleftrightarrow>
     dt_handle_family t \<noteq> HF_None \<or> styio_is_list_type t \<or> styio_is_dict_type t \<or> styio_is_matrix_type t"

definition styio_value_family_for_type :: "styio_data_type \<Rightarrow> styio_value_family" where
  "styio_value_family_for_type t =
     (if dt_value_family t \<noteq> VF_Unknown then dt_value_family t
      else if styio_is_list_type t then VF_ListHandle
      else if styio_is_dict_type t then VF_DictHandle
      else case dt_handle_family t of
          HF_List \<Rightarrow> VF_ListHandle
        | HF_Dict \<Rightarrow> VF_DictHandle
        | HF_Matrix \<Rightarrow> VF_MatrixHandle
        | HF_Range \<Rightarrow> VF_RangeHandle
        | HF_File \<Rightarrow> VF_FileHandle
        | HF_Stream \<Rightarrow> VF_StreamHandle
        | HF_Task \<Rightarrow> VF_TaskHandle
        | HF_None \<Rightarrow> (case dt_option t of
              DT_Bool \<Rightarrow> VF_Bool
            | DT_Integer \<Rightarrow> VF_Integer
            | DT_Float \<Rightarrow> VF_Float
            | DT_String \<Rightarrow> VF_String
            | DT_Matrix \<Rightarrow> VF_MatrixHandle
            | DT_Defined \<Rightarrow> VF_UserDefined
            | DT_Struct \<Rightarrow> VF_UserDefined
            | DT_Func \<Rightarrow> VF_UserDefined
            | _ \<Rightarrow> VF_Unknown))"

subsection \<open>Reading component names\<close>

text \<open>The test \<open>name.rfind(p, 0) == 0 && !name.empty() && name.back() == ']'\<close>, and the text
  between the prefix and the bracket.\<close>

definition bracketed :: "string \<Rightarrow> string \<Rightarrow> bool" where
  "bracketed p nm \<longleftrightarrow> starts_with nm p \<and> nm \<noteq> [] \<and> last nm = CHR '']''"

definition styio_list_elem_type_name :: "styio_data_type \<Rightarrow> string" where
  "styio_list_elem_type_name t =
     (let nm = dt_name t in
      if bracketed ''list['' nm then substr nm 5 (length nm - 6) else ''i64'')"

definition styio_matrix_elem_type_name :: "styio_data_type \<Rightarrow> string" where
  "styio_matrix_elem_type_name t =
     (if dt_key_type_name t \<noteq> [] then dt_key_type_name t
      else let nm = dt_name t in
        if bracketed ''matrix['' nm then
          let inner = substr nm 7 (length nm - 8) in
          (case find_char_from inner (CHR '','') 0 of
             Some comma \<Rightarrow> substr inner 0 comma
           | None \<Rightarrow> if inner \<noteq> [] then inner else ''i64'')
        else ''i64'')"

definition styio_matrix_row_count :: "styio_data_type \<Rightarrow> nat" where
  "styio_matrix_row_count t =
     (let nm = dt_name t in
      if \<not> styio_is_matrix_type t then 0
      else if \<not> bracketed ''matrix['' nm then 0
      else let inner = substr nm 7 (length nm - 8) in
        case find_char_from inner (CHR '','') 0 of
          None \<Rightarrow> 0
        | Some first \<Rightarrow> (case find_char_from inner (CHR '','') (first + 1) of
              None \<Rightarrow> 0
            | Some second \<Rightarrow>
                if second \<le> first + 1 then 0
                else (case stoull (substr inner (first + 1) (second - first - 1)) of
                        Some n \<Rightarrow> n | None \<Rightarrow> 0)))"

definition styio_matrix_col_count :: "styio_data_type \<Rightarrow> nat" where
  "styio_matrix_col_count t =
     (let nm = dt_name t in
      if \<not> styio_is_matrix_type t then 0
      else if \<not> bracketed ''matrix['' nm then 0
      else let inner = substr nm 7 (length nm - 8) in
        case find_char_from inner (CHR '','') 0 of
          None \<Rightarrow> 0
        | Some first \<Rightarrow> (case find_char_from inner (CHR '','') (first + 1) of
              None \<Rightarrow> 0
            | Some second \<Rightarrow>
                if length inner \<le> second + 1 then 0
                else (case stoull (drop (second + 1) inner) of Some n \<Rightarrow> n | None \<Rightarrow> 0)))"

definition styio_dict_key_type_name :: "styio_data_type \<Rightarrow> string" where
  "styio_dict_key_type_name t =
     (if dt_key_type_name t \<noteq> [] then dt_key_type_name t
      else let nm = dt_name t in
        if bracketed ''dict['' nm then
          let inner = substr nm 5 (length nm - 6) in
          (case find_char_from inner (CHR '','') 0 of
             Some comma \<Rightarrow> substr inner 0 comma
           | None \<Rightarrow> ''string'')
        else ''string'')"

definition styio_dict_value_type_name :: "styio_data_type \<Rightarrow> string" where
  "styio_dict_value_type_name t =
     (if dt_item_type_name t \<noteq> [] then dt_item_type_name t
      else let nm = dt_name t in
        if bracketed ''dict['' nm then
          let inner = substr nm 5 (length nm - 6) in
          (case find_char_from inner (CHR '','') 0 of
             Some comma \<Rightarrow> if comma + 1 < length inner then drop (comma + 1) inner else ''i64''
           | None \<Rightarrow> ''i64'')
        else ''i64'')"

subsection \<open>Building types\<close>

definition styio_make_list_type :: "string \<Rightarrow> styio_data_type" where
  "styio_make_list_type elem_name =
     handle_type DT_List (''list['' @ elem_name @ '']'') HF_List TS_Materialized
       (styio_caps TC_Iterable OR styio_caps TC_Indexable OR styio_caps TC_Sized
        OR styio_caps TC_Cloneable OR styio_caps TC_Collectable)
       elem_name [] VF_ListHandle"

definition styio_make_dict_type :: "string \<Rightarrow> string \<Rightarrow> styio_data_type" where
  "styio_make_dict_type key_name value_name =
     handle_type DT_Dict (''dict['' @ key_name @ '','' @ value_name @ '']'') HF_Dict TS_Materialized
       (styio_caps TC_Indexable OR styio_caps TC_Sized OR styio_caps TC_Cloneable)
       value_name key_name VF_DictHandle"

definition matrix_type_name :: "string \<Rightarrow> nat \<Rightarrow> nat \<Rightarrow> string" where
  "matrix_type_name elem_name rows cols =
     ''matrix['' @ elem_name
     @ (if rows \<noteq> 0 \<or> cols \<noteq> 0 then '','' @ to_string_nat rows @ '','' @ to_string_nat cols else [])
     @ '']''"

definition styio_make_matrix_type :: "string \<Rightarrow> nat \<Rightarrow> nat \<Rightarrow> styio_data_type" where
  "styio_make_matrix_type elem_name rows cols =
     (handle_type DT_Matrix (matrix_type_name elem_name rows cols) HF_Matrix TS_Materialized
       (styio_caps TC_Iterable OR styio_caps TC_Indexable OR styio_caps TC_Sized
        OR styio_caps TC_Cloneable OR styio_caps TC_Collectable)
       (dt_name (styio_make_list_type elem_name)) elem_name VF_MatrixHandle)
       \<lparr> dt_item_value_family := VF_ListHandle \<rparr>"

definition styio_make_topology_sequence_type :: "string \<Rightarrow> styio_data_type" where
  "styio_make_topology_sequence_type elem_name =
     (styio_make_list_type elem_name)
       \<lparr> dt_name := elem_name @ ''..'', dt_resource_value_type_name := elem_name,
         dt_resource_shape := RS_Sequence \<rparr>"

definition shape_suffix :: "styio_resource_shape_kind \<Rightarrow> nat \<Rightarrow> string" where
  "shape_suffix shape bound = (case shape of
       RS_Fixed \<Rightarrow> ''|'' @ to_string_nat bound @ ''|''
     | RS_Recent \<Rightarrow> ''|..'' @ to_string_nat bound @ ''|''
     | RS_Sequence \<Rightarrow> ''..''
     | RS_TupleSequence \<Rightarrow> ''..''
     | RS_Scalar \<Rightarrow> []
     | RS_None \<Rightarrow> [])"

definition styio_make_topology_resource_type ::
    "styio_data_type \<Rightarrow> styio_resource_shape_kind \<Rightarrow> nat \<Rightarrow> styio_data_type" where
  "styio_make_topology_resource_type value_type shape bound =
     (handle_type DT_Defined
        (''resource['' @ dt_name value_type @ shape_suffix shape bound @ '']'') HF_None TS_Open
        (styio_caps TC_Readable OR styio_caps TC_Writable OR styio_caps TC_Iterable
         OR styio_caps TC_Indexable OR styio_caps TC_Cloneable)
        (dt_name value_type) [] VF_UserDefined)
       \<lparr> dt_num_of_bit := dt_num_of_bit value_type,
         dt_item_value_family := styio_value_family_for_type value_type,
         dt_is_resource_type := True,
         dt_resource_value_type_name := dt_name value_type,
         dt_resource_shape := (if shape = RS_None then RS_Scalar else shape),
         dt_resource_shape_bound := bound \<rparr>"

definition styio_make_range_type :: "string \<Rightarrow> styio_data_type" where
  "styio_make_range_type elem_name =
     handle_type DT_Defined (''range['' @ elem_name @ '']'') HF_Range TS_Materialized
       (styio_caps TC_Iterable) elem_name [] VF_RangeHandle"

definition styio_make_file_handle_type :: "string \<Rightarrow> styio_data_type" where
  "styio_make_file_handle_type elem_name =
     handle_type DT_Defined (''file['' @ elem_name @ '']'') HF_File TS_Open
       (styio_caps TC_Iterable OR styio_caps TC_Readable OR styio_caps TC_Writable)
       elem_name [] VF_FileHandle"

fun std_stream_kind_code :: "std_stream_kind \<Rightarrow> int" where
  "std_stream_kind_code SK_Stdin = 0"
| "std_stream_kind_code SK_Stdout = 1"
| "std_stream_kind_code SK_Stderr = 2"

definition styio_make_std_stream_type :: "std_stream_kind \<Rightarrow> string \<Rightarrow> styio_data_type" where
  "styio_make_std_stream_type kind elem_name =
     (handle_type DT_Defined
        (if kind = SK_Stdin then ''stdin['' @ elem_name @ '']''
         else if kind = SK_Stdout then ''stdout['' @ elem_name @ '']''
         else ''stderr['' @ elem_name @ '']'')
        HF_Stream TS_Open
        (if kind = SK_Stdin then styio_caps TC_Iterable OR styio_caps TC_Readable
         else styio_caps TC_Writable)
        elem_name [] VF_StreamHandle)
       \<lparr> dt_has_std_stream_kind := True, dt_std_stream_kind := std_stream_kind_code kind \<rparr>"

subsection \<open>Types from names\<close>

definition DTypeTable :: "(string \<times> styio_data_type) list" where
  "DTypeTable =
    [(''bool'', scalar_type DT_Bool ''bool'' 1),
     (''int'', scalar_type DT_Integer ''i32'' 32),
     (''long'', scalar_type DT_Integer ''i64'' 64),
     (''i1'', scalar_type DT_Integer ''i1'' 1),
     (''i8'', scalar_type DT_Integer ''i8'' 8),
     (''i16'', scalar_type DT_Integer ''i16'' 16),
     (''i32'', scalar_type DT_Integer ''i32'' 32),
     (''i64'', scalar_type DT_Integer ''i64'' 64),
     (''i128'', scalar_type DT_Integer ''i128'' 128),
     (''float'', scalar_type DT_Float ''f32'' 32),
     (''double'', scalar_type DT_Float ''f64'' 64),
     (''f32'', scalar_type DT_Float ''f32'' 32),
     (''f64'', scalar_type DT_Float ''f64'' 64),
     (''char'', scalar_type DT_Char ''char'' 0),
     (''string'', scalar_type DT_String ''string'' 0),
     (''str'', scalar_type DT_String ''string'' 0),
     (''matrix'', styio_make_matrix_type ''i64'' 0 0)]"

text \<open>The name of the result type inside \<open>task[...]\<close>; empty means \<open>unit\<close>.\<close>

definition task_elem_name :: "string \<Rightarrow> string option" where
  "task_elem_name nm =
     (if starts_with nm ''task['' \<and> 6 \<le> length nm \<and> last nm = CHR '']''
      then let elem = substr nm 5 (length nm - 6) in Some (if elem = [] then ''unit'' else elem)
      else None)"

definition task_type :: "string \<Rightarrow> string \<Rightarrow> styio_value_family \<Rightarrow> styio_data_type" where
  "task_type nm elem vf =
     (handle_type DT_Defined nm HF_Task TS_Pending
       (styio_caps TC_Pull OR styio_caps TC_Close OR styio_caps TC_Send) elem [] VF_TaskHandle)
       \<lparr> dt_item_value_family := vf \<rparr>"

lemma task_elem_name_shorter:
  "task_elem_name nm = Some elem \<Longrightarrow> length elem < length nm"
  by (auto simp: task_elem_name_def Let_def split: if_splits)

function styio_data_type_from_name :: "string \<Rightarrow> styio_data_type" where
  "styio_data_type_from_name nm =
     (case map_of DTypeTable nm of
        Some t \<Rightarrow> t
      | None \<Rightarrow>
        if starts_with nm ''list['' then
          styio_make_list_type (styio_list_elem_type_name (scalar_type DT_List nm 0))
        else if starts_with nm ''dict['' then
          styio_make_dict_type (styio_dict_key_type_name (scalar_type DT_Dict nm 0))
            (styio_dict_value_type_name (scalar_type DT_Dict nm 0))
        else if nm = ''matrix'' \<or> starts_with nm ''matrix['' then
          styio_make_matrix_type (styio_matrix_elem_type_name (scalar_type DT_Matrix nm 0))
            (styio_matrix_row_count (scalar_type DT_Matrix nm 0))
            (styio_matrix_col_count (scalar_type DT_Matrix nm 0))
        else (case task_elem_name nm of
            Some elem \<Rightarrow> task_type nm elem
              (styio_value_family_for_type (styio_data_type_from_name elem))
          | None \<Rightarrow> scalar_type DT_Defined nm 0))"
  by pat_completeness auto
termination by (relation "measure length") (auto dest: task_elem_name_shorter)

declare styio_data_type_from_name.simps [simp del]

definition styio_value_family_from_type_name :: "string \<Rightarrow> styio_value_family" where
  "styio_value_family_from_type_name nm = styio_value_family_for_type (styio_data_type_from_name nm)"

definition styio_make_task_type :: "string \<Rightarrow> styio_data_type" where
  "styio_make_task_type result_name =
     task_type (''task['' @ result_name @ '']'') result_name
       (styio_value_family_from_type_name result_name)"

definition styio_task_result_type_name :: "styio_data_type \<Rightarrow> string" where
  "styio_task_result_type_name t =
     (if dt_item_type_name t = [] then ''unit'' else dt_item_type_name t)"

definition styio_type_item_type_name :: "styio_data_type \<Rightarrow> string" where
  "styio_type_item_type_name t =
     (if dt_item_type_name t \<noteq> [] then dt_item_type_name t
      else if styio_is_matrix_type t then dt_name (styio_make_list_type (styio_matrix_elem_type_name t))
      else if styio_is_list_type t then styio_list_elem_type_name t
      else if styio_is_dict_type t then styio_dict_value_type_name t
      else ''i64'')"

definition styio_type_item_value_family :: "styio_data_type \<Rightarrow> styio_value_family" where
  "styio_type_item_value_family t =
     (if dt_item_value_family t \<noteq> VF_Unknown then dt_item_value_family t
      else styio_value_family_from_type_name (styio_type_item_type_name t))"

definition styio_dict_key_value_family :: "styio_data_type \<Rightarrow> styio_value_family" where
  "styio_dict_key_value_family t =
     (if dt_key_value_family t \<noteq> VF_Unknown then dt_key_value_family t
      else styio_value_family_from_type_name (styio_dict_key_type_name t))"

definition styio_value_family_is_runtime_scalar :: "styio_value_family \<Rightarrow> bool" where
  "styio_value_family_is_runtime_scalar family =
     (case family of VF_Bool \<Rightarrow> True | VF_Integer \<Rightarrow> True | VF_Float \<Rightarrow> True | VF_String \<Rightarrow> True
      | _ \<Rightarrow> False)"

definition styio_value_family_is_runtime_handle :: "styio_value_family \<Rightarrow> bool" where
  "styio_value_family_is_runtime_handle family =
     (case family of VF_ListHandle \<Rightarrow> True | VF_DictHandle \<Rightarrow> True | VF_MatrixHandle \<Rightarrow> True
      | _ \<Rightarrow> False)"

definition styio_type_supports_runtime_list_elem :: "styio_data_type \<Rightarrow> bool" where
  "styio_type_supports_runtime_list_elem t =
     (let family = styio_value_family_for_type t in
      styio_value_family_is_runtime_scalar family \<or> styio_value_family_is_runtime_handle family)"

definition styio_type_supports_runtime_dict_value :: "styio_data_type \<Rightarrow> bool" where
  "styio_type_supports_runtime_dict_value t =
     (let family = styio_value_family_for_type t in
      styio_value_family_is_runtime_scalar family \<or> styio_value_family_is_runtime_handle family)"

definition styio_topology_resource_value_type :: "styio_data_type \<Rightarrow> styio_data_type" where
  "styio_topology_resource_value_type t =
     (if dt_resource_value_type_name t \<noteq> [] then styio_data_type_from_name (dt_resource_value_type_name t)
      else if dt_item_type_name t \<noteq> [] then styio_data_type_from_name (dt_item_type_name t)
      else scalar_type DT_Integer ''i64'' 64)"

definition styio_normalize_resource_decl_type :: "styio_data_type \<Rightarrow> styio_data_type" where
  "styio_normalize_resource_decl_type raw =
     (if styio_is_topology_resource_type raw then raw
      else if styio_is_list_type raw then
        styio_make_topology_resource_type
          (styio_data_type_from_name (styio_list_elem_type_name raw)) RS_Sequence 0
      else if styio_is_dict_type raw then
        styio_make_topology_resource_type
          (scalar_type DT_Tuple
             (''('' @ styio_dict_key_type_name raw @ '','' @ styio_dict_value_type_name raw @ '')'') 0)
          RS_TupleSequence 0
      else styio_make_topology_resource_type raw RS_Scalar 0)"

subsection \<open>Numeric promotion and printing\<close>

text \<open>The floating-point type wide enough for a number of bits.\<close>

definition float_type_for :: "nat \<Rightarrow> styio_data_type" where
  "float_type_for max_num_of_bit =
     scalar_type DT_Float (if 32 < max_num_of_bit then ''f64'' else ''f32'')
       (if 32 < max_num_of_bit then 64 else 32)"

definition getMaxType :: "styio_data_type \<Rightarrow> styio_data_type \<Rightarrow> styio_data_type" where
  "getMaxType T1 T2 =
     (let max_num_of_bit = max (dt_num_of_bit T1) (dt_num_of_bit T2) in
      if isInteger T1 \<and> isInteger T2 then
        (if max_num_of_bit = 0 then T1
         else scalar_type DT_Integer (''i'' @ to_string_nat max_num_of_bit) max_num_of_bit)
      else if isFloat T1 \<and> isFloat T2 then float_type_for max_num_of_bit
      else if (isInteger T1 \<and> isFloat T2) \<or> (isFloat T1 \<and> isInteger T2) then
        float_type_for max_num_of_bit
      else if dt_option T1 = dt_option T2 then T1
      else scalar_type DT_Undefined ''Undefined'' 0)"

definition reprDataTypeOption :: "styio_data_type_option \<Rightarrow> string" where
  "reprDataTypeOption opt = (case opt of
       DT_Undefined \<Rightarrow> ''undefined'' | DT_Defined \<Rightarrow> ''defined'' | DT_Bool \<Rightarrow> ''bool''
     | DT_Integer \<Rightarrow> ''int'' | DT_Float \<Rightarrow> ''float'' | DT_Decimal \<Rightarrow> ''decimal''
     | DT_Char \<Rightarrow> ''char'' | DT_String \<Rightarrow> ''string'' | DT_Tuple \<Rightarrow> ''tuple''
     | DT_List \<Rightarrow> ''list'' | DT_Dict \<Rightarrow> ''dict'' | DT_Matrix \<Rightarrow> ''matrix''
     | DT_Struct \<Rightarrow> ''struct'' | DT_Func \<Rightarrow> ''func'')"

subsection \<open>Names read back what was written\<close>

lemma find_char_from_append:
  "find_char_from (xs @ ys) c (length xs) = map_option ((+) (length xs)) (find_char_from ys c 0)"
proof -
  have "[length xs..<length (xs @ ys)] = map ((+) (length xs)) [0..<length ys]"
    by (rule nth_equalityI) auto
  moreover have "List.find P (map f zs) = map_option f (List.find (P \<circ> f) zs)" for P :: "nat \<Rightarrow> bool" and f :: "nat \<Rightarrow> nat" and zs
    by (induction zs) auto
  ultimately show ?thesis
    by (simp add: find_char_from_def comp_def nth_append)
qed

lemma bracketed_append [simp]: "bracketed p (p @ x @ '']'')"
  by (simp add: bracketed_def starts_with_def)

lemma bracketedD:
  assumes "bracketed p nm" "last p \<noteq> CHR '']''" "p \<noteq> []"
  shows "nm = p @ substr nm (length p) (length nm - Suc (length p)) @ '']''"
proof -
  from assms(1) obtain r where r: "nm = p @ r" "last nm = CHR '']''"
    by (metis append_take_drop_id bracketed_def starts_with_def)
  with assms(2) have "r \<noteq> []" by auto
  with r obtain x where "r = x @ '']''" by (metis append_butlast_last_id last_append)
  with r show ?thesis by (simp add: substr_def)
qed

lemma substr_middle: "substr (p @ x @ y) (length p) (length x) = x"
  by (simp add: substr_def)

lemma DTypeTable_no_bracket: "CHR ''['' \<in> set nm \<Longrightarrow> map_of DTypeTable nm = None"
proof -
  have "\<forall>k\<in>fst ` set DTypeTable. CHR ''['' \<notin> set k" by (simp add: DTypeTable_def)
  then show "CHR ''['' \<in> set nm \<Longrightarrow> map_of DTypeTable nm = None" by (auto simp: map_of_eq_None_iff)
qed

lemma scalar_type_sel [simp]:
  "dt_option (scalar_type opt nm b) = opt" "dt_name (scalar_type opt nm b) = nm"
  "dt_num_of_bit (scalar_type opt nm b) = b" "dt_key_type_name (scalar_type opt nm b) = []"
  "dt_item_type_name (scalar_type opt nm b) = []" "dt_value_family (scalar_type opt nm b) = VF_Unknown"
  "dt_handle_family (scalar_type opt nm b) = HF_None"
  by (simp_all add: scalar_type_def)

lemma make_names [simp]:
  "dt_name (styio_make_list_type e) = ''list['' @ e @ '']''"
  "dt_name (styio_make_dict_type k v) = ''dict['' @ k @ '','' @ v @ '']''"
  "dt_name (styio_make_matrix_type e r c) = matrix_type_name e r c"
  "dt_name (styio_make_task_type e) = ''task['' @ e @ '']''"
  by (simp_all add: styio_make_list_type_def styio_make_dict_type_def styio_make_matrix_type_def
      styio_make_task_type_def task_type_def handle_type_def)

lemma list_from_name: "styio_data_type_from_name (''list['' @ e @ '']'') = styio_make_list_type e"
proof -
  have "styio_list_elem_type_name (scalar_type DT_List (''list['' @ e @ '']'') 0) = e"
    using bracketed_append [of "''list[''" e]
    by (simp add: styio_list_elem_type_name_def substr_def)
  then show ?thesis
    by (subst styio_data_type_from_name.simps)
      (simp add: DTypeTable_no_bracket starts_with_def)
qed

lemma dict_parts:
  assumes "CHR '','' \<notin> set k"
  shows "styio_dict_key_type_name (scalar_type DT_Dict (''dict['' @ k @ '','' @ v @ '']'') 0) = k"
    and "v \<noteq> [] \<Longrightarrow> styio_dict_value_type_name (scalar_type DT_Dict (''dict['' @ k @ '','' @ v @ '']'') 0) = v"
  using bracketed_append [of "''dict[''" "k @ '','' @ v"] substr_middle [of "''dict[''" "k @ '','' @ v" "'']''"]
    find_char_append [OF assms, of v]
  by (simp_all add: styio_dict_key_type_name_def styio_dict_value_type_name_def substr_def)

lemma dict_from_name:
  assumes "CHR '','' \<notin> set k" "v \<noteq> []"
  shows "styio_data_type_from_name (''dict['' @ k @ '','' @ v @ '']'') = styio_make_dict_type k v"
  using dict_parts [OF assms(1)] assms(2)
  by (subst styio_data_type_from_name.simps) (simp add: DTypeTable_no_bracket starts_with_def)

lemma matrix_inner:
  "matrix_type_name e r c = ''matrix['' @ (if r \<noteq> 0 \<or> c \<noteq> 0 then e @ '','' @ to_string_nat r @ '','' @ to_string_nat c else e) @ '']''"
  by (simp add: matrix_type_name_def)

lemma comma_to_string: "CHR '','' \<notin> set (to_string_nat n)"
  using to_string_digits [of n] by (auto dest: isdigit_sep)

lemma matrix_commas:
  assumes "CHR '','' \<notin> set e"
  shows "find_char_from (e @ '','' @ to_string_nat r @ '','' @ to_string_nat c) (CHR '','') 0 = Some (length e)"
    and "find_char_from (e @ '','' @ to_string_nat r @ '','' @ to_string_nat c) (CHR '','') (Suc (length e))
      = Some (Suc (length e + length (to_string_nat r)))"
  using find_char_append [OF assms(1)]
    find_char_from_append [of "e @ '',''" "to_string_nat r @ '','' @ to_string_nat c" "CHR '',''"]
    find_char_append [OF comma_to_string, of r "to_string_nat c"]
  by simp_all

lemma matrix_reads:
  "styio_matrix_elem_type_name (scalar_type DT_Matrix (''matrix['' @ inner @ '']'') 0)
     = (case find_char_from inner (CHR '','') 0 of
          Some comma \<Rightarrow> substr inner 0 comma | None \<Rightarrow> if inner \<noteq> [] then inner else ''i64'')"
  "styio_matrix_row_count (scalar_type DT_Matrix (''matrix['' @ inner @ '']'') 0)
     = (case find_char_from inner (CHR '','') 0 of
          None \<Rightarrow> 0
        | Some first \<Rightarrow> (case find_char_from inner (CHR '','') (first + 1) of
              None \<Rightarrow> 0
            | Some second \<Rightarrow>
                if second \<le> first + 1 then 0
                else (case stoull (substr inner (first + 1) (second - first - 1)) of
                        Some n \<Rightarrow> n | None \<Rightarrow> 0)))"
  "styio_matrix_col_count (scalar_type DT_Matrix (''matrix['' @ inner @ '']'') 0)
     = (case find_char_from inner (CHR '','') 0 of
          None \<Rightarrow> 0
        | Some first \<Rightarrow> (case find_char_from inner (CHR '','') (first + 1) of
              None \<Rightarrow> 0
            | Some second \<Rightarrow>
                if length inner \<le> second + 1 then 0
                else (case stoull (drop (second + 1) inner) of Some n \<Rightarrow> n | None \<Rightarrow> 0)))"
proof -
  have i: "substr (''matrix['' @ inner @ '']'') 7 (length inner) = inner"
    by (simp add: substr_def)
  have m: "styio_is_matrix_type (scalar_type DT_Matrix nm 0)" for nm
    by (simp add: styio_is_matrix_type_def)
  note s = i m bracketed_append Let_def scalar_type_sel length_append
  show "styio_matrix_elem_type_name (scalar_type DT_Matrix (''matrix['' @ inner @ '']'') 0)
     = (case find_char_from inner (CHR '','') 0 of
          Some comma \<Rightarrow> substr inner 0 comma | None \<Rightarrow> if inner \<noteq> [] then inner else ''i64'')"
    by (simp add: styio_matrix_elem_type_name_def s del: append.simps)
  show "styio_matrix_row_count (scalar_type DT_Matrix (''matrix['' @ inner @ '']'') 0)
     = (case find_char_from inner (CHR '','') 0 of
          None \<Rightarrow> 0
        | Some first \<Rightarrow> (case find_char_from inner (CHR '','') (first + 1) of
              None \<Rightarrow> 0
            | Some second \<Rightarrow>
                if second \<le> first + 1 then 0
                else (case stoull (substr inner (first + 1) (second - first - 1)) of
                        Some n \<Rightarrow> n | None \<Rightarrow> 0)))"
    by (simp add: styio_matrix_row_count_def s del: append.simps)
  show "styio_matrix_col_count (scalar_type DT_Matrix (''matrix['' @ inner @ '']'') 0)
     = (case find_char_from inner (CHR '','') 0 of
          None \<Rightarrow> 0
        | Some first \<Rightarrow> (case find_char_from inner (CHR '','') (first + 1) of
              None \<Rightarrow> 0
            | Some second \<Rightarrow>
                if length inner \<le> second + 1 then 0
                else (case stoull (drop (second + 1) inner) of Some n \<Rightarrow> n | None \<Rightarrow> 0)))"
    by (simp add: styio_matrix_col_count_def s del: append.simps)
qed

lemma matrix_parts:
  assumes "CHR '','' \<notin> set e" "e \<noteq> []" "r < 2 ^ 64" "c < 2 ^ 64"
  shows "styio_matrix_elem_type_name (scalar_type DT_Matrix (matrix_type_name e r c) 0) = e"
    "styio_matrix_row_count (scalar_type DT_Matrix (matrix_type_name e r c) 0) = r"
    "styio_matrix_col_count (scalar_type DT_Matrix (matrix_type_name e r c) 0) = c"
proof -
  have none: "find_char_from e (CHR '','') 0 = None"
    using assms(1) by (simp add: find_char_None)
  have s: "stoull (to_string_nat n) = Some n" if "n < 2 ^ 64" for n
    using stoull_to_string [OF that, of "[]"] by simp
  have mid: "substr (e @ '','' @ to_string_nat r @ '','' @ to_string_nat c) (Suc (length e)) (length (to_string_nat r)) = to_string_nat r"
    using substr_middle [of "e @ '',''" "to_string_nat r" "'','' @ to_string_nat c"] by simp
  note e = matrix_commas [OF assms(1), of r c] none mid assms(2) s [OF assms(3)] s [OF assms(4)]
  show "styio_matrix_elem_type_name (scalar_type DT_Matrix (matrix_type_name e r c) 0) = e"
    "styio_matrix_row_count (scalar_type DT_Matrix (matrix_type_name e r c) 0) = r"
    "styio_matrix_col_count (scalar_type DT_Matrix (matrix_type_name e r c) 0) = c"
    unfolding matrix_inner matrix_reads using e
    by (cases "r \<noteq> 0 \<or> c \<noteq> 0"; simp add: substr_def)+
qed

lemma matrix_from_name:
  assumes "CHR '','' \<notin> set e" "e \<noteq> []" "r < 2 ^ 64" "c < 2 ^ 64"
  shows "styio_data_type_from_name (matrix_type_name e r c) = styio_make_matrix_type e r c"
  using matrix_parts [OF assms]
  by (subst styio_data_type_from_name.simps)
    (simp add: DTypeTable_no_bracket starts_with_def matrix_type_name_def)

lemma task_from_name:
  assumes "e \<noteq> []"
  shows "styio_data_type_from_name (''task['' @ e @ '']'') = styio_make_task_type e"
  using assms
  by (subst styio_data_type_from_name.simps)
    (simp add: DTypeTable_no_bracket starts_with_def task_elem_name_def substr_def styio_make_task_type_def
      styio_value_family_from_type_name_def)

lemma dict_name_with_comma:
  assumes "CHR '','' \<notin> set k1"
  shows "styio_data_type_from_name (dt_name (styio_make_dict_type (k1 @ '','' @ k2) v))
     = styio_make_dict_type k1 (k2 @ '','' @ v)"
  using dict_from_name [OF assms, of "k2 @ '','' @ v"] by simp

lemma find_prefix_no_char:
  assumes "find_char_from s c 0 = Some i"
  shows "c \<notin> set (substr s 0 i)" "i < length s" "s ! i = c"
    using find_char_from_SomeD [OF assms] by (auto simp: in_set_conv_nth substr_def)

lemma stoull_bound: "stoull s = Some n \<Longrightarrow> n < 2 ^ 64"
  by (auto simp: stoull_def Let_def split: prod.splits if_splits)

lemma matrix_counts_bound:
  "styio_matrix_row_count t < 2 ^ 64" "styio_matrix_col_count t < 2 ^ 64"
  using stoull_bound by (auto simp: styio_matrix_row_count_def styio_matrix_col_count_def Let_def
      split: option.splits)

lemma matrix_elem_name:
  assumes "\<not> starts_with nm ''matrix[,''"
  shows "CHR '','' \<notin> set (styio_matrix_elem_type_name (scalar_type DT_Matrix nm 0))"
    "styio_matrix_elem_type_name (scalar_type DT_Matrix nm 0) \<noteq> []"
proof -
  have "CHR '','' \<notin> set (styio_matrix_elem_type_name (scalar_type DT_Matrix nm 0))
     \<and> styio_matrix_elem_type_name (scalar_type DT_Matrix nm 0) \<noteq> []"
  proof (cases "bracketed ''matrix['' nm")
    case False
    then show ?thesis by (simp add: styio_matrix_elem_type_name_def)
  next
    case True
    from bracketedD [OF this] obtain inner where nm: "nm = ''matrix['' @ inner @ '']''" by simp
    show ?thesis
    proof (cases "find_char_from inner (CHR '','') 0")
      case None
      then show ?thesis by (simp only: nm matrix_reads) (simp add: find_char_None)
    next
      case (Some comma)
      note f = find_prefix_no_char [OF Some]
      have "comma \<noteq> 0"
      proof
        assume "comma = 0"
        with f(2,3) obtain r where "inner = CHR '','' # r" by (cases inner) auto
        with assms nm show False by (simp add: starts_with_def)
      qed
      moreover have "inner \<noteq> []" using f(2) by auto
      ultimately show ?thesis using f Some by (simp only: nm matrix_reads) (simp add: substr_def)
    qed
  qed
  then show "CHR '','' \<notin> set (styio_matrix_elem_type_name (scalar_type DT_Matrix nm 0))"
    "styio_matrix_elem_type_name (scalar_type DT_Matrix nm 0) \<noteq> []" by auto
qed

lemma dict_component_names:
  "CHR '','' \<notin> set (styio_dict_key_type_name (scalar_type DT_Dict nm 0))"
  "styio_dict_value_type_name (scalar_type DT_Dict nm 0) \<noteq> []"
  by (auto simp: styio_dict_key_type_name_def styio_dict_value_type_name_def Let_def
      dest: find_prefix_no_char split: option.splits)

lemma table_idempotent:
  "map_of DTypeTable nm = Some t \<Longrightarrow> styio_data_type_from_name (dt_name t) = t"
proof -
  have "\<forall>p\<in>set DTypeTable. styio_data_type_from_name (dt_name (snd p)) = snd p"
  proof -
    have "styio_data_type_from_name (dt_name (styio_make_matrix_type ''i64'' 0 0)) = styio_make_matrix_type ''i64'' 0 0"
      using matrix_from_name [of "''i64''" 0 0] by simp
    moreover have "styio_data_type_from_name n = t" if "map_of DTypeTable n = Some t" for n t
      using that by (subst styio_data_type_from_name.simps) simp
    ultimately show ?thesis
      unfolding DTypeTable_def by (simp only: list.set ball_simps snd_conv) simp
  qed
  then show "map_of DTypeTable nm = Some t \<Longrightarrow> styio_data_type_from_name (dt_name t) = t"
    by (auto dest!: map_of_SomeD)
qed

text \<open>
  resolving a type name and then resolving the resulting type's own name gives the same
  type: the canonical name of a resolved type stands for that type. The one exception is a
  matrix written with an empty element type.
\<close>

theorem from_name_idempotent:
  assumes "\<not> starts_with nm ''matrix[,''"
  shows "styio_data_type_from_name (dt_name (styio_data_type_from_name nm)) = styio_data_type_from_name nm"
proof (cases "map_of DTypeTable nm")
  case (Some t)
  then show ?thesis by (simp add: styio_data_type_from_name.simps [of nm] table_idempotent)
next
  case None
  consider "starts_with nm ''list[''" | "\<not> starts_with nm ''list[''" "starts_with nm ''dict[''"
    | "\<not> starts_with nm ''list[''" "\<not> starts_with nm ''dict[''" "nm = ''matrix'' \<or> starts_with nm ''matrix[''"
    | "dt_name (styio_data_type_from_name nm) = nm"
  proof -
    have "dt_name (styio_data_type_from_name nm) = nm"
      if "\<not> starts_with nm ''list[''" "\<not> starts_with nm ''dict[''"
        "\<not> (nm = ''matrix'' \<or> starts_with nm ''matrix['')"
      using None that
      by (simp add: styio_data_type_from_name.simps [of nm] task_type_def handle_type_def split: option.split)
    then show ?thesis using that by blast
  qed
  then show ?thesis
  proof cases
    case 1
    then show ?thesis using None
      by (simp add: styio_data_type_from_name.simps [of nm] list_from_name [simplified])
  next
    case 2
    then show ?thesis using None dict_component_names [of nm]
      by (simp add: styio_data_type_from_name.simps [of nm] dict_from_name [simplified])
  next
    case 3
    then show ?thesis using None matrix_elem_name [OF assms] matrix_counts_bound
      by (simp add: styio_data_type_from_name.simps [of nm] matrix_from_name)
  next
    case 4
    then show ?thesis by simp
  qed
qed

subsection \<open>Promotion is a join\<close>

locale join_on =
  fixes carrier :: "'a \<Rightarrow> bool" and join :: "'a \<Rightarrow> 'a \<Rightarrow> 'a"
  assumes join_closed: "carrier x \<Longrightarrow> carrier y \<Longrightarrow> carrier (join x y)"
    and join_idem: "carrier x \<Longrightarrow> join x x = x"
    and join_comm: "carrier x \<Longrightarrow> carrier y \<Longrightarrow> join x y = join y x"
    and join_assoc: "carrier x \<Longrightarrow> carrier y \<Longrightarrow> carrier z \<Longrightarrow> join (join x y) z = join x (join y z)"
begin

lemma upper_left: "carrier x \<Longrightarrow> carrier y \<Longrightarrow> join x (join x y) = join x y"
  using join_assoc [of x x y] join_idem [of x] by simp

lemma least: "carrier x \<Longrightarrow> carrier y \<Longrightarrow> carrier z \<Longrightarrow> join x z = z \<Longrightarrow> join y z = z \<Longrightarrow> join (join x y) z = z"
  using join_assoc [of x y z] by simp

lemma foldl_closed: "carrier a \<Longrightarrow> list_all carrier xs \<Longrightarrow> carrier (foldl join a xs)"
  by (induction xs arbitrary: a) (simp_all add: join_closed)

lemma foldl_join: "carrier a \<Longrightarrow> carrier b \<Longrightarrow> list_all carrier xs \<Longrightarrow> foldl join (join a b) xs = join a (foldl join b xs)"
  by (induction xs arbitrary: b) (simp_all add: join_assoc join_closed)

lemma swap_heads: "carrier a \<Longrightarrow> carrier b \<Longrightarrow> foldl join a (b # xs) = foldl join b (a # xs)"
  by (simp add: join_comm)

end

definition numeric_type :: "styio_data_type \<Rightarrow> bool" where
  "numeric_type t \<longleftrightarrow>
     (0 < dt_num_of_bit t \<and> t = scalar_type DT_Integer (''i'' @ to_string_nat (dt_num_of_bit t)) (dt_num_of_bit t))
     \<or> t = float_type_for 32 \<or> t = float_type_for 64"

lemma numeric_cases:
  assumes "numeric_type t"
  obtains (int) b where "0 < b" "t = scalar_type DT_Integer (''i'' @ to_string_nat b) b"
    | (float) b where "b = 32 \<or> b = 64" "t = float_type_for b"
  using assms by (auto simp: numeric_type_def)

lemma float_type_for_sel [simp]:
  "dt_option (float_type_for b) = DT_Float" "dt_num_of_bit (float_type_for b) = (if 32 < b then 64 else 32)"
  by (simp_all add: float_type_for_def)

lemma float_type_for_eq: "float_type_for a = float_type_for b \<longleftrightarrow> (32 < a \<longleftrightarrow> 32 < b)"
  by (auto simp: float_type_for_def scalar_type_def)

lemma float_type_for_norm: "32 < b \<Longrightarrow> float_type_for b = float_type_for 64" "\<not> 32 < b \<Longrightarrow> float_type_for b = float_type_for 32"
  by (simp_all add: float_type_for_eq)

lemmas promotion_simps = getMaxType_def Let_def isInteger_def isFloat_def

interpretation numeric_join: join_on numeric_type getMaxType
proof
  fix x y z
  assume x: "numeric_type x"
  then show "getMaxType x x = x"
    by (cases rule: numeric_cases) (auto simp: promotion_simps float_type_for_eq)
  assume y: "numeric_type y"
  with x show "numeric_type (getMaxType x y)"
    by (elim numeric_cases) (auto simp: promotion_simps numeric_type_def float_type_for_eq)
  from x y show "getMaxType x y = getMaxType y x"
    by (elim numeric_cases) (auto simp: promotion_simps max.commute)
  assume "numeric_type z"
  with x y show "getMaxType (getMaxType x y) z = getMaxType x (getMaxType y z)"
    by (elim numeric_cases) (auto simp: promotion_simps max.assoc float_type_for_eq less_max_iff_disj)
qed

lemma numeric_table: "list_all numeric_type [styio_data_type_from_name nm. nm <- [''int'', ''long'', ''i1'', ''i8'', ''i16'', ''i32'', ''i64'', ''i128'', ''float'', ''double'', ''f32'', ''f64'']]"
  by (simp add: styio_data_type_from_name.simps DTypeTable_def numeric_type_def float_type_for_def
      to_string_nat.simps)





lemma from_name_idempotent_witness:
  "styio_data_type_from_name (dt_name (styio_data_type_from_name ''matrix[f64,2,x]'')) = styio_data_type_from_name ''matrix[f64,2,x]''"
  by (rule from_name_idempotent) (simp add: starts_with_def)

text \<open>
  C8: a key type whose name contains a comma does not survive: the name is cut at its first
  comma, so \<open>dict[dict[string,i64],v]\<close> is read as a map from \<open>dict[string\<close> to \<open>i64],v\<close>.
\<close>

theorem dict_key_comma_misread:
  assumes "CHR '','' \<notin> set k1"
  shows "styio_data_type_from_name (dt_name (styio_make_dict_type (k1 @ '','' @ k2) v))
     = styio_make_dict_type k1 (k2 @ '','' @ v)"
  by (rule dict_name_with_comma [OF assms])

lemma dict_key_comma_misread_witness:
  "styio_data_type_from_name (dt_name (styio_make_dict_type (''dict[string'' @ '','' @ ''i64]'') ''bool''))
     = styio_make_dict_type ''dict[string'' (''i64]'' @ '','' @ ''bool'')"
  by (rule dict_key_comma_misread) simp

lemma type_equals_iff: "type_equals a b \<longleftrightarrow> a = b"
  by (cases a; cases b) (auto simp: type_equals_def)

end
