(* ===== verification/Styio_Lexer.thy ===== *)
theory Styio_Lexer
  imports Styio_Unicode Styio_Token "HOL-Library.Monad_Syntax"
begin

text \<open>
  The tokenizer (\<open>StyioTokenizer::tokenize\<close> and its helpers, src/src/StyioParser/Tokenizer.cpp).
  One turn of its outer loop is \<open>lex_turn\<close>, composed in the order of the source: white space,
  comments, identifiers, numbers, then the big switch over the current character, whose cases
  are grouped by the comments that number them. A turn yields the tokens it appends and the
  new offset, or the error it throws; \<open>tokenize\<close> iterates turns. A locale states what any
  scanner of this kind owes its callers (progress and losslessness) and is interpreted on it.
\<close>

datatype lex_error =
    UnterminatedBlockComment nat
  | UnterminatedString nat
  | UnterminatedNativeExtern nat

fun lex_error_message :: "lex_error \<Rightarrow> string" where
  "lex_error_message (UnterminatedBlockComment p) = ''Unterminated block comment at offset '' @ to_string_nat p"
| "lex_error_message (UnterminatedString p) = ''Unterminated string literal at offset '' @ to_string_nat p"
| "lex_error_message (UnterminatedNativeExtern p) = ''Unterminated native @extern block at offset '' @ to_string_nat p"

type_synonym turn = "lex_error + (styio_token list \<times> nat)"

subsection \<open>Looking back over the tokens\<close>

definition tokenizer_is_trivia :: "styio_token_type \<Rightarrow> bool" where
  "tokenizer_is_trivia t \<longleftrightarrow> t = TOK_SPACE \<or> t = TOK_LF \<or> t = TOK_CR \<or> t = COMMENT_LINE \<or> t = COMMENT_CLOSED"

fun prev_non_trivia_index :: "styio_token list \<Rightarrow> nat \<Rightarrow> nat option" where
  "prev_non_trivia_index tokens 0 = None"
| "prev_non_trivia_index tokens (Suc before) =
     (if \<not> tokenizer_is_trivia (tok_type (tokens ! before)) then Some before
      else prev_non_trivia_index tokens before)"

text \<open>One link of the chain: the previous token that is not trivia, if it is of the kind wanted.\<close>

definition prev_of_type :: "styio_token list \<Rightarrow> styio_token_type \<Rightarrow> nat \<Rightarrow> nat option" where
  "prev_of_type tokens t before = do {
     cur \<leftarrow> prev_non_trivia_index tokens before;
     if tok_type (tokens ! cur) = t then Some cur else None }"

definition recent_tokens_open_native_extern_body :: "styio_token list \<Rightarrow> bool" where
  "recent_tokens_open_native_extern_body tokens \<longleftrightarrow>
     do {
       arrow \<leftarrow> prev_of_type tokens ARROW_DOUBLE_RIGHT (length tokens);
       rparen \<leftarrow> prev_of_type tokens TOK_RPAREN arrow;
       cur \<leftarrow> prev_non_trivia_index tokens rparen;
       (is_cpp_abi, cur) \<leftarrow>
         (if tok_type (tokens ! cur) = TOK_PLUS then do {
            plus \<leftarrow> prev_of_type tokens TOK_PLUS cur;
            cur \<leftarrow> prev_non_trivia_index tokens plus;
            Some (True, cur) }
          else Some (False, cur));
       abi \<leftarrow> (if tok_type (tokens ! cur) = NAME then Some (map tolower (original (tokens ! cur))) else None);
       _ \<leftarrow> (if abi = ''c'' then Some () else None);
       lparen \<leftarrow> prev_of_type tokens TOK_LPAREN cur;
       kw \<leftarrow> prev_of_type tokens NAME lparen;
       _ \<leftarrow> (if original (tokens ! kw) = ''extern'' then Some () else None);
       at \<leftarrow> prev_of_type tokens TOK_AT kw;
       if is_cpp_abi \<or> abi = ''c'' then Some () else None
     } \<noteq> None"

subsection \<open>Native extern bodies\<close>

definition raw_string_prefix :: "string \<Rightarrow> nat \<Rightarrow> string option" where
  "raw_string_prefix code start =
     (if cmp_at code start ''u8R'' then Some ''u8R''
      else if cmp_at code start ''uR'' \<or> cmp_at code start ''UR'' \<or> cmp_at code start ''LR''
        then Some (substr code start 2)
      else if cmp_at code start ''R'' then Some ''R''
      else None)"

text \<open>\<open>styio_try_scan_raw_string_literal_end\<close>: the offset after a raw string literal that starts
  here, when there is one.\<close>

definition try_scan_raw_string_literal_end :: "string \<Rightarrow> nat \<Rightarrow> nat option" where
  "try_scan_raw_string_literal_end code start = do {
     prefix \<leftarrow> raw_string_prefix code start;
     let quote_pos = start + length prefix;
     if length code \<le> quote_pos \<or> code ! quote_pos \<noteq> CHR 0x22 then None
     else do {
       open_paren \<leftarrow> find_char_from code (CHR ''('') (quote_pos + 1);
       let delimiter = substr code (quote_pos + 1) (open_paren - quote_pos - 1);
       let close_marker = '')'' @ delimiter @ [CHR 0x22];
       close_pos \<leftarrow> find_str_from code close_marker (open_paren + 1);
       Some (close_pos + length close_marker) } }"

datatype scan_mode = ModeNormal | ModeLineComment | ModeBlockComment | ModeStringLiteral | ModeCharLiteral

record scan_state =
  sc_mode :: scan_mode
  sc_escaped :: bool
  sc_brace_depth :: int
  sc_loc :: nat

definition char_at_or_nul :: "string \<Rightarrow> nat \<Rightarrow> char" where
  "char_at_or_nul code i = (if i < length code then code ! i else CHR 0x00)"

abbreviation advance :: "nat \<Rightarrow> scan_state \<Rightarrow> scan_state" where
  "advance n s \<equiv> s \<lparr> sc_loc := sc_loc s + n \<rparr>"

text \<open>A turn in \<open>Mode::Normal\<close>; \<open>Inl\<close> is the return of the body's end.\<close>

definition scan_normal :: "string \<Rightarrow> scan_state \<Rightarrow> nat + scan_state" where
  "scan_normal code s =
     (let loc = sc_loc s; ch = code ! loc; nxt = char_at_or_nul code (loc + 1) in
      case try_scan_raw_string_literal_end code loc of
        Some raw_end \<Rightarrow> Inr (s \<lparr> sc_loc := raw_end \<rparr>)
      | None \<Rightarrow>
        if ch = CHR ''/'' \<and> nxt = CHR ''/'' then Inr (advance 2 s \<lparr> sc_mode := ModeLineComment \<rparr>)
        else if ch = CHR ''/'' \<and> nxt = CHR ''*'' then Inr (advance 2 s \<lparr> sc_mode := ModeBlockComment \<rparr>)
        else if ch = CHR 0x22 then
          Inr (advance 1 s \<lparr> sc_mode := ModeStringLiteral, sc_escaped := False \<rparr>)
        else if ch = CHR 0x27 then
          Inr (advance 1 s \<lparr> sc_mode := ModeCharLiteral, sc_escaped := False \<rparr>)
        else if ch = CHR ''{'' then Inr (advance 1 s \<lparr> sc_brace_depth := sc_brace_depth s + 1 \<rparr>)
        else if ch = CHR ''}'' then
          (if sc_brace_depth s - 1 = 0 then Inl loc
           else Inr (advance 1 s \<lparr> sc_brace_depth := sc_brace_depth s - 1 \<rparr>))
        else Inr (advance 1 s))"

text \<open>A turn inside a string or character literal closed by \<open>close\<close>.\<close>

definition scan_quoted :: "char \<Rightarrow> string \<Rightarrow> scan_state \<Rightarrow> scan_state" where
  "scan_quoted close code s =
     (let ch = code ! sc_loc s in
      if sc_escaped s then advance 1 s \<lparr> sc_escaped := False \<rparr>
      else if ch = CHR 0x5C then advance 1 s \<lparr> sc_escaped := True \<rparr>
      else if ch = close then advance 1 s \<lparr> sc_mode := ModeNormal \<rparr>
      else advance 1 s)"

definition scan_step :: "string \<Rightarrow> scan_state \<Rightarrow> nat + scan_state" where
  "scan_step code s =
     (let ch = code ! sc_loc s; nxt = char_at_or_nul code (sc_loc s + 1) in
      case sc_mode s of
        ModeNormal \<Rightarrow> scan_normal code s
      | ModeLineComment \<Rightarrow>
          Inr (if ch = CHR 0x0A \<or> ch = CHR 0x0D then advance 1 s \<lparr> sc_mode := ModeNormal \<rparr> else advance 1 s)
      | ModeBlockComment \<Rightarrow>
          Inr (if ch = CHR ''*'' \<and> nxt = CHR ''/'' then advance 2 s \<lparr> sc_mode := ModeNormal \<rparr> else advance 1 s)
      | ModeStringLiteral \<Rightarrow> Inr (scan_quoted (CHR 0x22) code s)
      | ModeCharLiteral \<Rightarrow> Inr (scan_quoted (CHR 0x27) code s))"

lemma raw_end_after: "try_scan_raw_string_literal_end code start = Some e \<Longrightarrow> start < e \<and> e \<le> length code"
  by (auto simp: try_scan_raw_string_literal_end_def Let_def bind_eq_Some_conv
      dest!: find_char_from_SomeD find_str_from_SomeD split: if_splits)

lemma scan_step_progress: "scan_step code s = Inr s' \<Longrightarrow> sc_loc s < sc_loc s'"
  by (auto simp: scan_step_def scan_normal_def scan_quoted_def Let_def
      dest: raw_end_after split: scan_mode.splits if_splits option.splits)

text \<open>The loop of \<open>styio_scan_native_extern_body_end\<close>; \<open>None\<close> is running off the end.\<close>

function scan_loop :: "string \<Rightarrow> scan_state \<Rightarrow> nat option" where
  "scan_loop code s =
     (if sc_loc s < length code then
        (case scan_step code s of Inl e \<Rightarrow> Some e | Inr s' \<Rightarrow> scan_loop code s')
      else None)"
  by pat_completeness auto
termination
  by (relation "measure (\<lambda>(code, s). length code - sc_loc s)") (auto dest: scan_step_progress)

declare scan_loop.simps [simp del]

definition scan_native_extern_body_end :: "string \<Rightarrow> nat \<Rightarrow> lex_error + nat" where
  "scan_native_extern_body_end code body_start =
     (case scan_loop code \<lparr> sc_mode = ModeNormal, sc_escaped = False, sc_brace_depth = 1, sc_loc = body_start \<rparr> of
        Some e \<Rightarrow> Inr e
      | None \<Rightarrow> Inl (UnterminatedNativeExtern body_start))"

subsection \<open>One turn of the tokenizer\<close>

text \<open>\<open>count_consecutive\<close>, with the counter of its loop.\<close>

function count_from :: "string \<Rightarrow> nat \<Rightarrow> char \<Rightarrow> nat \<Rightarrow> nat" where
  "count_from txt start target count =
     (if start + count < length txt \<and> txt ! (start + count) = target
      then count_from txt start target (count + 1) else count)"
  by pat_completeness auto
termination by (relation "measure (\<lambda>(txt, start, target, count). length txt - (start + count))") auto

declare count_from.simps [simp del]

definition count_consecutive :: "string \<Rightarrow> nat \<Rightarrow> char \<Rightarrow> nat" where
  "count_consecutive txt start target = count_from txt start target 0"

definition emit :: "styio_token_type \<Rightarrow> string \<Rightarrow> nat \<Rightarrow> nat \<Rightarrow> turn" where
  "emit t literal loc n = Inr ([Create t literal], loc + n)"

definition next_is :: "string \<Rightarrow> nat \<Rightarrow> char \<Rightarrow> bool" where
  "next_is code loc c \<longleftrightarrow> loc + 1 < length code \<and> code ! (loc + 1) = c"

definition lex_whitespace :: "string \<Rightarrow> nat \<Rightarrow> turn option" where
  "lex_whitespace code loc =
     (let ch = code ! loc in
      if ch = CHR '' '' \<or> ch = CHR 0x09 \<or> ch = CHR 0x0B \<or> ch = CHR 0x0C then Some (emit TOK_SPACE [ch] loc 1)
      else if ch = CHR 0x0A then Some (emit TOK_LF [CHR 0x0A] loc 1)
      else if ch = CHR 0x0D then Some (emit TOK_CR [CHR 0x0D] loc 1)
      else None)"

definition lex_comment :: "string \<Rightarrow> nat \<Rightarrow> turn option" where
  "lex_comment code loc =
     (if cmp_at code loc ''//'' then
        (let (literal, loc') = accumulate (\<lambda>l. code ! l \<noteq> CHR 0x0A \<and> code ! l \<noteq> CHR 0x0D) code (loc + 2) ''//'' in
         Some (Inr ([Create COMMENT_LINE literal], loc')))
      else if cmp_at code loc ''/*'' then
        (let (literal, loc') = accumulate (\<lambda>l. \<not> cmp_at code l ''*/'') code (loc + 2) ''/*'' in
         if length code \<le> loc' then Some (Inl (UnterminatedBlockComment loc))
         else Some (Inr ([Create COMMENT_CLOSED (literal @ ''*/'')], loc' + 2)))
      else None)"

definition lex_word :: "string \<Rightarrow> nat \<Rightarrow> turn option" where
  "lex_word code loc =
     (if is_identifier_start (code ! loc) then
        (let (literal, loc') = accumulate (\<lambda>l. is_identifier_continue (code ! l)) code (loc + 1) [code ! loc] in
         if literal = ''_'' then Some (Inr ([Create TOK_UNDLINE ''_''], loc'))
         else Some (Inr ([Create NAME literal], loc')))
      else None)"

definition lex_number :: "string \<Rightarrow> nat \<Rightarrow> turn option" where
  "lex_number code loc =
     (if is_digit (code ! loc) then
        (let (literal, loc') = accumulate (\<lambda>l. is_digit (code ! l)) code (loc + 1) [code ! loc] in
         if loc' + 1 < length code \<and> code ! loc' = CHR ''.'' \<and> is_digit (code ! (loc' + 1)) then
           (let (literal', loc'') = accumulate (\<lambda>l. is_digit (code ! l)) code (loc' + 2)
                                      (literal @ [code ! loc'] @ [code ! (loc' + 1)]) in
            Some (Inr ([Create DECIMAL literal'], loc'')))
         else Some (Inr ([Create INTEGER literal], loc')))
      else None)"

definition lex_string :: "string \<Rightarrow> nat \<Rightarrow> turn" where
  "lex_string code loc =
     (let (literal, loc') = accumulate (\<lambda>l. code ! l \<noteq> CHR 0x22) code (loc + 1) [CHR 0x22] in
      if length code \<le> loc' then Inl (UnterminatedString loc)
      else Inr ([Create STRING (literal @ [CHR 0x22])], loc' + 1))"

text \<open>Of the switch over the current character, the cases 33 to 39.\<close>

definition lex_op_33_39 :: "string \<Rightarrow> nat \<Rightarrow> turn option" where
  "lex_op_33_39 code loc =
     (let ch = code ! loc in
      if ch = CHR ''!'' then Some (
       if next_is code loc (CHR ''='') then emit BINOP_NE ''!='' loc 2
       else emit TOK_EXCLAM ''!'' loc 1)
      else if ch = CHR 0x22 then Some (
       lex_string code loc)
      else if ch = CHR ''#'' then Some (
       emit TOK_HASH ''#'' loc 1)
      else if ch = CHR ''$'' then Some (
       emit TOK_DOLLAR ''$'' loc 1)
      else if ch = CHR ''%'' then Some (
       if next_is code loc (CHR ''='') then emit COMPOUND_MOD ''%='' loc 2
       else emit TOK_PERCENT ''%'' loc 1)
      else if ch = CHR ''&'' then Some (
       if next_is code loc (CHR ''&'') then emit LOGIC_AND ''&&'' loc 2
       else emit TOK_AMP ''&'' loc 1)
      else if ch = CHR 0x27 then Some (
       emit TOK_SQUOTE [CHR 0x27] loc 1)
      else None)"

text \<open>Of the switch over the current character, the cases 40 to 47: \<open>( ) * + , - . /\<close>.\<close>

definition lex_op_40_47 :: "string \<Rightarrow> nat \<Rightarrow> turn option" where
  "lex_op_40_47 code loc =
     (let ch = code ! loc in
      if ch = CHR ''('' then Some (
       emit TOK_LPAREN ''('' loc 1)
      else if ch = CHR '')'' then Some (
       emit TOK_RPAREN '')'' loc 1)
      else if ch = CHR ''*'' then Some (
       if next_is code loc (CHR ''*'') then emit BINOP_POW ''**'' loc 2
       else if next_is code loc (CHR ''='') then emit COMPOUND_MUL ''*='' loc 2
       else emit TOK_STAR ''*'' loc 1)
      else if ch = CHR ''+'' then Some (
       if next_is code loc (CHR ''='') then emit COMPOUND_ADD ''+='' loc 2
       else emit TOK_PLUS ''+'' loc 1)
      else if ch = CHR '','' then Some (
       emit TOK_COMMA '','' loc 1)
      else if ch = CHR ''-'' then Some (
       if next_is code loc (CHR ''>'') then emit ARROW_SINGLE_RIGHT ''->'' loc 2
       else if next_is code loc (CHR ''-'') then
         (let count = 2 + count_consecutive code (loc + 2) (CHR ''-'') in
          emit SINGLE_SEP_LINE (replicate count (CHR ''-'')) loc count)
       else if next_is code loc (CHR ''='') then emit COMPOUND_SUB ''-='' loc 2
       else emit TOK_MINUS ''-'' loc 1)
      else if ch = CHR ''.'' then Some (
       let count = 1 + count_consecutive code (loc + 1) (CHR ''.'') in
        if count = 1 then emit TOK_DOT ''.'' loc count
        else emit ELLIPSIS (replicate count (CHR ''.'')) loc count)
      else if ch = CHR ''/'' then Some (
       if next_is code loc (CHR ''='') then emit COMPOUND_DIV ''/='' loc 2
       else emit TOK_SLASH ''/'' loc 1)
      else None)"

text \<open>Of the switch over the current character, the cases 58 to 64: \<open>: ; < = > ? @\<close>.\<close>

definition lex_op_58_64 :: "string \<Rightarrow> nat \<Rightarrow> turn option" where
  "lex_op_58_64 code loc =
     (let ch = code ! loc in
      if ch = CHR '':'' then Some (
       if next_is code loc (CHR ''='') then emit WALRUS '':='' loc 2
       else emit TOK_COLON '':'' loc 1)
      else if ch = CHR '';'' then Some (
       emit TOK_SEMICOLON '';'' loc 1)
      else if ch = CHR ''<'' then Some (
       let count = 1 + count_consecutive code (loc + 1) (CHR ''<'') in
        if count = 1 then
          (if next_is code loc (CHR ''~'') then emit WAVE_LEFT ''<~'' loc 2
           else if next_is code loc (CHR ''='') then emit BINOP_LE ''<='' loc 2
           else if next_is code loc (CHR ''|'') then emit YIELD_PIPE ''<|'' loc 2
           else if next_is code loc (CHR ''-'') then emit ARROW_SINGLE_LEFT ''<-'' loc 2
           else emit TOK_LANGBRAC ''<'' loc 1)
        else emit EXTRACTOR (replicate count (CHR ''<'')) loc count)
      else if ch = CHR ''='' then Some (
       if next_is code loc (CHR ''>'') then emit ARROW_DOUBLE_RIGHT ''=>'' loc 2
       else if next_is code loc (CHR ''='') then
         (let count = 2 + count_consecutive code (loc + 2) (CHR ''='') in
          if count = 2 then emit BINOP_EQ ''=='' loc count
          else emit DOUBLE_SEP_LINE (replicate count (CHR ''='')) loc count)
       else emit TOK_EQUAL ''='' loc 1)
      else if ch = CHR ''>'' then Some (
       if next_is code loc (CHR ''_'') then emit PRINT ''>_'' loc 2
       else if next_is code loc (CHR ''>'') then
         (let count = 2 + count_consecutive code (loc + 2) (CHR ''>'') in
          emit ITERATOR (replicate count (CHR ''>'')) loc count)
       else if next_is code loc (CHR ''='') then emit BINOP_GE ''>='' loc 2
       else emit TOK_RANGBRAC ''>'' loc 1)
      else if ch = CHR ''?'' then Some (
       if next_is code loc (CHR ''|'') then emit AWAIT_PIPE ''?|'' loc 2
       else if next_is code loc (CHR ''='') then emit MATCH ''?='' loc 2
       else if next_is code loc (CHR ''?'') then emit DBQUESTION ''??'' loc 2
       else emit TOK_QUEST ''?'' loc 1)
      else if ch = CHR ''@'' then Some (
       emit TOK_AT ''@'' loc 1)
      else None)"

text \<open>Of the switch over the current character, the cases 91 to 96.\<close>

definition lex_op_91_96 :: "string \<Rightarrow> nat \<Rightarrow> turn option" where
  "lex_op_91_96 code loc =
     (let ch = code ! loc in
      if ch = CHR ''['' then Some (
       if next_is code loc (CHR ''|'') then emit BOUNDED_BUFFER_OPEN ''[|'' loc 2
       else emit TOK_LBOXBRAC ''['' loc 1)
      else if ch = CHR 0x5C then Some (
       emit TOK_BACKSLASH [CHR 0x5C] loc 1)
      else if ch = CHR '']'' then Some (
       emit TOK_RBOXBRAC '']'' loc 1)
      else if ch = CHR ''^'' then Some (
       emit TOK_HAT ''^'' loc 1)
      else if ch = CHR ''_'' then Some (
       emit TOK_UNDLINE ''_'' loc 1)
      else if ch = CHR 0x60 then Some (
       emit TOK_BQUOTE [CHR 0x60] loc 1)
      else None)"

text \<open>Of the switch over the current character, the cases 124 to 126: \<open>| } ~\<close>.\<close>

definition lex_op_124_126 :: "string \<Rightarrow> nat \<Rightarrow> turn option" where
  "lex_op_124_126 code loc =
     (let ch = code ! loc in
      if ch = CHR ''|'' then Some (
       if loc + 2 < length code \<and> next_is code loc (CHR ''<'') \<and> code ! (loc + 2) = CHR ''|'' then emit RETURN_PIPE ''|<|'' loc 3
       else if loc + 2 < length code \<and> next_is code loc (CHR ''|'') \<and> code ! (loc + 2) = CHR ''>'' then emit TASK_LAUNCH ''||>'' loc 3
       else if next_is code loc (CHR '';'') then emit PIPE_SEMICOLON ''|;'' loc 2
       else if next_is code loc (CHR '']'') then emit BOUNDED_BUFFER_CLOSE ''|]'' loc 2
       else if next_is code loc (CHR ''|'') then emit LOGIC_OR ''||'' loc 2
       else emit TOK_PIPE ''|'' loc 1)
      else if ch = CHR ''}'' then Some (
       emit TOK_RCURBRAC ''}'' loc 1)
      else if ch = CHR ''~'' then Some (
       if next_is code loc (CHR ''>'') then emit WAVE_RIGHT ''~>'' loc 2
       else emit TOK_TILDE ''~'' loc 1)
      else None)"

text \<open>The case 123: a brace opens a native body when the tokens before it are those of
  \<open>@extern(ABI) =>\<close>.\<close>

definition lex_op_123 :: "string \<Rightarrow> styio_token list \<Rightarrow> nat \<Rightarrow> turn option" where
  "lex_op_123 code tokens loc =
     (if code ! loc = CHR ''{'' then Some (
        if recent_tokens_open_native_extern_body tokens then
          (let body_start = loc + 1 in
           case scan_native_extern_body_end code body_start of
             Inl e \<Rightarrow> Inl e
           | Inr body_end \<Rightarrow>
               Inr ([Create TOK_LCURBRAC ''{'',
                     Create NATIVE_EXTERN_BODY (substr code body_start (body_end - body_start)),
                     Create TOK_RCURBRAC ''}''], body_end + 1))
        else emit TOK_LCURBRAC ''{'' loc 1)
      else None)"

text \<open>The first of the alternatives, tried in order, that applies.\<close>

fun first_some :: "'a option list \<Rightarrow> 'a \<Rightarrow> 'a" where
  "first_some [] d = d"
| "first_some (x # xs) d = (case x of Some r \<Rightarrow> r | None \<Rightarrow> first_some xs d)"

definition lex_turn :: "string \<Rightarrow> styio_token list \<Rightarrow> nat \<Rightarrow> turn" where
  "lex_turn code tokens loc =
     first_some
       [lex_whitespace code loc, lex_comment code loc, lex_word code loc, lex_number code loc,
        lex_op_33_39 code loc, lex_op_40_47 code loc, lex_op_58_64 code loc, lex_op_91_96 code loc,
        lex_op_123 code tokens loc, lex_op_124_126 code loc]
       (emit UNKNOWN [code ! loc] loc 1)"

subsection \<open>Every turn spells the text it consumes\<close>

definition turn_ok :: "string \<Rightarrow> nat \<Rightarrow> turn \<Rightarrow> bool" where
  "turn_ok code loc r \<longleftrightarrow>
     (\<forall>ts loc'. r = Inr (ts, loc') \<longrightarrow>
        loc < loc' \<and> loc' \<le> length code \<and> concat (map original ts) = substr code loc (loc' - loc))"

lemma turn_ok_Inl [simp]: "turn_ok code loc (Inl e)"
  by (simp add: turn_ok_def)

lemma turn_ok_emit: "turn_ok code loc (emit t lit loc n) \<longleftrightarrow> 0 < n \<and> loc + n \<le> length code \<and> lit = substr code loc n"
  by (auto simp: turn_ok_def emit_def)

lemma turn_ok_Inr:
  "turn_ok code loc (Inr ([Create t lit], loc')) \<longleftrightarrow> loc < loc' \<and> loc' \<le> length code \<and> lit = substr code loc (loc' - loc)"
  by (auto simp: turn_ok_def)

lemma count_from_spec:
  "start + count \<le> length s \<Longrightarrow>
   count \<le> count_from s start c count \<and> start + count_from s start c count \<le> length s
   \<and> substr s (start + count) (count_from s start c count - count) = replicate (count_from s start c count - count) c"
proof (induction s start c count rule: count_from.induct)
  case (1 s start c count)
  show ?case
  proof (cases "start + count < length s \<and> s ! (start + count) = c")
    case True
    define n where "n = count_from s start c (count + 1)"
    have eq: "count_from s start c count = n"
      using True by (simp add: count_from.simps [of s start c count] n_def)
    have ih: "count + 1 \<le> n" "start + n \<le> length s"
      "substr s (start + (count + 1)) (n - (count + 1)) = replicate (n - (count + 1)) c"
      using "1.IH" [OF True] True unfolding n_def by auto
    then have "n - count = Suc (n - (count + 1))" by simp
    with ih True show ?thesis by (simp add: eq substr_Suc)
  next
    case False
    then show ?thesis using "1.prems" by (auto simp: count_from.simps [of s start c count])
  qed
qed

lemma count_bound: "start \<le> length s \<Longrightarrow> start + count_consecutive s start c \<le> length s"
  using count_from_spec [of start 0 s c] by (simp add: count_consecutive_def)

lemma count_bound_Suc:
  "start < length s \<Longrightarrow> Suc (start + count_consecutive s (Suc start) c) \<le> length s"
  "Suc start < length s \<Longrightarrow> Suc (Suc (start + count_consecutive s (Suc (Suc start)) c)) \<le> length s"
  using count_bound [of "Suc start" s c] count_bound [of "Suc (Suc start)" s c] by auto

lemma count_run:
  "start \<le> length s \<Longrightarrow> substr s start (count_consecutive s start c) = replicate (count_consecutive s start c) c"
  using count_from_spec [of start 0 s c] by (simp add: count_consecutive_def)

lemmas spell_simps = Let_def turn_ok_emit next_is_def substr_1 substr_2 substr_3 substr_Suc
  count_bound_Suc count_run

lemma whitespace_ok: "loc < length code \<Longrightarrow> lex_whitespace code loc = Some r \<Longrightarrow> turn_ok code loc r"
  by (auto simp: lex_whitespace_def spell_simps split: if_splits)

lemma ops_40_ok: "loc < length code \<Longrightarrow> lex_op_40_47 code loc = Some r \<Longrightarrow> turn_ok code loc r"
  by (auto simp: lex_op_40_47_def spell_simps split: if_splits)

lemma ops_58_ok: "loc < length code \<Longrightarrow> lex_op_58_64 code loc = Some r \<Longrightarrow> turn_ok code loc r"
  by (auto simp: lex_op_58_64_def spell_simps split: if_splits)

lemma ops_91_ok: "loc < length code \<Longrightarrow> lex_op_91_96 code loc = Some r \<Longrightarrow> turn_ok code loc r"
  by (auto simp: lex_op_91_96_def spell_simps split: if_splits)

lemma ops_124_ok: "loc < length code \<Longrightarrow> lex_op_124_126 code loc = Some r \<Longrightarrow> turn_ok code loc r"
  by (auto simp: lex_op_124_126_def spell_simps split: if_splits)

lemma accumulate_turn:
  assumes "accumulate cond code (loc + k) (substr code loc k) = (literal, loc')" "loc + k \<le> length code"
  shows "loc + k \<le> loc'" "loc' \<le> length code" "literal = substr code loc (loc' - loc)"
    "loc' < length code \<Longrightarrow> \<not> cond loc'" "\<forall>j\<in>{loc + k..<loc'}. cond j"
  using accumulate_spec [OF assms] substr_append_adjacent [of loc "loc + k" loc' code] by auto

lemma comment_ok:
  assumes "lex_comment code loc = Some r"
  shows "turn_ok code loc r"
proof (cases "cmp_at code loc ''//''")
  case True
  obtain literal loc' where a: "accumulate (\<lambda>l. code ! l \<noteq> CHR 0x0A \<and> code ! l \<noteq> CHR 0x0D) code (loc + 2) (substr code loc 2) = (literal, loc')"
    by force
  have "substr code loc 2 = ''//''" "loc + 2 \<le> length code"
    using cmp_at_substr [OF True, of 2] cmp_at_length [OF True] by simp_all
  with accumulate_turn [OF a] a True assms show ?thesis
    by (auto simp: lex_comment_def turn_ok_Inr)
next
  case False
  with assms have c: "cmp_at code loc ''/*''" by (auto simp: lex_comment_def split: if_splits)
  obtain literal loc' where a: "accumulate (\<lambda>l. \<not> cmp_at code l ''*/'') code (loc + 2) (substr code loc 2) = (literal, loc')"
    by force
  have s: "substr code loc 2 = ''/*''" "loc + 2 \<le> length code"
    using cmp_at_substr [OF c, of 2] cmp_at_length [OF c] by simp_all
  with accumulate_turn [OF a]
  have lit: "loc + 2 \<le> loc'" "literal = substr code loc (loc' - loc)" "loc' < length code \<Longrightarrow> cmp_at code loc' ''*/''"
    by simp_all
  show ?thesis
  proof (cases "loc' < length code")
    case True
    then have e: "cmp_at code loc' ''*/''" by (rule lit(3))
    have "literal @ ''*/'' = substr code loc (loc' + 2 - loc)"
      using substr_append_adjacent [of loc loc' "loc' + 2" code] lit(1,2) cmp_at_substr [OF e, of 2] by simp
    with cmp_at_length [OF e] lit(1) True a s c False assms show ?thesis
      by (auto simp: lex_comment_def turn_ok_Inr)
  next
    case False
    with a s c \<open>\<not> cmp_at code loc ''//''\<close> assms show ?thesis by (auto simp: lex_comment_def)
  qed
qed

lemma word_ok:
  assumes "loc < length code" "lex_word code loc = Some r"
  shows "turn_ok code loc r"
proof -
  obtain literal loc' where a: "accumulate (\<lambda>l. is_identifier_continue (code ! l)) code (loc + 1) (substr code loc 1) = (literal, loc')"
    by force
  from accumulate_turn [OF a] assms(1) have "loc < loc'" "loc' \<le> length code" "literal = substr code loc (loc' - loc)"
    by simp_all
  with a assms show ?thesis
    by (auto simp: lex_word_def turn_ok_Inr substr_1 split: if_splits)
qed

lemma number_ok:
  assumes "loc < length code" "lex_number code loc = Some r"
  shows "turn_ok code loc r"
proof -
  obtain literal loc' where a: "accumulate (\<lambda>l. is_digit (code ! l)) code (loc + 1) (substr code loc 1) = (literal, loc')"
    by force
  from accumulate_turn [OF a] assms(1)
  have l: "loc < loc'" "loc' \<le> length code" "literal = substr code loc (loc' - loc)" by simp_all
  show ?thesis
  proof (cases "loc' + 1 < length code \<and> code ! loc' = CHR ''.'' \<and> is_digit (code ! (loc' + 1))")
    case True
    obtain literal' loc'' where b: "accumulate (\<lambda>l. is_digit (code ! l)) code (loc' + 2)
        (literal @ [code ! loc'] @ [code ! (loc' + 1)]) = (literal', loc'')" by force
    have "literal @ [code ! loc'] @ [code ! (loc' + 1)] = substr code loc (loc' + 2 - loc)"
      using substr_append_adjacent [of loc loc' "loc' + 2" code] l True by (simp add: substr_2)
    with b l have "accumulate (\<lambda>l. is_digit (code ! l)) code (loc + (loc' + 2 - loc)) (substr code loc (loc' + 2 - loc)) = (literal', loc'')"
      by simp
    from accumulate_turn [OF this] l True
    have "loc < loc''" "loc'' \<le> length code" "literal' = substr code loc (loc'' - loc)" by simp_all
    with a b True assms show ?thesis
      by (simp add: lex_number_def substr_1 Let_def split: if_splits) (auto simp: turn_ok_Inr)
  next
    case False
    with a l assms show ?thesis
      by (simp add: lex_number_def substr_1 Let_def split: if_splits) (auto simp: turn_ok_Inr)
  qed
qed

lemma string_ok:
  assumes "loc < length code" "code ! loc = CHR 0x22"
  shows "turn_ok code loc (lex_string code loc)"
proof -
  obtain literal loc' where a: "accumulate (\<lambda>l. code ! l \<noteq> CHR 0x22) code (loc + 1) (substr code loc 1) = (literal, loc')"
    by force
  from accumulate_turn [OF a] assms(1)
  have l: "loc < loc'" "literal = substr code loc (loc' - loc)" "loc' < length code \<Longrightarrow> code ! loc' = CHR 0x22"
    by simp_all
  have "literal @ [CHR 0x22] = substr code loc (loc' + 1 - loc)" if "loc' < length code"
    using substr_append_adjacent [of loc loc' "loc' + 1" code] l that by (simp add: substr_1)
  with a l assms show ?thesis
    by (auto simp: lex_string_def turn_ok_Inr substr_1)
qed

lemma ops_33_ok: "loc < length code \<Longrightarrow> lex_op_33_39 code loc = Some r \<Longrightarrow> turn_ok code loc r"
  by (auto simp: lex_op_33_39_def spell_simps string_ok split: if_splits)

lemma scan_step_end: "scan_step code s = Inl e \<Longrightarrow> e = sc_loc s \<and> code ! e = CHR ''}''"
  by (auto simp: scan_step_def scan_normal_def Let_def split: scan_mode.splits if_splits option.splits)

lemma scan_loop_end: "scan_loop code s = Some e \<Longrightarrow> sc_loc s \<le> e \<and> e < length code \<and> code ! e = CHR ''}''"
proof (induction code s rule: scan_loop.induct)
  case (1 code s)
  show ?case
  proof (cases "scan_step code s")
    case (Inl e')
    with 1(2) scan_step_end [OF Inl] show ?thesis by (auto simp: scan_loop.simps [of code s] split: if_splits)
  next
    case (Inr s')
    with 1(2) have "sc_loc s < length code" "scan_loop code s' = Some e"
      by (auto simp: scan_loop.simps [of code s] split: if_splits)
    with 1(1) [OF this(1) Inr] scan_step_progress [OF Inr] show ?thesis by auto
  qed
qed

lemma body_end:
  assumes "scan_native_extern_body_end code b = Inr e"
  shows "b \<le> e \<and> e < length code \<and> code ! e = CHR ''}''"
  using assms by (auto simp: scan_native_extern_body_end_def dest: scan_loop_end split: option.splits)

lemma brace_ok:
  assumes "loc < length code" "lex_op_123 code tokens loc = Some r"
  shows "turn_ok code loc r"
proof (cases "scan_native_extern_body_end code (loc + 1)")
  case (Inl e)
  with assms show ?thesis
    by (auto simp: lex_op_123_def spell_simps split: if_splits)
next
  case (Inr e)
  note b = body_end [OF Inr]
  have "substr code loc (e + 1 - loc) = ''{'' @ substr code (loc + 1) (e - (loc + 1)) @ ''}''" if "code ! loc = CHR ''{''"
  proof -
    have "substr code loc (e + 1 - loc) = substr code loc (e - loc) @ ''}''"
      using substr_append_adjacent [of loc e "e + 1" code] b by (simp add: substr_1)
    moreover have "substr code loc (e - loc) = ''{'' @ substr code (loc + 1) (e - (loc + 1))"
      using substr_append_adjacent [of loc "loc + 1" e code] b assms(1) that by (simp add: substr_1)
    ultimately show ?thesis by simp
  qed
  moreover have "turn_ok code loc (emit TOK_LCURBRAC ''{'' loc 1)" if "code ! loc = CHR ''{''"
    using assms(1) that by (simp add: turn_ok_emit substr_1)
  ultimately show ?thesis using Inr b assms
    by (cases "recent_tokens_open_native_extern_body tokens")
      (auto simp: lex_op_123_def turn_ok_def split: if_splits)
qed

lemma turn_spells:
  assumes "loc < length code"
  shows "turn_ok code loc (lex_turn code tokens loc)"
proof -
  have "turn_ok code loc (emit UNKNOWN [code ! loc] loc 1)"
    using assms by (simp add: turn_ok_emit substr_1)
  with assms whitespace_ok comment_ok word_ok number_ok ops_33_ok ops_40_ok ops_58_ok ops_91_ok brace_ok ops_124_ok
  show ?thesis by (auto simp: lex_turn_def split: option.split)
qed

subsection \<open>The loop, as a scanner\<close>

text \<open>
  Runs of a scanner given by its turns: from a token list and an offset to the error raised or
  to the tokens when the end of the text is reached.
\<close>

inductive scan_run ::
    "(string \<Rightarrow> 'tok list \<Rightarrow> nat \<Rightarrow> 'err + ('tok list \<times> nat)) \<Rightarrow> string \<Rightarrow> 'tok list \<Rightarrow> nat \<Rightarrow> 'err + 'tok list \<Rightarrow> bool"
  for step code where
  run_done: "length code \<le> loc \<Longrightarrow> scan_run step code ts loc (Inr ts)"
| run_fail: "loc < length code \<Longrightarrow> step code ts loc = Inl e \<Longrightarrow> scan_run step code ts loc (Inl e)"
| run_turn: "loc < length code \<Longrightarrow> step code ts loc = Inr (new, loc') \<Longrightarrow>
    scan_run step code (ts @ new) loc' r \<Longrightarrow> scan_run step code ts loc r"

inductive_cases scan_run_cases: "scan_run step code ts loc r"

text \<open>
  What a scanner owes: turns advance and stay in the text, the tokens of a turn spell what it
  consumed, they have the shape their kind demands, and an error points at its cause.
\<close>

locale scanner =
  fixes step :: "string \<Rightarrow> 'tok list \<Rightarrow> nat \<Rightarrow> 'err + ('tok list \<times> nat)"
    and spelling :: "'tok \<Rightarrow> string"
    and shaped :: "'tok \<Rightarrow> bool"
    and cause :: "string \<Rightarrow> 'err \<Rightarrow> bool"
  assumes advances: "loc < length code \<Longrightarrow> step code ts loc = Inr (new, loc') \<Longrightarrow> loc < loc' \<and> loc' \<le> length code"
    and spells: "loc < length code \<Longrightarrow> step code ts loc = Inr (new, loc') \<Longrightarrow>
      concat (map spelling new) = substr code loc (loc' - loc)"
    and shapes: "loc < length code \<Longrightarrow> step code ts loc = Inr (new, loc') \<Longrightarrow> list_all shaped new"
    and blames: "loc < length code \<Longrightarrow> step code ts loc = Inl e \<Longrightarrow> cause code e"
begin

lemma run_deterministic: "scan_run step code ts loc r \<Longrightarrow> scan_run step code ts loc r' \<Longrightarrow> r = r'"
  by (induction rule: scan_run.induct) (auto elim: scan_run_cases)

lemma run_total: "\<exists>r. scan_run step code ts loc r"
proof (induction "length code - loc" arbitrary: ts loc rule: less_induct)
  case less
  show ?case
  proof (cases "loc < length code")
    case False
    then show ?thesis by (meson not_less run_done)
  next
    case True
    show ?thesis
    proof (cases "step code ts loc")
      case (Inl e)
      with True show ?thesis by (meson run_fail)
    next
      case (Inr p)
      then obtain new loc' where p: "step code ts loc = Inr (new, loc')" by (cases p) auto
      with advances [OF True] have "length code - loc' < length code - loc" by fastforce
      from less [OF this] True p show ?thesis by (meson run_turn)
    qed
  qed
qed

lemma run_lossless:
  "scan_run step code ts loc r \<Longrightarrow> loc \<le> length code \<Longrightarrow>
    (\<forall>e. r = Inl e \<longrightarrow> cause code e)
    \<and> (\<forall>ts'. r = Inr ts' \<longrightarrow> (\<exists>new. ts' = ts @ new \<and> concat (map spelling new) = drop loc code \<and> list_all shaped new))"
proof (induction rule: scan_run.induct)
  case (run_done loc ts)
  then show ?case by simp
next
  case (run_fail loc ts e)
  then show ?case using blames by auto
next
  case (run_turn loc ts new loc' r)
  note a = advances [OF run_turn.hyps(1,2)]
  then have "drop loc code = substr code loc (loc' - loc) @ drop loc' code"
    unfolding substr_def by (metis add.commute append_take_drop_id drop_drop le_add_diff_inverse2 less_imp_le)
  with run_turn a spells [OF run_turn.hyps(1,2)] shapes [OF run_turn.hyps(1,2)] show ?case
    by fastforce
qed

end

lemma lex_turn_advances:
  "lex_turn code tokens loc = Inr (new, loc') \<Longrightarrow> loc < length code \<Longrightarrow> loc < loc' \<and> loc' \<le> length code"
  using turn_spells [of loc code tokens] by (simp add: turn_ok_def)

function tokenize_loop :: "string \<Rightarrow> styio_token list \<Rightarrow> nat \<Rightarrow> lex_error + styio_token list" where
  "tokenize_loop code tokens loc =
     (if loc < length code then
        (case lex_turn code tokens loc of
           Inl e \<Rightarrow> Inl e
         | Inr (new, loc') \<Rightarrow> tokenize_loop code (tokens @ new) loc')
      else Inr tokens)"
  by pat_completeness auto
termination
  by (relation "measure (\<lambda>(code, tokens, loc). length code - loc)")
    (auto dest: lex_turn_advances)

declare tokenize_loop.simps [simp del]

definition tokenize :: "string \<Rightarrow> lex_error + styio_token list" where
  "tokenize code = (case tokenize_loop code [] 0 of
       Inl e \<Rightarrow> Inl e
     | Inr tokens \<Rightarrow> Inr (tokens @ [Create TOK_EOF []]))"

subsection \<open>The shape of each kind of token\<close>

definition token_shape :: "styio_token \<Rightarrow> bool" where
  "token_shape tok =
     (let s = original tok; run = (\<lambda>n c. n \<le> length s \<and> s = replicate (length s) c) in
      case tok_type tok of
        TOK_EOF \<Rightarrow> False
      | TOK_SPACE \<Rightarrow> length s = 1 \<and> isspace (hd s) \<and> hd s \<noteq> CHR 0x0A \<and> hd s \<noteq> CHR 0x0D
      | TOK_LF \<Rightarrow> s = [CHR 0x0A]
      | TOK_CR \<Rightarrow> s = [CHR 0x0D]
      | NAME \<Rightarrow> s \<noteq> [] \<and> is_identifier_start (hd s) \<and> list_all is_identifier_continue (tl s) \<and> s \<noteq> ''_''
      | INTEGER \<Rightarrow> s \<noteq> [] \<and> list_all is_digit s
      | DECIMAL \<Rightarrow> (let frac = dropWhile is_digit s in
          is_digit (hd s) \<and> s \<noteq> [] \<and> frac \<noteq> [] \<and> hd frac = CHR ''.'' \<and> tl frac \<noteq> [] \<and> list_all is_digit (tl frac))
      | STRING \<Rightarrow> 2 \<le> length s \<and> hd s = CHR 0x22 \<and> last s = CHR 0x22 \<and> CHR 0x22 \<notin> set (butlast (tl s))
      | COMMENT_LINE \<Rightarrow> starts_with s ''//'' \<and> CHR 0x0A \<notin> set s \<and> CHR 0x0D \<notin> set s
      | COMMENT_CLOSED \<Rightarrow> starts_with s ''/*'' \<and> 4 \<le> length s \<and> drop (length s - 2) s = ''*/''
      | NATIVE_EXTERN_BODY \<Rightarrow> True
      | UNKNOWN \<Rightarrow> length s = 1
      | SINGLE_SEP_LINE \<Rightarrow> run 2 (CHR ''-'')
      | DOUBLE_SEP_LINE \<Rightarrow> run 3 (CHR ''='')
      | EXTRACTOR \<Rightarrow> run 2 (CHR ''<'')
      | ITERATOR \<Rightarrow> run 2 (CHR ''>'')
      | ELLIPSIS \<Rightarrow> run 2 (CHR ''.'')
      | TOK_UNDLINE \<Rightarrow> s = ''_''
      | TOK_SEMICOLON \<Rightarrow> s = '';''
      | BINOP_NE \<Rightarrow> s = ''!=''
      | BINOP_POW \<Rightarrow> s = ''**''
      | BINOP_LE \<Rightarrow> s = ''<=''
      | BINOP_GE \<Rightarrow> s = ''>=''
      | BINOP_EQ \<Rightarrow> s = ''==''
      | LOGIC_AND \<Rightarrow> s = ''&&''
      | LOGIC_OR \<Rightarrow> s = ''||''
      | t \<Rightarrow> s = getTokName t)"

definition turn_shaped :: "turn \<Rightarrow> bool" where
  "turn_shaped r \<longleftrightarrow> (\<forall>ts loc'. r = Inr (ts, loc') \<longrightarrow> list_all token_shape ts)"

lemma turn_shaped_simps [simp]:
  "turn_shaped (Inl e)" "turn_shaped (emit t lit loc n) \<longleftrightarrow> token_shape (Create t lit)"
  "turn_shaped (Inr (ts, loc')) \<longleftrightarrow> list_all token_shape ts"
  by (auto simp: turn_shaped_def emit_def)

lemmas shape_simps = Let_def token_shape_def getTokName_def

lemma whitespace_shape: "lex_whitespace code loc = Some r \<Longrightarrow> turn_shaped r"
  by (auto simp: lex_whitespace_def shape_simps isspace_def ch_code_def split: if_splits)

lemma ops_40_shape: "lex_op_40_47 code loc = Some r \<Longrightarrow> turn_shaped r"
  by (auto simp: lex_op_40_47_def shape_simps split: if_splits)

lemma ops_58_shape: "lex_op_58_64 code loc = Some r \<Longrightarrow> turn_shaped r"
  by (auto simp: lex_op_58_64_def shape_simps split: if_splits)

lemma ops_91_shape: "lex_op_91_96 code loc = Some r \<Longrightarrow> turn_shaped r"
  by (auto simp: lex_op_91_96_def shape_simps split: if_splits)

lemma ops_124_shape: "lex_op_124_126 code loc = Some r \<Longrightarrow> turn_shaped r"
  by (auto simp: lex_op_124_126_def shape_simps split: if_splits)

lemma accumulate_tail:
  assumes "accumulate cond code start literal = (literal', loc')" "start \<le> length code"
  shows "literal' = literal @ substr code start (loc' - start)" "start \<le> loc'" "loc' \<le> length code"
    "\<forall>c\<in>set (substr code start (loc' - start)). \<exists>j\<in>{start..<loc'}. c = code ! j \<and> cond j"
    "loc' < length code \<Longrightarrow> \<not> cond loc'"
proof -
  note a = accumulate_spec [OF assms]
  then show "literal' = literal @ substr code start (loc' - start)" "start \<le> loc'" "loc' \<le> length code"
    "loc' < length code \<Longrightarrow> \<not> cond loc'" by simp_all
  show "\<forall>c\<in>set (substr code start (loc' - start)). \<exists>j\<in>{start..<loc'}. c = code ! j \<and> cond j"
  proof
    fix c assume "c \<in> set (substr code start (loc' - start))"
    then obtain k where "k < loc' - start" "c = code ! (start + k)"
      using a by (auto simp: in_set_conv_nth substr_nth)
    then show "\<exists>j\<in>{start..<loc'}. c = code ! j \<and> cond j"
      using a by (intro bexI [of _ "start + k"]) auto
  qed
qed

lemma comment_shape:
  assumes "lex_comment code loc = Some r"
  shows "turn_shaped r"
proof -
  consider (line) "cmp_at code loc ''//''" | (closed) "\<not> cmp_at code loc ''//''" "cmp_at code loc ''/*''"
    using assms by (auto simp: lex_comment_def split: if_splits)
  then show ?thesis
  proof cases
    case line
    obtain literal loc' where a: "accumulate (\<lambda>l. code ! l \<noteq> CHR 0x0A \<and> code ! l \<noteq> CHR 0x0D) code (loc + 2) ''//'' = (literal, loc')"
      by force
    have "loc + 2 \<le> length code" using cmp_at_length [OF line] by simp
    from accumulate_tail(1,4) [OF a this] a line assms show ?thesis
      by (fastforce simp: lex_comment_def shape_simps starts_with_def)
  next
    case closed
    obtain literal loc' where a: "accumulate (\<lambda>l. \<not> cmp_at code l ''*/'') code (loc + 2) ''/*'' = (literal, loc')"
      by force
    have "loc + 2 \<le> length code" using cmp_at_length [OF closed(2)] by simp
    from accumulate_tail(1) [OF a this] a closed assms show ?thesis
      by (auto simp: lex_comment_def shape_simps starts_with_def split: if_splits)
  qed
qed

lemma identifier_start_continue: "is_identifier_start c \<Longrightarrow> is_identifier_continue c"
  by (auto simp: unicode_class_defs isalnum_def)

lemma word_shape:
  assumes "loc < length code" "lex_word code loc = Some r"
  shows "turn_shaped r"
proof -
  obtain literal loc' where a: "accumulate (\<lambda>l. is_identifier_continue (code ! l)) code (loc + 1) [code ! loc] = (literal, loc')"
    by force
  have "loc + 1 \<le> length code" using assms(1) by simp
  from accumulate_tail(1,4) [OF a this] a assms show ?thesis
    by (fastforce simp: lex_word_def shape_simps list_all_iff split: if_splits)
qed

lemma digits_then: "list_all is_digit xs \<Longrightarrow> \<not> is_digit c \<Longrightarrow> dropWhile is_digit (xs @ c # ys) = c # ys"
  by (induction xs) auto

lemma number_shape:
  assumes "loc < length code" "lex_number code loc = Some r"
  shows "turn_shaped r"
proof -
  obtain literal loc' where a: "accumulate (\<lambda>l. is_digit (code ! l)) code (loc + 1) [code ! loc] = (literal, loc')"
    by force
  have d: "is_digit (code ! loc)" using assms(2) by (auto simp: lex_number_def split: if_splits)
  have "loc + 1 \<le> length code" using assms(1) by simp
  from accumulate_tail(1,4) [OF a this] d
  have lit: "literal \<noteq> []" "list_all is_digit literal" by (auto simp: list_all_iff)
  show ?thesis
  proof (cases "loc' + 1 < length code \<and> code ! loc' = CHR ''.'' \<and> is_digit (code ! (loc' + 1))")
    case True
    obtain literal' loc'' where b: "accumulate (\<lambda>l. is_digit (code ! l)) code (loc' + 2)
        (literal @ [code ! loc'] @ [code ! (loc' + 1)]) = (literal', loc'')" by force
    have "loc' + 2 \<le> length code" using True by simp
    from accumulate_tail(1,4) [OF b this]
    have b': "literal' = literal @ CHR ''.'' # code ! (loc' + 1) # substr code (loc' + 2) (loc'' - (loc' + 2))"
      "list_all is_digit (substr code (loc' + 2) (loc'' - (loc' + 2)))" using True by (auto simp: list_all_iff)
    have nd: "\<not> is_digit (CHR ''.'')" by (simp add: is_digit_def isdigit_def ch_code_def)
    have "hd literal' = hd literal" using b' lit by (cases literal) auto
    then have "token_shape (Create DECIMAL literal')"
      using b' lit True nd digits_then [OF lit(2) nd] by (cases literal) (simp_all add: token_shape_def Let_def)
    with a b True assms show ?thesis by (simp add: lex_number_def split: if_splits) auto
  next
    case False
    with a lit assms show ?thesis
      by (simp add: lex_number_def split: if_splits) (auto simp: token_shape_def)
  qed
qed

lemma string_shape:
  assumes "loc < length code"
  shows "turn_shaped (lex_string code loc)"
proof -
  obtain literal loc' where a: "accumulate (\<lambda>l. code ! l \<noteq> CHR 0x22) code (loc + 1) [CHR 0x22] = (literal, loc')"
    by force
  have "loc + 1 \<le> length code" using assms by simp
  from accumulate_tail(1,4) [OF a this] a show ?thesis
    by (auto simp: lex_string_def token_shape_def)
qed

lemma ops_33_shape: "loc < length code \<Longrightarrow> lex_op_33_39 code loc = Some r \<Longrightarrow> turn_shaped r"
  by (auto simp: lex_op_33_39_def shape_simps string_shape split: if_splits)

lemma brace_shape: "lex_op_123 code tokens loc = Some r \<Longrightarrow> turn_shaped r"
  by (auto simp: lex_op_123_def shape_simps split: if_splits sum.splits)

lemma turn_shapes: "loc < length code \<Longrightarrow> turn_shaped (lex_turn code tokens loc)"
  using whitespace_shape comment_shape word_shape number_shape ops_33_shape ops_40_shape ops_58_shape
    ops_91_shape brace_shape ops_124_shape
  by (auto simp: lex_turn_def token_shape_def split: option.split)

subsection \<open>What an error reports\<close>

definition error_cause :: "string \<Rightarrow> lex_error \<Rightarrow> bool" where
  "error_cause code e = (case e of
       UnterminatedString p \<Rightarrow>
         p < length code \<and> code ! p = CHR 0x22 \<and> CHR 0x22 \<notin> set (drop (p + 1) code)
     | UnterminatedBlockComment p \<Rightarrow>
         cmp_at code p ''/*'' \<and> (\<forall>q\<in>{p + 2..<length code}. \<not> cmp_at code q ''*/'')
     | UnterminatedNativeExtern b \<Rightarrow>
         0 < b \<and> b \<le> length code \<and> code ! (b - 1) = CHR ''{'' \<and> scan_native_extern_body_end code b = Inl e)"

lemma string_error:
  assumes "loc < length code" "code ! loc = CHR 0x22" "lex_string code loc = Inl e"
  shows "error_cause code e"
proof -
  obtain literal loc' where a: "accumulate (\<lambda>l. code ! l \<noteq> CHR 0x22) code (loc + 1) [CHR 0x22] = (literal, loc')"
    by force
  from accumulate_spec [OF a] assms(1)
  have s: "loc' \<le> length code" "\<forall>j\<in>{loc + 1..<loc'}. code ! j \<noteq> CHR 0x22" by simp_all
  from a assms(3) have "e = UnterminatedString loc" "length code \<le> loc'"
    by (auto simp: lex_string_def split: if_splits)
  with s assms show ?thesis by (auto simp: error_cause_def in_set_conv_nth)
qed

lemma comment_error:
  assumes "lex_comment code loc = Some (Inl e)"
  shows "error_cause code e"
proof -
  have c: "\<not> cmp_at code loc ''//''" "cmp_at code loc ''/*''"
    using assms by (auto simp: lex_comment_def split: if_splits prod.splits)
  obtain literal loc' where a: "accumulate (\<lambda>l. \<not> cmp_at code l ''*/'') code (loc + 2) ''/*'' = (literal, loc')"
    by force
  have "loc + 2 \<le> length code" using cmp_at_length [OF c(2)] by simp
  from accumulate_spec [OF a this] a c assms show ?thesis
    by (auto simp: lex_comment_def error_cause_def split: if_splits)
qed

lemma brace_error:
  assumes "loc < length code" "lex_op_123 code tokens loc = Some (Inl e)"
  shows "error_cause code e"
proof -
  have "scan_native_extern_body_end code (loc + 1) = Inl e" "code ! loc = CHR ''{''"
    using assms by (auto simp: lex_op_123_def emit_def Let_def split: if_splits sum.splits)
  moreover from this have "e = UnterminatedNativeExtern (loc + 1)"
    by (auto simp: scan_native_extern_body_end_def split: option.splits)
  ultimately show ?thesis using assms(1) by (simp add: error_cause_def)
qed

lemma no_error:
  "lex_whitespace code loc \<noteq> Some (Inl e)" "lex_word code loc \<noteq> Some (Inl e)" "lex_number code loc \<noteq> Some (Inl e)"
  "lex_op_40_47 code loc \<noteq> Some (Inl e)" "lex_op_58_64 code loc \<noteq> Some (Inl e)"
  "lex_op_91_96 code loc \<noteq> Some (Inl e)" "lex_op_124_126 code loc \<noteq> Some (Inl e)"
  by (simp_all add: lex_whitespace_def lex_word_def lex_number_def lex_op_40_47_def lex_op_58_64_def
      lex_op_91_96_def lex_op_124_126_def Let_def emit_def split: prod.split)

lemma turn_error:
  assumes "loc < length code" "lex_turn code tokens loc = Inl e"
  shows "error_cause code e"
proof -
  have "lex_op_33_39 code loc = Some (Inl e) \<Longrightarrow> code ! loc = CHR 0x22 \<and> lex_string code loc = Inl e"
    by (auto simp: lex_op_33_39_def Let_def emit_def split: if_splits)
  with assms show ?thesis
    using comment_error [of code loc e] brace_error [OF assms(1)] string_error [OF assms(1)] no_error [of code loc e]
    by (auto simp: lex_turn_def emit_def split: option.splits)
qed

interpretation styio_lexer: scanner lex_turn original token_shape error_cause
proof
  fix loc code ts new loc'
  assume a: "loc < length code" "lex_turn code ts loc = Inr (new, loc')"
  show "loc < loc' \<and> loc' \<le> length code" by (rule lex_turn_advances [OF a(2,1)])
  show "concat (map original new) = substr code loc (loc' - loc)"
    using turn_spells [OF a(1), of ts] a(2) by (simp add: turn_ok_def)
  show "list_all token_shape new" using turn_shapes [OF a(1), of ts] a(2) by simp
qed (rule turn_error)

lemma tokenize_loop_run: "scan_run lex_turn code tokens loc (tokenize_loop code tokens loc)"
proof (induction code tokens loc rule: tokenize_loop.induct)
  case (1 code tokens loc)
  show ?case
  proof (cases "loc < length code")
    case True
    show ?thesis
    proof (cases "lex_turn code tokens loc")
      case (Inl e)
      with True show ?thesis by (subst tokenize_loop.simps) (simp add: run_fail)
    next
      case (Inr p)
      then obtain new loc' where p: "lex_turn code tokens loc = Inr (new, loc')" by (cases p) auto
      with True 1 [OF True Inr] Inr have "scan_run lex_turn code (tokens @ new) loc' (tokenize_loop code (tokens @ new) loc')"
        by simp
      with True p show ?thesis by (subst tokenize_loop.simps) (simp add: run_turn)
    qed
  next
    case False
    then show ?thesis by (subst tokenize_loop.simps) (simp add: run_done)
  qed
qed

lemmas tokenize_run = styio_lexer.run_lossless [OF tokenize_loop_run [of _ "[]" 0]]

lemma tokenize_Inr:
  assumes "tokenize code = Inr tokens"
  obtains body where "tokens = body @ [Create TOK_EOF []]" "concat (map original body) = code" "list_all token_shape body"
proof -
  from assms obtain body where b: "tokenize_loop code [] 0 = Inr body" "tokens = body @ [Create TOK_EOF []]"
    by (auto simp: tokenize_def split: sum.splits)
  with tokenize_run [of code] have "concat (map original body) = code" "list_all token_shape body" by auto
  with b(2) that show thesis by blast
qed

lemma tokenize_Inl: "tokenize code = Inl e \<Longrightarrow> error_cause code e"
  using tokenize_run [of code] by (auto simp: tokenize_def split: sum.splits)

lemma cause_marks:
  "error_cause code e \<Longrightarrow> CHR 0x22 \<in> set code \<or> CHR ''{'' \<in> set code \<or> (\<exists>q<length code. cmp_at code q ''/*'')"
proof (cases e)
  case (UnterminatedBlockComment q)
  assume c: "error_cause code e"
  with UnterminatedBlockComment cmp_at_length [of code q "''/*''"] show ?thesis by (auto simp: error_cause_def)
next
  case (UnterminatedNativeExtern b)
  assume "error_cause code e"
  with UnterminatedNativeExtern have "b - 1 < length code" "code ! (b - 1) = CHR ''{''"
    by (auto simp: error_cause_def)
  then show ?thesis by (metis nth_mem)
qed (auto simp: error_cause_def dest: nth_mem)

lemmas lex_eval = Let_def tokenize_def tokenize_loop.simps lex_turn_def lex_whitespace_def lex_comment_def lex_word_def
  lex_number_def lex_op_33_39_def lex_op_40_47_def lex_op_58_64_def lex_op_91_96_def lex_op_123_def
  lex_op_124_126_def lex_string_def emit_def next_is_def cmp_at_def substr_def accumulate.simps count_consecutive_def
  count_from.simps unicode_class_defs ctype_defs ch_code_def

lemma lex_example: "tokenize ''n<<=1.5'' =
    Inr [Create NAME ''n'', Create EXTRACTOR ''<<'', Create TOK_EQUAL ''='', Create DECIMAL ''1.5'', Create TOK_EOF []]"
  by (simp add: lex_eval)

lemma lex_error_example: "tokenize (''a /*'' @ [CHR 0x22]) = Inl (UnterminatedBlockComment 2)"
  by (simp add: lex_eval)

subsection \<open>Correctness of the tokenizer\<close>

text \<open>
  C1: tokenizing loses nothing: the texts of the tokens, trivia included and in order, spell
  the source exactly, for every source the tokenizer accepts.
\<close>

theorem tokenize_lossless:
  assumes "tokenize code = Inr tokens"
  shows "concat (map original tokens) = code"
  using assms by (elim tokenize_Inr) simp

lemma tokenize_lossless_witness:
  "concat (map original [Create NAME ''n'', Create EXTRACTOR ''<<'', Create TOK_EQUAL ''='',
      Create DECIMAL ''1.5'', Create TOK_EOF []]) = ''n<<=1.5''"
  by (rule tokenize_lossless [OF lex_example])

text \<open>
  C31: every token has the shape its kind promises (names are identifiers other than a lone
  underscore, numbers and fractions are digit runs, strings are closed and contain no quote,
  operators carry their spelling), and the end-of-file token is present exactly once, last.
\<close>

theorem tokenize_shapes:
  assumes "tokenize code = Inr tokens"
  shows "tokens \<noteq> [] \<and> last tokens = Create TOK_EOF [] \<and> list_all token_shape (butlast tokens)
     \<and> (\<forall>tok\<in>set (butlast tokens). tok_type tok \<noteq> TOK_EOF)"
proof -
  have "tok_type tok \<noteq> TOK_EOF" if "token_shape tok" for tok
    using that by (auto simp: token_shape_def)
  with assms show ?thesis by (elim tokenize_Inr) (auto simp: list_all_iff)
qed

lemma tokenize_shapes_witness:
  "list_all token_shape [Create NAME ''n'', Create EXTRACTOR ''<<'', Create TOK_EQUAL ''='', Create DECIMAL ''1.5'']"
  using tokenize_shapes [OF lex_example] by simp



text \<open>
  C33: a source without a double quote, an opening brace or the start of a block comment is
  always accepted: every other byte sequence has a tokenization.
\<close>

theorem tokenize_accepts:
  assumes "CHR 0x22 \<notin> set code" "CHR ''{'' \<notin> set code" "\<forall>q<length code. \<not> cmp_at code q ''/*''"
  shows "\<exists>tokens. tokenize code = Inr tokens"
proof (cases "tokenize code")
  case (Inl e)
  with cause_marks [OF tokenize_Inl [OF Inl]] assms show ?thesis by auto
qed auto

lemma tokenize_accepts_witness: "\<exists>tokens. tokenize [CHR 0x07, CHR 0xE2, CHR ''!''] = Inr tokens"
  by (rule tokenize_accepts) (auto simp: cmp_at_def substr_def less_Suc_eq numeral_eq_Suc)

end
