(* ===== verification/Styio_HandleTable.thy ===== *)
theory Styio_HandleTable
  imports Styio_Prelude
begin

text \<open>
  The runtime's handle table (\<open>StyioHandleTable\<close>, src/src/StyioRuntime/HandleTable.hpp): native
  objects are known to compiled programs by positive integers. An object pointer is a value of
  a type parameter, \<open>nullptr\<close> is \<open>None\<close>; the vectors are lists, the free list popped at its end.
  The closer passed to \<open>release\<close> is modelled by returning the object it is called on. The locale
  at the end is the contract the rest of the runtime relies on, interpreted on this table.
\<close>

datatype handle_kind = HK_File | HK_Resource | HK_List | HK_Dict | HK_Matrix | HK_Task | HK_Unknown

record 'p entry =
  e_kind :: handle_kind
  e_ptr :: "'p option"
  e_valid :: bool

record 'p handle_table =
  entries :: "'p entry list"
  free_handles :: "int list"

definition empty_entry :: "'p entry" where
  "empty_entry = \<lparr> e_kind = HK_Unknown, e_ptr = None, e_valid = False \<rparr>"

definition empty_table :: "'p handle_table" where
  "empty_table = \<lparr> entries = [], free_handles = [] \<rparr>"

definition is_indexable :: "int \<Rightarrow> bool" where
  "is_indexable h \<longleftrightarrow> 0 < h"

definition entry_for :: "'p handle_table \<Rightarrow> int \<Rightarrow> 'p entry option" where
  "entry_for t h =
     (if \<not> is_indexable h then None
      else let index = nat (h - 1) in
        if length (entries t) \<le> index then None else Some (entries t ! index))"

definition occupied :: "'p entry \<Rightarrow> bool" where
  "occupied e \<longleftrightarrow> e_kind e \<noteq> HK_Unknown"

definition recycle_handle :: "int \<Rightarrow> 'p handle_table \<Rightarrow> 'p handle_table" where
  "recycle_handle h t =
     (case entry_for t h of
        None \<Rightarrow> t
      | Some e \<Rightarrow>
          if \<not> occupied e then t
          else \<lparr> entries = (entries t)[nat (h - 1) := empty_entry], free_handles = free_handles t @ [h] \<rparr>)"

text \<open>The slot chosen by \<open>acquire\<close> and \<open>reserve_stub\<close>: the last freed one, or a new one.\<close>

definition place_entry :: "'p entry \<Rightarrow> 'p handle_table \<Rightarrow> int \<times> 'p handle_table" where
  "place_entry e t =
     (if free_handles t \<noteq> [] then
        (let h = last (free_handles t) in
         (h, \<lparr> entries = (entries t)[nat (h - 1) := e], free_handles = butlast (free_handles t) \<rparr>))
      else (int (length (entries t)) + 1, t \<lparr> entries := entries t @ [e] \<rparr>))"

definition acquire :: "handle_kind \<Rightarrow> 'p option \<Rightarrow> 'p handle_table \<Rightarrow> int \<times> 'p handle_table" where
  "acquire kind ptr t =
     (if ptr = None then (0, t)
      else place_entry \<lparr> e_kind = kind, e_ptr = ptr, e_valid = True \<rparr> t)"

definition lookup :: "'p handle_table \<Rightarrow> int \<Rightarrow> handle_kind \<Rightarrow> 'p option" where
  "lookup t h expected_kind =
     (case entry_for t h of
        None \<Rightarrow> None
      | Some e \<Rightarrow>
          if \<not> e_valid e then None
          else if expected_kind \<noteq> HK_Unknown \<and> e_kind e \<noteq> expected_kind then None
          else e_ptr e)"

text \<open>\<open>release\<close> returns whether it released, the object its closer ran on, and the table.\<close>

definition release :: "int \<Rightarrow> handle_kind \<Rightarrow> 'p handle_table \<Rightarrow> bool \<times> 'p option \<times> 'p handle_table" where
  "release h expected_kind t =
     (case entry_for t h of
        None \<Rightarrow> (False, None, t)
      | Some e \<Rightarrow>
          if \<not> e_valid e then (False, None, t)
          else if expected_kind \<noteq> HK_Unknown \<and> e_kind e \<noteq> expected_kind then (False, None, t)
          else (True, e_ptr e, recycle_handle h t))"

text \<open>One turn of \<open>release_all\<close>, on its count, the objects closed so far, and the table.\<close>

definition release_all_step ::
    "handle_kind \<Rightarrow> nat \<Rightarrow> nat \<times> 'p list \<times> 'p handle_table \<Rightarrow> nat \<times> 'p list \<times> 'p handle_table" where
  "release_all_step expected_kind index st =
     (let (released, closed, t) = st; e = entries t ! index; h = int index + 1 in
      if \<not> occupied e then st
      else if expected_kind \<noteq> HK_Unknown \<and> e_kind e \<noteq> expected_kind then st
      else if \<not> e_valid e then (released, closed, recycle_handle h t)
      else (released + 1, (case e_ptr e of None \<Rightarrow> closed | Some p \<Rightarrow> closed @ [p]), recycle_handle h t))"

definition release_all :: "handle_kind \<Rightarrow> 'p handle_table \<Rightarrow> nat \<times> 'p list \<times> 'p handle_table" where
  "release_all expected_kind t = fold (release_all_step expected_kind) [0..<length (entries t)] (0, [], t)"

definition reserve_stub :: "handle_kind \<Rightarrow> 'p handle_table \<Rightarrow> int \<times> 'p handle_table" where
  "reserve_stub kind t = place_entry \<lparr> e_kind = kind, e_ptr = None, e_valid = False \<rparr> t"

definition contains :: "'p handle_table \<Rightarrow> int \<Rightarrow> bool" where
  "contains t h \<longleftrightarrow> (case entry_for t h of None \<Rightarrow> False | Some e \<Rightarrow> occupied e)"

definition invalidate :: "int \<Rightarrow> 'p handle_table \<Rightarrow> 'p handle_table" where
  "invalidate h t = recycle_handle h t"

definition table_size :: "'p handle_table \<Rightarrow> nat" where
  "table_size t = length (filter occupied (entries t))"

subsection \<open>Invariant and abstraction\<close>

definition in_range :: "'p handle_table \<Rightarrow> int \<Rightarrow> bool" where
  "in_range t h \<longleftrightarrow> 1 \<le> h \<and> h \<le> int (length (entries t))"

definition table_inv :: "'p handle_table \<Rightarrow> bool" where
  "table_inv t \<longleftrightarrow>
     distinct (free_handles t)
     \<and> (\<forall>h\<in>set (free_handles t). in_range t h \<and> entries t ! nat (h - 1) = empty_entry)
     \<and> (\<forall>e\<in>set (entries t). e_valid e \<longleftrightarrow> e_ptr e \<noteq> None)"

text \<open>The handles that resolve to an object.\<close>

definition live :: "'p handle_table \<Rightarrow> int \<Rightarrow> (handle_kind \<times> 'p) option" where
  "live t h =
     (case entry_for t h of
        None \<Rightarrow> None
      | Some e \<Rightarrow> if e_valid e then map_option (Pair (e_kind e)) (e_ptr e) else None)"

lemma entry_for_in_range: "entry_for t h = (if in_range t h then Some (entries t ! nat (h - 1)) else None)"
  by (auto simp: entry_for_def is_indexable_def in_range_def Let_def)

lemma entry_for_update [simp]:
  assumes "in_range t h"
  shows "entry_for \<lparr> entries = (entries t)[nat (h - 1) := e], free_handles = f \<rparr> h' =
    (if h' = h then Some e else entry_for t h')"
proof (cases "h' = h")
  case False
  then have "in_range t h' \<Longrightarrow> nat (h - 1) \<noteq> nat (h' - 1)"
    using assms by (auto simp: in_range_def)
  with False show ?thesis by (auto simp: entry_for_in_range in_range_def)
next
  case True
  from assms have "nat (h - 1) < length (entries t)" by (auto simp: in_range_def)
  with True assms show ?thesis by (simp add: entry_for_in_range in_range_def)
qed

lemma entry_for_append:
  "entry_for (t \<lparr> entries := entries t @ [e] \<rparr>) h =
    (if h = int (length (entries t)) + 1 then Some e else entry_for t h)"
  by (auto simp: entry_for_in_range in_range_def nth_append)

lemma inv_free:
  assumes "table_inv t" "free_handles t \<noteq> []"
  shows "in_range t (last (free_handles t))" "entries t ! nat (last (free_handles t) - 1) = empty_entry"
    "last (free_handles t) \<notin> set (butlast (free_handles t))"
proof -
  have l: "last (free_handles t) \<in> set (free_handles t)" using assms(2) by simp
  with assms(1) show "in_range t (last (free_handles t))" "entries t ! nat (last (free_handles t) - 1) = empty_entry"
    by (auto simp: table_inv_def)
  from assms show "last (free_handles t) \<notin> set (butlast (free_handles t))"
    by (metis append_butlast_last_id distinct_append disjoint_iff list.set_intros(1) table_inv_def)
qed

text \<open>Placing an entry: the slot was free, every other handle resolves as before.\<close>

lemma place_entry_spec:
  assumes "table_inv t" "place_entry e t = (h, t')"
  shows "1 \<le> h" "entry_for t h = None \<or> entry_for t h = Some empty_entry"
    "entry_for t' h' = (if h' = h then Some e else entry_for t h')"
    "h \<notin> set (free_handles t')"
proof -
  have "1 \<le> h \<and> (entry_for t h = None \<or> entry_for t h = Some empty_entry)
      \<and> entry_for t' h' = (if h' = h then Some e else entry_for t h') \<and> h \<notin> set (free_handles t')"
  proof (cases "free_handles t = []")
    case True
    with assms have "h = int (length (entries t)) + 1" "t' = t \<lparr> entries := entries t @ [e] \<rparr>"
      by (simp_all add: place_entry_def)
    with True show ?thesis by (auto simp: entry_for_append entry_for_in_range [of t] in_range_def)
  next
    case False
    note f = inv_free [OF assms(1) False]
    from False assms(2) have h: "h = last (free_handles t)"
      and t': "t' = \<lparr> entries = (entries t)[nat (h - 1) := e], free_handles = butlast (free_handles t) \<rparr>"
      by (auto simp: place_entry_def Let_def)
    with f show ?thesis by (auto simp: entry_for_in_range [of t] in_range_def)
  qed
  then show "1 \<le> h" "entry_for t h = None \<or> entry_for t h = Some empty_entry"
    "entry_for t' h' = (if h' = h then Some e else entry_for t h')" "h \<notin> set (free_handles t')" by auto
qed

lemma set_butlast: "x \<in> set (butlast xs) \<Longrightarrow> x \<in> set xs"
  by (rule in_set_butlastD)

lemma table_inv_place:
  assumes "table_inv t" "place_entry e t = (h, t')" "e_valid e \<longleftrightarrow> e_ptr e \<noteq> None"
  shows "table_inv t'"
proof (cases "free_handles t = []")
  case True
  with assms show ?thesis by (auto simp: place_entry_def table_inv_def)
next
  case False
  note f = inv_free [OF assms(1) False]
  from False assms(2) have h: "h = last (free_handles t)"
    and t': "t' = \<lparr> entries = (entries t)[nat (h - 1) := e], free_handles = butlast (free_handles t) \<rparr>"
    by (auto simp: place_entry_def Let_def)
  have "\<forall>k\<in>set (butlast (free_handles t)). in_range t' k \<and> entries t' ! nat (k - 1) = empty_entry"
  proof
    fix k assume k: "k \<in> set (butlast (free_handles t))"
    with f(3) h have "k \<noteq> h" by auto
    moreover from k assms(1) have "in_range t k" "entries t ! nat (k - 1) = empty_entry"
      by (auto simp: table_inv_def dest: in_set_butlastD)
    ultimately show "in_range t' k \<and> entries t' ! nat (k - 1) = empty_entry"
      using f(1) h by (auto simp: t' in_range_def nth_list_update)
  qed
  moreover have "\<forall>x\<in>set (entries t'). e_valid x \<longleftrightarrow> e_ptr x \<noteq> None"
    using assms(1,3) by (auto simp: t' table_inv_def dest!: set_update_subset_insert [THEN subsetD])
  ultimately show ?thesis
    using assms(1) by (simp add: table_inv_def t' distinct_butlast)
qed

lemma recycle_spec:
  assumes "table_inv t" "entry_for t h = Some e" "occupied e" "t' = recycle_handle h t"
  shows "table_inv t'" "entry_for t' h' = (if h' = h then Some empty_entry else entry_for t h')"
proof -
  from assms(2) have r: "in_range t h" "e = entries t ! nat (h - 1)"
    by (auto simp: entry_for_in_range split: if_splits)
  have t': "t' = \<lparr> entries = (entries t)[nat (h - 1) := empty_entry], free_handles = free_handles t @ [h] \<rparr>"
    using assms by (simp add: recycle_handle_def)
  show "entry_for t' h' = (if h' = h then Some empty_entry else entry_for t h')"
    using r(1) by (simp add: t')
  have "h \<notin> set (free_handles t)"
    using assms(1,3) r(2) by (auto simp: table_inv_def occupied_def empty_entry_def)
  moreover have "in_range t' k \<and> entries t' ! nat (k - 1) = empty_entry" if "in_range t k" "entries t ! nat (k - 1) = empty_entry \<or> k = h" for k
    using that r(1) by (auto simp: t' in_range_def nth_list_update)
  moreover have "\<forall>x\<in>set (entries t'). e_valid x \<longleftrightarrow> e_ptr x \<noteq> None"
    using assms(1) by (auto simp: t' table_inv_def empty_entry_def dest!: set_update_subset_insert [THEN subsetD])
  ultimately show "table_inv t'"
    using assms(1) r(1) by (auto simp: table_inv_def t')
qed

text \<open>What each operation does to the handles that resolve.\<close>

lemma live_entry: "live t h = Some (k, p) \<longleftrightarrow>
    (\<exists>e. entry_for t h = Some e \<and> e_valid e \<and> e_kind e = k \<and> e_ptr e = Some p)"
  by (auto simp: live_def split: option.splits)

lemma inv_valid: "table_inv t \<Longrightarrow> entry_for t h = Some e \<Longrightarrow> e_valid e \<longleftrightarrow> e_ptr e \<noteq> None"
  by (auto simp: table_inv_def entry_for_in_range in_range_def split: if_splits)

lemma empty_entry_sel [simp]:
  "e_kind empty_entry = HK_Unknown" "e_ptr empty_entry = None" "\<not> e_valid empty_entry"
  by (simp_all add: empty_entry_def)

lemma empty_table_inv: "table_inv empty_table"
  by (simp add: table_inv_def empty_table_def)

lemma acquire_spec:
  assumes "table_inv t" "acquire k (Some p) t = (h, t')"
  shows "table_inv t'" "1 \<le> h" "live t h = None" "live t' = (live t)(h \<mapsto> (k, p))"
proof -
  from assms(2) have a: "place_entry \<lparr> e_kind = k, e_ptr = Some p, e_valid = True \<rparr> t = (h, t')"
    by (simp add: acquire_def)
  show "table_inv t'" by (rule table_inv_place [OF assms(1) a]) simp
  note s = place_entry_spec [OF assms(1) a]
  from s show "1 \<le> h" "live t h = None" by (auto simp: live_def)
  from s(3) show "live t' = (live t)(h \<mapsto> (k, p))" by (auto simp: live_def fun_eq_iff)
qed

lemma reserve_stub_spec:
  assumes "table_inv t" "reserve_stub k t = (h, t')"
  shows "table_inv t'" "1 \<le> h" "live t' = live t" "contains t' h \<longleftrightarrow> k \<noteq> HK_Unknown"
proof -
  from assms(2) have a: "place_entry \<lparr> e_kind = k, e_ptr = None, e_valid = False \<rparr> t = (h, t')"
    by (simp add: reserve_stub_def)
  show "table_inv t'" by (rule table_inv_place [OF assms(1) a]) simp
  note s = place_entry_spec [OF assms(1) a]
  from s show "1 \<le> h" "live t' = live t" "contains t' h \<longleftrightarrow> k \<noteq> HK_Unknown"
    by (auto simp: live_def contains_def occupied_def fun_eq_iff)
qed

lemma lookup_live: "lookup t h K = (case live t h of None \<Rightarrow> None
    | Some (k, p) \<Rightarrow> if K \<noteq> HK_Unknown \<and> k \<noteq> K then None else Some p)"
  by (auto simp: lookup_def live_def split: option.split)

definition accepts :: "handle_kind \<Rightarrow> handle_kind \<Rightarrow> bool" where
  "accepts K k \<longleftrightarrow> K = HK_Unknown \<or> k = K"

lemma release_hit:
  assumes "table_inv t" "live t h = Some (k, p)" "k \<noteq> HK_Unknown" "accepts K k"
  obtains t' where "release h K t = (True, Some p, t')" "table_inv t'" "live t' = (live t)(h := None)"
proof -
  from assms(2) obtain e where e: "entry_for t h = Some e" "e_valid e" "e_kind e = k" "e_ptr e = Some p"
    by (auto simp: live_entry)
  then have r: "release h K t = (True, Some p, recycle_handle h t)"
    using assms(4) by (auto simp: release_def accepts_def)
  from e assms(3) have "occupied e" by (simp add: occupied_def)
  from recycle_spec [OF assms(1) e(1) this refl] r that show thesis
    by (auto simp: live_def fun_eq_iff)
qed

lemma release_miss:
  assumes "table_inv t" "\<forall>k p. live t h = Some (k, p) \<longrightarrow> \<not> accepts K k"
  shows "release h K t = (False, None, t)"
proof (cases "entry_for t h")
  case (Some e)
  with inv_valid [OF assms(1) Some] assms(2) show ?thesis
    by (cases "e_ptr e") (auto simp: release_def live_entry accepts_def)
qed (simp add: release_def)

lemma invalidate_spec:
  assumes "table_inv t" "\<forall>k p. live t h = Some (k, p) \<longrightarrow> k \<noteq> HK_Unknown"
  shows "table_inv (invalidate h t)" "live (invalidate h t) = (live t)(h := None)"
proof -
  have "table_inv (invalidate h t) \<and> live (invalidate h t) = (live t)(h := None)"
  proof (cases "entry_for t h")
    case None
    with assms(1) show ?thesis by (auto simp: invalidate_def recycle_handle_def live_def fun_eq_iff)
  next
    case (Some e)
    show ?thesis
    proof (cases "occupied e")
      case True
      from recycle_spec [OF assms(1) Some this refl] show ?thesis
        by (auto simp: invalidate_def live_def fun_eq_iff)
    next
      case False
      with Some inv_valid [OF assms(1) Some] assms(2) have "live t h = None"
        by (cases "e_ptr e") (auto simp: live_def occupied_def)
      with Some False assms(1) show ?thesis
        by (auto simp: invalidate_def recycle_handle_def fun_eq_iff)
    qed
  qed
  then show "table_inv (invalidate h t)" "live (invalidate h t) = (live t)(h := None)" by auto
qed

subsection \<open>Releasing everything\<close>

text \<open>The objects \<open>release_all\<close> should close: those of the live handles of the kind, in order.\<close>

definition objects_of :: "handle_kind \<Rightarrow> 'p handle_table \<Rightarrow> nat \<Rightarrow> 'p list" where
  "objects_of K t n =
     List.map_filter (\<lambda>i. let e = entries t ! i in
       if occupied e \<and> accepts K (e_kind e) \<and> e_valid e then e_ptr e else None) [0..<n]"

lemma objects_of_Suc: "objects_of K t (Suc n) = objects_of K t n @
    (let e = entries t ! n in
     if occupied e \<and> accepts K (e_kind e) \<and> e_valid e then (case e_ptr e of None \<Rightarrow> [] | Some p \<Rightarrow> [p]) else [])"
  by (simp add: objects_of_def List.map_filter_def Let_def split: option.split)

lemma recycle_length [simp]: "length (entries (recycle_handle h t)) = length (entries t)"
  by (simp add: recycle_handle_def split: option.split)

lemma release_all_upto:
  assumes "table_inv t" "n \<le> length (entries t)"
    "fold (release_all_step K) [0..<n] (0, [], t) = (released, closed, t')"
  shows "table_inv t' \<and> length (entries t') = length (entries t) \<and> closed = objects_of K t n \<and> released = length closed
    \<and> (\<forall>h. entry_for t' h = (case entry_for t h of None \<Rightarrow> None
         | Some e \<Rightarrow> if h \<le> int n \<and> occupied e \<and> accepts K (e_kind e) then Some empty_entry else Some e))"
  using assms(2,3)
proof (induction n arbitrary: released closed t')
  case 0
  then show ?case using assms(1)
    by (auto simp: objects_of_def List.map_filter_def entry_for_in_range in_range_def split: option.split)
next
  case (Suc n)
  obtain rel cl tn where n: "fold (release_all_step K) [0..<n] (0, [], t) = (rel, cl, tn)"
    by (cases "fold (release_all_step K) [0..<n] (0, [], t)") auto
  define h where "h = int n + 1"
  define e where "e = entries t ! n"
  from Suc.IH [OF _ n] Suc.prems(1) have ih: "table_inv tn" "length (entries tn) = length (entries t)"
    "cl = objects_of K t n" "rel = length cl"
    "\<And>h. entry_for tn h = (case entry_for t h of None \<Rightarrow> None
         | Some e \<Rightarrow> if h \<le> int n \<and> occupied e \<and> accepts K (e_kind e) then Some empty_entry else Some e)"
    by auto
  have h: "entry_for t h = Some e" "entry_for tn h = Some (entries tn ! n)"
    using Suc.prems(1) ih(2) by (auto simp: entry_for_in_range in_range_def h_def e_def nat_add_distrib)
  have en: "entries tn ! n = e" using ih(5) [of h] h by (simp add: h_def)
  have step: "release_all_step K n (rel, cl, tn) = (released, closed, t')"
    using Suc.prems(2) n by simp
  have le: "k \<le> 1 + int n \<longleftrightarrow> k \<le> int n \<or> k = h" for k by (auto simp: h_def)
  show ?case
  proof (cases "occupied e \<and> accepts K (e_kind e)")
    case False
    then have eq: "(rel, cl, tn) = (released, closed, t')"
      using step by (auto simp: release_all_step_def Let_def en accepts_def split: if_splits)
    have "entry_for tn k = (case entry_for t k of None \<Rightarrow> None
         | Some e \<Rightarrow> if k \<le> int (Suc n) \<and> occupied e \<and> accepts K (e_kind e) then Some empty_entry else Some e)" for k
      using ih(5) [of k] False h by (cases "k = h") (auto simp: le split: option.split)
    with eq ih False show ?thesis by (auto simp: objects_of_Suc e_def [symmetric] Let_def)
  next
    case True
    have occ: "occupied e" using True by simp
    have t': "t' = recycle_handle h tn"
      using step True by (auto simp: release_all_step_def Let_def en accepts_def h_def split: if_splits)
    have hn: "entry_for tn h = Some e" using h en by simp
    note r = recycle_spec [OF ih(1) hn occ t']
    have cl: "closed = objects_of K t (Suc n)" "released = length closed"
      using step True ih(3,4) inv_valid [OF assms(1) h(1)]
      by (auto simp: release_all_step_def Let_def en accepts_def objects_of_Suc e_def [symmetric] split: if_splits option.splits)
    have "entry_for t' k = (case entry_for t k of None \<Rightarrow> None
         | Some e \<Rightarrow> if k \<le> int (Suc n) \<and> occupied e \<and> accepts K (e_kind e) then Some empty_entry else Some e)" for k
      using ih(5) [of k] r(2) [of k] True h by (cases "k = h") (auto simp: le split: option.split)
    with r(1) cl ih(2) t' show ?thesis by simp
  qed
qed

lemma release_all_spec:
  assumes "table_inv t" "release_all K t = (released, closed, t')"
  shows "table_inv t'" "closed = objects_of K t (length (entries t))" "released = length closed"
    "live t' h = (case live t h of None \<Rightarrow> None
       | Some (k, p) \<Rightarrow> if k \<noteq> HK_Unknown \<and> accepts K k then None else Some (k, p))"
proof -
  note r = release_all_upto [OF assms(1) order_refl, folded release_all_def, OF assms(2)]
  then show "table_inv t'" "closed = objects_of K t (length (entries t))" "released = length closed" by auto
  have "entry_for t h = Some e \<Longrightarrow> h \<le> int (length (entries t))" for e
    by (auto simp: entry_for_in_range in_range_def split: if_splits)
  with r show "live t' h = (case live t h of None \<Rightarrow> None
       | Some (k, p) \<Rightarrow> if k \<noteq> HK_Unknown \<and> accepts K k then None else Some (k, p))"
    by (auto simp: live_def occupied_def split: option.splits)
qed

subsection \<open>The contract of a handle store\<close>

text \<open>
  What the runtime assumes of the table: acquiring returns a handle that was not in use and
  leaves the others alone, releasing an object of the right kind hands it over once and frees
  its handle, and every other release is refused without effect. \<open>proper\<close> are the kinds the
  runtime uses.
\<close>

locale handle_store =
  fixes ok :: "'t \<Rightarrow> bool"
    and resolves :: "'t \<Rightarrow> int \<Rightarrow> ('k \<times> 'p) option"
    and acq :: "'k \<Rightarrow> 'p \<Rightarrow> 't \<Rightarrow> int \<times> 't"
    and rel :: "int \<Rightarrow> 'k \<Rightarrow> 't \<Rightarrow> bool \<times> 'p option \<times> 't"
    and proper :: "'k \<Rightarrow> bool"
  assumes acq_ok: "ok t \<Longrightarrow> acq k p t = (h, t') \<Longrightarrow> ok t'"
    and acq_fresh: "ok t \<Longrightarrow> acq k p t = (h, t') \<Longrightarrow> resolves t h = None \<and> 0 < h"
    and acq_resolves: "ok t \<Longrightarrow> acq k p t = (h, t') \<Longrightarrow> resolves t' = (resolves t)(h \<mapsto> (k, p))"
    and rel_hit: "ok t \<Longrightarrow> proper k \<Longrightarrow> resolves t h = Some (k, p) \<Longrightarrow>
      \<exists>t'. rel h k t = (True, Some p, t') \<and> ok t' \<and> resolves t' = (resolves t)(h := None)"
    and rel_miss: "ok t \<Longrightarrow> proper k \<Longrightarrow> (\<forall>p. resolves t h \<noteq> Some (k, p)) \<Longrightarrow> rel h k t = (False, None, t)"
begin

lemma acquire_distinct:
  assumes "ok t" "acq k1 p1 t = (h1, t1)" "acq k2 p2 t1 = (h2, t2)"
  shows "h1 \<noteq> h2" "resolves t2 h1 = Some (k1, p1)" "resolves t2 h2 = Some (k2, p2)"
proof -
  note a1 = acq_ok [OF assms(1,2)] acq_resolves [OF assms(1,2)]
  note a2 = acq_fresh [OF a1(1) assms(3)] acq_resolves [OF a1(1) assms(3)]
  from a1 a2 show "h1 \<noteq> h2" by auto
  with a1 a2 show "resolves t2 h1 = Some (k1, p1)" "resolves t2 h2 = Some (k2, p2)" by simp_all
qed

lemma release_once:
  assumes "ok t" "proper k" "rel h k t = (True, c, t')" "proper k'"
  shows "rel h k' t' = (False, None, t')"
proof -
  have "\<exists>p. resolves t h = Some (k, p)" using rel_miss [OF assms(1,2), of h] assms(3) by fastforce
  then obtain p where "resolves t h = Some (k, p)" ..
  from rel_hit [OF assms(1,2) this] assms(3) have "ok t'" "resolves t' = (resolves t)(h := None)" by auto
  then show ?thesis using rel_miss [OF _ assms(4), of t' h] by simp
qed

lemma acquire_release:
  assumes "ok t" "proper k" "acq k p t = (h, t1)"
  shows "\<exists>t2. rel h k t1 = (True, Some p, t2) \<and> ok t2 \<and> resolves t2 = resolves t"
proof -
  note a = acq_ok [OF assms(1,3)] acq_resolves [OF assms(1,3)] acq_fresh [OF assms(1,3)]
  then have "resolves t1 h = Some (k, p)" by simp
  from rel_hit [OF a(1) assms(2) this] a(2,3) show ?thesis
    by (metis fun_upd_triv fun_upd_upd)
qed

lemma release_isolated:
  assumes "ok t" "proper k" "rel h k t = (b, c, t')" "h' \<noteq> h"
  shows "resolves t' h' = resolves t h'"
proof (cases "\<exists>p. resolves t h = Some (k, p)")
  case True
  then obtain p where "resolves t h = Some (k, p)" ..
  from rel_hit [OF assms(1,2) this] assms(3,4) show ?thesis by auto
next
  case False
  with rel_miss [OF assms(1,2), of h] assms(3) show ?thesis by auto
qed

end

definition acquire_object :: "handle_kind \<Rightarrow> 'p \<Rightarrow> 'p handle_table \<Rightarrow> int \<times> 'p handle_table" where
  "acquire_object k p t = acquire k (Some p) t"

lemma release_hit_ex:
  assumes "table_inv t" "k \<noteq> HK_Unknown" "live t h = Some (k, p)"
  shows "\<exists>t'. release h k t = (True, Some p, t') \<and> table_inv t' \<and> live t' = (live t)(h := None)"
  using release_hit [OF assms(1,3,2), of k] by (metis accepts_def)

interpretation handle_table: handle_store table_inv live acquire_object release "\<lambda>k. k \<noteq> HK_Unknown"
  by unfold_locales
    (auto simp: acquire_object_def accepts_def acquire_spec intro: release_hit_ex release_miss dest: acquire_spec)

text \<open>
  C2: the life of a handle. Acquiring returns a positive handle that did not resolve before,
  and disturbs no other; the object is found under its kind; releasing it closes exactly that
  object, after which the handle resolves to nothing and a second release is refused.
\<close>

theorem handle_lifecycle:
  assumes "table_inv t" "k \<noteq> HK_Unknown" "acquire k (Some p) t = (h, t1)"
  shows "0 < h \<and> live t h = None \<and> lookup t1 h k = Some p \<and> (\<forall>h'. h' \<noteq> h \<longrightarrow> lookup t1 h' K = lookup t h' K)
    \<and> (\<exists>t2. release h k t1 = (True, Some p, t2) \<and> live t2 = live t \<and> lookup t2 h K = None
          \<and> (K \<noteq> HK_Unknown \<longrightarrow> release h K t2 = (False, None, t2)))"
proof -
  have a: "acquire_object k p t = (h, t1)" using assms(3) by (simp add: acquire_object_def)
  note f = handle_table.acq_fresh [OF assms(1) a] handle_table.acq_resolves [OF assms(1) a]
  obtain t2 where t2: "release h k t1 = (True, Some p, t2)" "live t2 = live t"
    using handle_table.acquire_release [OF assms(1,2) a] by blast
  from handle_table.release_once [OF handle_table.acq_ok [OF assms(1) a] assms(2) t2(1)] f t2 show ?thesis
    by (auto simp: lookup_live)
qed

lemma handle_lifecycle_witness:
  "lookup (snd (acquire HK_File (Some (7 :: int)) (snd (acquire HK_List (Some 5) empty_table)))) 1 HK_Unknown = Some 5
   \<and> (\<exists>t2. release 1 HK_List (snd (acquire HK_List (Some (5 :: int)) empty_table)) = (True, Some 5, t2) \<and> live t2 = live empty_table)"
  using handle_lifecycle [of "empty_table :: int handle_table" HK_List 5 1 _ HK_File]
    acquire_spec(4) [of "snd (acquire HK_List (Some (5 :: int)) empty_table)" HK_File 7]
  by (auto simp: acquire_def place_entry_def empty_table_def table_inv_def lookup_def entry_for_def is_indexable_def)



text \<open>
  C22: an object stored under the kind \<open>Unknown\<close> escapes this discipline: its slot does not
  count as occupied, so releasing it closes the object but keeps the handle resolving, and
  every further release closes the same object again.
\<close>

theorem unknown_kind_released_twice:
  assumes "table_inv t" "acquire HK_Unknown (Some p) t = (h, t1)"
  shows "release h HK_Unknown t1 = (True, Some p, t1) \<and> lookup t1 h HK_Unknown = Some p \<and> \<not> contains t1 h"
proof -
  have "place_entry \<lparr> e_kind = HK_Unknown, e_ptr = Some p, e_valid = True \<rparr> t = (h, t1)"
    using assms(2) by (simp add: acquire_def)
  from place_entry_spec(3) [OF assms(1) this, of h] show ?thesis
    by (simp add: release_def lookup_def contains_def recycle_handle_def occupied_def)
qed

lemma unknown_kind_released_twice_witness:
  "\<exists>h t1. acquire HK_Unknown (Some (3 :: nat)) empty_table = (h, t1) \<and> release h HK_Unknown t1 = (True, Some 3, t1)"
  using unknown_kind_released_twice [OF empty_table_inv, of "3 :: nat"] by (metis surj_pair)

end
