(* ===== verification/Styio_Dict.thy ===== *)
theory Styio_Dict
  imports Styio_Prelude "HOL-Library.AList" "HOL-Library.Multiset"
begin

text \<open>
  Dictionary storage of the runtime (src/src/StyioExtern/ExternLib.cpp): entries in insertion
  order, with a hash index from keys to positions under the \<open>ordered-hash\<close> backend and a
  linear search under the \<open>linear\<close> one, and the registry that selects a backend by name. The
  hash map is a finite map. A key is \<open>None\<close> for a null pointer. Both backends are shown to
  implement the same ordered association list, through one locale.
\<close>

subsection \<open>Backends\<close>

datatype dict_impl = OrderedHash | Linear

record backend_spec =
  bs_impl :: dict_impl
  bs_name :: string
  bs_aliases :: "string list"

definition backend_registry :: "backend_spec list" where
  "backend_registry =
     [\<lparr> bs_impl = OrderedHash, bs_name = ''ordered-hash'', bs_aliases = [''ordered_hash'', ''v2''] \<rparr>,
      \<lparr> bs_impl = Linear, bs_name = ''linear'', bs_aliases = [''v1''] \<rparr>]"

definition lower_ascii_copy :: "string option \<Rightarrow> string" where
  "lower_ascii_copy raw = (case raw of None \<Rightarrow> [] | Some s \<Rightarrow> map tolower s)"

definition dict_backend_spec_by_impl :: "dict_impl \<Rightarrow> backend_spec option" where
  "dict_backend_spec_by_impl impl = List.find (\<lambda>spec. bs_impl spec = impl) backend_registry"

definition dict_backend_spec_by_name :: "string option \<Rightarrow> backend_spec option" where
  "dict_backend_spec_by_name raw_name =
     (let needle = lower_ascii_copy raw_name in
      if needle = [] then None
      else List.find (\<lambda>spec. needle = bs_name spec \<or> needle \<in> set (bs_aliases spec)) backend_registry)"

definition current_dict_backend_spec :: "dict_impl \<Rightarrow> backend_spec" where
  "current_dict_backend_spec default_impl =
     (case dict_backend_spec_by_impl default_impl of Some spec \<Rightarrow> spec | None \<Rightarrow> hd backend_registry)"

definition supported_impl_count :: int where
  "supported_impl_count = int (length backend_registry)"

definition supported_impl_name :: "int \<Rightarrow> string option" where
  "supported_impl_name index =
     (if index < 0 \<or> supported_impl_count \<le> index then None
      else Some (bs_name (backend_registry ! nat index)))"

definition canonical_impl_name :: "string option \<Rightarrow> string option" where
  "canonical_impl_name raw_name = map_option bs_name (dict_backend_spec_by_name raw_name)"

text \<open>\<open>styio_dict_runtime_set_impl_by_name\<close>: the result flag and the new default.\<close>

definition set_impl_by_name :: "string option \<Rightarrow> dict_impl \<Rightarrow> int \<times> dict_impl" where
  "set_impl_by_name raw_name default_impl =
     (case dict_backend_spec_by_name raw_name of
        None \<Rightarrow> (0, default_impl)
      | Some spec \<Rightarrow> (1, bs_impl spec))"

definition get_impl_name :: "dict_impl \<Rightarrow> string" where
  "get_impl_name default_impl = bs_name (current_dict_backend_spec default_impl)"

subsection \<open>Storage\<close>

record 'v dict_storage =
  d_impl :: dict_impl
  d_entries :: "(string \<times> 'v) list"
  d_index :: "string \<Rightarrow> nat option"

definition new_dict_storage :: "dict_impl \<Rightarrow> 'v dict_storage" where
  "new_dict_storage impl = \<lparr> d_impl = impl, d_entries = [], d_index = (\<lambda>_. None) \<rparr>"

definition rebuild_dict_index :: "'v dict_storage \<Rightarrow> 'v dict_storage" where
  "rebuild_dict_index dict =
     dict \<lparr> d_index := fold (\<lambda>i index. index(fst (d_entries dict ! i) \<mapsto> i))
                         [0..<length (d_entries dict)] (\<lambda>_. None) \<rparr>"

definition linear_pos :: "(string \<times> 'v) list \<Rightarrow> string \<Rightarrow> nat option" where
  "linear_pos es key = List.find (\<lambda>i. fst (es ! i) = key) [0..<length es]"

definition dict_find_pos :: "'v dict_storage \<Rightarrow> string option \<Rightarrow> nat option" where
  "dict_find_pos dict key =
     (case key of
        None \<Rightarrow> None
      | Some k \<Rightarrow>
          (case dict_backend_spec_by_impl (d_impl dict) of
             None \<Rightarrow> None
           | Some backend \<Rightarrow>
               (case bs_impl backend of
                  OrderedHash \<Rightarrow>
                    (case d_index dict k of
                       None \<Rightarrow> None
                     | Some pos \<Rightarrow> if pos < length (d_entries dict) then Some pos else None)
                | Linear \<Rightarrow> linear_pos (d_entries dict) k)))"

definition dict_after_clone :: "'v dict_storage \<Rightarrow> 'v dict_storage" where
  "dict_after_clone dict =
     (case dict_backend_spec_by_impl (d_impl dict) of
        None \<Rightarrow> dict \<lparr> d_index := (\<lambda>_. None) \<rparr>
      | Some backend \<Rightarrow>
          (case bs_impl backend of
             OrderedHash \<Rightarrow> rebuild_dict_index dict
           | Linear \<Rightarrow> dict \<lparr> d_index := (\<lambda>_. None) \<rparr>))"

definition put_at :: "nat \<Rightarrow> 'v \<Rightarrow> (string \<times> 'v) list \<Rightarrow> (string \<times> 'v) list" where
  "put_at pos v es = es[pos := (fst (es ! pos), v)]"

text \<open>\<open>dict_set_handle\<close> also runs its callback on the value it replaces; \<open>dict_set\<close> is the same
  without the callback. The replaced value is returned.\<close>

definition dict_set_handle :: "'v dict_storage \<Rightarrow> string option \<Rightarrow> 'v \<Rightarrow> 'v option \<times> 'v dict_storage" where
  "dict_set_handle dict key v =
     (case key of
        None \<Rightarrow> (None, dict)
      | Some k \<Rightarrow>
          (case dict_backend_spec_by_impl (d_impl dict) of
             None \<Rightarrow> (None, dict)
           | Some backend \<Rightarrow>
               (case bs_impl backend of
                  OrderedHash \<Rightarrow>
                    (case d_index dict k of
                       Some pos \<Rightarrow>
                         if pos < length (d_entries dict) then
                           (Some (snd (d_entries dict ! pos)), dict \<lparr> d_entries := put_at pos v (d_entries dict) \<rparr>)
                         else
                           (None, dict \<lparr> d_entries := d_entries dict @ [(k, v)],
                                         d_index := (d_index dict)(k \<mapsto> length (d_entries dict)) \<rparr>)
                     | None \<Rightarrow>
                         (None, dict \<lparr> d_entries := d_entries dict @ [(k, v)],
                                       d_index := (d_index dict)(k \<mapsto> length (d_entries dict)) \<rparr>))
                | Linear \<Rightarrow>
                    (case linear_pos (d_entries dict) k of
                       Some pos \<Rightarrow>
                         (Some (snd (d_entries dict ! pos)), dict \<lparr> d_entries := put_at pos v (d_entries dict) \<rparr>)
                     | None \<Rightarrow> (None, dict \<lparr> d_entries := d_entries dict @ [(k, v)] \<rparr>)))))"

definition dict_set :: "'v dict_storage \<Rightarrow> string option \<Rightarrow> 'v \<Rightarrow> 'v dict_storage" where
  "dict_set dict key v = snd (dict_set_handle dict key v)"

definition clone_dict_storage :: "'v dict_storage \<Rightarrow> dict_impl \<Rightarrow> 'v dict_storage" where
  "clone_dict_storage src impl = dict_after_clone (new_dict_storage impl \<lparr> d_entries := d_entries src \<rparr>)"

definition dict_try_get :: "'v dict_storage \<Rightarrow> string option \<Rightarrow> 'v option" where
  "dict_try_get dict key = map_option (\<lambda>pos. snd (d_entries dict ! pos)) (dict_find_pos dict key)"

subsection \<open>Invariant\<close>

text \<open>Keys are distinct, and the hash index holds exactly the positions of the keys.\<close>

definition index_exact :: "(string \<times> 'v) list \<Rightarrow> (string \<Rightarrow> nat option) \<Rightarrow> bool" where
  "index_exact es index \<longleftrightarrow> (\<forall>k i. index k = Some i \<longleftrightarrow> i < length es \<and> fst (es ! i) = k)"

definition dict_inv :: "'v dict_storage \<Rightarrow> bool" where
  "dict_inv dict \<longleftrightarrow>
     distinct (map fst (d_entries dict))
     \<and> (d_impl dict = OrderedHash \<longrightarrow> index_exact (d_entries dict) (d_index dict))"

lemma by_impl: "\<exists>spec. dict_backend_spec_by_impl impl = Some spec \<and> bs_impl spec = impl"
  by (cases impl) (simp_all add: dict_backend_spec_by_impl_def backend_registry_def)

lemma case_backend [simp]:
  "(case dict_backend_spec_by_impl impl of None \<Rightarrow> z | Some b \<Rightarrow> f (bs_impl b)) = f impl"
  using by_impl [of impl] by auto

lemma linear_pos_Some:
  assumes "linear_pos es k = Some i"
  shows "i < length es \<and> fst (es ! i) = k"
  using assms find_Some_bounds [of _ 0 "length es" i] by (auto simp: linear_pos_def)

lemma linear_pos_None: "linear_pos es k = None \<longleftrightarrow> k \<notin> fst ` set es"
proof -
  have "k \<in> set (map fst es) \<longleftrightarrow> (\<exists>i<length es. fst (es ! i) = k)"
    unfolding in_set_conv_nth by auto
  then show ?thesis by (auto simp: linear_pos_def find_None_iff)
qed

lemma position_unique:
  "distinct (map fst es) \<Longrightarrow> i < length es \<Longrightarrow> j < length es \<Longrightarrow> fst (es ! i) = fst (es ! j) \<Longrightarrow> i = j"
  by (metis distinct_conv_nth length_map nth_map)

lemma find_pos_spec:
  assumes "dict_inv dict"
  shows "dict_find_pos dict (Some k) = linear_pos (d_entries dict) k"
proof (cases "d_impl dict")
  case Linear
  then show ?thesis by (simp add: dict_find_pos_def)
next
  case OrderedHash
  with assms have i: "index_exact (d_entries dict) (d_index dict)" "distinct (map fst (d_entries dict))"
    by (simp_all add: dict_inv_def)
  show ?thesis
  proof (cases "linear_pos (d_entries dict) k")
    case None
    then have "k \<notin> fst ` set (d_entries dict)" by (simp add: linear_pos_None)
    then have "\<And>p. p < length (d_entries dict) \<Longrightarrow> fst (d_entries dict ! p) \<noteq> k" by auto
    with i(1) have "d_index dict k = None" by (cases "d_index dict k") (auto simp: index_exact_def)
    with None OrderedHash show ?thesis by (simp add: dict_find_pos_def)
  next
    case (Some p)
    with i linear_pos_Some [OF Some] have "d_index dict k = Some p" by (simp add: index_exact_def)
    with Some linear_pos_Some [OF Some] OrderedHash show ?thesis by (simp add: dict_find_pos_def)
  qed
qed

lemma map_of_linear_pos:
  assumes "distinct (map fst es)"
  shows "map_of es k = map_option (\<lambda>pos. snd (es ! pos)) (linear_pos es k)"
proof (cases "linear_pos es k")
  case None
  then have "k \<notin> fst ` set es" by (simp add: linear_pos_None)
  with None show ?thesis by (simp add: map_of_eq_None_iff [THEN iffD2])
next
  case (Some p)
  from linear_pos_Some [OF Some] have "(k, snd (es ! p)) \<in> set es" by (metis nth_mem prod.collapse)
  with assms Some show ?thesis by simp
qed

lemma try_get_spec: "dict_inv dict \<Longrightarrow> dict_try_get dict (Some k) = map_of (d_entries dict) k"
  by (simp add: dict_try_get_def find_pos_spec map_of_linear_pos dict_inv_def)

lemma put_at_update:
  assumes "distinct (map fst es)" "pos < length es" "fst (es ! pos) = k"
  shows "put_at pos v es = AList.update k v es"
  using assms
proof (induction es arbitrary: pos)
  case (Cons e es)
  obtain k' v' where e: "e = (k', v')" by force
  show ?case
  proof (cases pos)
    case 0
    with Cons.prems e show ?thesis by (simp add: put_at_def)
  next
    case (Suc p)
    with Cons.prems e nth_mem [of p es] have "k' \<noteq> k" by auto
    with Suc Cons e show ?thesis by (simp add: put_at_def)
  qed
qed simp

lemma update_new: "k \<notin> fst ` set es \<Longrightarrow> AList.update k v es = es @ [(k, v)]"
  by (induction es) auto

text \<open>The one fact both backends share: setting is the ordered association-list update.\<close>

lemma set_handle_spec:
  assumes "dict_inv dict"
  shows "dict_set_handle dict (Some k) v =
    (map_of (d_entries dict) k,
     dict \<lparr> d_entries := AList.update k v (d_entries dict),
            d_index := (if d_impl dict = OrderedHash \<and> k \<notin> fst ` set (d_entries dict)
                        then (d_index dict)(k \<mapsto> length (d_entries dict)) else d_index dict) \<rparr>)"
proof -
  let ?es = "d_entries dict"
  have dist: "distinct (map fst ?es)" using assms by (simp add: dict_inv_def)
  note f = find_pos_spec [OF assms, of k] map_of_linear_pos [OF dist, of k]
  show ?thesis
  proof (cases "linear_pos ?es k")
    case None
    then have n: "k \<notin> fst ` set ?es" by (simp add: linear_pos_None)
    with None f show ?thesis
      by (cases "d_impl dict")
        (auto simp: dict_set_handle_def dict_find_pos_def update_new split: option.splits if_splits)
  next
    case (Some p)
    note l = linear_pos_Some [OF Some]
    then have n: "k \<in> fst ` set ?es" by (metis image_eqI nth_mem)
    with Some f l put_at_update [OF dist, of p k v] show ?thesis
      by (cases "d_impl dict")
        (auto simp: dict_set_handle_def dict_find_pos_def split: option.splits if_splits)
  qed
qed

lemma index_exact_update:
  assumes "distinct (map fst es)" "index_exact es index"
  shows "index_exact (AList.update k v es) (if k \<notin> fst ` set es then index(k \<mapsto> length es) else index)"
proof (cases "k \<in> fst ` set es")
  case False
  then have "\<And>i. i < length es \<Longrightarrow> fst (es ! i) \<noteq> k" by auto
  with False assms(2) show ?thesis by (auto simp: update_new index_exact_def nth_append)
next
  case True
  then obtain p where p: "p < length es" "fst (es ! p) = k" by (auto simp: in_set_conv_nth)
  have u: "AList.update k v es = es[p := (fst (es ! p), v)]"
    using put_at_update [OF assms(1) p, of v] by (simp add: put_at_def)
  have "fst (es[p := (fst (es ! p), v)] ! i) = fst (es ! i)" if "i < length es" for i
    using that by (cases "i = p") simp_all
  with True assms(2) show ?thesis by (auto simp: u index_exact_def)
qed

lemma dict_inv_set: "dict_inv dict \<Longrightarrow> dict_inv (dict_set dict key v)"
proof (cases key)
  case (Some k)
  assume i: "dict_inv dict"
  with index_exact_update [of "d_entries dict" "d_index dict" k v] Some show ?thesis
    by (auto simp: dict_set_def set_handle_spec dict_inv_def distinct_update)
qed (simp add: dict_set_def dict_set_handle_def)

lemma new_storage_sel [simp]:
  "d_impl (new_dict_storage impl) = impl" "d_entries (new_dict_storage impl) = []"
  by (simp_all add: new_dict_storage_def)

lemma dict_inv_new: "dict_inv (new_dict_storage impl)"
  by (simp add: dict_inv_def new_dict_storage_def index_exact_def)

lemma rebuild_upto:
  assumes "distinct (map fst es)" "n \<le> length es"
  shows "fold (\<lambda>i index. index(fst (es ! i) \<mapsto> i)) [0..<n] (\<lambda>_. None) k = Some p \<longleftrightarrow> p < n \<and> fst (es ! p) = k"
  using assms(2)
proof (induction n)
  case (Suc n)
  then have "fst (es ! n) = k \<Longrightarrow> p < n \<Longrightarrow> fst (es ! p) \<noteq> k"
    using position_unique [OF assms(1), of p n] by auto
  with Suc show ?case by (auto simp: less_Suc_eq)
qed simp

lemma dict_inv_clone:
  assumes "dict_inv src"
  shows "dict_inv (clone_dict_storage src impl)" "d_entries (clone_dict_storage src impl) = d_entries src"
proof -
  have "distinct (map fst (d_entries src))" using assms by (simp add: dict_inv_def)
  with rebuild_upto [OF this order_refl]
  show "dict_inv (clone_dict_storage src impl)" "d_entries (clone_dict_storage src impl) = d_entries src"
    by (cases impl; simp add: clone_dict_storage_def dict_after_clone_def new_dict_storage_def rebuild_dict_index_def
        dict_inv_def index_exact_def)+
qed

subsection \<open>The contract of an insertion-ordered map\<close>

locale ordered_map =
  fixes ok :: "'d \<Rightarrow> bool"
    and get :: "'d \<Rightarrow> string \<Rightarrow> 'v option"
    and put :: "'d \<Rightarrow> string \<Rightarrow> 'v \<Rightarrow> 'd"
    and keys :: "'d \<Rightarrow> string list"
    and empty :: 'd
  assumes empty_ok: "ok empty" "keys empty = []"
    and put_ok: "ok d \<Longrightarrow> ok (put d k v)"
    and get_put: "ok d \<Longrightarrow> get (put d k v) k' = (if k' = k then Some v else get d k')"
    and get_keys: "ok d \<Longrightarrow> get d k \<noteq> None \<longleftrightarrow> k \<in> set (keys d)"
    and keys_put: "ok d \<Longrightarrow> keys (put d k v) = (if k \<in> set (keys d) then keys d else keys d @ [k])"
begin

definition puts :: "(string \<times> 'v) list \<Rightarrow> 'd \<Rightarrow> 'd" where
  "puts kvs d = foldl (\<lambda>d (k, v). put d k v) d kvs"

lemma puts_ok: "ok d \<Longrightarrow> ok (puts kvs d)"
  unfolding puts_def by (induction kvs arbitrary: d) (auto simp: put_ok)

lemma puts_get: "ok d \<Longrightarrow> get (puts kvs d) k = (case map_of (rev kvs) k of Some v \<Rightarrow> Some v | None \<Rightarrow> get d k)"
  unfolding puts_def
  by (induction kvs arbitrary: d) (auto simp: put_ok get_put map_add_def split: option.split)

lemma puts_keys: "ok d \<Longrightarrow> keys (puts kvs d) = foldl (\<lambda>ks (k, v). if k \<in> set ks then ks else ks @ [k]) (keys d) kvs"
  unfolding puts_def
  by (induction kvs arbitrary: d) (auto simp: put_ok keys_put split: prod.split)

lemma keys_distinct: "ok d \<Longrightarrow> distinct (keys d) \<Longrightarrow> distinct (keys (puts kvs d))"
  unfolding puts_def
  by (induction kvs arbitrary: d) (auto simp: put_ok keys_put)

end

definition dict_keys :: "'v dict_storage \<Rightarrow> string list" where
  "dict_keys dict = map fst (d_entries dict)"

definition dict_values :: "'v dict_storage \<Rightarrow> 'v list" where
  "dict_values dict = map snd (d_entries dict)"

definition dict_ok :: "dict_impl \<Rightarrow> 'v dict_storage \<Rightarrow> bool" where
  "dict_ok impl dict \<longleftrightarrow> d_impl dict = impl \<and> dict_inv dict"

lemma keys_update: "map fst (AList.update k v es) = (if k \<in> fst ` set es then map fst es else map fst es @ [k])"
  by (simp add: update_keys)

lemma set_impl [simp]: "d_impl (dict_set dict key v) = d_impl dict"
  by (cases key; cases "d_impl dict") (auto simp: dict_set_def dict_set_handle_def split: option.split)

lemma dict_is_ordered_map:
  "ordered_map (dict_ok impl) (\<lambda>d k. dict_try_get d (Some k)) (\<lambda>d k v. dict_set d (Some k) v) dict_keys (new_dict_storage impl)"
proof
  fix d :: "'v dict_storage" and k k' v
  assume d: "dict_ok impl d"
  then have i: "dict_inv d" by (simp add: dict_ok_def)
  show "dict_ok impl (dict_set d (Some k) v)" using d by (simp add: dict_ok_def dict_inv_set)
  show "dict_try_get (dict_set d (Some k) v) (Some k') = (if k' = k then Some v else dict_try_get d (Some k'))"
    using i by (simp add: try_get_spec dict_inv_set) (simp add: dict_set_def set_handle_spec update_conv)
  show "dict_try_get d (Some k) \<noteq> None \<longleftrightarrow> k \<in> set (dict_keys d)"
    using i by (simp add: try_get_spec dict_keys_def map_of_eq_None_iff)
  show "dict_keys (dict_set d (Some k) v) = (if k \<in> set (dict_keys d) then dict_keys d else dict_keys d @ [k])"
    using i by (simp add: dict_keys_def dict_set_def set_handle_spec keys_update)
qed (simp_all add: dict_ok_def dict_inv_new dict_keys_def)

interpretation ordered_hash: ordered_map "dict_ok OrderedHash" "\<lambda>d k. dict_try_get d (Some k)"
    "\<lambda>d k v. dict_set d (Some k) v" dict_keys "new_dict_storage OrderedHash"
  by (rule dict_is_ordered_map)

interpretation linear: ordered_map "dict_ok Linear" "\<lambda>d k. dict_try_get d (Some k)"
    "\<lambda>d k v. dict_set d (Some k) v" dict_keys "new_dict_storage Linear"
  by (rule dict_is_ordered_map)

subsection \<open>Correctness of dictionaries\<close>

definition dict_sets :: "(string \<times> 'v) list \<Rightarrow> 'v dict_storage \<Rightarrow> 'v dict_storage" where
  "dict_sets kvs dict = foldl (\<lambda>d (k, v). dict_set d (Some k) v) dict kvs"

lemma dict_sets_puts: "dict_sets kvs d = ordered_hash.puts kvs d" "dict_sets kvs d = linear.puts kvs d"
  by (simp_all add: dict_sets_def ordered_hash.puts_def linear.puts_def)

lemma dict_sets_entries:
  "dict_inv d \<Longrightarrow> d_entries (dict_sets kvs d) = foldl (\<lambda>es (k, v). AList.update k v es) (d_entries d) kvs"
  unfolding dict_sets_def
proof (induction kvs arbitrary: d)
  case (Cons kv kvs)
  obtain k v where kv: "kv = (k, v)" by force
  have "d_entries (dict_set d (Some k) v) = AList.update k v (d_entries d)"
    using Cons.prems by (simp add: dict_set_def set_handle_spec)
  with Cons kv dict_inv_set [OF Cons.prems] show ?case by simp
qed simp

text \<open>
  C27: the two dictionary backends are interchangeable. After any sequence of insertions they
  hold the same entries in the same order; looking a key up gives the value set last, and the
  keys come in the order of their first insertion, each once.
\<close>

theorem dict_backends_agree:
  "d_entries (dict_sets kvs (new_dict_storage OrderedHash)) = d_entries (dict_sets kvs (new_dict_storage Linear))
   \<and> (\<forall>impl k. dict_try_get (dict_sets kvs (new_dict_storage impl)) (Some k) = map_of (rev kvs) k)
   \<and> (\<forall>impl. distinct (dict_keys (dict_sets kvs (new_dict_storage impl)))
         \<and> dict_keys (dict_sets kvs (new_dict_storage impl))
           = foldl (\<lambda>ks (k, v). if k \<in> set ks then ks else ks @ [k]) [] kvs)"
proof (intro conjI allI)
  show "d_entries (dict_sets kvs (new_dict_storage OrderedHash)) = d_entries (dict_sets kvs (new_dict_storage Linear))"
    by (simp add: dict_sets_entries dict_inv_new)
  fix impl k
  show "dict_try_get (dict_sets kvs (new_dict_storage impl)) (Some k) = map_of (rev kvs) k"
    using ordered_hash.puts_get [OF ordered_hash.empty_ok(1), of kvs k] linear.puts_get [OF linear.empty_ok(1), of kvs k]
    by (cases impl) (simp_all add: dict_sets_puts [symmetric] try_get_spec dict_inv_new split: option.splits)
  show "distinct (dict_keys (dict_sets kvs (new_dict_storage impl)))"
    using ordered_hash.keys_distinct [OF ordered_hash.empty_ok(1), of kvs] linear.keys_distinct [OF linear.empty_ok(1), of kvs]
    by (cases impl) (simp_all add: dict_sets_puts [symmetric] dict_keys_def)
  show "dict_keys (dict_sets kvs (new_dict_storage impl)) = foldl (\<lambda>ks (k, v). if k \<in> set ks then ks else ks @ [k]) [] kvs"
    using ordered_hash.puts_keys [OF ordered_hash.empty_ok(1), of kvs] linear.puts_keys [OF linear.empty_ok(1), of kvs]
    by (cases impl) (simp_all add: dict_sets_puts [symmetric] dict_keys_def)
qed

lemma update_values:
  "distinct (map fst es) \<Longrightarrow>
   mset (map snd (AList.update k v es)) + mset (case map_of es k of None \<Rightarrow> [] | Some old \<Rightarrow> [old]) = mset (map snd es) + {#v#}"
  by (induction es) (auto split: option.splits simp: map_of_eq_None_iff)

text \<open>
  C36: storing a handle in a dictionary neither leaks nor duplicates ownership: the value
  handed to the release callback, together with the values the dictionary now holds, are the
  values it held before and the new one.
\<close>

theorem dict_set_handle_ownership:
  assumes "dict_inv dict" "dict_set_handle dict (Some k) v = (released, dict')"
  shows "mset (dict_values dict') + mset (case released of None \<Rightarrow> [] | Some old \<Rightarrow> [old])
    = mset (dict_values dict) + {#v#}"
  using update_values [of "d_entries dict" k v] assms
  by (auto simp: set_handle_spec dict_values_def dict_inv_def)

lemma dict_set_handle_ownership_witness:
  "mset (dict_values (dict_set (dict_set (new_dict_storage OrderedHash) (Some ''a'') (1 :: int)) (Some ''a'') 2)) + mset [1]
    = mset (dict_values (dict_set (new_dict_storage OrderedHash) (Some ''a'') (1 :: int))) + {#2#}"
proof -
  define d where "d = dict_set (new_dict_storage OrderedHash) (Some ''a'') (1 :: int)"
  have i: "dict_inv d" unfolding d_def by (intro dict_inv_set dict_inv_new)
  have "d_entries d = [(''a'', 1)]" by (simp add: d_def dict_set_def set_handle_spec dict_inv_new)
  then have "fst (dict_set_handle d (Some ''a'') 2) = Some 1" by (simp add: set_handle_spec [OF i])
  then have "dict_set_handle d (Some ''a'') 2 = (Some 1, dict_set d (Some ''a'') 2)"
    by (simp add: dict_set_def prod_eq_iff)
  from dict_set_handle_ownership [OF i this] show ?thesis by (simp add: d_def)
qed

text \<open>
  a clone, under whichever backend, is again well formed, holds the same entries in
  the same order, and answers later insertions as the original would.
\<close>

theorem dict_clone_same:
  assumes "dict_inv src"
  shows "dict_inv (clone_dict_storage src impl)
    \<and> (\<forall>k. dict_try_get (clone_dict_storage src impl) (Some k) = dict_try_get src (Some k))
    \<and> dict_keys (clone_dict_storage src impl) = dict_keys src
    \<and> dict_try_get (dict_set (clone_dict_storage src impl) (Some k) v) (Some k') = dict_try_get (dict_set src (Some k) v) (Some k')"
  using dict_inv_clone [OF assms, of impl] assms
  by (simp add: try_get_spec dict_keys_def dict_inv_set)
    (simp add: dict_set_def set_handle_spec)

lemma dict_clone_same_witness:
  "dict_keys (clone_dict_storage (dict_set (new_dict_storage Linear) (Some ''a'') (1 :: int)) OrderedHash)
    = dict_keys (dict_set (new_dict_storage Linear) (Some ''a'') (1 :: int))"
  by (rule dict_clone_same [THEN conjunct2, THEN conjunct2, THEN conjunct1]) (intro dict_inv_set dict_inv_new)

end
