(* ===== verification/Styio_RuntimeText.thy ===== *)
theory Styio_RuntimeText
  imports Styio_Prelude
begin

text \<open>
  The text routines of the runtime (src/src/StyioExtern/ExternLib.cpp): the reader of list
  literals from standard input, strict integer conversion, the printer's escaping and
  separators, and splitting into lines. \<open>std::strtoll\<close> follows the C standard: leading white
  space, one sign, digits; out of range it saturates and reports \<open>ERANGE\<close>. A result through an
  out-parameter and a flag is a pair.
\<close>

subsection \<open>Integers\<close>

definition i64_min :: int where "i64_min = - (2 ^ 63)"
definition i64_max :: int where "i64_max = 2 ^ 63 - 1"

definition i64_range :: "int \<Rightarrow> bool" where
  "i64_range v \<longleftrightarrow> i64_min \<le> v \<and> v \<le> i64_max"

text \<open>The value, whether it was out of range, and how many characters were used.\<close>

definition strtoll :: "string \<Rightarrow> (int \<times> bool \<times> nat) option" where
  "strtoll s =
     (let body = dropWhile isspace s; (neg, d) = split_sign body; ds = takeWhile isdigit d;
          v = (if neg then - int (digits_val ds) else int (digits_val ds)) in
      if ds = [] then None
      else Some (max i64_min (min i64_max v), \<not> i64_range v,
                 (length s - length body) + (length body - length d) + length ds))"

text \<open>\<open>styio_cstr_to_i64\<close>: \<open>None\<close> is the reported parse error.\<close>

definition cstr_to_i64 :: "string option \<Rightarrow> int option" where
  "cstr_to_i64 s =
     (case s of
        None \<Rightarrow> None
      | Some str \<Rightarrow>
          if str = [] then None
          else (case strtoll str of
                  None \<Rightarrow> None
                | Some (v, erange, n) \<Rightarrow> if n \<noteq> length str \<or> erange then None else Some v))"

subsection \<open>List literals\<close>

definition skip_ws :: "string \<Rightarrow> nat \<Rightarrow> nat" where
  "skip_ws input pos = snd (accumulate (\<lambda>p. isspace (input ! p)) input pos [])"

lemma skip_ws_ge:
  assumes "pos \<le> length input"
  shows "pos \<le> skip_ws input pos \<and> skip_ws input pos \<le> length input"
proof -
  obtain lit p where a: "accumulate (\<lambda>p. isspace (input ! p)) input pos [] = (lit, p)" by force
  from accumulate_spec [OF a assms] have "pos \<le> p" "p \<le> length input" by blast+
  with a show ?thesis by (simp add: skip_ws_def)
qed

lemma skip_ws_stop: "length input \<le> pos \<or> \<not> isspace (input ! pos) \<Longrightarrow> skip_ws input pos = pos"
  unfolding skip_ws_def by (subst accumulate.simps) auto

lemma split_sign_length: "split_sign s = (neg, d) \<Longrightarrow> length d \<le> length s"
  by (cases s) (auto simp: split_sign_def split: if_splits)

lemma strtoll_used: "strtoll s = Some (v, e, n) \<Longrightarrow> 0 < n \<and> n \<le> length s"
proof -
  assume a: "strtoll s = Some (v, e, n)"
  obtain neg d where sp: "split_sign (dropWhile isspace s) = (neg, d)" by force
  then have "length d \<le> length (dropWhile isspace s)"
    by (rule split_sign_length)
  moreover have "length (takeWhile isdigit d) \<le> length d" by (simp add: length_takeWhile_le)
  moreover have "length (dropWhile isspace s) \<le> length s" by (simp add: length_dropWhile_le)
  moreover have "n = (length s - length (dropWhile isspace s)) + (length (dropWhile isspace s) - length d) + length (takeWhile isdigit d)"
    "takeWhile isdigit d \<noteq> []"
    using a sp by (auto simp: strtoll_def Let_def split: if_splits)
  moreover have "0 < length (takeWhile isdigit d)" using calculation(5) by blast
  ultimately show ?thesis by linarith
qed

function parse_i64_items :: "string \<Rightarrow> nat \<Rightarrow> int list \<Rightarrow> bool \<times> int list" where
  "parse_i64_items input pos out =
     (if pos < length input then
        (case strtoll (drop pos input) of
           None \<Rightarrow> (False, out)
         | Some (v, erange, n) \<Rightarrow>
             let out' = out @ [v]; pos' = skip_ws input (pos + n) in
             if length input \<le> pos' then (False, out')
             else if input ! pos' = CHR '','' then parse_i64_items input (skip_ws input (pos' + 1)) out'
             else if input ! pos' = CHR '']'' then (skip_ws input (pos' + 1) = length input, out')
             else (False, out'))
      else (False, out))"
  by pat_completeness auto
termination
proof (relation "measure (\<lambda>(input, pos, out). length input - pos)")
  fix input pos out x2 v y erange n out' pos'
  assume a: "pos < length input" "strtoll (drop pos input) = Some x2" "(v, y) = x2" "(erange, n) = y"
    "out' = out @ [v]" "pos' = skip_ws input (pos + n)" "\<not> length input \<le> pos'"
  from a strtoll_used [of "drop pos input" v erange n] have n: "0 < n" "pos + n \<le> length input" by auto
  from skip_ws_ge [OF n(2)] a(6,7) have "pos + n \<le> pos'" "pos' < length input" by simp_all
  moreover have "pos' + 1 \<le> skip_ws input (pos' + 1)" using skip_ws_ge [of "pos' + 1" input] calculation by simp
  ultimately show "((input, skip_ws input (pos' + 1), out'), input, pos, out) \<in> measure (\<lambda>(input, pos, out). length input - pos)"
    using n(1) by simp
qed simp

declare parse_i64_items.simps [simp del]

definition parse_i64_list_literal :: "string \<Rightarrow> bool \<times> int list" where
  "parse_i64_list_literal input =
     (let pos = skip_ws input 0 in
      if length input \<le> pos \<or> input ! pos \<noteq> CHR ''['' then (False, [])
      else let pos = skip_ws input (pos + 1) in
        if pos < length input \<and> input ! pos = CHR '']'' then (skip_ws input (pos + 1) = length input, [])
        else parse_i64_items input pos [])"

subsection \<open>Printing\<close>

definition escape_char :: "char \<Rightarrow> string" where
  "escape_char ch =
     (if ch = CHR 0x5C then [CHR 0x5C, CHR 0x5C]
      else if ch = CHR 0x22 then [CHR 0x5C, CHR 0x22]
      else if ch = CHR 0x0A then [CHR 0x5C, CHR ''n'']
      else if ch = CHR 0x0D then [CHR 0x5C, CHR ''r'']
      else if ch = CHR 0x09 then [CHR 0x5C, CHR ''t'']
      else [ch])"

definition escape_string_for_literal :: "string \<Rightarrow> string" where
  "escape_string_for_literal input = foldl (\<lambda>out ch. out @ escape_char ch) [] input"

text \<open>The loop that writes elements with a comma before all but the first.\<close>

definition comma_list :: "('a \<Rightarrow> string) \<Rightarrow> 'a list \<Rightarrow> string" where
  "comma_list f xs = concat (map (\<lambda>i. (if 0 < i then '','' else []) @ f (xs ! i)) [0..<length xs])"

definition i64_list_repr :: "int list \<Rightarrow> string" where
  "i64_list_repr xs = ''['' @ comma_list to_string_int xs @ '']''"

subsection \<open>Lines\<close>

text \<open>The loop of \<open>styio_string_lines\<close>: the rest of the text, the current line, whether the last
  character was a separator, and the lines so far.\<close>

fun string_lines_loop :: "string \<Rightarrow> string \<Rightarrow> bool \<Rightarrow> string list \<Rightarrow> string list" where
  "string_lines_loop [] current ended lines = (if \<not> ended then lines @ [current] else lines)"
| "string_lines_loop (ch # rest) current ended lines =
     (if ch = CHR 0x0A \<or> ch = CHR 0x0D then
        string_lines_loop (if ch = CHR 0x0D \<and> rest \<noteq> [] \<and> hd rest = CHR 0x0A then tl rest else rest)
          [] True (lines @ [current])
      else string_lines_loop rest (current @ [ch]) False lines)"

definition string_lines :: "string option \<Rightarrow> string list" where
  "string_lines txt =
     (case txt of None \<Rightarrow> [] | Some s \<Rightarrow> if s = [] then [] else string_lines_loop s [] False [])"

subsection \<open>Reading back what was printed\<close>

lemma comma_list_Nil [simp]: "comma_list f [] = []"
  by (simp add: comma_list_def)

lemma comma_list_Cons: "comma_list f (x # xs) = f x @ concat (map (\<lambda>y. '','' @ f y) xs)"
proof -
  have "[0..<length (x # xs)] = 0 # map Suc [0..<length xs]" by (simp add: map_Suc_upt upt_conv_Cons del: upt_Suc)
  moreover have "map (\<lambda>i. (if 0 < i then '','' else []) @ f ((x # xs) ! i)) (map Suc [0..<length xs]) = map (\<lambda>y. '','' @ f y) xs"
    by (rule nth_equalityI) simp_all
  ultimately show ?thesis by (simp add: comma_list_def)
qed

lemma to_string_int_split:
  "to_string_int v = (if v < 0 then [CHR ''-''] else []) @ to_string_nat (nat \<bar>v\<bar>)"
  by (simp add: to_string_int_def)

lemma takeWhile_digits:
  assumes "rest = [] \<or> \<not> isdigit (hd rest)"
  shows "takeWhile isdigit (to_string_nat n @ rest) = to_string_nat n"
  using to_string_digits [of n] assms by (cases rest) (auto simp: takeWhile_append)

lemma strtoll_to_string:
  assumes "rest = [] \<or> \<not> isdigit (hd rest)"
  shows "strtoll (to_string_int v @ rest) = Some (max i64_min (min i64_max v), \<not> i64_range v, length (to_string_int v))"
proof (cases "v < 0")
  case True
  have "\<not> isspace (CHR ''-'')" by (simp add: isspace_def ch_code_def)
  with True takeWhile_digits [OF assms, of "nat (- v)"] show ?thesis
    by (simp add: strtoll_def to_string_int_split split_sign_def Let_def i64_range_def)
next
  case False
  obtain c r where s: "to_string_nat (nat v) = c # r" by (cases "to_string_nat (nat v)") auto
  then have "isdigit c" using to_string_digits [of "nat v"] by auto
  from isdigit_sep [OF this] False s takeWhile_digits [OF assms, of "nat v"] digits_val_to_string [of "nat v"]
  show ?thesis
    by (simp add: strtoll_def to_string_int_split split_sign_def Let_def i64_range_def)
qed

lemma in_range: "i64_range v \<Longrightarrow> max i64_min (min i64_max v) = v"
  by (auto simp: i64_range_def)

lemma not_space [simp]: "\<not> isspace (CHR '','')" "\<not> isspace (CHR '']'')" "\<not> isspace (CHR ''['')" "\<not> isspace (CHR ''-'')"
    "\<not> isdigit (CHR '','')" "\<not> isdigit (CHR '']'')"
  by (simp_all add: isspace_def isdigit_def ch_code_def)

lemma to_string_int_head: "to_string_int v \<noteq> [] \<and> \<not> isspace (hd (to_string_int v)) \<and> hd (to_string_int v) \<noteq> CHR '']''"
proof (cases "v < 0")
  case False
  obtain c r where s: "to_string_nat (nat v) = c # r" by (cases "to_string_nat (nat v)") auto
  then have "isdigit c" using to_string_digits [of "nat v"] by auto
  with s False isdigit_sep [OF this] show ?thesis by (auto simp: to_string_int_def)
qed (simp add: to_string_int_def)

lemma parse_items_repr:
  assumes "list_all i64_range (x # xs)"
  shows "parse_i64_items (pre @ to_string_int x @ concat (map (\<lambda>y. '','' @ to_string_int y) xs) @ '']'') (length pre) out = (True, out @ x # xs)"
  using assms
proof (induction xs arbitrary: pre x out)
  case Nil
  let ?in = "pre @ to_string_int x @ '']''"
  have st: "strtoll (drop (length pre) ?in) = Some (x, False, length (to_string_int x))"
    using Nil strtoll_to_string [of "'']''" x] by (simp add: in_range)
  have sk: "skip_ws ?in (length pre + length (to_string_int x)) = length pre + length (to_string_int x)"
    by (rule skip_ws_stop) (simp add: nth_append)
  have sk': "skip_ws ?in (length pre + length (to_string_int x) + 1) = length ?in"
    using skip_ws_stop [of ?in "length ?in"] by simp
  show ?case
    using st sk sk' by (subst parse_i64_items.simps) (simp add: nth_append Let_def)
next
  case (Cons y ys)
  let ?rest = "concat (map (\<lambda>y. '','' @ to_string_int y) ys) @ '']''"
  let ?in = "pre @ to_string_int x @ '','' @ to_string_int y @ ?rest"
  let ?pre' = "pre @ to_string_int x @ '',''"
  have st: "strtoll (drop (length pre) ?in) = Some (x, False, length (to_string_int x))"
    using Cons.prems strtoll_to_string [of "'','' @ to_string_int y @ ?rest" x] by (simp add: in_range)
  have sk: "skip_ws ?in (length pre + length (to_string_int x)) = length pre + length (to_string_int x)"
    by (rule skip_ws_stop) (simp add: nth_append)
  have "?in ! length ?pre' = hd (to_string_int y)"
    using to_string_int_head [of y] by (cases "to_string_int y") (simp_all add: nth_append)
  then have sk': "skip_ws ?in (length ?pre') = length ?pre'"
    using to_string_int_head [of y] by (intro skip_ws_stop) simp
  have "parse_i64_items ?in (length pre) out = parse_i64_items ?in (length ?pre') (out @ [x])"
    using st sk sk' by (subst parse_i64_items.simps) (simp add: nth_append Let_def)
  also have "\<dots> = (True, (out @ [x]) @ y # ys)"
    using Cons.IH [of y ?pre' "out @ [x]"] Cons.prems by simp
  finally show ?case by simp
qed

text \<open>
  C37: the list reader accepts what the list printer writes, and gets the same numbers back.
\<close>

theorem i64_list_roundtrip:
  assumes "list_all i64_range xs"
  shows "parse_i64_list_literal (i64_list_repr xs) = (True, xs)"
proof (cases xs)
  case Nil
  have "skip_ws ''[]'' 0 = 0" "skip_ws ''[]'' 1 = 1" "skip_ws ''[]'' 2 = 2"
    by (rule skip_ws_stop, simp)+
  with Nil show ?thesis
    by (simp add: parse_i64_list_literal_def i64_list_repr_def Let_def numeral_2_eq_2)
next
  case (Cons y ys)
  let ?in = "''['' @ to_string_int y @ concat (map (\<lambda>y. '','' @ to_string_int y) ys) @ '']''"
  have r: "i64_list_repr (y # ys) = ?in" by (simp add: i64_list_repr_def comma_list_Cons)
  have "?in ! 1 = hd (to_string_int y)"
    using to_string_int_head [of y] by (cases "to_string_int y") simp_all
  then have "skip_ws ?in 1 = 1" "?in ! 1 \<noteq> CHR '']''"
    using to_string_int_head [of y] by (auto intro: skip_ws_stop)
  moreover have "skip_ws ?in 0 = 0" by (rule skip_ws_stop) simp
  ultimately show ?thesis
    using parse_items_repr [of y ys "''[''" "[]"] assms
    unfolding Cons parse_i64_list_literal_def r by (simp add: Let_def)
qed

lemma i64_list_roundtrip_witness:
  "parse_i64_list_literal (i64_list_repr [0, - 12, 9223372036854775807]) = (True, [0, - 12, 9223372036854775807])"
  by (rule i64_list_roundtrip) (simp add: i64_range_def i64_min_def i64_max_def)

text \<open>
  a number outside the 64-bit range is not reported: the list reader accepts the literal
  and stores the nearest bound, where the strict conversion of the same text is an error.
\<close>

theorem i64_list_saturates:
  assumes "\<not> i64_range v"
  shows "parse_i64_list_literal (i64_list_repr [v]) = (True, [if v < 0 then i64_min else i64_max])
    \<and> cstr_to_i64 (Some (to_string_int v)) = None"
proof -
  let ?in = "''['' @ to_string_int v @ '']''"
  have r: "i64_list_repr [v] = ?in" by (simp add: i64_list_repr_def comma_list_Cons)
  have c: "max i64_min (min i64_max v) = (if v < 0 then i64_min else i64_max)"
    using assms by (auto simp: i64_range_def i64_min_def i64_max_def)
  have "?in ! 1 = hd (to_string_int v)"
    using to_string_int_head [of v] by (cases "to_string_int v") simp_all
  then have h: "skip_ws ?in 1 = 1" "?in ! 1 \<noteq> CHR '']''"
    using to_string_int_head [of v] by (auto intro: skip_ws_stop)
  have h0: "skip_ws ?in 0 = 0" by (rule skip_ws_stop) simp
  have st: "strtoll (drop 1 ?in) = Some (if v < 0 then i64_min else i64_max, True, length (to_string_int v))"
    using strtoll_to_string [of "'']''" v] assms by (simp add: c)
  have sk: "skip_ws ?in (1 + length (to_string_int v)) = 1 + length (to_string_int v)"
    by (rule skip_ws_stop) (simp add: nth_append)
  have sk': "skip_ws ?in (1 + length (to_string_int v) + 1) = length ?in"
    using skip_ws_stop [of ?in "length ?in"] by simp
  have "parse_i64_items ?in 1 [] = (True, [if v < 0 then i64_min else i64_max])"
    using st sk sk' by (subst parse_i64_items.simps) (simp add: nth_append Let_def)
  with h h0 have "parse_i64_list_literal (i64_list_repr [v]) = (True, [if v < 0 then i64_min else i64_max])"
    by (simp add: parse_i64_list_literal_def r Let_def)
  moreover have "cstr_to_i64 (Some (to_string_int v)) = None"
    using strtoll_to_string [of "[]" v] assms to_string_int_head [of v] by (simp add: cstr_to_i64_def)
  ultimately show ?thesis by simp
qed

lemma i64_list_saturates_witness:
  "parse_i64_list_literal (i64_list_repr [9223372036854775808]) = (True, [i64_max])"
  using i64_list_saturates [of 9223372036854775808] by (simp add: i64_range_def i64_min_def i64_max_def)

lemma string_lines_loop_no_sep:
  "\<forall>l\<in>set lines. CHR 0x0A \<notin> set l \<and> CHR 0x0D \<notin> set l \<Longrightarrow> CHR 0x0A \<notin> set current \<and> CHR 0x0D \<notin> set current \<Longrightarrow>
   \<forall>l\<in>set (string_lines_loop s current ended lines). CHR 0x0A \<notin> set l \<and> CHR 0x0D \<notin> set l"
  by (induction s current ended lines rule: string_lines_loop.induct) auto

text \<open>The text with every line end written as a line feed.\<close>

fun unify_newlines :: "string \<Rightarrow> string" where
  "unify_newlines [] = []"
| "unify_newlines (ch # rest) =
     (if ch = CHR 0x0D then CHR 0x0A # unify_newlines (if rest \<noteq> [] \<and> hd rest = CHR 0x0A then tl rest else rest)
      else ch # unify_newlines rest)"

lemma unify_newlines_Nil [simp]: "unify_newlines s = [] \<longleftrightarrow> s = []"
  by (cases s) auto

lemma string_lines_loop_join:
  "(ended \<longrightarrow> current = []) \<Longrightarrow>
   concat (map (\<lambda>l. l @ [CHR 0x0A]) (string_lines_loop s current ended lines))
     = concat (map (\<lambda>l. l @ [CHR 0x0A]) lines) @ current @ unify_newlines s
       @ (if if s = [] then ended else last (unify_newlines s) = CHR 0x0A then [] else [CHR 0x0A])"
  by (induction s current ended lines rule: string_lines_loop.induct) (auto split: if_splits)

text \<open>
  splitting into lines loses only the form of the separators: no line contains one, and
  the lines, each ended by a line feed, are the text with its line ends written as line feeds
  and a final one added when it lacks one.
\<close>

theorem string_lines_correct:
  "(\<forall>l\<in>set (string_lines (Some s)). CHR 0x0A \<notin> set l \<and> CHR 0x0D \<notin> set l)
   \<and> concat (map (\<lambda>l. l @ [CHR 0x0A]) (string_lines (Some s)))
     = unify_newlines s @ (if s = [] \<or> last (unify_newlines s) = CHR 0x0A then [] else [CHR 0x0A])"
proof (cases "s = []")
  case False
  with string_lines_loop_no_sep [of "[]" "[]" s False] string_lines_loop_join [of False "[]" s "[]"]
  show ?thesis by (auto simp: string_lines_def)
qed (simp add: string_lines_def)

theorem string_lines_correct_witness:
  "string_lines (Some [CHR ''a'', CHR 0x0D, CHR 0x0A, CHR ''b'']) = [''a'', ''b'']
   \<and> concat (map (\<lambda>l. l @ [CHR 0x0A]) (string_lines (Some [CHR ''a'', CHR 0x0D, CHR 0x0A, CHR ''b''])))
     = [CHR ''a'', CHR 0x0A, CHR ''b'', CHR 0x0A]"
  using string_lines_correct [of "[CHR ''a'', CHR 0x0D, CHR 0x0A, CHR ''b'']"] by (simp add: string_lines_def)

end
