(* ===== verification/Styio_Runtime.thy ===== *)
theory Styio_Runtime
  imports Styio_HandleTable Styio_Dict Styio_RuntimeText "HOL-Library.Monad_Syntax"
begin

text \<open>
  The container runtime (src/src/StyioExtern/ExternLib.cpp): the thread's state (handle table,
  pending error, counts of live containers, default dictionary backend) and the C functions
  on lists and dictionaries that compiled programs call. An object is reached only through its
  handle, so the object a \<open>StyioListBase*\<close> points to is the one stored in its table entry, and
  a mutation through the pointer writes it back. \<open>int64_t\<close> values are integers in range, a
  \<open>double\<close> is a value of the type parameter \<open>'f\<close> whose printing is a parameter, a returned
  \<open>char*\<close> is a string or \<open>None\<close> for null. Functions take and return the state. Closing,
  cloning and printing nested containers recurse through handles; the bodies are written with
  the recursive call as an argument and tied with fuel, \<open>None\<close> meaning it ran out.
\<close>

subsection \<open>State\<close>

type_synonym i64 = int

datatype 'f styio_list =
    ListBool "i64 list" | ListI64 "i64 list" | ListF64 "'f list" | ListString "string list"
  | ListListHandle "int list" | ListDictHandle "int list"

datatype 'f styio_dict =
    DictBool "i64 dict_storage" | DictI64 "i64 dict_storage" | DictF64 "'f dict_storage"
  | DictString "string dict_storage" | DictListHandle "int dict_storage" | DictDictHandle "int dict_storage"

datatype 'f robj = OList "'f styio_list" | ODict "'f styio_dict"

record 'f runtime =
  rt_table :: "'f robj handle_table"
  rt_error :: bool
  rt_error_message :: string
  rt_error_subcode :: string
  rt_active_lists :: int
  rt_active_dicts :: int
  rt_dict_impl :: dict_impl

definition clear_runtime_error_state :: "'f runtime \<Rightarrow> 'f runtime" where
  "clear_runtime_error_state rt = rt \<lparr> rt_error := False, rt_error_message := [], rt_error_subcode := [] \<rparr>"

definition set_runtime_error_once :: "string \<Rightarrow> string \<Rightarrow> 'f runtime \<Rightarrow> 'f runtime" where
  "set_runtime_error_once subcode message rt =
     (let rt = rt \<lparr> rt_error := True \<rparr> in
      if rt_error_message rt = [] then rt \<lparr> rt_error_message := message, rt_error_subcode := subcode \<rparr> else rt)"

definition runtime_has_error :: "'f runtime \<Rightarrow> i64" where
  "runtime_has_error rt = (if rt_error rt then 1 else 0)"

definition runtime_last_error :: "'f runtime \<Rightarrow> string option" where
  "runtime_last_error rt =
     (if \<not> rt_error rt \<or> rt_error_message rt = [] then None else Some (rt_error_message rt))"

definition runtime_last_error_subcode :: "'f runtime \<Rightarrow> string option" where
  "runtime_last_error_subcode rt =
     (if \<not> rt_error rt \<or> rt_error_subcode rt = [] then None else Some (rt_error_subcode rt))"

definition subcode_list_handle :: string where "subcode_list_handle = ''STYIO_RUNTIME_INVALID_LIST_HANDLE''"
definition subcode_dict_handle :: string where "subcode_dict_handle = ''STYIO_RUNTIME_INVALID_DICT_HANDLE''"
definition subcode_list_index :: string where "subcode_list_index = ''STYIO_RUNTIME_LIST_INDEX''"
definition subcode_list_elem_kind :: string where "subcode_list_elem_kind = ''STYIO_RUNTIME_LIST_ELEM_KIND''"
definition subcode_list_parse :: string where "subcode_list_parse = ''STYIO_RUNTIME_LIST_PARSE''"
definition subcode_dict_key :: string where "subcode_dict_key = ''STYIO_RUNTIME_DICT_KEY''"

text \<open>Writing through the pointer of a handle.\<close>

definition store_object :: "int \<Rightarrow> 'p \<Rightarrow> 'p handle_table \<Rightarrow> 'p handle_table" where
  "store_object h obj t =
     (if in_range t h then
        t \<lparr> entries := (entries t)[nat (h - 1) := (entries t ! nat (h - 1)) \<lparr> e_ptr := Some obj \<rparr>] \<rparr>
      else t)"

definition put_object :: "int \<Rightarrow> 'f robj \<Rightarrow> 'f runtime \<Rightarrow> 'f runtime" where
  "put_object h obj rt = rt \<lparr> rt_table := store_object h obj (rt_table rt) \<rparr>"

subsection \<open>Resolving handles\<close>

definition stash_list :: "'f styio_list \<Rightarrow> 'f runtime \<Rightarrow> int \<times> 'f runtime" where
  "stash_list l rt =
     (let (h, t) = acquire HK_List (Some (OList l)) (rt_table rt) in
      (h, rt \<lparr> rt_table := t, rt_active_lists := rt_active_lists rt + 1 \<rparr>))"

definition as_list_base :: "int \<Rightarrow> bool \<Rightarrow> 'f runtime \<Rightarrow> 'f styio_list option \<times> 'f runtime" where
  "as_list_base h diagnose rt =
     (if h = 0 then (None, rt)
      else case lookup (rt_table rt) h HK_List of
        Some (OList l) \<Rightarrow> (Some l, rt)
      | _ \<Rightarrow> (None, if diagnose then
                 set_runtime_error_once subcode_list_handle (''invalid list handle: '' @ to_string_int h) rt
               else rt))"

text \<open>The checks \<open>as_list_bool\<close> to \<open>as_list_dict_handle\<close> differ in the kind they accept and its name.\<close>

definition as_list_kind :: "string \<Rightarrow> ('f styio_list \<Rightarrow> 'a option) \<Rightarrow> int \<Rightarrow> bool \<Rightarrow> 'f runtime \<Rightarrow> 'a option \<times> 'f runtime" where
  "as_list_kind kind_name elems_of h diagnose rt =
     (case as_list_base h diagnose rt of
        (None, rt) \<Rightarrow> (None, rt)
      | (Some l, rt) \<Rightarrow>
          (case elems_of l of
             Some xs \<Rightarrow> (Some xs, rt)
           | None \<Rightarrow> (None, if diagnose then
                 set_runtime_error_once subcode_list_elem_kind
                   (''list handle does not carry '' @ kind_name @ '' elements: '' @ to_string_int h) rt
               else rt)))"

fun elems_bool :: "'f styio_list \<Rightarrow> i64 list option" where
  "elems_bool (ListBool xs) = Some xs"
| "elems_bool _ = None"

fun elems_i64 :: "'f styio_list \<Rightarrow> i64 list option" where
  "elems_i64 (ListI64 xs) = Some xs"
| "elems_i64 _ = None"

fun elems_f64 :: "'f styio_list \<Rightarrow> 'f list option" where
  "elems_f64 (ListF64 xs) = Some xs"
| "elems_f64 _ = None"

fun elems_string :: "'f styio_list \<Rightarrow> string list option" where
  "elems_string (ListString xs) = Some xs"
| "elems_string _ = None"

fun elems_list_handle :: "'f styio_list \<Rightarrow> int list option" where
  "elems_list_handle (ListListHandle xs) = Some xs"
| "elems_list_handle _ = None"

fun elems_dict_handle :: "'f styio_list \<Rightarrow> int list option" where
  "elems_dict_handle (ListDictHandle xs) = Some xs"
| "elems_dict_handle _ = None"

definition as_list_bool :: "int \<Rightarrow> bool \<Rightarrow> 'f runtime \<Rightarrow> i64 list option \<times> 'f runtime" where
  "as_list_bool = as_list_kind ''bool'' elems_bool"

definition as_list_i64 :: "int \<Rightarrow> bool \<Rightarrow> 'f runtime \<Rightarrow> i64 list option \<times> 'f runtime" where
  "as_list_i64 = as_list_kind ''i64'' elems_i64"

definition as_list_f64 :: "int \<Rightarrow> bool \<Rightarrow> 'f runtime \<Rightarrow> 'f list option \<times> 'f runtime" where
  "as_list_f64 = as_list_kind ''f64'' elems_f64"

definition as_list_string :: "int \<Rightarrow> bool \<Rightarrow> 'f runtime \<Rightarrow> string list option \<times> 'f runtime" where
  "as_list_string = as_list_kind ''string'' elems_string"

definition as_list_list_handle :: "int \<Rightarrow> bool \<Rightarrow> 'f runtime \<Rightarrow> int list option \<times> 'f runtime" where
  "as_list_list_handle = as_list_kind ''list-handle'' elems_list_handle"

definition as_list_dict_handle :: "int \<Rightarrow> bool \<Rightarrow> 'f runtime \<Rightarrow> int list option \<times> 'f runtime" where
  "as_list_dict_handle = as_list_kind ''dict-handle'' elems_dict_handle"

definition stash_dict :: "'f styio_dict \<Rightarrow> 'f runtime \<Rightarrow> int \<times> 'f runtime" where
  "stash_dict d rt =
     (let (h, t) = acquire HK_Dict (Some (ODict d)) (rt_table rt) in
      (h, rt \<lparr> rt_table := t, rt_active_dicts := rt_active_dicts rt + 1 \<rparr>))"

definition as_dict_base :: "int \<Rightarrow> bool \<Rightarrow> 'f runtime \<Rightarrow> 'f styio_dict option \<times> 'f runtime" where
  "as_dict_base h diagnose rt =
     (if h = 0 then (None, rt)
      else case lookup (rt_table rt) h HK_Dict of
        Some (ODict d) \<Rightarrow> (Some d, rt)
      | _ \<Rightarrow> (None, if diagnose then
                 set_runtime_error_once subcode_dict_handle (''invalid dict handle: '' @ to_string_int h) rt
               else rt))"

definition as_dict_kind :: "string \<Rightarrow> ('f styio_dict \<Rightarrow> 'a option) \<Rightarrow> int \<Rightarrow> bool \<Rightarrow> 'f runtime \<Rightarrow> 'a option \<times> 'f runtime" where
  "as_dict_kind kind_name storage_of h diagnose rt =
     (case as_dict_base h diagnose rt of
        (None, rt) \<Rightarrow> (None, rt)
      | (Some d, rt) \<Rightarrow>
          (case storage_of d of
             Some s \<Rightarrow> (Some s, rt)
           | None \<Rightarrow> (None, if diagnose then
                 set_runtime_error_once subcode_dict_handle
                   (''dict handle does not carry '' @ kind_name @ '' values'') rt
               else rt)))"

fun storage_bool :: "'f styio_dict \<Rightarrow> i64 dict_storage option" where
  "storage_bool (DictBool s) = Some s"
| "storage_bool _ = None"

fun storage_i64 :: "'f styio_dict \<Rightarrow> i64 dict_storage option" where
  "storage_i64 (DictI64 s) = Some s"
| "storage_i64 _ = None"

fun storage_f64 :: "'f styio_dict \<Rightarrow> 'f dict_storage option" where
  "storage_f64 (DictF64 s) = Some s"
| "storage_f64 _ = None"

fun storage_string :: "'f styio_dict \<Rightarrow> string dict_storage option" where
  "storage_string (DictString s) = Some s"
| "storage_string _ = None"

fun storage_list :: "'f styio_dict \<Rightarrow> int dict_storage option" where
  "storage_list (DictListHandle s) = Some s"
| "storage_list _ = None"

fun storage_dict :: "'f styio_dict \<Rightarrow> int dict_storage option" where
  "storage_dict (DictDictHandle s) = Some s"
| "storage_dict _ = None"

definition as_dict_bool :: "int \<Rightarrow> bool \<Rightarrow> 'f runtime \<Rightarrow> i64 dict_storage option \<times> 'f runtime" where
  "as_dict_bool = as_dict_kind ''bool'' storage_bool"

definition as_dict_i64 :: "int \<Rightarrow> bool \<Rightarrow> 'f runtime \<Rightarrow> i64 dict_storage option \<times> 'f runtime" where
  "as_dict_i64 = as_dict_kind ''i64'' storage_i64"

definition as_dict_f64 :: "int \<Rightarrow> bool \<Rightarrow> 'f runtime \<Rightarrow> 'f dict_storage option \<times> 'f runtime" where
  "as_dict_f64 = as_dict_kind ''f64'' storage_f64"

definition as_dict_string :: "int \<Rightarrow> bool \<Rightarrow> 'f runtime \<Rightarrow> string dict_storage option \<times> 'f runtime" where
  "as_dict_string = as_dict_kind ''string'' storage_string"

definition as_dict_list :: "int \<Rightarrow> bool \<Rightarrow> 'f runtime \<Rightarrow> int dict_storage option \<times> 'f runtime" where
  "as_dict_list = as_dict_kind ''list'' storage_list"

definition as_dict_dict :: "int \<Rightarrow> bool \<Rightarrow> 'f runtime \<Rightarrow> int dict_storage option \<times> 'f runtime" where
  "as_dict_dict = as_dict_kind ''dict'' storage_dict"

subsection \<open>Closing\<close>

text \<open>Running through a list of handles, stopping when the recursion runs out of fuel.\<close>

fun fold_opt :: "('a \<Rightarrow> 's \<Rightarrow> 's option) \<Rightarrow> 'a list \<Rightarrow> 's \<Rightarrow> 's option" where
  "fold_opt f [] s = Some s"
| "fold_opt f (x # xs) s = (case f x s of None \<Rightarrow> None | Some s' \<Rightarrow> fold_opt f xs s')"

text \<open>\<open>g_handle_table.release(h, kind, closer)\<close>.\<close>

definition release_with :: "('f robj \<Rightarrow> 'f runtime \<Rightarrow> 'f runtime option) \<Rightarrow> handle_kind \<Rightarrow> int \<Rightarrow> 'f runtime \<Rightarrow> 'f runtime option" where
  "release_with closer kind h rt =
     (case release h kind (rt_table rt) of
        (released, None, t) \<Rightarrow> Some (rt \<lparr> rt_table := t \<rparr>)
      | (released, Some raw, t) \<Rightarrow> closer raw (rt \<lparr> rt_table := t \<rparr>))"

definition close_list_body :: "('f robj \<Rightarrow> 'f runtime \<Rightarrow> 'f runtime option) \<Rightarrow> 'f styio_list \<Rightarrow> 'f runtime \<Rightarrow> 'f runtime option" where
  "close_list_body closer l rt =
     map_option
       (\<lambda>rt. if 0 < rt_active_lists rt then rt \<lparr> rt_active_lists := rt_active_lists rt - 1 \<rparr> else rt)
       (case l of
          ListListHandle hs \<Rightarrow> fold_opt (release_with closer HK_List) hs rt
        | ListDictHandle hs \<Rightarrow> fold_opt (release_with closer HK_Dict) hs rt
        | _ \<Rightarrow> Some rt)"

definition close_dict_body :: "('f robj \<Rightarrow> 'f runtime \<Rightarrow> 'f runtime option) \<Rightarrow> 'f styio_dict \<Rightarrow> 'f runtime \<Rightarrow> 'f runtime option" where
  "close_dict_body closer d rt =
     map_option
       (\<lambda>rt. if 0 < rt_active_dicts rt then rt \<lparr> rt_active_dicts := rt_active_dicts rt - 1 \<rparr> else rt)
       (case d of
          DictListHandle s \<Rightarrow> fold_opt (release_with closer HK_List) (dict_values s) rt
        | DictDictHandle s \<Rightarrow> fold_opt (release_with closer HK_Dict) (dict_values s) rt
        | _ \<Rightarrow> Some rt)"

primrec close_object :: "nat \<Rightarrow> 'f robj \<Rightarrow> 'f runtime \<Rightarrow> 'f runtime option" where
  "close_object 0 = (\<lambda>obj rt. None)"
| "close_object (Suc n) = (\<lambda>obj rt. case obj of
       OList l \<Rightarrow> close_list_body (close_object n) l rt
     | ODict d \<Rightarrow> close_dict_body (close_object n) d rt)"

text \<open>The entry points; fuel for one more than the occupied slots is shown to suffice.\<close>

definition close_fuel :: "'f runtime \<Rightarrow> nat" where
  "close_fuel rt = Suc (table_size (rt_table rt))"

definition styio_list_release :: "int \<Rightarrow> 'f runtime \<Rightarrow> 'f runtime option" where
  "styio_list_release h rt = release_with (close_object (close_fuel rt)) HK_List h rt"

definition styio_dict_release :: "int \<Rightarrow> 'f runtime \<Rightarrow> 'f runtime option" where
  "styio_dict_release h rt = release_with (close_object (close_fuel rt)) HK_Dict h rt"

definition styio_list_active_count :: "'f runtime \<Rightarrow> i64" where
  "styio_list_active_count rt = rt_active_lists rt"

definition styio_dict_active_count :: "'f runtime \<Rightarrow> i64" where
  "styio_dict_active_count rt = rt_active_dicts rt"

subsection \<open>Cloning\<close>

fun map_opt :: "('a \<Rightarrow> 's \<Rightarrow> ('b \<times> 's) option) \<Rightarrow> 'a list \<Rightarrow> 's \<Rightarrow> ('b list \<times> 's) option" where
  "map_opt f [] s = Some ([], s)"
| "map_opt f (x # xs) s = do { (y, s) \<leftarrow> f x s; (ys, s) \<leftarrow> map_opt f xs s; Some (y # ys, s) }"

text \<open>The recursive calls are \<open>rec HK_List\<close> for \<open>clone_list_handle_value\<close> and \<open>rec HK_Dict\<close> for
  \<open>clone_dict_handle_value\<close>.\<close>

definition clone_list_body :: "(handle_kind \<Rightarrow> int \<Rightarrow> 'f runtime \<Rightarrow> (int \<times> 'f runtime) option) \<Rightarrow> int \<Rightarrow> 'f runtime \<Rightarrow> (int \<times> 'f runtime) option" where
  "clone_list_body rec h rt =
     (case as_list_base h True rt of
        (None, rt) \<Rightarrow> Some (0, rt)
      | (Some src, rt) \<Rightarrow>
          (case src of
             ListListHandle hs \<Rightarrow> do { (cs, rt) \<leftarrow> map_opt (rec HK_List) hs rt; Some (stash_list (ListListHandle cs) rt) }
           | ListDictHandle hs \<Rightarrow> do { (cs, rt) \<leftarrow> map_opt (rec HK_Dict) hs rt; Some (stash_list (ListDictHandle cs) rt) }
           | flat \<Rightarrow> Some (stash_list flat rt)))"

definition clone_entries :: "(int \<Rightarrow> 'f runtime \<Rightarrow> (int \<times> 'f runtime) option) \<Rightarrow> int dict_storage \<Rightarrow> 'f runtime \<Rightarrow> (int dict_storage \<times> 'f runtime) option" where
  "clone_entries rec src rt = do {
     (es, rt) \<leftarrow> map_opt (\<lambda>(k, v) rt. do { (v', rt) \<leftarrow> rec v rt; Some ((k, v'), rt) }) (d_entries src) rt;
     Some (dict_after_clone (new_dict_storage (d_impl src) \<lparr> d_entries := es \<rparr>), rt) }"

definition clone_dict_body :: "(handle_kind \<Rightarrow> int \<Rightarrow> 'f runtime \<Rightarrow> (int \<times> 'f runtime) option) \<Rightarrow> int \<Rightarrow> 'f runtime \<Rightarrow> (int \<times> 'f runtime) option" where
  "clone_dict_body rec h rt =
     (case as_dict_base h True rt of
        (None, rt) \<Rightarrow> Some (0, rt)
      | (Some src, rt) \<Rightarrow>
          (case src of
             DictBool s \<Rightarrow> Some (stash_dict (DictBool (clone_dict_storage s (d_impl s))) rt)
           | DictI64 s \<Rightarrow> Some (stash_dict (DictI64 (clone_dict_storage s (d_impl s))) rt)
           | DictF64 s \<Rightarrow> Some (stash_dict (DictF64 (clone_dict_storage s (d_impl s))) rt)
           | DictString s \<Rightarrow> Some (stash_dict (DictString (clone_dict_storage s (d_impl s))) rt)
           | DictListHandle s \<Rightarrow> do { (c, rt) \<leftarrow> clone_entries (rec HK_List) s rt; Some (stash_dict (DictListHandle c) rt) }
           | DictDictHandle s \<Rightarrow> do { (c, rt) \<leftarrow> clone_entries (rec HK_Dict) s rt; Some (stash_dict (DictDictHandle c) rt) }))"

primrec clone_handle_value :: "nat \<Rightarrow> handle_kind \<Rightarrow> int \<Rightarrow> 'f runtime \<Rightarrow> (int \<times> 'f runtime) option" where
  "clone_handle_value 0 = (\<lambda>kind h rt. None)"
| "clone_handle_value (Suc n) = (\<lambda>kind h rt.
     if kind = HK_List then clone_list_body (clone_handle_value n) h rt
     else clone_dict_body (clone_handle_value n) h rt)"

subsection \<open>Lists\<close>

definition out_of_range_text :: "i64 \<Rightarrow> string" where
  "out_of_range_text idx = ''list index out of range: '' @ to_string_int idx"

definition check_list_index :: "nat \<Rightarrow> i64 \<Rightarrow> bool \<Rightarrow> 'f runtime \<Rightarrow> bool \<times> 'f runtime" where
  "check_list_index sz idx allow_end rt =
     (let fail = (False, set_runtime_error_once subcode_list_index (out_of_range_text idx) rt) in
      if idx < 0 then fail
      else let pos = nat idx in
        if (allow_end \<and> sz < pos) \<or> (\<not> allow_end \<and> sz \<le> pos) then fail else (True, rt))"

definition insert_at :: "nat \<Rightarrow> 'a \<Rightarrow> 'a list \<Rightarrow> 'a list" where
  "insert_at pos v xs = take pos xs @ v # drop pos xs"

text \<open>\<open>list_insert_value\<close> and \<open>list_set_value\<close> on the list a handle resolved to; \<open>mk\<close> rebuilds the object.\<close>

definition list_insert_value :: "('a list \<Rightarrow> 'f styio_list) \<Rightarrow> int \<Rightarrow> 'a list \<Rightarrow> i64 \<Rightarrow> 'a \<Rightarrow> 'f runtime \<Rightarrow> 'f runtime" where
  "list_insert_value mk h xs idx v rt =
     (case check_list_index (length xs) idx True rt of
        (False, rt) \<Rightarrow> rt
      | (True, rt) \<Rightarrow> put_object h (OList (mk (insert_at (nat idx) v xs))) rt)"

definition list_set_value :: "('a list \<Rightarrow> 'f styio_list) \<Rightarrow> int \<Rightarrow> 'a list \<Rightarrow> i64 \<Rightarrow> 'a \<Rightarrow> 'f runtime \<Rightarrow> 'f runtime" where
  "list_set_value mk h xs idx v rt =
     (case check_list_index (length xs) idx False rt of
        (False, rt) \<Rightarrow> rt
      | (True, rt) \<Rightarrow> put_object h (OList (mk (xs[nat idx := v]))) rt)"

definition bool_i64 :: "i64 \<Rightarrow> i64" where
  "bool_i64 v = (if v \<noteq> 0 then 1 else 0)"

text \<open>A null \<open>char*\<close> is stored as the empty string.\<close>

definition cstr_or_empty :: "string option \<Rightarrow> string" where
  "cstr_or_empty s = (case s of None \<Rightarrow> [] | Some s \<Rightarrow> s)"

definition styio_list_new_bool :: "'f runtime \<Rightarrow> int \<times> 'f runtime" where
  "styio_list_new_bool rt = stash_list (ListBool []) rt"

definition styio_list_new_i64 :: "'f runtime \<Rightarrow> int \<times> 'f runtime" where
  "styio_list_new_i64 rt = stash_list (ListI64 []) rt"

definition styio_list_new_f64 :: "'f runtime \<Rightarrow> int \<times> 'f runtime" where
  "styio_list_new_f64 rt = stash_list (ListF64 []) rt"

definition styio_list_new_cstr :: "'f runtime \<Rightarrow> int \<times> 'f runtime" where
  "styio_list_new_cstr rt = stash_list (ListString []) rt"

definition styio_list_new_list :: "'f runtime \<Rightarrow> int \<times> 'f runtime" where
  "styio_list_new_list rt = stash_list (ListListHandle []) rt"

definition styio_list_new_dict :: "'f runtime \<Rightarrow> int \<times> 'f runtime" where
  "styio_list_new_dict rt = stash_list (ListDictHandle []) rt"

definition styio_list_push_bool :: "int \<Rightarrow> i64 \<Rightarrow> 'f runtime \<Rightarrow> 'f runtime" where
  "styio_list_push_bool h v rt =
     (case as_list_bool h True rt of
        (None, rt) \<Rightarrow> rt
      | (Some xs, rt) \<Rightarrow> put_object h (OList (ListBool (xs @ [bool_i64 v]))) rt)"

definition styio_list_push_i64 :: "int \<Rightarrow> i64 \<Rightarrow> 'f runtime \<Rightarrow> 'f runtime" where
  "styio_list_push_i64 h v rt =
     (case as_list_i64 h True rt of
        (None, rt) \<Rightarrow> rt
      | (Some xs, rt) \<Rightarrow> put_object h (OList (ListI64 (xs @ [v]))) rt)"

definition styio_list_push_f64 :: "int \<Rightarrow> 'f \<Rightarrow> 'f runtime \<Rightarrow> 'f runtime" where
  "styio_list_push_f64 h v rt =
     (case as_list_f64 h True rt of
        (None, rt) \<Rightarrow> rt
      | (Some xs, rt) \<Rightarrow> put_object h (OList (ListF64 (xs @ [v]))) rt)"

definition styio_list_push_cstr :: "int \<Rightarrow> string option \<Rightarrow> 'f runtime \<Rightarrow> 'f runtime" where
  "styio_list_push_cstr h v rt =
     (case as_list_string h True rt of
        (None, rt) \<Rightarrow> rt
      | (Some xs, rt) \<Rightarrow> put_object h (OList (ListString (xs @ [cstr_or_empty v]))) rt)"

text \<open>The operations on nested containers store a clone of the argument; they take the fuel of the
  clone, which only adds objects and leaves the list as it was read.\<close>

definition styio_list_push_list :: "nat \<Rightarrow> int \<Rightarrow> int \<Rightarrow> 'f runtime \<Rightarrow> 'f runtime option" where
  "styio_list_push_list fuel h v rt =
     (case as_list_list_handle h True rt of
        (None, rt) \<Rightarrow> Some rt
      | (Some xs, rt) \<Rightarrow> do {
          (stored, rt) \<leftarrow> clone_handle_value fuel HK_List v rt;
          Some (put_object h (OList (ListListHandle (xs @ [stored]))) rt) })"

definition styio_list_push_dict :: "nat \<Rightarrow> int \<Rightarrow> int \<Rightarrow> 'f runtime \<Rightarrow> 'f runtime option" where
  "styio_list_push_dict fuel h v rt =
     (case as_list_dict_handle h True rt of
        (None, rt) \<Rightarrow> Some rt
      | (Some xs, rt) \<Rightarrow> do {
          (stored, rt) \<leftarrow> clone_handle_value fuel HK_Dict v rt;
          Some (put_object h (OList (ListDictHandle (xs @ [stored]))) rt) })"

definition styio_list_insert_bool :: "int \<Rightarrow> i64 \<Rightarrow> i64 \<Rightarrow> 'f runtime \<Rightarrow> 'f runtime" where
  "styio_list_insert_bool h idx v rt =
     (case as_list_bool h True rt of
        (None, rt) \<Rightarrow> rt
      | (Some xs, rt) \<Rightarrow> list_insert_value ListBool h xs idx (bool_i64 v) rt)"

definition styio_list_insert_i64 :: "int \<Rightarrow> i64 \<Rightarrow> i64 \<Rightarrow> 'f runtime \<Rightarrow> 'f runtime" where
  "styio_list_insert_i64 h idx v rt =
     (case as_list_i64 h True rt of
        (None, rt) \<Rightarrow> rt
      | (Some xs, rt) \<Rightarrow> list_insert_value ListI64 h xs idx (v) rt)"

definition styio_list_insert_f64 :: "int \<Rightarrow> i64 \<Rightarrow> 'f \<Rightarrow> 'f runtime \<Rightarrow> 'f runtime" where
  "styio_list_insert_f64 h idx v rt =
     (case as_list_f64 h True rt of
        (None, rt) \<Rightarrow> rt
      | (Some xs, rt) \<Rightarrow> list_insert_value ListF64 h xs idx (v) rt)"

definition styio_list_insert_cstr :: "int \<Rightarrow> i64 \<Rightarrow> string option \<Rightarrow> 'f runtime \<Rightarrow> 'f runtime" where
  "styio_list_insert_cstr h idx v rt =
     (case as_list_string h True rt of
        (None, rt) \<Rightarrow> rt
      | (Some xs, rt) \<Rightarrow> list_insert_value ListString h xs idx (cstr_or_empty v) rt)"

definition styio_list_insert_list :: "nat \<Rightarrow> int \<Rightarrow> i64 \<Rightarrow> int \<Rightarrow> 'f runtime \<Rightarrow> 'f runtime option" where
  "styio_list_insert_list fuel h idx v rt =
     (case as_list_list_handle h True rt of
        (None, rt) \<Rightarrow> Some rt
      | (Some xs, rt) \<Rightarrow>
          (case check_list_index (length xs) idx True rt of
             (False, rt) \<Rightarrow> Some rt
           | (True, rt) \<Rightarrow> do {
               (stored, rt) \<leftarrow> clone_handle_value fuel HK_List v rt;
               Some (put_object h (OList (ListListHandle (insert_at (nat idx) stored xs))) rt) }))"

definition styio_list_insert_dict :: "nat \<Rightarrow> int \<Rightarrow> i64 \<Rightarrow> int \<Rightarrow> 'f runtime \<Rightarrow> 'f runtime option" where
  "styio_list_insert_dict fuel h idx v rt =
     (case as_list_dict_handle h True rt of
        (None, rt) \<Rightarrow> Some rt
      | (Some xs, rt) \<Rightarrow>
          (case check_list_index (length xs) idx True rt of
             (False, rt) \<Rightarrow> Some rt
           | (True, rt) \<Rightarrow> do {
               (stored, rt) \<leftarrow> clone_handle_value fuel HK_Dict v rt;
               Some (put_object h (OList (ListDictHandle (insert_at (nat idx) stored xs))) rt) }))"

definition styio_list_clone :: "nat \<Rightarrow> int \<Rightarrow> 'f runtime \<Rightarrow> (int \<times> 'f runtime) option" where
  "styio_list_clone fuel h rt = clone_handle_value fuel HK_List h rt"

fun list_length :: "'f styio_list \<Rightarrow> nat" where
  "list_length (ListBool xs) = length xs"
| "list_length (ListI64 xs) = length xs"
| "list_length (ListF64 xs) = length xs"
| "list_length (ListString xs) = length xs"
| "list_length (ListListHandle xs) = length xs"
| "list_length (ListDictHandle xs) = length xs"

definition styio_list_len :: "int \<Rightarrow> 'f runtime \<Rightarrow> i64 \<times> 'f runtime" where
  "styio_list_len h rt =
     (case as_list_base h True rt of
        (None, rt) \<Rightarrow> (0, rt)
      | (Some l, rt) \<Rightarrow> (int (list_length l), rt))"

definition styio_list_get_bool :: "int \<Rightarrow> i64 \<Rightarrow> 'f runtime \<Rightarrow> i64 \<times> 'f runtime" where
  "styio_list_get_bool h idx rt =
     (case as_list_bool h True rt of
        (None, rt) \<Rightarrow> (0, rt)
      | (Some xs, rt) \<Rightarrow>
          (case check_list_index (length xs) idx False rt of
             (False, rt) \<Rightarrow> (0, rt)
           | (True, rt) \<Rightarrow> (bool_i64 (xs ! nat idx), rt)))"

definition styio_list_get :: "int \<Rightarrow> i64 \<Rightarrow> 'f runtime \<Rightarrow> i64 \<times> 'f runtime" where
  "styio_list_get h idx rt =
     (case as_list_i64 h True rt of
        (None, rt) \<Rightarrow> (0, rt)
      | (Some xs, rt) \<Rightarrow>
          (case check_list_index (length xs) idx False rt of
             (False, rt) \<Rightarrow> (0, rt)
           | (True, rt) \<Rightarrow> (xs ! nat idx, rt)))"

definition styio_list_get_f64 :: "int \<Rightarrow> i64 \<Rightarrow> ('f :: zero) runtime \<Rightarrow> 'f \<times> 'f runtime" where
  "styio_list_get_f64 h idx rt =
     (case as_list_f64 h True rt of
        (None, rt) \<Rightarrow> (0, rt)
      | (Some xs, rt) \<Rightarrow>
          (case check_list_index (length xs) idx False rt of
             (False, rt) \<Rightarrow> (0, rt)
           | (True, rt) \<Rightarrow> (xs ! nat idx, rt)))"

definition styio_list_get_cstr :: "int \<Rightarrow> i64 \<Rightarrow> 'f runtime \<Rightarrow> string option \<times> 'f runtime" where
  "styio_list_get_cstr h idx rt =
     (case as_list_string h True rt of
        (None, rt) \<Rightarrow> (None, rt)
      | (Some xs, rt) \<Rightarrow>
          (case check_list_index (length xs) idx False rt of
             (False, rt) \<Rightarrow> (None, rt)
           | (True, rt) \<Rightarrow> (Some (xs ! nat idx), rt)))"

definition styio_list_get_list :: "nat \<Rightarrow> int \<Rightarrow> i64 \<Rightarrow> 'f runtime \<Rightarrow> (int \<times> 'f runtime) option" where
  "styio_list_get_list fuel h idx rt =
     (case as_list_list_handle h True rt of
        (None, rt) \<Rightarrow> Some (0, rt)
      | (Some xs, rt) \<Rightarrow>
          (case check_list_index (length xs) idx False rt of
             (False, rt) \<Rightarrow> Some (0, rt)
           | (True, rt) \<Rightarrow> clone_handle_value fuel HK_List (xs ! nat idx) rt))"

definition styio_list_get_dict :: "nat \<Rightarrow> int \<Rightarrow> i64 \<Rightarrow> 'f runtime \<Rightarrow> (int \<times> 'f runtime) option" where
  "styio_list_get_dict fuel h idx rt =
     (case as_list_dict_handle h True rt of
        (None, rt) \<Rightarrow> Some (0, rt)
      | (Some xs, rt) \<Rightarrow>
          (case check_list_index (length xs) idx False rt of
             (False, rt) \<Rightarrow> Some (0, rt)
           | (True, rt) \<Rightarrow> clone_handle_value fuel HK_Dict (xs ! nat idx) rt))"

definition styio_list_set_bool :: "int \<Rightarrow> i64 \<Rightarrow> i64 \<Rightarrow> 'f runtime \<Rightarrow> 'f runtime" where
  "styio_list_set_bool h idx v rt =
     (case as_list_bool h True rt of
        (None, rt) \<Rightarrow> rt
      | (Some xs, rt) \<Rightarrow> list_set_value ListBool h xs idx (bool_i64 v) rt)"

definition styio_list_set :: "int \<Rightarrow> i64 \<Rightarrow> i64 \<Rightarrow> 'f runtime \<Rightarrow> 'f runtime" where
  "styio_list_set h idx v rt =
     (case as_list_i64 h True rt of
        (None, rt) \<Rightarrow> rt
      | (Some xs, rt) \<Rightarrow> list_set_value ListI64 h xs idx (v) rt)"

definition styio_list_set_f64 :: "int \<Rightarrow> i64 \<Rightarrow> 'f \<Rightarrow> 'f runtime \<Rightarrow> 'f runtime" where
  "styio_list_set_f64 h idx v rt =
     (case as_list_f64 h True rt of
        (None, rt) \<Rightarrow> rt
      | (Some xs, rt) \<Rightarrow> list_set_value ListF64 h xs idx (v) rt)"

definition styio_list_set_cstr :: "int \<Rightarrow> i64 \<Rightarrow> string option \<Rightarrow> 'f runtime \<Rightarrow> 'f runtime" where
  "styio_list_set_cstr h idx v rt =
     (case as_list_string h True rt of
        (None, rt) \<Rightarrow> rt
      | (Some xs, rt) \<Rightarrow> list_set_value ListString h xs idx (cstr_or_empty v) rt)"

definition styio_list_set_list :: "nat \<Rightarrow> int \<Rightarrow> i64 \<Rightarrow> int \<Rightarrow> 'f runtime \<Rightarrow> 'f runtime option" where
  "styio_list_set_list fuel h idx v rt =
     (case as_list_list_handle h True rt of
        (None, rt) \<Rightarrow> Some rt
      | (Some xs, rt) \<Rightarrow>
          (case check_list_index (length xs) idx False rt of
             (False, rt) \<Rightarrow> Some rt
           | (True, rt) \<Rightarrow> do {
               (stored, rt) \<leftarrow> clone_handle_value fuel HK_List v rt;
               rt \<leftarrow> release_with (close_object (close_fuel rt)) HK_List (xs ! nat idx) rt;
               Some (put_object h (OList (ListListHandle (xs[nat idx := stored]))) rt) }))"

definition styio_list_set_dict :: "nat \<Rightarrow> int \<Rightarrow> i64 \<Rightarrow> int \<Rightarrow> 'f runtime \<Rightarrow> 'f runtime option" where
  "styio_list_set_dict fuel h idx v rt =
     (case as_list_dict_handle h True rt of
        (None, rt) \<Rightarrow> Some rt
      | (Some xs, rt) \<Rightarrow>
          (case check_list_index (length xs) idx False rt of
             (False, rt) \<Rightarrow> Some rt
           | (True, rt) \<Rightarrow> do {
               (stored, rt) \<leftarrow> clone_handle_value fuel HK_Dict v rt;
               rt \<leftarrow> release_with (close_object (close_fuel rt)) HK_Dict (xs ! nat idx) rt;
               Some (put_object h (OList (ListDictHandle (xs[nat idx := stored]))) rt) }))"

text \<open>Popping: the shortened list and the handle to release, or \<open>None\<close> on an empty list.\<close>

definition pop_last :: "('a list \<Rightarrow> 'f styio_list) \<Rightarrow> 'a list \<Rightarrow> 'f styio_list option" where
  "pop_last mk xs = (if xs = [] then None else Some (mk (butlast xs)))"

definition styio_list_pop :: "int \<Rightarrow> 'f runtime \<Rightarrow> 'f runtime option" where
  "styio_list_pop h rt =
     (case as_list_base h True rt of
        (None, rt) \<Rightarrow> Some rt
      | (Some l, rt) \<Rightarrow>
          (let empty_error = set_runtime_error_once subcode_list_index ''list pop on empty list'' rt;
               store = (\<lambda>r. case r of None \<Rightarrow> empty_error | Some l' \<Rightarrow> put_object h (OList l') rt) in
           case l of
             ListBool xs \<Rightarrow> Some (store (pop_last ListBool xs))
           | ListI64 xs \<Rightarrow> Some (store (pop_last ListI64 xs))
           | ListF64 xs \<Rightarrow> Some (store (pop_last ListF64 xs))
           | ListString xs \<Rightarrow> Some (store (pop_last ListString xs))
           | ListListHandle xs \<Rightarrow>
               if xs = [] then Some empty_error
               else release_with (close_object (close_fuel rt)) HK_List (last xs)
                      (put_object h (OList (ListListHandle (butlast xs))) rt)
           | ListDictHandle xs \<Rightarrow>
               if xs = [] then Some empty_error
               else release_with (close_object (close_fuel rt)) HK_Dict (last xs)
                      (put_object h (OList (ListDictHandle (butlast xs))) rt)))"

definition styio_string_lines :: "string option \<Rightarrow> 'f runtime \<Rightarrow> int \<times> 'f runtime" where
  "styio_string_lines txt rt = stash_list (ListString (string_lines txt)) rt"

text \<open>Reading a list from standard input, whose contents are an argument.\<close>

definition styio_list_i64_read_stdin :: "string \<Rightarrow> 'f runtime \<Rightarrow> int \<times> 'f runtime" where
  "styio_list_i64_read_stdin input rt =
     (case parse_i64_list_literal input of
        (False, _) \<Rightarrow> (0, set_runtime_error_once subcode_list_parse
                           ''stdin does not contain a valid Styio list literal'' rt)
      | (True, xs) \<Rightarrow> stash_list (ListI64 xs) rt)"

subsection \<open>Dictionaries\<close>

definition make_dict_storage :: "'f runtime \<Rightarrow> 'v dict_storage" where
  "make_dict_storage rt = new_dict_storage (bs_impl (current_dict_backend_spec (rt_dict_impl rt)))"

definition styio_dict_new_bool :: "'f runtime \<Rightarrow> int \<times> 'f runtime" where
  "styio_dict_new_bool rt = stash_dict (DictBool (make_dict_storage rt)) rt"

definition styio_dict_new_i64 :: "'f runtime \<Rightarrow> int \<times> 'f runtime" where
  "styio_dict_new_i64 rt = stash_dict (DictI64 (make_dict_storage rt)) rt"

definition styio_dict_new_f64 :: "'f runtime \<Rightarrow> int \<times> 'f runtime" where
  "styio_dict_new_f64 rt = stash_dict (DictF64 (make_dict_storage rt)) rt"

definition styio_dict_new_cstr :: "'f runtime \<Rightarrow> int \<times> 'f runtime" where
  "styio_dict_new_cstr rt = stash_dict (DictString (make_dict_storage rt)) rt"

definition styio_dict_new_list :: "'f runtime \<Rightarrow> int \<times> 'f runtime" where
  "styio_dict_new_list rt = stash_dict (DictListHandle (make_dict_storage rt)) rt"

definition styio_dict_new_dict :: "'f runtime \<Rightarrow> int \<times> 'f runtime" where
  "styio_dict_new_dict rt = stash_dict (DictDictHandle (make_dict_storage rt)) rt"

definition styio_dict_clone :: "nat \<Rightarrow> int \<Rightarrow> 'f runtime \<Rightarrow> (int \<times> 'f runtime) option" where
  "styio_dict_clone fuel h rt = clone_handle_value fuel HK_Dict h rt"

fun dict_length :: "'f styio_dict \<Rightarrow> nat" where
  "dict_length (DictBool s) = length (d_entries s)"
| "dict_length (DictI64 s) = length (d_entries s)"
| "dict_length (DictF64 s) = length (d_entries s)"
| "dict_length (DictString s) = length (d_entries s)"
| "dict_length (DictListHandle s) = length (d_entries s)"
| "dict_length (DictDictHandle s) = length (d_entries s)"

definition styio_dict_len :: "int \<Rightarrow> 'f runtime \<Rightarrow> i64 \<times> 'f runtime" where
  "styio_dict_len h rt =
     (case as_dict_base h True rt of
        (None, rt) \<Rightarrow> (0, rt)
      | (Some d, rt) \<Rightarrow> (int (dict_length d), rt))"

definition null_key_error :: "'f runtime \<Rightarrow> 'f runtime" where
  "null_key_error rt = set_runtime_error_once subcode_dict_key ''dict key is null'' rt"

definition missing_key_error :: "string \<Rightarrow> 'f runtime \<Rightarrow> 'f runtime" where
  "missing_key_error key rt = set_runtime_error_once subcode_dict_key (''dict key not found: '' @ key) rt"

definition styio_dict_get_bool :: "int \<Rightarrow> string option \<Rightarrow> 'f runtime \<Rightarrow> i64 \<times> 'f runtime" where
  "styio_dict_get_bool h key rt =
     (case as_dict_bool h True rt of
        (None, rt) \<Rightarrow> (0, rt)
      | (Some s, rt) \<Rightarrow>
          (case key of
             None \<Rightarrow> (0, null_key_error rt)
           | Some k \<Rightarrow>
               (case dict_try_get s key of
                  Some v \<Rightarrow> (bool_i64 v, rt)
                | None \<Rightarrow> (0, missing_key_error k rt))))"

definition styio_dict_get_i64 :: "int \<Rightarrow> string option \<Rightarrow> 'f runtime \<Rightarrow> i64 \<times> 'f runtime" where
  "styio_dict_get_i64 h key rt =
     (case as_dict_i64 h True rt of
        (None, rt) \<Rightarrow> (0, rt)
      | (Some s, rt) \<Rightarrow>
          (case key of
             None \<Rightarrow> (0, null_key_error rt)
           | Some k \<Rightarrow>
               (case dict_try_get s key of
                  Some v \<Rightarrow> (v, rt)
                | None \<Rightarrow> (0, missing_key_error k rt))))"

definition styio_dict_get_f64 :: "int \<Rightarrow> string option \<Rightarrow> ('f :: zero) runtime \<Rightarrow> 'f \<times> 'f runtime" where
  "styio_dict_get_f64 h key rt =
     (case as_dict_f64 h True rt of
        (None, rt) \<Rightarrow> (0, rt)
      | (Some s, rt) \<Rightarrow>
          (case key of
             None \<Rightarrow> (0, null_key_error rt)
           | Some k \<Rightarrow>
               (case dict_try_get s key of
                  Some v \<Rightarrow> (v, rt)
                | None \<Rightarrow> (0, missing_key_error k rt))))"

definition styio_dict_get_cstr :: "int \<Rightarrow> string option \<Rightarrow> 'f runtime \<Rightarrow> string option \<times> 'f runtime" where
  "styio_dict_get_cstr h key rt =
     (case as_dict_string h True rt of
        (None, rt) \<Rightarrow> (None, rt)
      | (Some s, rt) \<Rightarrow>
          (case key of
             None \<Rightarrow> (None, null_key_error rt)
           | Some k \<Rightarrow>
               (case dict_try_get s key of
                  Some v \<Rightarrow> (Some v, rt)
                | None \<Rightarrow> (None, missing_key_error k rt))))"

definition styio_dict_get_list :: "nat \<Rightarrow> int \<Rightarrow> string option \<Rightarrow> 'f runtime \<Rightarrow> (int \<times> 'f runtime) option" where
  "styio_dict_get_list fuel h key rt =
     (case as_dict_list h True rt of
        (None, rt) \<Rightarrow> Some (0, rt)
      | (Some s, rt) \<Rightarrow>
          (case key of
             None \<Rightarrow> Some (0, null_key_error rt)
           | Some k \<Rightarrow>
               (case dict_try_get s key of
                  Some v \<Rightarrow> clone_handle_value fuel HK_List v rt
                | None \<Rightarrow> Some (0, missing_key_error k rt))))"

definition styio_dict_get_dict :: "nat \<Rightarrow> int \<Rightarrow> string option \<Rightarrow> 'f runtime \<Rightarrow> (int \<times> 'f runtime) option" where
  "styio_dict_get_dict fuel h key rt =
     (case as_dict_dict h True rt of
        (None, rt) \<Rightarrow> Some (0, rt)
      | (Some s, rt) \<Rightarrow>
          (case key of
             None \<Rightarrow> Some (0, null_key_error rt)
           | Some k \<Rightarrow>
               (case dict_try_get s key of
                  Some v \<Rightarrow> clone_handle_value fuel HK_Dict v rt
                | None \<Rightarrow> Some (0, missing_key_error k rt))))"

definition styio_dict_set_bool :: "int \<Rightarrow> string option \<Rightarrow> i64 \<Rightarrow> 'f runtime \<Rightarrow> 'f runtime" where
  "styio_dict_set_bool h key v rt =
     (case as_dict_bool h True rt of
        (None, rt) \<Rightarrow> rt
      | (Some s, rt) \<Rightarrow>
          (case key of
             None \<Rightarrow> null_key_error rt
           | Some k \<Rightarrow> put_object h (ODict (DictBool (dict_set s key (bool_i64 v)))) rt))"

definition styio_dict_set_i64 :: "int \<Rightarrow> string option \<Rightarrow> i64 \<Rightarrow> 'f runtime \<Rightarrow> 'f runtime" where
  "styio_dict_set_i64 h key v rt =
     (case as_dict_i64 h True rt of
        (None, rt) \<Rightarrow> rt
      | (Some s, rt) \<Rightarrow>
          (case key of
             None \<Rightarrow> null_key_error rt
           | Some k \<Rightarrow> put_object h (ODict (DictI64 (dict_set s key (v)))) rt))"

definition styio_dict_set_f64 :: "int \<Rightarrow> string option \<Rightarrow> 'f \<Rightarrow> 'f runtime \<Rightarrow> 'f runtime" where
  "styio_dict_set_f64 h key v rt =
     (case as_dict_f64 h True rt of
        (None, rt) \<Rightarrow> rt
      | (Some s, rt) \<Rightarrow>
          (case key of
             None \<Rightarrow> null_key_error rt
           | Some k \<Rightarrow> put_object h (ODict (DictF64 (dict_set s key (v)))) rt))"

definition styio_dict_set_cstr :: "int \<Rightarrow> string option \<Rightarrow> string option \<Rightarrow> 'f runtime \<Rightarrow> 'f runtime" where
  "styio_dict_set_cstr h key v rt =
     (case as_dict_string h True rt of
        (None, rt) \<Rightarrow> rt
      | (Some s, rt) \<Rightarrow>
          (case key of
             None \<Rightarrow> null_key_error rt
           | Some k \<Rightarrow> put_object h (ODict (DictString (dict_set s key (cstr_or_empty v)))) rt))"

definition styio_dict_set_list :: "nat \<Rightarrow> int \<Rightarrow> string option \<Rightarrow> int \<Rightarrow> 'f runtime \<Rightarrow> 'f runtime option" where
  "styio_dict_set_list fuel h key v rt =
     (case as_dict_list h True rt of
        (None, rt) \<Rightarrow> Some rt
      | (Some s, rt) \<Rightarrow>
          (case key of
             None \<Rightarrow> Some (null_key_error rt)
           | Some k \<Rightarrow> do {
               (stored, rt) \<leftarrow> clone_handle_value fuel HK_List v rt;
               let (existing, s') = dict_set_handle s key stored;
               rt \<leftarrow> (case existing of
                        None \<Rightarrow> Some rt
                      | Some old \<Rightarrow> release_with (close_object (close_fuel rt)) HK_List old rt);
               Some (put_object h (ODict (DictListHandle s')) rt) }))"

definition styio_dict_set_dict :: "nat \<Rightarrow> int \<Rightarrow> string option \<Rightarrow> int \<Rightarrow> 'f runtime \<Rightarrow> 'f runtime option" where
  "styio_dict_set_dict fuel h key v rt =
     (case as_dict_dict h True rt of
        (None, rt) \<Rightarrow> Some rt
      | (Some s, rt) \<Rightarrow>
          (case key of
             None \<Rightarrow> Some (null_key_error rt)
           | Some k \<Rightarrow> do {
               (stored, rt) \<leftarrow> clone_handle_value fuel HK_Dict v rt;
               let (existing, s') = dict_set_handle s key stored;
               rt \<leftarrow> (case existing of
                        None \<Rightarrow> Some rt
                      | Some old \<Rightarrow> release_with (close_object (close_fuel rt)) HK_Dict old rt);
               Some (put_object h (ODict (DictDictHandle s')) rt) }))"

fun dict_key_list :: "'f styio_dict \<Rightarrow> string list" where
  "dict_key_list (DictBool s) = dict_keys s"
| "dict_key_list (DictI64 s) = dict_keys s"
| "dict_key_list (DictF64 s) = dict_keys s"
| "dict_key_list (DictString s) = dict_keys s"
| "dict_key_list (DictListHandle s) = dict_keys s"
| "dict_key_list (DictDictHandle s) = dict_keys s"

definition styio_dict_keys :: "int \<Rightarrow> 'f runtime \<Rightarrow> int \<times> 'f runtime" where
  "styio_dict_keys h rt =
     (case as_dict_base h True rt of
        (None, rt) \<Rightarrow> (0, rt)
      | (Some d, rt) \<Rightarrow> stash_list (ListString (dict_key_list d)) rt)"

definition styio_dict_values_bool :: "int \<Rightarrow> 'f runtime \<Rightarrow> int \<times> 'f runtime" where
  "styio_dict_values_bool h rt =
     (case as_dict_bool h True rt of
        (None, rt) \<Rightarrow> (0, rt)
      | (Some s, rt) \<Rightarrow> stash_list (ListBool (dict_values s)) rt)"

definition styio_dict_values_i64 :: "int \<Rightarrow> 'f runtime \<Rightarrow> int \<times> 'f runtime" where
  "styio_dict_values_i64 h rt =
     (case as_dict_i64 h True rt of
        (None, rt) \<Rightarrow> (0, rt)
      | (Some s, rt) \<Rightarrow> stash_list (ListI64 (dict_values s)) rt)"

definition styio_dict_values_f64 :: "int \<Rightarrow> 'f runtime \<Rightarrow> int \<times> 'f runtime" where
  "styio_dict_values_f64 h rt =
     (case as_dict_f64 h True rt of
        (None, rt) \<Rightarrow> (0, rt)
      | (Some s, rt) \<Rightarrow> stash_list (ListF64 (dict_values s)) rt)"

definition styio_dict_values_cstr :: "int \<Rightarrow> 'f runtime \<Rightarrow> int \<times> 'f runtime" where
  "styio_dict_values_cstr h rt =
     (case as_dict_string h True rt of
        (None, rt) \<Rightarrow> (0, rt)
      | (Some s, rt) \<Rightarrow> stash_list (ListString (dict_values s)) rt)"

definition styio_dict_values_list :: "nat \<Rightarrow> int \<Rightarrow> 'f runtime \<Rightarrow> (int \<times> 'f runtime) option" where
  "styio_dict_values_list fuel h rt =
     (case as_dict_list h True rt of
        (None, rt) \<Rightarrow> Some (0, rt)
      | (Some s, rt) \<Rightarrow> do {
          (cs, rt) \<leftarrow> map_opt (clone_handle_value fuel HK_List) (dict_values s) rt;
          Some (stash_list (ListListHandle cs) rt) })"

definition styio_dict_values_dict :: "nat \<Rightarrow> int \<Rightarrow> 'f runtime \<Rightarrow> (int \<times> 'f runtime) option" where
  "styio_dict_values_dict fuel h rt =
     (case as_dict_dict h True rt of
        (None, rt) \<Rightarrow> Some (0, rt)
      | (Some s, rt) \<Rightarrow> do {
          (cs, rt) \<leftarrow> map_opt (clone_handle_value fuel HK_Dict) (dict_values s) rt;
          Some (stash_list (ListDictHandle cs) rt) })"

definition styio_dict_runtime_set_impl_by_name :: "string option \<Rightarrow> 'f runtime \<Rightarrow> int \<times> 'f runtime" where
  "styio_dict_runtime_set_impl_by_name raw_name rt =
     (let (ok, impl) = set_impl_by_name raw_name (rt_dict_impl rt) in (ok, rt \<lparr> rt_dict_impl := impl \<rparr>))"

subsection \<open>Printing containers\<close>

text \<open>\<open>fmt\<close> is \<open>format_f64_literal\<close>, the library's \<open>%.6f\<close>.\<close>

definition quoted :: "string \<Rightarrow> string" where
  "quoted s = [CHR 0x22] @ escape_string_for_literal s @ [CHR 0x22]"

definition bool_text :: "i64 \<Rightarrow> string" where
  "bool_text v = (if v \<noteq> 0 then ''true'' else ''false'')"

definition entry_text :: "('v \<Rightarrow> string) \<Rightarrow> string \<times> 'v \<Rightarrow> string" where
  "entry_text f = (\<lambda>(k, v). quoted k @ '':'' @ f v)"

definition list_repr_body :: "('f \<Rightarrow> string) \<Rightarrow> (handle_kind \<Rightarrow> int \<Rightarrow> 'f runtime \<Rightarrow> (string \<times> 'f runtime) option) \<Rightarrow> int \<Rightarrow> 'f runtime \<Rightarrow> (string \<times> 'f runtime) option" where
  "list_repr_body fmt rec h rt =
     (let brackets = (\<lambda>t. ''['' @ t @ '']'') in
      case as_list_base h True rt of
        (None, rt) \<Rightarrow> Some (''[]'', rt)
      | (Some l, rt) \<Rightarrow>
          (case l of
             ListBool xs \<Rightarrow> Some (brackets (comma_list bool_text xs), rt)
           | ListI64 xs \<Rightarrow> Some (brackets (comma_list to_string_int xs), rt)
           | ListF64 xs \<Rightarrow> Some (brackets (comma_list fmt xs), rt)
           | ListString xs \<Rightarrow> Some (brackets (comma_list quoted xs), rt)
           | ListListHandle xs \<Rightarrow> do { (ts, rt) \<leftarrow> map_opt (rec HK_List) xs rt; Some (brackets (comma_list id ts), rt) }
           | ListDictHandle xs \<Rightarrow> do { (ts, rt) \<leftarrow> map_opt (rec HK_Dict) xs rt; Some (brackets (comma_list id ts), rt) }))"

definition dict_repr_body :: "('f \<Rightarrow> string) \<Rightarrow> (handle_kind \<Rightarrow> int \<Rightarrow> 'f runtime \<Rightarrow> (string \<times> 'f runtime) option) \<Rightarrow> int \<Rightarrow> 'f runtime \<Rightarrow> (string \<times> 'f runtime) option" where
  "dict_repr_body fmt rec h rt =
     (let braces = (\<lambda>t. ''{'' @ t @ ''}'') in
      case as_dict_base h True rt of
        (None, rt) \<Rightarrow> Some (''{}'', rt)
      | (Some d, rt) \<Rightarrow>
          (case d of
             DictBool s \<Rightarrow> Some (braces (comma_list (entry_text bool_text) (d_entries s)), rt)
           | DictI64 s \<Rightarrow> Some (braces (comma_list (entry_text to_string_int) (d_entries s)), rt)
           | DictF64 s \<Rightarrow> Some (braces (comma_list (entry_text fmt) (d_entries s)), rt)
           | DictString s \<Rightarrow> Some (braces (comma_list (entry_text quoted) (d_entries s)), rt)
           | DictListHandle s \<Rightarrow> do { (ts, rt) \<leftarrow> map_opt (rec HK_List) (dict_values s) rt;
               Some (braces (comma_list (entry_text id) (zip (dict_keys s) ts)), rt) }
           | DictDictHandle s \<Rightarrow> do { (ts, rt) \<leftarrow> map_opt (rec HK_Dict) (dict_values s) rt;
               Some (braces (comma_list (entry_text id) (zip (dict_keys s) ts)), rt) }))"

primrec handle_repr :: "('f \<Rightarrow> string) \<Rightarrow> nat \<Rightarrow> handle_kind \<Rightarrow> int \<Rightarrow> 'f runtime \<Rightarrow> (string \<times> 'f runtime) option" where
  "handle_repr fmt 0 = (\<lambda>kind h rt. None)"
| "handle_repr fmt (Suc n) = (\<lambda>kind h rt.
     if kind = HK_List then list_repr_body fmt (handle_repr fmt n) h rt
     else dict_repr_body fmt (handle_repr fmt n) h rt)"

definition styio_list_to_cstr :: "('f \<Rightarrow> string) \<Rightarrow> nat \<Rightarrow> int \<Rightarrow> 'f runtime \<Rightarrow> (string option \<times> 'f runtime) option" where
  "styio_list_to_cstr fmt fuel h rt =
     (case as_list_base h True rt of
        (None, rt) \<Rightarrow> Some (None, rt)
      | (Some l, rt) \<Rightarrow> map_option (\<lambda>(t, rt). (Some t, rt)) (handle_repr fmt fuel HK_List h rt))"

definition styio_dict_to_cstr :: "('f \<Rightarrow> string) \<Rightarrow> nat \<Rightarrow> int \<Rightarrow> 'f runtime \<Rightarrow> (string option \<times> 'f runtime) option" where
  "styio_dict_to_cstr fmt fuel h rt =
     (case as_dict_base h True rt of
        (None, rt) \<Rightarrow> Some (None, rt)
      | (Some d, rt) \<Rightarrow> map_option (\<lambda>(t, rt). (Some t, rt)) (handle_repr fmt fuel HK_Dict h rt))"

subsection \<open>Invariant of the state\<close>

fun kind_of :: "'f robj \<Rightarrow> handle_kind" where
  "kind_of (OList l) = HK_List"
| "kind_of (ODict d) = HK_Dict"

text \<open>Every object sits under its own kind.\<close>

definition rt_ok :: "'f runtime \<Rightarrow> bool" where
  "rt_ok rt \<longleftrightarrow> table_inv (rt_table rt) \<and> (\<forall>h k obj. live (rt_table rt) h = Some (k, obj) \<longrightarrow> kind_of obj = k)"

definition resolves_to :: "'f runtime \<Rightarrow> int \<Rightarrow> 'f robj \<Rightarrow> bool" where
  "resolves_to rt h obj \<longleftrightarrow> live (rt_table rt) h = Some (kind_of obj, obj)"

definition initial_runtime :: "'f runtime" where
  "initial_runtime = \<lparr> rt_table = empty_table, rt_error = False, rt_error_message = [], rt_error_subcode = [],
     rt_active_lists = 0, rt_active_dicts = 0, rt_dict_impl = OrderedHash \<rparr>"

lemma kind_of_known [simp]: "kind_of obj \<noteq> HK_Unknown"
  by (cases obj) simp_all

lemma live_empty [simp]: "live empty_table h = None"
  by (simp add: live_def entry_for_def empty_table_def Let_def)

lemma initial_ok: "rt_ok initial_runtime"
  by (simp add: rt_ok_def initial_runtime_def empty_table_inv)

lemma store_entry:
  assumes "in_range t h"
  shows "entry_for (store_object h obj t) h' =
    (if h' = h then Some ((entries t ! nat (h - 1)) \<lparr> e_ptr := Some obj \<rparr>) else entry_for t h')"
proof -
  have "store_object h obj t =
      \<lparr> entries = (entries t)[nat (h - 1) := (entries t ! nat (h - 1)) \<lparr> e_ptr := Some obj \<rparr>], free_handles = free_handles t \<rparr>"
    using assms by (simp add: store_object_def)
  then show ?thesis using assms by simp
qed

lemma store_live:
  assumes "table_inv t" "live t h = Some (k, old)"
  shows "live (store_object h obj t) = (live t)(h \<mapsto> (k, obj))" "table_inv (store_object h obj t)"
proof -
  from assms(2) have r: "in_range t h" and e: "e_valid (entries t ! nat (h - 1))" "e_kind (entries t ! nat (h - 1)) = k"
    "e_ptr (entries t ! nat (h - 1)) = Some old"
    by (auto simp: live_entry entry_for_in_range split: if_splits)
  show "live (store_object h obj t) = (live t)(h \<mapsto> (k, obj))"
    using e by (auto simp: fun_eq_iff live_def store_entry [OF r])
  have "nat (h - 1) < length (entries t)" using r by (auto simp: in_range_def)
  with e assms(1) have "h \<notin> set (free_handles t)" by (auto simp: table_inv_def)
  let ?e = "(entries t ! nat (h - 1)) \<lparr> e_ptr := Some obj \<rparr>"
  let ?es = "(entries t)[nat (h - 1) := ?e]"
  have "set ?es \<subseteq> insert ?e (set (entries t))" by (rule set_update_subset_insert)
  with e assms(1) have "\<forall>x\<in>set ?es. e_valid x \<longleftrightarrow> e_ptr x \<noteq> None" by (auto simp: table_inv_def)
  moreover have "in_range (t \<lparr> entries := ?es \<rparr>) k \<and> ?es ! nat (k - 1) = empty_entry"
    if "k \<in> set (free_handles t)" for k
  proof -
    from that assms(1) have k: "in_range t k" "entries t ! nat (k - 1) = empty_entry" by (auto simp: table_inv_def)
    have "nat (k - 1) \<noteq> nat (h - 1)"
    proof
      assume "nat (k - 1) = nat (h - 1)"
      with k(1) r have "k = h" by (simp add: in_range_def eq_nat_nat_iff)
      with that \<open>h \<notin> set (free_handles t)\<close> show False by simp
    qed
    with k show ?thesis by (simp add: in_range_def)
  qed
  ultimately show "table_inv (store_object h obj t)"
    using assms(1) r by (simp add: table_inv_def store_object_def)
qed

lemma rt_okD: "rt_ok rt \<Longrightarrow> table_inv (rt_table rt)"
    and rt_ok_kind: "rt_ok rt \<Longrightarrow> live (rt_table rt) h = Some (k, obj) \<Longrightarrow> k = kind_of obj"
  by (auto simp: rt_ok_def)

lemma put_object_live:
  assumes "rt_ok rt" "resolves_to rt h old" "kind_of obj = kind_of old"
  shows "live (rt_table (put_object h obj rt)) = (live (rt_table rt))(h \<mapsto> (kind_of obj, obj))"
    "table_inv (rt_table (put_object h obj rt))"
  using store_live [OF rt_okD [OF assms(1)] assms(2) [unfolded resolves_to_def], of obj] assms(3)
  by (simp_all add: put_object_def)

lemma put_object_ok:
  assumes "rt_ok rt" "resolves_to rt h old" "kind_of obj = kind_of old"
  shows "rt_ok (put_object h obj rt)" "resolves_to (put_object h obj rt) h' obj' \<longleftrightarrow> (if h' = h then obj' = obj else resolves_to rt h' obj')"
    "rt_error (put_object h obj rt) = rt_error rt" "rt_error_message (put_object h obj rt) = rt_error_message rt"
    "rt_error_subcode (put_object h obj rt) = rt_error_subcode rt"
proof -
  note l = put_object_live [OF assms]
  show "rt_ok (put_object h obj rt)"
    unfolding rt_ok_def l(1) using l(2) rt_ok_kind [OF assms(1)] by (auto split: if_splits)
  show "resolves_to (put_object h obj rt) h' obj' \<longleftrightarrow> (if h' = h then obj' = obj else resolves_to rt h' obj')"
    unfolding resolves_to_def l(1) by (cases "h' = h") auto
qed (simp_all add: put_object_def)

lemma error_once_ok [simp]: "rt_ok (set_runtime_error_once c m rt) = rt_ok rt"
    "resolves_to (set_runtime_error_once c m rt) h obj = resolves_to rt h obj"
    "rt_table (set_runtime_error_once c m rt) = rt_table rt"
    "rt_error (set_runtime_error_once c m rt)"
  by (simp_all add: set_runtime_error_once_def Let_def rt_ok_def resolves_to_def)

lemma resolves_positive: "resolves_to rt h obj \<Longrightarrow> h \<noteq> 0"
  by (auto simp: resolves_to_def live_def entry_for_def is_indexable_def)

lemma as_list_hit: "resolves_to rt h (OList l) \<Longrightarrow> as_list_base h d rt = (Some l, rt)"
  using resolves_positive [of rt h "OList l"]
  by (auto simp: as_list_base_def lookup_live resolves_to_def)

lemma as_dict_hit: "resolves_to rt h (ODict s) \<Longrightarrow> as_dict_base h d rt = (Some s, rt)"
  using resolves_positive [of rt h "ODict s"]
  by (auto simp: as_dict_base_def lookup_live resolves_to_def)

lemma as_list_cases:
  assumes "rt_ok rt"
  obtains (hit) l where "resolves_to rt h (OList l)" "as_list_base h True rt = (Some l, rt)"
    | (null) "h = 0" "as_list_base h True rt = (None, rt)"
    | (miss) "h \<noteq> 0" "\<forall>l. \<not> resolves_to rt h (OList l)"
      "as_list_base h True rt = (None, set_runtime_error_once subcode_list_handle (''invalid list handle: '' @ to_string_int h) rt)"
proof (cases "\<exists>l. resolves_to rt h (OList l)")
  case True
  then show thesis using hit as_list_hit by blast
next
  case False
  show thesis
  proof (cases "h = 0")
    case True
    with null show thesis by (simp add: as_list_base_def)
  next
    case nz: False
    have "lookup (rt_table rt) h HK_List = None"
    proof (cases "live (rt_table rt) h")
      case (Some p)
      obtain k obj where p: "p = (k, obj)" by force
      with Some rt_ok_kind [OF assms] have "kind_of obj = k" by simp
      with Some p False show ?thesis by (cases obj) (auto simp: lookup_live resolves_to_def)
    qed (simp add: lookup_live)
    with nz False miss show thesis by (simp add: as_list_base_def)
  qed
qed

lemma stash_list_ok:
  assumes "rt_ok rt" "stash_list l rt = (h, rt')"
  shows "rt_ok rt'" "0 < h" "resolves_to rt' h' obj \<longleftrightarrow> (if h' = h then obj = OList l else resolves_to rt h' obj)"
    "\<forall>obj. \<not> resolves_to rt h obj"
    "rt_error rt' = rt_error rt" "rt_error_message rt' = rt_error_message rt" "rt_error_subcode rt' = rt_error_subcode rt"
proof -
  obtain t where a: "acquire HK_List (Some (OList l)) (rt_table rt) = (h, t)"
    and rt': "rt' = rt \<lparr> rt_table := t, rt_active_lists := rt_active_lists rt + 1 \<rparr>"
    using assms(2) by (auto simp: stash_list_def split: prod.splits)
  note inv = rt_okD [OF assms(1)]
  note s = acquire_spec [OF inv a]
  show "rt_ok rt'" unfolding rt_ok_def rt' using s rt_ok_kind [OF assms(1)] by (auto split: if_splits)
  show "0 < h" using s by simp
  show "resolves_to rt' h' obj \<longleftrightarrow> (if h' = h then obj = OList l else resolves_to rt h' obj)"
    using s by (auto simp: resolves_to_def rt')
  show "\<forall>obj. \<not> resolves_to rt h obj" using s by (simp add: resolves_to_def)
qed (use assms(2) in \<open>auto simp: stash_list_def split: prod.splits\<close>)

lemma stash_dict_ok:
  assumes "rt_ok rt" "stash_dict d rt = (h, rt')"
  shows "rt_ok rt'" "0 < h" "resolves_to rt' h' obj \<longleftrightarrow> (if h' = h then obj = ODict d else resolves_to rt h' obj)"
    "\<forall>obj. \<not> resolves_to rt h obj"
proof -
  obtain t where a: "acquire HK_Dict (Some (ODict d)) (rt_table rt) = (h, t)"
    and rt': "rt' = rt \<lparr> rt_table := t, rt_active_dicts := rt_active_dicts rt + 1 \<rparr>"
    using assms(2) by (auto simp: stash_dict_def split: prod.splits)
  note inv = rt_okD [OF assms(1)]
  note s = acquire_spec [OF inv a]
  show "rt_ok rt'" unfolding rt_ok_def rt' using s rt_ok_kind [OF assms(1)] by (auto split: if_splits)
  show "0 < h" using s by simp
  show "resolves_to rt' h' obj \<longleftrightarrow> (if h' = h then obj = ODict d else resolves_to rt h' obj)"
    using s by (auto simp: resolves_to_def rt')
  show "\<forall>obj. \<not> resolves_to rt h obj" using s by (simp add: resolves_to_def)
qed

subsection \<open>Lists behave like lists\<close>

text \<open>The outcome of writing an object through a handle: only that handle's object changes, and
  no error is raised.\<close>

definition stores :: "'f runtime \<Rightarrow> int \<Rightarrow> 'f robj \<Rightarrow> 'f runtime \<Rightarrow> bool" where
  "stores rt h obj rt' \<longleftrightarrow>
     rt_ok rt' \<and> (\<forall>h' obj'. resolves_to rt' h' obj' \<longleftrightarrow> (if h' = h then obj' = obj else resolves_to rt h' obj'))
     \<and> rt_error rt' = rt_error rt \<and> rt_error_message rt' = rt_error_message rt"

text \<open>The outcome of a refused call: every object is as before, an error is pending, and it is the
  new one unless another was pending already.\<close>

definition refused :: "'f runtime \<Rightarrow> string \<Rightarrow> string \<Rightarrow> 'f runtime \<Rightarrow> bool" where
  "refused rt subcode message rt' \<longleftrightarrow>
     rt_ok rt' \<and> (\<forall>h obj. resolves_to rt' h obj \<longleftrightarrow> resolves_to rt h obj) \<and> rt_error rt'
     \<and> (rt_error_message rt', rt_error_subcode rt')
       = (if rt_error_message rt = [] then (message, subcode) else (rt_error_message rt, rt_error_subcode rt))"

lemma refused_once: "rt_ok rt \<Longrightarrow> refused rt c m (set_runtime_error_once c m rt)"
  by (simp add: refused_def) (simp add: set_runtime_error_once_def Let_def)

lemma put_stores:
  "rt_ok rt \<Longrightarrow> resolves_to rt h old \<Longrightarrow> kind_of obj = kind_of old \<Longrightarrow> stores rt h obj (put_object h obj rt)"
  using put_object_ok [of rt h old obj] by (simp add: stores_def)

lemma as_list_kind_hit:
  "resolves_to rt h (OList l) \<Longrightarrow> elems l = Some xs \<Longrightarrow> as_list_kind nm elems h True rt = (Some xs, rt)"
  by (simp add: as_list_kind_def as_list_hit)

lemma as_list_kind_wrong:
  "resolves_to rt h (OList l) \<Longrightarrow> elems l = None \<Longrightarrow>
   as_list_kind nm elems h True rt = (None, set_runtime_error_once subcode_list_elem_kind
     (''list handle does not carry '' @ nm @ '' elements: '' @ to_string_int h) rt)"
  by (simp add: as_list_kind_def as_list_hit)

lemmas as_list_defs = as_list_bool_def as_list_i64_def as_list_f64_def as_list_string_def
  as_list_list_handle_def as_list_dict_handle_def

lemma check_index_in: "0 \<le> idx \<Longrightarrow> idx < int n \<Longrightarrow> check_list_index n idx e rt = (True, rt)"
    "0 \<le> idx \<Longrightarrow> idx \<le> int n \<Longrightarrow> check_list_index n idx True rt = (True, rt)"
  by (auto simp: check_list_index_def Let_def)

lemma check_index_out: "idx < 0 \<or> int n \<le> idx \<Longrightarrow> check_list_index n idx False rt =
    (False, set_runtime_error_once subcode_list_index (out_of_range_text idx) rt)"
  by (auto simp: check_list_index_def Let_def)

lemma check_index_out_end: "idx < 0 \<or> int n < idx \<Longrightarrow> check_list_index n idx True rt =
    (False, set_runtime_error_once subcode_list_index (out_of_range_text idx) rt)"
  by (auto simp: check_list_index_def Let_def)

text \<open>
  C3: a list handle denotes a list. Through a handle that resolves to an integer list,
  length and reading return the list's, and push, insert, set and pop change exactly that
  list, as on paper, leaving every other object and the pending error alone.
\<close>

theorem list_i64_semantics:
  assumes "rt_ok rt" "resolves_to rt h (OList (ListI64 xs))"
  shows "styio_list_len h rt = (int (length xs), rt)
    \<and> (\<forall>i<length xs. styio_list_get h (int i) rt = (xs ! i, rt))
    \<and> stores rt h (OList (ListI64 (xs @ [v]))) (styio_list_push_i64 h v rt)
    \<and> (\<forall>i\<le>length xs. stores rt h (OList (ListI64 (take i xs @ v # drop i xs))) (styio_list_insert_i64 h (int i) v rt))
    \<and> (\<forall>i<length xs. stores rt h (OList (ListI64 (xs[i := v]))) (styio_list_set h (int i) v rt))
    \<and> (xs \<noteq> [] \<longrightarrow> (\<exists>rt'. styio_list_pop h rt = Some rt' \<and> stores rt h (OList (ListI64 (butlast xs))) rt'))"
proof -
  have hit: "as_list_i64 h True rt = (Some xs, rt)"
    by (simp add: as_list_i64_def as_list_kind_hit [OF assms(2)])
  have s: "stores rt h (OList (ListI64 ys)) (put_object h (OList (ListI64 ys)) rt)" for ys
    by (rule put_stores [OF assms]) simp
  show ?thesis
    using s
    by (auto simp: styio_list_len_def as_list_hit [OF assms(2)] styio_list_get_def hit check_index_in
        styio_list_push_i64_def styio_list_insert_i64_def list_insert_value_def insert_at_def
        styio_list_set_def list_set_value_def styio_list_pop_def pop_last_def Let_def)
qed

text \<open>
  C35: a bad index is an error, not a write: reading or setting outside the list, inserting
  beyond its end, and popping an empty list return zero or nothing, leave every object as it
  was, and report the index error.
\<close>

theorem list_index_refused:
  assumes "rt_ok rt" "resolves_to rt h (OList (ListI64 xs))" "idx < 0 \<or> int (length xs) \<le> idx"
  shows "(\<exists>rt'. styio_list_get h idx rt = (0, rt') \<and> refused rt subcode_list_index (out_of_range_text idx) rt')
    \<and> refused rt subcode_list_index (out_of_range_text idx) (styio_list_set h idx v rt)
    \<and> (idx \<noteq> int (length xs) \<longrightarrow> refused rt subcode_list_index (out_of_range_text idx) (styio_list_insert_i64 h idx v rt))
    \<and> (xs = [] \<longrightarrow> (\<exists>rt'. styio_list_pop h rt = Some rt' \<and> refused rt subcode_list_index ''list pop on empty list'' rt'))"
proof -
  have hit: "as_list_i64 h True rt = (Some xs, rt)"
    by (simp add: as_list_i64_def as_list_kind_hit [OF assms(2)])
  have e: "idx < 0 \<or> int (length xs) < idx" if "idx \<noteq> int (length xs)" using that assms(3) by linarith
  show ?thesis
    using check_index_out_end [OF e, of rt]
    by (simp add: hit refused_once [OF assms(1)] as_list_hit [OF assms(2)] styio_list_get_def check_index_out [OF assms(3)]
      styio_list_set_def list_set_value_def styio_list_insert_i64_def list_insert_value_def
      styio_list_pop_def pop_last_def Let_def)
qed

subsection \<open>The first error is kept\<close>

definition keeps_error :: "'f runtime \<Rightarrow> 'f runtime \<Rightarrow> bool" where
  "keeps_error rt rt' \<longleftrightarrow>
     (rt_error rt \<longrightarrow> rt_error rt')
     \<and> (rt_error_message rt \<noteq> [] \<longrightarrow>
          rt_error_message rt' = rt_error_message rt \<and> rt_error_subcode rt' = rt_error_subcode rt)"

lemma keeps_refl [simp]: "keeps_error rt rt"
  by (simp add: keeps_error_def)

lemma keeps_trans: "keeps_error a b \<Longrightarrow> keeps_error b c \<Longrightarrow> keeps_error a c"
  by (auto simp: keeps_error_def)

lemma keeps_once [simp]: "keeps_error rt (set_runtime_error_once c m rt)"
  by (simp add: keeps_error_def set_runtime_error_once_def Let_def)

lemma keeps_put [simp]: "keeps_error rt (put_object h obj rt') \<longleftrightarrow> keeps_error rt rt'"
  by (simp add: keeps_error_def put_object_def)

lemma keeps_stash [simp]: "keeps_error rt (snd (stash_list l rt'))= keeps_error rt rt'" "keeps_error rt (snd (stash_dict d rt')) = keeps_error rt rt'"
  by (simp_all add: keeps_error_def stash_list_def stash_dict_def split: prod.split)

lemma keeps_as_list_base: "keeps_error rt (snd (as_list_base h d rt))"
  by (simp add: as_list_base_def split: option.split robj.split)

lemma keeps_as_list [simp]: "as_list_kind nm e h d rt = (r, rt') \<Longrightarrow> keeps_error rt rt'"
  using keeps_as_list_base [of rt h d]
  by (cases "as_list_base h d rt")
    (auto simp: as_list_kind_def elim: keeps_trans intro: keeps_once split: option.splits if_splits)

definition sample_runtime :: "nat runtime" where
  "sample_runtime = snd (stash_list (ListI64 [7, 9]) initial_runtime)"

lemma sample_runtime: "rt_ok sample_runtime" "resolves_to sample_runtime 1 (OList (ListI64 [7, 9]))"
    "rt_error_message sample_runtime = []"
proof -
  obtain h rt where s: "stash_list (ListI64 [7, 9]) (initial_runtime :: nat runtime) = (h, rt)" by force
  have "h = 1" using s by (auto simp: stash_list_def initial_runtime_def acquire_def place_entry_def empty_table_def split: prod.splits)
  with s stash_list_ok [OF initial_ok s]
  show "rt_ok sample_runtime" "resolves_to sample_runtime 1 (OList (ListI64 [7, 9]))" "rt_error_message sample_runtime = []"
    by (simp_all add: sample_runtime_def initial_runtime_def)
qed

theorem list_i64_semantics_witness:
  "styio_list_get 1 1 sample_runtime = (9, sample_runtime)
   \<and> stores sample_runtime 1 (OList (ListI64 [7, 9, 4])) (styio_list_push_i64 1 4 sample_runtime)
   \<and> stores sample_runtime 1 (OList (ListI64 [4, 9])) (styio_list_set 1 0 4 sample_runtime)"
proof -
  note l = list_i64_semantics [OF sample_runtime(1,2), of 4]
  from l have "\<forall>i<2. styio_list_get 1 (int i) sample_runtime = ([7, 9] ! i, sample_runtime)" by simp
  from this [rule_format, of 1] have "styio_list_get 1 1 sample_runtime = (9, sample_runtime)" by simp
  moreover from l have "\<forall>i<2. stores sample_runtime 1 (OList (ListI64 ([7, 9][i := 4]))) (styio_list_set 1 (int i) 4 sample_runtime)"
    by simp
  from this [rule_format, of 0] have "stores sample_runtime 1 (OList (ListI64 [4, 9])) (styio_list_set 1 0 4 sample_runtime)"
    by simp
  ultimately show ?thesis using l by simp
qed

theorem list_index_refused_witness:
  "refused sample_runtime subcode_list_index ''list index out of range: 2'' (styio_list_set 1 2 4 sample_runtime)"
  using list_index_refused [OF sample_runtime(1,2), of 2 4]
  by (simp add: out_of_range_text_def to_string_int_def to_string_nat.simps)

end
