(* ===== verification/Styio_Ownership.thy ===== *)
theory Styio_Ownership
  imports Styio_Runtime
begin

text \<open>
  Ownership in the container runtime (src/src/StyioExtern/ExternLib.cpp). A list or dictionary of
  handles owns the objects behind them: storing a container stores a clone, closing a container
  closes what it holds. The theory shows what this discipline gives: closing always returns and
  keeps the counts of live containers exact, the objects form a forest, cloning copies a tree
  into fresh handles, and a client that only passes handles it owns never touches a closed object.
\<close>

subsection \<open>Objects and their children\<close>

text \<open>The objects behind the live handles, the handles an object holds, and their kind.\<close>

definition heap :: "'f runtime \<Rightarrow> int \<Rightarrow> 'f robj option" where
  "heap rt h = map_option snd (live (rt_table rt) h)"

fun child_handles :: "'f robj \<Rightarrow> int list" where
  "child_handles (OList (ListListHandle hs)) = hs"
| "child_handles (OList (ListDictHandle hs)) = hs"
| "child_handles (ODict (DictListHandle s)) = dict_values s"
| "child_handles (ODict (DictDictHandle s)) = dict_values s"
| "child_handles _ = []"

fun child_kind :: "'f robj \<Rightarrow> handle_kind" where
  "child_kind (OList (ListDictHandle hs)) = HK_Dict"
| "child_kind (ODict (DictDictHandle s)) = HK_Dict"
| "child_kind _ = HK_List"

definition children :: "'f robj \<Rightarrow> int list" where
  "children obj = filter (\<lambda>c. c \<noteq> 0) (child_handles obj)"

lemma child_kind_known [simp]: "child_kind obj \<noteq> HK_Unknown"
  by (cases obj rule: child_kind.cases) simp_all

lemma heap_resolves: "rt_ok rt \<Longrightarrow> resolves_to rt h obj \<longleftrightarrow> heap rt h = Some obj"
  by (auto simp: resolves_to_def heap_def dest: rt_ok_kind)

lemma heap_0 [simp]: "heap rt 0 = None"
  by (simp add: heap_def live_def entry_for_def is_indexable_def)

lemma heap_table: "rt_table rt = rt_table rt' \<Longrightarrow> heap rt = heap rt'"
  by (simp add: heap_def fun_eq_iff)

lemma finite_dom_live: "finite (dom (live t))"
proof (rule finite_subset)
  show "dom (live t) \<subseteq> {1..int (length (entries t))}"
    by (auto simp: live_entry entry_for_in_range in_range_def split: if_splits)
qed simp

lemma dom_heap: "dom (heap rt) = dom (live (rt_table rt))"
  by (auto simp: heap_def dom_def)

lemma finite_heap [simp]: "finite (dom (heap rt))"
  by (simp add: dom_heap finite_dom_live)

lemma heap_card_le_size:
  assumes "rt_ok rt"
  shows "card (dom (heap rt)) \<le> table_size (rt_table rt)"
proof -
  let ?t = "rt_table rt"
  have "card ((\<lambda>h. nat (h - 1)) ` dom (heap rt)) = card (dom (heap rt))"
    by (rule card_image) (auto simp: inj_on_def dom_heap live_entry entry_for_in_range in_range_def split: if_splits)
  moreover have "(\<lambda>h. nat (h - 1)) ` dom (heap rt) \<subseteq> {i. i < length (entries ?t) \<and> occupied (entries ?t ! i)}"
  proof
    fix i assume "i \<in> (\<lambda>h. nat (h - 1)) ` dom (heap rt)"
    then obtain h k p where h: "i = nat (h - 1)" "live ?t h = Some (k, p)" by (auto simp: dom_heap)
    with rt_ok_kind [OF assms h(2)] show "i \<in> {i. i < length (entries ?t) \<and> occupied (entries ?t ! i)}"
      by (auto simp: live_entry entry_for_in_range in_range_def occupied_def split: if_splits)
  qed
  moreover have "finite {i. i < length (entries ?t) \<and> occupied (entries ?t ! i)}" by simp
  ultimately have "card (dom (heap rt)) \<le> card {i. i < length (entries ?t) \<and> occupied (entries ?t ! i)}"
    by (metis card_mono)
  then show ?thesis by (simp only: table_size_def length_filter_conv_card)
qed

subsection \<open>Releasing\<close>

text \<open>The live objects of a kind and the counter the runtime keeps for it.\<close>

definition alive :: "handle_kind \<Rightarrow> 'f runtime \<Rightarrow> int set" where
  "alive K rt = {h. \<exists>obj. heap rt h = Some obj \<and> kind_of obj = K}"

definition active :: "handle_kind \<Rightarrow> 'f runtime \<Rightarrow> int" where
  "active K rt = (if K = HK_List then rt_active_lists rt else rt_active_dicts rt)"

definition surplus :: "handle_kind \<Rightarrow> 'f runtime \<Rightarrow> int" where
  "surplus K rt = active K rt - int (card (alive K rt))"

definition dec_active :: "handle_kind \<Rightarrow> 'f runtime \<Rightarrow> 'f runtime" where
  "dec_active K rt =
     (if K = HK_List then if 0 < rt_active_lists rt then rt \<lparr> rt_active_lists := rt_active_lists rt - 1 \<rparr> else rt
      else if 0 < rt_active_dicts rt then rt \<lparr> rt_active_dicts := rt_active_dicts rt - 1 \<rparr> else rt)"

lemma close_object_Suc:
  "close_object (Suc n) obj rt =
     map_option (dec_active (kind_of obj)) (fold_opt (release_with (close_object n) (child_kind obj)) (child_handles obj) rt)"
  by (cases obj rule: child_handles.cases)
    (auto simp: close_list_body_def close_dict_body_def dec_active_def [abs_def])

declare close_object.simps(2) [simp del]

lemma dec_active_simps [simp]:
  "rt_table (dec_active K rt) = rt_table rt" "rt_error (dec_active K rt) = rt_error rt"
  "rt_error_message (dec_active K rt) = rt_error_message rt" "rt_error_subcode (dec_active K rt) = rt_error_subcode rt"
  "rt_dict_impl (dec_active K rt) = rt_dict_impl rt" "rt_ok (dec_active K rt) = rt_ok rt"
  "heap (dec_active K rt) = heap rt"
  by (simp_all add: dec_active_def rt_ok_def heap_def fun_eq_iff)

lemma alive_subset: "alive K rt \<subseteq> dom (heap rt)"
  by (auto simp: alive_def)

lemma finite_alive [simp]: "finite (alive K rt)"
  by (rule finite_subset [OF alive_subset]) simp

text \<open>The outcome of one \<open>release\<close> with its closer.\<close>

lemma release_with_cases:
  assumes "rt_ok rt" "K \<noteq> HK_Unknown"
  obtains (hit) obj t where "heap rt h = Some obj" "kind_of obj = K"
      "release_with cl K h rt = cl obj (rt \<lparr> rt_table := t \<rparr>)" "rt_ok (rt \<lparr> rt_table := t \<rparr>)"
      "heap (rt \<lparr> rt_table := t \<rparr>) = (heap rt)(h := None)" "release h K (rt_table rt) = (True, Some obj, t)"
    | (miss) "\<forall>obj. heap rt h = Some obj \<longrightarrow> kind_of obj \<noteq> K" "release_with cl K h rt = Some rt"
      "release h K (rt_table rt) = (False, None, rt_table rt)"
proof (cases "\<exists>obj. heap rt h = Some obj \<and> kind_of obj = K")
  case True
  then obtain obj where obj: "heap rt h = Some obj" "kind_of obj = K" by auto
  then have l: "live (rt_table rt) h = Some (K, obj)"
    using heap_resolves [OF assms(1)] by (auto simp: resolves_to_def)
  from release_hit [OF rt_okD [OF assms(1)] l assms(2), of K] obtain t where
    t: "release h K (rt_table rt) = (True, Some obj, t)" "table_inv t" "live t = (live (rt_table rt))(h := None)"
    by (auto simp: accepts_def)
  show thesis
  proof (rule hit [OF obj])
    show "release_with cl K h rt = cl obj (rt \<lparr> rt_table := t \<rparr>)" by (simp add: release_with_def t)
    show "rt_ok (rt \<lparr> rt_table := t \<rparr>)" using t rt_ok_kind [OF assms(1)] by (auto simp: rt_ok_def split: if_splits)
    show "heap (rt \<lparr> rt_table := t \<rparr>) = (heap rt)(h := None)" by (auto simp: heap_def t fun_eq_iff)
    show "release h K (rt_table rt) = (True, Some obj, t)" by (rule t)
  qed
next
  case False
  have "release h K (rt_table rt) = (False, None, rt_table rt)"
  proof (rule release_miss [OF rt_okD [OF assms(1)]], intro allI impI)
    fix k p assume "live (rt_table rt) h = Some (k, p)"
    with False rt_ok_kind [OF assms(1) this] show "\<not> accepts K k" using assms(2) by (auto simp: accepts_def heap_def)
  qed
  with False miss show thesis by (auto simp: release_with_def)
qed

text \<open>Closing only removes objects, raises no error and, given fuel for every live object, returns.\<close>

definition closes :: "'f runtime \<Rightarrow> 'f runtime \<Rightarrow> bool" where
  "closes rt rt' \<longleftrightarrow> rt_ok rt' \<and> heap rt' \<subseteq>\<^sub>m heap rt \<and> rt_error rt' = rt_error rt
     \<and> rt_error_message rt' = rt_error_message rt \<and> rt_error_subcode rt' = rt_error_subcode rt
     \<and> rt_dict_impl rt' = rt_dict_impl rt"

lemma closes_refl: "rt_ok rt \<Longrightarrow> closes rt rt"
  by (simp add: closes_def)

lemma closes_trans: "closes a b \<Longrightarrow> closes b c \<Longrightarrow> closes a c"
  by (auto simp: closes_def intro: map_le_trans)

lemma closes_card: "closes a b \<Longrightarrow> card (dom (heap b)) \<le> card (dom (heap a))"
  by (auto simp: closes_def intro!: card_mono dest: map_le_implies_dom_le)

lemma closes_dec [simp]: "closes rt (dec_active K rt') = closes rt rt'"
  by (simp add: closes_def)

lemma surplus_released:
  assumes "heap rt h = Some obj" "heap (rt \<lparr> rt_table := t \<rparr>) = (heap rt)(h := None)"
  shows "surplus K (rt \<lparr> rt_table := t \<rparr>) = surplus K rt + (if kind_of obj = K then 1 else 0)"
proof -
  have a: "alive K (rt \<lparr> rt_table := t \<rparr>) = alive K rt - {h}" by (auto simp: alive_def assms(2))
  have i: "h \<in> alive K rt \<longleftrightarrow> kind_of obj = K" by (simp add: alive_def assms(1))
  have "active K (rt \<lparr> rt_table := t \<rparr>) = active K rt" by (simp add: active_def)
  moreover have "int (card (alive K rt - {h})) = int (card (alive K rt)) - (if kind_of obj = K then 1 else 0)"
  proof (cases "h \<in> alive K rt")
    case True
    then have "card (alive K rt) = Suc (card (alive K rt - {h}))" by (rule card.remove [OF finite_alive])
    with True i show ?thesis by simp
  qed (use i in simp)
  ultimately show ?thesis unfolding surplus_def a by simp
qed

lemma surplus_dec:
  assumes "k \<noteq> HK_Unknown" "1 \<le> surplus k rt" "k = HK_List \<or> k = HK_Dict" "K = HK_List \<or> K = HK_Dict"
  shows "surplus K (dec_active k rt) = surplus K rt - (if k = K then 1 else 0)"
proof -
  have a: "alive K (dec_active k rt) = alive K rt" by (simp add: alive_def)
  have "0 < active k rt" using assms(2) of_nat_0_le_iff [of "card (alive k rt)", where 'a = int] unfolding surplus_def by linarith
  then have "active K (dec_active k rt) = active K rt - (if k = K then 1 else 0)"
    using assms(3,4) by (elim disjE) (simp_all add: active_def dec_active_def)
  then show ?thesis by (simp add: surplus_def a)
qed

lemma kind_of_cases: "kind_of obj = HK_List \<or> kind_of obj = HK_Dict"
  by (cases obj) simp_all

lemma close_fold_spec:
  assumes step: "\<And>obj (rt :: 'f runtime). rt_ok rt \<Longrightarrow> card (dom (heap rt)) < n \<Longrightarrow>
      \<exists>rt'. close_object n obj rt = Some rt' \<and> closes rt rt'
        \<and> ((\<forall>K\<in>{HK_List, HK_Dict}. (if kind_of obj = K then 1 else 0) \<le> surplus K rt) \<longrightarrow>
           (\<forall>K\<in>{HK_List, HK_Dict}. surplus K rt' = surplus K rt - (if kind_of obj = K then 1 else 0)))"
    and "rt_ok (rt :: 'f runtime)" "card (dom (heap rt)) \<le> n" "K \<noteq> HK_Unknown"
  shows "\<exists>rt'. fold_opt (release_with (close_object n) K) hs rt = Some rt' \<and> closes rt rt'
    \<and> ((\<forall>K\<in>{HK_List, HK_Dict}. 0 \<le> surplus K rt) \<longrightarrow> (\<forall>K\<in>{HK_List, HK_Dict}. surplus K rt' = surplus K rt))"
  using assms(2,3)
proof (induction hs arbitrary: rt)
  case Nil
  then show ?case by (simp add: closes_refl)
next
  case (Cons h hs)
  from Cons.prems(1) assms(4) show ?case
  proof (cases rule: release_with_cases [where h = h and cl = "close_object n"])
    case (hit obj t)
    let ?rt1 = "rt \<lparr> rt_table := t \<rparr>"
    have "closes rt ?rt1" using hit(4,5) by (auto simp: closes_def map_le_def)
    have "card (dom (heap ?rt1)) = card (dom (heap rt) - {h})" by (simp add: hit(5))
    also have "\<dots> < card (dom (heap rt))" using hit(1) by (intro card_Diff1_less) auto
    finally have "card (dom (heap ?rt1)) < n" using Cons.prems(2) by simp
    from step [OF hit(4) this, of obj] obtain rt2 where rt2: "close_object n obj ?rt1 = Some rt2" "closes ?rt1 rt2"
      "(\<forall>K\<in>{HK_List, HK_Dict}. (if kind_of obj = K then 1 else 0) \<le> surplus K ?rt1) \<longrightarrow>
           (\<forall>K\<in>{HK_List, HK_Dict}. surplus K rt2 = surplus K ?rt1 - (if kind_of obj = K then 1 else 0))" by auto
    have c: "closes rt rt2" using closes_trans [OF \<open>closes rt ?rt1\<close> rt2(2)] .
    then have "rt_ok rt2" "card (dom (heap rt2)) \<le> n" using closes_card [OF c] Cons.prems(2) by (auto simp: closes_def)
    from Cons.IH [OF this] obtain rt3 where rt3: "fold_opt (release_with (close_object n) K) hs rt2 = Some rt3" "closes rt2 rt3"
      "(\<forall>K\<in>{HK_List, HK_Dict}. 0 \<le> surplus K rt2) \<longrightarrow> (\<forall>K\<in>{HK_List, HK_Dict}. surplus K rt3 = surplus K rt2)" by auto
    note s1 = surplus_released [OF hit(1,5)]
    have "surplus K rt2 = surplus K rt" if "\<forall>K\<in>{HK_List, HK_Dict}. 0 \<le> surplus K rt" "K \<in> {HK_List, HK_Dict}" for K
    proof -
      from that have "\<forall>K\<in>{HK_List, HK_Dict}. (if kind_of obj = K then 1 else 0) \<le> surplus K ?rt1"
        unfolding s1 by auto
      with rt2(3) that(2) show ?thesis unfolding s1 by auto
    qed
    with rt3 rt2(1) hit(3) closes_trans [OF c rt3(2)] show ?thesis by auto
  next
    case miss
    with Cons.IH [OF Cons.prems] show ?thesis by auto
  qed
qed

lemma close_object_spec:
  assumes "rt_ok (rt :: 'f runtime)" "card (dom (heap rt)) < n"
  shows "\<exists>rt'. close_object n obj rt = Some rt' \<and> closes rt rt'
        \<and> ((\<forall>K\<in>{HK_List, HK_Dict}. (if kind_of obj = K then 1 else 0) \<le> surplus K rt) \<longrightarrow>
           (\<forall>K\<in>{HK_List, HK_Dict}. surplus K rt' = surplus K rt - (if kind_of obj = K then 1 else 0)))"
  using assms
proof (induction n arbitrary: obj rt)
  case (Suc n)
  from Suc.prems(2) have "card (dom (heap rt)) \<le> n" by simp
  from close_fold_spec [OF Suc.IH Suc.prems(1) this child_kind_known, of obj "child_handles obj"]
  obtain rt1 where rt1: "fold_opt (release_with (close_object n) (child_kind obj)) (child_handles obj) rt = Some rt1" "closes rt rt1"
    "(\<forall>K\<in>{HK_List, HK_Dict}. 0 \<le> surplus K rt) \<longrightarrow> (\<forall>K\<in>{HK_List, HK_Dict}. surplus K rt1 = surplus K rt)" by auto
  have "surplus K (dec_active (kind_of obj) rt1) = surplus K rt - (if kind_of obj = K then 1 else 0)"
    if c: "\<forall>K\<in>{HK_List, HK_Dict}. (if kind_of obj = K then 1 else 0) \<le> surplus K rt" and K: "K \<in> {HK_List, HK_Dict}" for K
  proof -
    have "\<forall>K\<in>{HK_List, HK_Dict}. 0 \<le> surplus K rt"
      using c by (auto split: if_splits)
    with rt1(3) have s: "\<forall>K\<in>{HK_List, HK_Dict}. surplus K rt1 = surplus K rt" by simp
    have "1 \<le> surplus (kind_of obj) rt1"
      using c s kind_of_cases [of obj] by (elim disjE) auto
    from surplus_dec [OF kind_of_known this kind_of_cases] K s show ?thesis by auto
  qed
  note surplus = this
  show ?case
  proof (intro exI conjI impI ballI)
    show "close_object (Suc n) obj rt = Some (dec_active (kind_of obj) rt1)" by (simp add: close_object_Suc rt1(1))
    show "closes rt (dec_active (kind_of obj) rt1)" using rt1(2) by simp
  qed (rule surplus)
qed simp

lemma release_with_spec:
  assumes "rt_ok rt" "card (dom (heap rt)) \<le> n" "K \<noteq> HK_Unknown"
  shows "\<exists>rt'. release_with (close_object n) K h rt = Some rt' \<and> closes rt rt'
    \<and> ((\<forall>K\<in>{HK_List, HK_Dict}. 0 \<le> surplus K rt) \<longrightarrow> (\<forall>K\<in>{HK_List, HK_Dict}. surplus K rt' = surplus K rt))"
  using close_fold_spec [OF close_object_spec assms, of "[h]"] by (auto split: option.splits)

subsection \<open>Forests\<close>

text \<open>
  A heap is a forest when what an object holds is live and of the right kind, no handle is held
  twice, and holding is well founded.
\<close>

definition forest :: "(int \<Rightarrow> 'f robj option) \<Rightarrow> bool" where
  "forest m \<longleftrightarrow>
     (\<forall>p obj c. m p = Some obj \<longrightarrow> c \<in> set (children obj) \<longrightarrow> (\<exists>child. m c = Some child \<and> kind_of child = child_kind obj))
     \<and> (\<forall>p obj. m p = Some obj \<longrightarrow> distinct (children obj))
     \<and> (\<forall>p q obj obj' c. m p = Some obj \<longrightarrow> m q = Some obj' \<longrightarrow> c \<in> set (children obj) \<longrightarrow> c \<in> set (children obj') \<longrightarrow> p = q)
     \<and> (\<exists>rank :: int \<Rightarrow> nat. \<forall>p obj c. m p = Some obj \<longrightarrow> c \<in> set (children obj) \<longrightarrow> rank c < rank p)"

text \<open>The handles no object holds, and the live ones among them.\<close>

definition unowned :: "(int \<Rightarrow> 'f robj option) \<Rightarrow> int \<Rightarrow> bool" where
  "unowned m h \<longleftrightarrow> (\<forall>p obj. m p = Some obj \<longrightarrow> h \<notin> set (children obj))"

definition roots :: "(int \<Rightarrow> 'f robj option) \<Rightarrow> int set" where
  "roots m = {h \<in> dom m. unowned m h}"

lemma forest_empty [simp]: "forest Map.empty" "roots Map.empty = {}"
  by (simp_all add: forest_def roots_def)

lemma forestD:
  assumes "forest m" "m p = Some obj"
  shows "c \<in> set (children obj) \<Longrightarrow> \<exists>child. m c = Some child \<and> kind_of child = child_kind obj"
    "distinct (children obj)"
    "m q = Some obj' \<Longrightarrow> c \<in> set (children obj) \<Longrightarrow> c \<in> set (children obj') \<Longrightarrow> p = q"
  using assms unfolding forest_def by blast+

lemma forest_rank:
  assumes "forest m"
  obtains rank :: "int \<Rightarrow> nat" where "\<And>p obj c. m p = Some obj \<Longrightarrow> c \<in> set (children obj) \<Longrightarrow> rank c < rank p"
  using assms unfolding forest_def by blast

lemma forestI:
  assumes "\<And>p obj c. m p = Some obj \<Longrightarrow> c \<in> set (children obj) \<Longrightarrow> \<exists>child. m c = Some child \<and> kind_of child = child_kind obj"
    "\<And>p obj. m p = Some obj \<Longrightarrow> distinct (children obj)"
    "\<And>p q obj obj' c. m p = Some obj \<Longrightarrow> m q = Some obj' \<Longrightarrow> c \<in> set (children obj) \<Longrightarrow> c \<in> set (children obj') \<Longrightarrow> p = q"
    "\<And>p obj c. m p = Some obj \<Longrightarrow> c \<in> set (children obj) \<Longrightarrow> (rank c :: nat) < rank p"
  shows "forest m"
  unfolding forest_def using assms by blast

text \<open>Removing a root frees what it held.\<close>

lemma forest_remove:
  assumes "forest m" "unowned m h"
  shows "forest (m(h := None))"
proof -
  obtain rank :: "int \<Rightarrow> nat" where r: "\<And>p obj c. m p = Some obj \<Longrightarrow> c \<in> set (children obj) \<Longrightarrow> rank c < rank p"
    using forest_rank [OF assms(1)] by blast
  show ?thesis
  proof (rule forestI [where rank = rank])
    fix p obj c assume "(m(h := None)) p = Some obj" "c \<in> set (children obj)"
    moreover from this assms(2) have "c \<noteq> h" by (auto simp: unowned_def split: if_splits)
    ultimately show "\<exists>child. (m(h := None)) c = Some child \<and> kind_of child = child_kind obj"
      using forestD(1) [OF assms(1)] by (auto split: if_splits)
  qed (use forestD [OF assms(1)] r in \<open>auto split: if_splits\<close>)
qed

lemma unowned_remove:
  assumes "forest m" "m h = Some obj"
  shows "unowned (m(h := None)) c \<longleftrightarrow> unowned m c \<or> c \<in> set (children obj)"
proof
  assume u: "unowned (m(h := None)) c"
  show "unowned m c \<or> c \<in> set (children obj)"
  proof (cases "c \<in> set (children obj)")
    case False
    have "c \<notin> set (children o1)" if "m p = Some o1" for p o1
      using u that False assms(2) by (cases "p = h") (auto simp: unowned_def split: if_splits)
    then show ?thesis by (auto simp: unowned_def)
  qed simp
next
  assume "unowned m c \<or> c \<in> set (children obj)"
  then show "unowned (m(h := None)) c"
    using assms(2) forestD(3) [OF assms(1)] unfolding unowned_def by (fastforce split: if_splits)
qed

lemma root_removed:
  assumes "forest m" "m h = Some obj" "unowned m h"
  shows "roots (m(h := None)) = roots m - {h} \<union> set (children obj)"
proof (rule set_eqI)
  fix c
  have "c \<in> set (children obj) \<Longrightarrow> c \<noteq> h \<and> c \<in> dom m"
    using assms(2,3) forestD(1) [OF assms(1,2), of c] by (auto simp: unowned_def)
  then show "c \<in> roots (m(h := None)) \<longleftrightarrow> c \<in> roots m - {h} \<union> set (children obj)"
    unfolding roots_def by (auto simp: unowned_remove [OF assms(1,2)])
qed

text \<open>A new object takes roots as its children and is a root itself.\<close>

lemma forest_new:
  assumes "forest m" "m h = None" "distinct (children obj)"
    "\<And>c. c \<in> set (children obj) \<Longrightarrow> unowned m c \<and> (\<exists>child. m c = Some child \<and> kind_of child = child_kind obj)"
  shows "forest (m(h \<mapsto> obj))" "roots (m(h \<mapsto> obj)) = insert h (roots m - set (children obj))"
proof -
  obtain rank :: "int \<Rightarrow> nat" where r: "\<And>p obj c. m p = Some obj \<Longrightarrow> c \<in> set (children obj) \<Longrightarrow> rank c < rank p"
    using forest_rank [OF assms(1)] by blast
  have un: "h \<notin> set (children obj')" if "(m(h \<mapsto> obj)) p = Some obj'" for p obj'
    using that forestD(1) [OF assms(1), of p obj' h] assms(2) assms(4) [of h] by (auto split: if_splits)
  define top where "top = Suc (sum_list (map rank (children obj)))"
  have below: "rank c < top" if "c \<in> set (children obj)" for c
    using member_le_sum_list [of "rank c" "map rank (children obj)"] that by (simp add: top_def)
  show "forest (m(h \<mapsto> obj))"
  proof (rule forestI [where rank = "rank(h := top)"])
    fix p o1 c assume p: "(m(h \<mapsto> obj)) p = Some o1" "c \<in> set (children o1)"
    with un have "c \<noteq> h" by blast
    with p show "\<exists>child. (m(h \<mapsto> obj)) c = Some child \<and> kind_of child = child_kind o1"
      using assms(4) forestD(1) [OF assms(1)] by (auto split: if_splits)
    from p \<open>c \<noteq> h\<close> show "(rank(h := top)) c < (rank(h := top)) p"
      using below r by (auto split: if_splits)
  next
    fix p q o1 o2 c assume "(m(h \<mapsto> obj)) p = Some o1" "(m(h \<mapsto> obj)) q = Some o2" "c \<in> set (children o1)" "c \<in> set (children o2)"
    then show "p = q"
      using assms(4) [of c] forestD(3) [OF assms(1)] by (auto simp: unowned_def split: if_splits)
  qed (use assms(3) forestD(2) [OF assms(1)] in \<open>auto split: if_splits\<close>)
  have "unowned (m(h \<mapsto> obj)) c \<longleftrightarrow> unowned m c \<and> c \<notin> set (children obj)" for c
    using assms(2) by (auto simp: unowned_def split: if_splits)
  moreover have "unowned m h"
    using forestD(1) [OF assms(1)] assms(2) unfolding unowned_def by fastforce
  moreover have "h \<notin> set (children obj)" using un [of h obj] by simp
  ultimately show "roots (m(h \<mapsto> obj)) = insert h (roots m - set (children obj))"
    by (auto simp: roots_def)
qed

text \<open>Updating a root keeps it a root: its new children were its own or roots, and those it drops become roots.\<close>

lemma forest_update:
  assumes "forest m" "m h = Some old" "unowned m h" "distinct (children obj)" "h \<notin> set (children obj)"
    "\<And>c. c \<in> set (children obj) \<Longrightarrow> (unowned m c \<or> c \<in> set (children old)) \<and> (\<exists>child. m c = Some child \<and> kind_of child = child_kind obj)"
  shows "forest (m(h \<mapsto> obj))"
    "roots (m(h \<mapsto> obj)) = (roots m \<union> set (children old)) - set (children obj)"
proof -
  let ?m = "m(h := None)"
  have f: "forest ?m" by (rule forest_remove [OF assms(1,3)])
  have c: "unowned ?m c \<and> (\<exists>child. ?m c = Some child \<and> kind_of child = child_kind obj)" if "c \<in> set (children obj)" for c
    using assms(5,6) that unowned_remove [OF assms(1,2)] by auto
  from forest_new(1) [where h = h, OF f _ assms(4) c] show "forest (m(h \<mapsto> obj))" by simp
  have "h \<notin> set (children old)" using assms(2,3) by (auto simp: unowned_def)
  then show "roots (m(h \<mapsto> obj)) = (roots m \<union> set (children old)) - set (children obj)"
    using forest_new(2) [where h = h, OF f _ assms(4) c] root_removed [OF assms(1,2,3)] assms(2,3,5)
    by (auto simp: roots_def)
qed

subsection \<open>Closing a tree\<close>

text \<open>Closing frees exactly the given roots: every other root keeps its object.\<close>

definition frees :: "'f runtime \<Rightarrow> int set \<Rightarrow> 'f runtime \<Rightarrow> bool" where
  "frees rt C rt' \<longleftrightarrow> rt_ok rt' \<and> forest (heap rt') \<and> heap rt' \<subseteq>\<^sub>m heap rt
     \<and> roots (heap rt') = roots (heap rt) - C \<and> (\<forall>h\<in>roots (heap rt'). heap rt' h = heap rt h)"

lemma frees_trans: "frees a C b \<Longrightarrow> frees b D c \<Longrightarrow> frees a (C \<union> D) c"
  by (auto simp: frees_def intro: map_le_trans)

lemma frees_dec [simp]: "frees rt C (dec_active K rt') = frees rt C rt'"
  by (simp add: frees_def)

text \<open>The children of an object just removed from the table are roots.\<close>

definition orphans :: "handle_kind \<Rightarrow> int list \<Rightarrow> 'f runtime \<Rightarrow> bool" where
  "orphans K hs rt \<longleftrightarrow> rt_ok rt \<and> forest (heap rt) \<and> distinct (filter (\<lambda>c. c \<noteq> 0) hs)
     \<and> (\<forall>c\<in>set hs. c \<noteq> 0 \<longrightarrow> c \<in> roots (heap rt) \<and> (\<exists>obj. heap rt c = Some obj \<and> kind_of obj = K))"

lemma removed_frees:
  assumes "forest (heap rt)" "heap rt h = Some obj" "unowned (heap rt) h" "rt_ok (rt \<lparr> rt_table := t \<rparr>)"
    "heap (rt \<lparr> rt_table := t \<rparr>) = (heap rt)(h := None)"
  shows "orphans (child_kind obj) (child_handles obj) (rt \<lparr> rt_table := t \<rparr>)"
    "frees (rt \<lparr> rt_table := t \<rparr>) (set (children obj)) rt' \<Longrightarrow> frees rt {h} rt'"
proof -
  let ?m = "heap rt"
  note r = root_removed [OF assms(1,2,3)]
  have f: "forest (?m(h := None))" by (rule forest_remove [OF assms(1,3)])
  have ne: "h \<notin> set (children obj)" using assms(2,3) by (auto simp: unowned_def)
  show "orphans (child_kind obj) (child_handles obj) (rt \<lparr> rt_table := t \<rparr>)"
    unfolding orphans_def assms(5) using assms(4) f forestD(2) [OF assms(1,2)] forestD(1) [OF assms(1,2)] ne r
    by (auto simp: children_def)
  assume fr: "frees (rt \<lparr> rt_table := t \<rparr>) (set (children obj)) rt'"
  have "roots ?m \<inter> set (children obj) = {}" using assms(2) by (auto simp: roots_def unowned_def)
  then have "roots (heap rt') = roots ?m - {h}" using fr r by (auto simp: frees_def assms(5))
  moreover have "heap rt' \<subseteq>\<^sub>m ?m"
    by (rule map_le_trans [of _ "?m(h := None)"]) (use fr in \<open>simp_all add: frees_def assms(5)\<close>)
  moreover have "heap rt' c = ?m c" if "c \<in> roots (heap rt')" for c
  proof -
    have "heap rt' c = (?m(h := None)) c" using fr that by (simp add: frees_def assms(5))
    with that show ?thesis by (auto simp: roots_def split: if_splits)
  qed
  moreover have "rt_ok rt'" "forest (heap rt')" using fr by (simp_all add: frees_def)
  ultimately show "frees rt {h} rt'" unfolding frees_def by blast
qed

lemma close_fold_frees:
  assumes step: "\<And>obj (rt :: 'f runtime) rt'. close_object n obj rt = Some rt' \<Longrightarrow> orphans (child_kind obj) (child_handles obj) rt \<Longrightarrow>
      frees rt (set (children obj)) rt'"
    and "fold_opt (release_with (close_object n) K) hs rt = Some rt'" "orphans K hs (rt :: 'f runtime)" "K \<noteq> HK_Unknown"
  shows "frees rt (set hs - {0}) rt'"
  using assms(2,3)
proof (induction hs arbitrary: rt)
  case Nil
  then show ?case by (auto simp: frees_def orphans_def)
next
  case (Cons h hs)
  from Cons.prems(2) have ok: "rt_ok rt" "forest (heap rt)" by (simp_all add: orphans_def)
  from ok(1) assms(4) show ?case
  proof (cases rule: release_with_cases [where h = h and cl = "close_object n"])
    case (hit obj t)
    then have "h \<noteq> 0" by auto
    with Cons.prems(2) have un: "unowned (heap rt) h" by (simp add: orphans_def roots_def)
    from Cons.prems(1) hit(3) obtain rt2 where rt2: "close_object n obj (rt \<lparr> rt_table := t \<rparr>) = Some rt2"
      "fold_opt (release_with (close_object n) K) hs rt2 = Some rt'" by (auto split: option.splits)
    note rem = removed_frees [OF ok(2) hit(1) un hit(4,5)]
    from rem(2) [OF step [OF rt2(1) rem(1)]] have fr: "frees rt {h} rt2" .
    have "c \<in> roots (heap rt2) \<and> heap rt2 c = heap rt c" if "c \<in> set hs" "c \<noteq> 0" for c
    proof -
      from that Cons.prems(2) \<open>h \<noteq> 0\<close> have "c \<in> roots (heap rt) - {h}" by (auto simp: orphans_def)
      with fr show ?thesis by (simp add: frees_def)
    qed
    then have "orphans K hs rt2"
      using Cons.prems(2) fr \<open>h \<noteq> 0\<close> by (simp add: orphans_def frees_def)
    from frees_trans [OF fr Cons.IH [OF rt2(2) this]] show ?thesis
      using \<open>h \<noteq> 0\<close> by (simp add: insert_Diff_if)
  next
    case miss
    with Cons.prems(2) have "h = 0" by (auto simp: orphans_def)
    moreover from Cons.prems(2) have "orphans K hs rt" by (auto simp: orphans_def split: if_splits)
    ultimately show ?thesis using Cons.IH [of rt] Cons.prems(1) miss(2) by (simp add: insert_Diff_if)
  qed
qed

lemma close_object_frees:
  "close_object n obj rt = Some rt' \<Longrightarrow> orphans (child_kind obj) (child_handles obj) rt \<Longrightarrow> frees rt (set (children obj)) rt'"
proof (induction n arbitrary: obj rt rt')
  case (Suc n)
  from Suc.prems(1) obtain rt1 where
    "fold_opt (release_with (close_object n) (child_kind obj)) (child_handles obj) rt = Some rt1"
    "rt' = dec_active (kind_of obj) rt1" by (auto simp: close_object_Suc)
  moreover have "set (children obj) = set (child_handles obj) - {0}" by (auto simp: children_def)
  ultimately show ?case
    using close_fold_frees [OF Suc.IH _ Suc.prems(2) child_kind_known, of n rt1] by simp
qed simp

lemma release_frees:
  assumes "rt_ok rt" "forest (heap rt)" "unowned (heap rt) h" "K \<noteq> HK_Unknown"
    "release_with (close_object n) K h rt = Some rt'"
  shows "frees rt {h} rt' \<or> rt' = rt \<and> (\<forall>obj. heap rt h = Some obj \<longrightarrow> kind_of obj \<noteq> K)"
  using assms(1,4)
proof (cases rule: release_with_cases [where h = h and cl = "close_object n"])
  case (hit obj t)
  note rem = removed_frees [OF assms(2) hit(1) assms(3) hit(4,5)]
  from assms(5) hit(3) have "close_object n obj (rt \<lparr> rt_table := t \<rparr>) = Some rt'" by simp
  from rem(2) [OF close_object_frees [OF this rem(1)]] show ?thesis by simp
next
  case miss
  with assms(5) show ?thesis by simp
qed

subsection \<open>Cloning\<close>

text \<open>Cloning and printing in one shape for lists and dictionaries.\<close>

definition find_object :: "handle_kind \<Rightarrow> int \<Rightarrow> 'f runtime \<Rightarrow> 'f robj option \<times> 'f runtime" where
  "find_object K h rt =
     (if K = HK_List then map_prod (map_option OList) id (as_list_base h True rt)
      else map_prod (map_option ODict) id (as_dict_base h True rt))"

fun stash_object :: "'f robj \<Rightarrow> 'f runtime \<Rightarrow> int \<times> 'f runtime" where
  "stash_object (OList l) = stash_list l"
| "stash_object (ODict d) = stash_dict d"

definition cloned_entries :: "'v dict_storage \<Rightarrow> 'v list \<Rightarrow> 'v dict_storage" where
  "cloned_entries s vs = dict_after_clone (new_dict_storage (d_impl s) \<lparr> d_entries := zip (dict_keys s) vs \<rparr>)"

fun with_children :: "'f robj \<Rightarrow> int list \<Rightarrow> 'f robj" where
  "with_children (OList (ListListHandle hs)) cs = OList (ListListHandle cs)"
| "with_children (OList (ListDictHandle hs)) cs = OList (ListDictHandle cs)"
| "with_children (ODict (DictListHandle s)) cs = ODict (DictListHandle (cloned_entries s cs))"
| "with_children (ODict (DictDictHandle s)) cs = ODict (DictDictHandle (cloned_entries s cs))"
| "with_children (ODict (DictBool s)) cs = ODict (DictBool (clone_dict_storage s (d_impl s)))"
| "with_children (ODict (DictI64 s)) cs = ODict (DictI64 (clone_dict_storage s (d_impl s)))"
| "with_children (ODict (DictF64 s)) cs = ODict (DictF64 (clone_dict_storage s (d_impl s)))"
| "with_children (ODict (DictString s)) cs = ODict (DictString (clone_dict_storage s (d_impl s)))"
| "with_children (OList l) cs = OList l"

lemma dict_after_clone_entries [simp]: "d_entries (dict_after_clone s) = d_entries s"
  by (simp add: dict_after_clone_def rebuild_dict_index_def split: option.split dict_impl.split)

lemma with_children_simps:
  "kind_of (with_children obj cs) = kind_of obj" "child_kind (with_children obj cs) = child_kind obj"
  "length cs = length (child_handles obj) \<Longrightarrow> child_handles (with_children obj cs) = cs"
  by (cases obj rule: child_handles.cases, simp_all add: cloned_entries_def dict_values_def dict_keys_def)+

lemma map_opt_length: "map_opt f xs s = Some (ys, s') \<Longrightarrow> length ys = length xs"
  by (induction xs arbitrary: s ys) (auto simp: bind_eq_Some_conv split: prod.splits)

lemma map_opt_entries:
  "map_opt (\<lambda>(k, v) rt. do { (v', rt) \<leftarrow> rec v rt; Some ((k, v'), rt) }) es rt
   = map_option (\<lambda>(vs, rt). (zip (map fst es) vs, rt)) (map_opt rec (map snd es) rt)"
  by (induction es arbitrary: rt) (auto split: Option.bind_split prod.splits)

lemma clone_Suc:
  assumes "K = HK_List \<or> K = HK_Dict"
  shows "clone_handle_value (Suc n) K h rt =
     (case find_object K h rt of
        (None, rt) \<Rightarrow> Some (0, rt)
      | (Some obj, rt) \<Rightarrow> do {
          (cs, rt) \<leftarrow> map_opt (clone_handle_value n (child_kind obj)) (child_handles obj) rt;
          Some (stash_object (with_children obj cs) rt) })"
  using assms
  by (auto simp: find_object_def clone_list_body_def clone_dict_body_def clone_entries_def map_opt_entries
      dict_values_def dict_keys_def cloned_entries_def
      split: prod.split option.split styio_list.split styio_dict.split Option.bind_split)

declare clone_handle_value.simps(2) [simp del]

lemma find_object_cases:
  assumes "rt_ok rt" "K = HK_List \<or> K = HK_Dict"
  obtains (hit) obj where "heap rt h = Some obj" "kind_of obj = K" "find_object K h rt = (Some obj, rt)"
    | (miss) c m where "\<forall>obj. heap rt h = Some obj \<longrightarrow> kind_of obj \<noteq> K"
      "find_object K h rt = (None, if h = 0 then rt else set_runtime_error_once c m rt)"
proof (cases "\<exists>obj. heap rt h = Some obj \<and> kind_of obj = K")
  case True
  then obtain obj where obj: "heap rt h = Some obj" "kind_of obj = K" by auto
  then have "resolves_to rt h obj" by (simp add: heap_resolves [OF assms(1)])
  with obj hit show thesis by (cases obj) (auto simp: find_object_def as_list_hit as_dict_hit)
next
  case False
  have "lookup (rt_table rt) h K = None"
    using False rt_ok_kind [OF assms(1), of h] assms(2)
    by (auto simp: lookup_live heap_def split: option.split)
  with assms(2) False miss show thesis
    by (cases "h = 0") (auto simp: find_object_def as_list_base_def as_dict_base_def)
qed

lemma heap_once [simp]: "heap (set_runtime_error_once c m rt) = heap rt"
    "surplus K (set_runtime_error_once c m rt) = surplus K rt"
proof -
  have h: "heap (set_runtime_error_once c m rt) = heap rt" by (rule heap_table) simp
  then show "heap (set_runtime_error_once c m rt) = heap rt" .
  have "active K (set_runtime_error_once c m rt) = active K rt"
    by (simp add: active_def set_runtime_error_once_def Let_def)
  then show "surplus K (set_runtime_error_once c m rt) = surplus K rt" by (simp add: surplus_def alive_def h)
qed

lemma stash_object_spec:
  assumes "rt_ok rt" "stash_object obj rt = (h, rt')"
  shows "rt_ok rt'" "0 < h" "heap rt h = None" "heap rt' = (heap rt)(h \<mapsto> obj)" "keeps_error rt rt'"
    "K = HK_List \<or> K = HK_Dict \<Longrightarrow> surplus K rt' = surplus K rt"
proof -
  obtain t where a: "acquire (kind_of obj) (Some obj) (rt_table rt) = (h, t)"
    and rt': "rt' = (case obj of OList _ \<Rightarrow> rt \<lparr> rt_table := t, rt_active_lists := rt_active_lists rt + 1 \<rparr>
         | ODict _ \<Rightarrow> rt \<lparr> rt_table := t, rt_active_dicts := rt_active_dicts rt + 1 \<rparr>)"
    using assms(2) by (cases obj) (auto simp: stash_list_def stash_dict_def split: prod.splits)
  note s = acquire_spec [OF rt_okD [OF assms(1)] a]
  have t: "rt_table rt' = t" by (simp add: rt' split: robj.split)
  show "rt_ok rt'" unfolding rt_ok_def t using s rt_ok_kind [OF assms(1)] by (auto split: if_splits)
  show "0 < h" "heap rt h = None" using s by (auto simp: heap_def)
  show h': "heap rt' = (heap rt)(h \<mapsto> obj)" using s by (auto simp: heap_def t fun_eq_iff)
  show "keeps_error rt rt'" by (simp add: keeps_error_def rt' split: robj.split)
  assume K: "K = HK_List \<or> K = HK_Dict"
  have "alive K rt' = (if kind_of obj = K then insert h (alive K rt) else alive K rt)"
    using \<open>heap rt h = None\<close> by (auto simp: alive_def h')
  moreover have "h \<notin> alive K rt" using \<open>heap rt h = None\<close> by (simp add: alive_def)
  moreover have "active K rt' = active K rt + (if kind_of obj = K then 1 else 0)"
    using K by (auto simp: active_def rt' split: robj.split)
  ultimately show "surplus K rt' = surplus K rt" by (simp add: surplus_def)
qed

text \<open>The outcome of cloning: fresh roots, everything there before untouched.\<close>

definition grows :: "'f runtime \<Rightarrow> handle_kind \<Rightarrow> int list \<Rightarrow> 'f runtime \<Rightarrow> bool" where
  "grows rt K cs rt' \<longleftrightarrow> rt_ok rt' \<and> forest (heap rt') \<and> heap rt \<subseteq>\<^sub>m heap rt' \<and> keeps_error rt rt'
     \<and> (\<forall>K\<in>{HK_List, HK_Dict}. surplus K rt' = surplus K rt)
     \<and> roots (heap rt') = roots (heap rt) \<union> (set cs - {0}) \<and> distinct (filter (\<lambda>c. c \<noteq> 0) cs)
     \<and> (\<forall>c\<in>set cs. c \<noteq> 0 \<longrightarrow> heap rt c = None \<and> (\<exists>obj. heap rt' c = Some obj \<and> kind_of obj = K))"

lemma grows_Nil: "rt_ok rt \<Longrightarrow> forest (heap rt) \<Longrightarrow> grows rt K [] rt"
  by (simp add: grows_def)

lemma map_leD: "f \<subseteq>\<^sub>m g \<Longrightarrow> f x = Some y \<Longrightarrow> g x = Some y"
  unfolding map_le_def by (metis domI)

lemma grows_Cons:
  assumes "grows a K [c] b" "grows b K cs d"
  shows "grows a K (c # cs) d"
proof -
  have le: "heap a \<subseteq>\<^sub>m heap b" "heap b \<subseteq>\<^sub>m heap d" using assms by (simp_all add: grows_def)
  have "heap a x = None" if "heap b x = None" for x
    using map_leD [OF le(1), of x] that by (cases "heap a x") auto
  moreover have "c \<notin> set cs" if "c \<noteq> 0" using assms that by (auto simp: grows_def)
  moreover have "\<exists>obj. heap d c = Some obj \<and> kind_of obj = K" if "c \<noteq> 0"
    using assms(1) that map_leD [OF le(2)] by (auto simp: grows_def)
  ultimately show ?thesis
    using assms map_le_trans [OF le] keeps_trans [of a b d] unfolding grows_def by (auto simp: insert_Diff_if)
qed

lemma map_opt_grows:
  assumes step: "\<And>h (rt :: 'f runtime) c rt'. f h rt = Some (c, rt') \<Longrightarrow> rt_ok rt \<Longrightarrow> forest (heap rt) \<Longrightarrow> grows rt K [c] rt'"
    and "map_opt f hs rt = Some (cs, rt')" "rt_ok rt" "forest (heap rt)"
  shows "grows rt K cs rt'"
  using assms(2-)
proof (induction hs arbitrary: rt cs)
  case (Cons h hs)
  from Cons.prems(1) obtain c rt1 cs1 where c: "f h rt = Some (c, rt1)" "map_opt f hs rt1 = Some (cs1, rt')" "cs = c # cs1"
    by (auto simp: bind_eq_Some_conv split: prod.splits)
  from step [OF c(1) Cons.prems(2,3)] have g: "grows rt K [c] rt1" .
  then have "rt_ok rt1" "forest (heap rt1)" by (simp_all add: grows_def)
  from grows_Cons [OF g Cons.IH [OF c(2) this]] c(3) show ?case by simp
qed (simp add: grows_Nil)

lemma stash_grows:
  assumes "grows rt (child_kind obj) (child_handles obj) rt1" "stash_object obj rt1 = (c, rt')"
  shows "grows rt (kind_of obj) [c] rt'"
proof -
  from assms(1) have ok: "rt_ok rt1" "forest (heap rt1)" by (simp_all add: grows_def)
  note s = stash_object_spec [OF ok(1) assms(2)]
  have ch: "set (children obj) = set (child_handles obj) - {0}" "distinct (children obj)"
    using assms(1) by (auto simp: children_def grows_def)
  have r: "unowned (heap rt1) x \<and> (\<exists>child. heap rt1 x = Some child \<and> kind_of child = child_kind obj)" if "x \<in> set (children obj)" for x
    using assms(1) that by (auto simp: ch grows_def roots_def)
  note f = forest_new [OF ok(2) s(3) ch(2) r]
  have "roots (heap rt) \<inter> set (children obj) = {}" using assms(1) by (auto simp: ch grows_def roots_def)
  then have "roots (heap rt') = roots (heap rt) \<union> {c}"
    using f(2) assms(1) by (auto simp: s(4) grows_def ch)
  moreover have "heap rt \<subseteq>\<^sub>m heap rt'"
    by (rule map_le_trans [of _ "heap rt1"]) (use assms(1) s(3) in \<open>auto simp: grows_def s(4) map_le_def\<close>)
  moreover have "heap rt c = None"
    using assms(1) s(3) map_leD [of "heap rt" "heap rt1" c] by (cases "heap rt c") (auto simp: grows_def)
  moreover have "keeps_error rt rt'" using assms(1) s(5) by (auto simp: grows_def intro: keeps_trans)
  moreover have "\<forall>K\<in>{HK_List, HK_Dict}. surplus K rt' = surplus K rt"
    using assms(1) s(6) by (simp add: grows_def)
  ultimately show ?thesis using s(1,2,4) f(1) by (simp add: grows_def)
qed

lemma clone_grows:
  "clone_handle_value n K h rt = Some (c, rt') \<Longrightarrow> rt_ok rt \<Longrightarrow> forest (heap rt) \<Longrightarrow> K = HK_List \<or> K = HK_Dict \<Longrightarrow>
   grows rt K [c] rt'"
proof (induction n arbitrary: K h rt c rt')
  case (Suc n)
  from Suc.prems(2,4) show ?case
  proof (cases rule: find_object_cases [where h = h])
    case (hit obj)
    with Suc.prems(1) obtain cs rt1 where
      cs: "map_opt (clone_handle_value n (child_kind obj)) (child_handles obj) rt = Some (cs, rt1)"
      "stash_object (with_children obj cs) rt1 = (c, rt')"
      by (auto simp: clone_Suc [OF Suc.prems(4)] bind_eq_Some_conv split: prod.splits)
    have "child_kind obj = HK_List \<or> child_kind obj = HK_Dict" by (cases obj rule: child_kind.cases) simp_all
    with map_opt_grows [OF Suc.IH cs(1) Suc.prems(2,3)] have "grows rt (child_kind obj) cs rt1" by simp
    moreover note w = with_children_simps(1,2) [of obj cs] with_children_simps(3) [OF map_opt_length [OF cs(1)]]
    ultimately show ?thesis using stash_grows [of rt "with_children obj cs" rt1 c rt'] cs(2) hit(2) by simp
  next
    case (miss sub msg)
    with Suc.prems show ?thesis
      by (cases "h = 0") (auto simp: clone_Suc [OF Suc.prems(4)] grows_def)
  qed
qed simp

subsection \<open>Cloning returns\<close>

text \<open>Ranks can be chosen below the number of objects, so that is fuel enough.\<close>

lemma forest_rank_bounded:
  assumes "forest m" "finite (dom m)"
  obtains rank :: "int \<Rightarrow> nat" where "\<And>p obj c. m p = Some obj \<Longrightarrow> c \<in> set (children obj) \<Longrightarrow> rank c < rank p"
    "\<And>p. p \<in> dom m \<Longrightarrow> rank p < card (dom m)"
proof -
  obtain r :: "int \<Rightarrow> nat" where r: "\<And>p obj c. m p = Some obj \<Longrightarrow> c \<in> set (children obj) \<Longrightarrow> r c < r p"
    using forest_rank [OF assms(1)] by blast
  define rank where "rank p = card {x \<in> dom m. r x < r p}" for p
  show thesis
  proof (rule that [of rank])
    fix p obj c assume p: "m p = Some obj" "c \<in> set (children obj)"
    have "c \<in> dom m" using forestD(1) [OF assms(1) p] by auto
    then have "{x \<in> dom m. r x < r c} \<subset> {x \<in> dom m. r x < r p}" using r [OF p] by auto
    then show "rank c < rank p" unfolding rank_def by (rule psubset_card_mono [rotated]) (simp add: assms(2))
  next
    fix p assume "p \<in> dom m"
    then have "{x \<in> dom m. r x < r p} \<subset> dom m" by auto
    then show "rank p < card (dom m)" unfolding rank_def by (rule psubset_card_mono [OF assms(2)])
  qed
qed

text \<open>The handles a traversal of an old heap may meet: the old objects and nothing else.\<close>

definition reaches_old :: "(int \<Rightarrow> 'f robj option) \<Rightarrow> (int \<Rightarrow> nat) \<Rightarrow> nat \<Rightarrow> int \<Rightarrow> 'f runtime \<Rightarrow> bool" where
  "reaches_old m rank n h rt \<longleftrightarrow> 0 < n \<and> (case m h of None \<Rightarrow> heap rt h = None | Some obj \<Rightarrow> Suc (rank h) < n)"

definition extends :: "(int \<Rightarrow> 'f robj option) \<Rightarrow> 'f runtime \<Rightarrow> bool" where
  "extends m rt \<longleftrightarrow> rt_ok rt \<and> forest (heap rt) \<and> m \<subseteq>\<^sub>m heap rt"

lemma grows_extends: "extends m rt \<Longrightarrow> grows rt K cs rt' \<Longrightarrow> extends m rt'"
  by (auto simp: extends_def grows_def intro: map_le_trans)

lemma reaches_child:
  assumes "forest m" "\<And>p obj c. m p = Some obj \<Longrightarrow> c \<in> set (children obj) \<Longrightarrow> (rank c :: nat) < rank p"
    "reaches_old m rank (Suc n) h rt" "extends m rt" "heap rt h = Some obj" "c \<in> set (child_handles obj)" "c = 0 \<Longrightarrow> m 0 = None"
  shows "m h = Some obj" "c = 0 \<or> m c \<noteq> None" "reaches_old m rank n c rt'"
proof -
  show h: "m h = Some obj"
  proof (cases "m h")
    case (Some o1)
    then have "heap rt h = Some o1" using assms(4) map_leD [of m "heap rt"] by (auto simp: extends_def)
    with assms(5) Some show ?thesis by simp
  qed (use assms(3,5) in \<open>simp add: reaches_old_def\<close>)
  have c: "c = 0 \<or> c \<in> set (children obj)" using assms(6) by (auto simp: children_def)
  then show "c = 0 \<or> m c \<noteq> None" using forestD(1) [OF assms(1) h, of c] by auto
  have n: "Suc (rank h) < Suc n" using assms(3) h by (simp add: reaches_old_def)
  show "reaches_old m rank n c rt'"
  proof (cases "c = 0")
    case True
    with n assms(7) show ?thesis by (simp add: reaches_old_def)
  next
    case False
    with c have "c \<in> set (children obj)" by simp
    with n assms(2) [OF h this] forestD(1) [OF assms(1) h this] show ?thesis
      by (auto simp: reaches_old_def)
  qed
qed

lemma map_opt_total:
  assumes "\<And>h rt. h \<in> set hs \<Longrightarrow> P rt \<Longrightarrow> \<exists>c rt'. f h rt = Some (c, rt') \<and> P rt'" "P rt"
  shows "\<exists>cs rt'. map_opt f hs rt = Some (cs, rt') \<and> P rt'"
  using assms
proof (induction hs arbitrary: rt)
  case (Cons h hs)
  from Cons.prems(1) [of h rt] Cons.prems(2) obtain c rt1 where c: "f h rt = Some (c, rt1)" "P rt1" by auto
  from Cons.IH [OF Cons.prems(1) c(2)] obtain cs rt2 where "map_opt f hs rt1 = Some (cs, rt2)" "P rt2" by auto
  with c show ?case by simp
qed simp

lemma clone_total:
  assumes "forest m" "\<And>p obj c. m p = Some obj \<Longrightarrow> c \<in> set (children obj) \<Longrightarrow> (rank c :: nat) < rank p" "m 0 = None"
  shows "reaches_old m rank n h rt \<Longrightarrow> extends m rt \<Longrightarrow> K = HK_List \<or> K = HK_Dict \<Longrightarrow>
    \<exists>c rt'. clone_handle_value n K h rt = Some (c, rt')"
proof (induction n arbitrary: K h rt)
  case 0
  then show ?case by (simp add: reaches_old_def)
next
  case (Suc n)
  from Suc.prems(2) have ok: "rt_ok rt" by (simp add: extends_def)
  from ok Suc.prems(3) show ?case
  proof (cases rule: find_object_cases [where h = h])
    case (hit obj)
    have K: "child_kind obj = HK_List \<or> child_kind obj = HK_Dict" by (cases obj rule: child_kind.cases) simp_all
    have "\<exists>cs rt'. map_opt (clone_handle_value n (child_kind obj)) (child_handles obj) rt = Some (cs, rt') \<and> extends m rt'"
    proof (rule map_opt_total)
      fix c rt1 assume c: "c \<in> set (child_handles obj)" "extends m rt1"
      have "reaches_old m rank n c rt1"
        by (rule reaches_child(3) [OF assms(1,2) Suc.prems(1,2) hit(1) c(1)]) (use assms(3) in simp_all)
      from Suc.IH [OF this c(2) K] obtain c' rt' where c': "clone_handle_value n (child_kind obj) c rt1 = Some (c', rt')" by auto
      have "grows rt1 (child_kind obj) [c'] rt'"
        by (rule clone_grows [OF c' _ _ K]) (use c(2) in \<open>simp_all add: extends_def\<close>)
      with c' grows_extends [OF c(2)] show "\<exists>c' rt'. clone_handle_value n (child_kind obj) c rt1 = Some (c', rt') \<and> extends m rt'"
        by blast
    qed (rule Suc.prems(2))
    with hit show ?thesis by (auto simp: clone_Suc [OF Suc.prems(3)] intro: prod.exhaust)
  next
    case miss
    then show ?thesis by (simp add: clone_Suc [OF Suc.prems(3)])
  qed
qed

text \<open>More fuel changes nothing.\<close>

lemma map_opt_mono:
  "(\<And>x s r. f x s = Some r \<Longrightarrow> g x s = Some r) \<Longrightarrow> map_opt f xs s = Some r \<Longrightarrow> map_opt g xs s = Some r"
  by (induction xs arbitrary: s r) (fastforce simp: bind_eq_Some_conv split: prod.splits)+

lemma clone_fuel_Suc:
  "clone_handle_value n K h (rt :: 'f runtime) = Some r \<Longrightarrow> K = HK_List \<or> K = HK_Dict \<Longrightarrow> clone_handle_value (Suc n) K h rt = Some r"
proof (induction n arbitrary: K h rt r)
  case (Suc n)
  have m: "map_opt (clone_handle_value (Suc n) (child_kind obj)) hs rt = Some r1"
    if "map_opt (clone_handle_value n (child_kind obj)) hs rt = Some r1" for obj :: "'f robj" and hs r1 and rt :: "'f runtime"
  proof (rule map_opt_mono [OF _ that])
    show "clone_handle_value (Suc n) (child_kind obj) x s = Some r"
      if "clone_handle_value n (child_kind obj) x s = Some r" for x r and s :: "'f runtime"
      by (rule Suc.IH [OF that]) (cases obj rule: child_kind.cases, simp_all)
  qed
  from Suc.prems show ?case
    by (auto simp: clone_Suc [OF Suc.prems(2)] bind_eq_Some_conv dest!: m split: prod.splits option.splits)
qed simp

lemma clone_fuel_mono:
  "n \<le> m \<Longrightarrow> clone_handle_value n K h rt = Some r \<Longrightarrow> K = HK_List \<or> K = HK_Dict \<Longrightarrow> clone_handle_value m K h rt = Some r"
  by (induction m rule: dec_induct) (auto intro: clone_fuel_Suc)

lemma clone_returns:
  assumes "rt_ok rt" "forest (heap rt)" "K = HK_List \<or> K = HK_Dict" "close_fuel rt \<le> fuel"
  shows "\<exists>c rt'. clone_handle_value fuel K h rt = Some (c, rt') \<and> grows rt K [c] rt'"
proof -
  obtain rank :: "int \<Rightarrow> nat" where r: "\<And>p obj c. heap rt p = Some obj \<Longrightarrow> c \<in> set (children obj) \<Longrightarrow> rank c < rank p"
      "\<And>p. p \<in> dom (heap rt) \<Longrightarrow> rank p < card (dom (heap rt))"
    using forest_rank_bounded [OF assms(2) finite_heap] by blast
  have "reaches_old (heap rt) rank (close_fuel rt) h rt"
    using r(2) [OF domI, of h] heap_card_le_size [OF assms(1)]
    by (cases "heap rt h") (fastforce simp: reaches_old_def close_fuel_def)+
  moreover have "extends (heap rt) rt" using assms by (simp add: extends_def)
  ultimately obtain c rt' where "clone_handle_value (close_fuel rt) K h rt = Some (c, rt')"
    using clone_total [where rank = rank and m = "heap rt" and rt = rt and h = h and n = "close_fuel rt", OF assms(2) _ heap_0 _ _ assms(3)] r(1)
    by blast
  with clone_fuel_mono [OF assms(4) _ assms(3)] have "clone_handle_value fuel K h rt = Some (c, rt')" by blast
  with clone_grows [OF this assms(1-3)] show ?thesis by blast
qed

subsection \<open>Printing\<close>

fun object_text :: "('f \<Rightarrow> string) \<Rightarrow> 'f robj \<Rightarrow> string list \<Rightarrow> string" where
  "object_text fmt (OList (ListBool xs)) ts = ''['' @ comma_list bool_text xs @ '']''"
| "object_text fmt (OList (ListI64 xs)) ts = ''['' @ comma_list to_string_int xs @ '']''"
| "object_text fmt (OList (ListF64 xs)) ts = ''['' @ comma_list fmt xs @ '']''"
| "object_text fmt (OList (ListString xs)) ts = ''['' @ comma_list quoted xs @ '']''"
| "object_text fmt (OList (ListListHandle xs)) ts = ''['' @ comma_list id ts @ '']''"
| "object_text fmt (OList (ListDictHandle xs)) ts = ''['' @ comma_list id ts @ '']''"
| "object_text fmt (ODict (DictBool s)) ts = ''{'' @ comma_list (entry_text bool_text) (d_entries s) @ ''}''"
| "object_text fmt (ODict (DictI64 s)) ts = ''{'' @ comma_list (entry_text to_string_int) (d_entries s) @ ''}''"
| "object_text fmt (ODict (DictF64 s)) ts = ''{'' @ comma_list (entry_text fmt) (d_entries s) @ ''}''"
| "object_text fmt (ODict (DictString s)) ts = ''{'' @ comma_list (entry_text quoted) (d_entries s) @ ''}''"
| "object_text fmt (ODict (DictListHandle s)) ts = ''{'' @ comma_list (entry_text id) (zip (dict_keys s) ts) @ ''}''"
| "object_text fmt (ODict (DictDictHandle s)) ts = ''{'' @ comma_list (entry_text id) (zip (dict_keys s) ts) @ ''}''"

lemma repr_Suc:
  assumes "K = HK_List \<or> K = HK_Dict"
  shows "handle_repr fmt (Suc n) K h rt =
     (case find_object K h rt of
        (None, rt) \<Rightarrow> Some (if K = HK_List then ''[]'' else ''{}'', rt)
      | (Some obj, rt) \<Rightarrow> do {
          (ts, rt) \<leftarrow> map_opt (handle_repr fmt n (child_kind obj)) (child_handles obj) rt;
          Some (object_text fmt obj ts, rt) })"
  using assms
  by (auto simp: find_object_def list_repr_body_def dict_repr_body_def Let_def
      split: prod.split option.split styio_list.split styio_dict.split Option.bind_split)

declare handle_repr.simps(2) [simp del]

lemma clone_entries_same [simp]: "d_entries (clone_dict_storage s impl) = d_entries s"
  by (simp add: clone_dict_storage_def)

lemma object_text_cloned:
  "length cs = length (child_handles obj) \<Longrightarrow> object_text fmt (with_children obj cs) ts = object_text fmt obj ts"
  by (cases obj rule: child_handles.cases) (simp_all add: cloned_entries_def dict_keys_def dict_values_def)

text \<open>Printing an object of the old heap reads only what was there, and changes nothing.\<close>

lemma map_opt_pure:
  "map_opt f xs s = Some (ys, s') \<Longrightarrow> (\<And>x y s1. x \<in> set xs \<Longrightarrow> f x s = Some (y, s1) \<Longrightarrow> s1 = s \<and> g x t = Some (y, t)) \<Longrightarrow>
   s' = s \<and> map_opt g xs t = Some (ys, t)"
  by (induction xs arbitrary: ys) (fastforce simp: bind_eq_Some_conv split: prod.splits)+

definition printable :: "(int \<Rightarrow> 'f robj option) \<Rightarrow> handle_kind \<Rightarrow> int \<Rightarrow> bool" where
  "printable m K h \<longleftrightarrow> (K = HK_List \<or> K = HK_Dict) \<and> (h = 0 \<or> (\<exists>obj. m h = Some obj \<and> kind_of obj = K))"

lemma printable_child:
  assumes "forest m" "m h = Some obj" "c \<in> set (child_handles obj)"
  shows "printable m (child_kind obj) c"
proof -
  have "child_kind obj = HK_List \<or> child_kind obj = HK_Dict" by (cases obj rule: child_kind.cases) simp_all
  moreover have "c = 0 \<or> c \<in> set (children obj)" using assms(3) by (auto simp: children_def)
  ultimately show ?thesis using forestD(1) [OF assms(1,2)] by (auto simp: printable_def)
qed

lemma find_printable:
  assumes "rt_ok rt" "m \<subseteq>\<^sub>m heap rt" "printable m K h"
  shows "find_object K h rt = (if h = 0 then None else m h, rt)"
proof -
  from assms(3) have K: "K = HK_List \<or> K = HK_Dict" by (simp add: printable_def)
  from assms(1) K show ?thesis
  proof (cases rule: find_object_cases [where h = h])
    case (hit obj)
    then have "h \<noteq> 0" by auto
    with assms(2,3) hit show ?thesis by (auto simp: printable_def dest: map_leD)
  next
    case miss
    with assms(2,3) show ?thesis by (auto simp: printable_def dest: map_leD)
  qed
qed

lemma repr_stable:
  "handle_repr fmt n K h rt = Some (out, rt1) \<Longrightarrow> forest m \<Longrightarrow> rt_ok rt \<Longrightarrow> m \<subseteq>\<^sub>m heap rt \<Longrightarrow> printable m K h \<Longrightarrow>
   rt_ok rt2 \<Longrightarrow> m \<subseteq>\<^sub>m heap rt2 \<Longrightarrow> rt1 = rt \<and> handle_repr fmt n K h rt2 = Some (out, rt2)"
proof (induction n arbitrary: K h out rt1)
  case (Suc n)
  from Suc.prems(5) have K: "K = HK_List \<or> K = HK_Dict" by (simp add: printable_def)
  note f = find_printable [OF Suc.prems(3,4,5)] find_printable [OF Suc.prems(6,7,5)]
  show ?case
  proof (cases "h = 0")
    case True
    with Suc.prems(1) f show ?thesis by (simp add: repr_Suc [OF K])
  next
    case False
    with Suc.prems(5) obtain obj where obj: "m h = Some obj" by (auto simp: printable_def)
    with Suc.prems(1) False f obtain ts where ts:
      "map_opt (handle_repr fmt n (child_kind obj)) (child_handles obj) rt = Some (ts, rt1)" "out = object_text fmt obj ts"
      by (auto simp: repr_Suc [OF K] bind_eq_Some_conv)
    have "rt1 = rt \<and> map_opt (handle_repr fmt n (child_kind obj)) (child_handles obj) rt2 = Some (ts, rt2)"
    proof (rule map_opt_pure [OF ts(1)])
      fix c y s1 assume c: "c \<in> set (child_handles obj)" "handle_repr fmt n (child_kind obj) c rt = Some (y, s1)"
      show "s1 = rt \<and> handle_repr fmt n (child_kind obj) c rt2 = Some (y, rt2)"
        by (rule Suc.IH [OF c(2) Suc.prems(2-4) printable_child [OF Suc.prems(2) obj c(1)] Suc.prems(6,7)])
    qed
    with False f(2) obj ts(2) show ?thesis by (simp add: repr_Suc [OF K])
  qed
qed simp

lemma repr_total:
  assumes "forest (heap rt)" "\<And>p obj c. heap rt p = Some obj \<Longrightarrow> c \<in> set (children obj) \<Longrightarrow> (rank c :: nat) < rank p" "rt_ok rt"
  shows "0 < n \<Longrightarrow> (h \<noteq> 0 \<longrightarrow> Suc (rank h) < n) \<Longrightarrow> printable (heap rt) K h \<Longrightarrow> \<exists>out. handle_repr fmt n K h rt = Some (out, rt)"
proof (induction n arbitrary: K h)
  case (Suc n)
  from Suc.prems(3) have K: "K = HK_List \<or> K = HK_Dict" by (simp add: printable_def)
  note f = find_printable [OF assms(3) map_le_refl Suc.prems(3)]
  show ?case
  proof (cases "h = 0")
    case True
    with f show ?thesis by (simp add: repr_Suc [OF K])
  next
    case False
    with Suc.prems(3) obtain obj where obj: "heap rt h = Some obj" by (auto simp: printable_def)
    have "\<exists>ts rt'. map_opt (handle_repr fmt n (child_kind obj)) (child_handles obj) rt = Some (ts, rt') \<and> rt' = rt"
    proof (rule map_opt_total)
      fix c rt1 assume c: "c \<in> set (child_handles obj)" "rt1 = rt"
      have "c \<noteq> 0 \<Longrightarrow> rank c < rank h" using c(1) assms(2) [OF obj] by (simp add: children_def)
      with Suc.prems(2) False have "0 < n" "c \<noteq> 0 \<longrightarrow> Suc (rank c) < n" by auto
      from Suc.IH [OF this printable_child [OF assms(1) obj c(1)]] c(2)
      show "\<exists>t rt'. handle_repr fmt n (child_kind obj) c rt1 = Some (t, rt') \<and> rt' = rt" by auto
    qed simp
    with False f obj show ?thesis by (auto simp: repr_Suc [OF K])
  qed
qed simp

lemma repr_returns:
  assumes "rt_ok rt" "forest (heap rt)" "printable (heap rt) K h" "close_fuel rt \<le> fuel"
  shows "\<exists>out. handle_repr fmt fuel K h rt = Some (out, rt)"
proof -
  obtain rank :: "int \<Rightarrow> nat" where r: "\<And>p obj c. heap rt p = Some obj \<Longrightarrow> c \<in> set (children obj) \<Longrightarrow> rank c < rank p"
      "\<And>p. p \<in> dom (heap rt) \<Longrightarrow> rank p < card (dom (heap rt))"
    using forest_rank_bounded [OF assms(2) finite_heap] by blast
  show ?thesis
  proof (rule repr_total [where rank = rank])
    show "0 < fuel" using assms(4) by (simp add: close_fuel_def)
    show "h \<noteq> 0 \<longrightarrow> Suc (rank h) < fuel"
      using r(2) [OF domI, of h] heap_card_le_size [OF assms(1)] assms(3,4) by (fastforce simp: printable_def close_fuel_def)
  qed (use assms r(1) in auto)
qed

text \<open>A clone prints as its original.\<close>

lemma clone_children_repr:
  assumes step: "\<And>h (rt :: 'f runtime) c rt' t. clone_handle_value n K h rt = Some (c, rt') \<Longrightarrow> rt_ok rt \<Longrightarrow> forest (heap rt) \<Longrightarrow>
       printable (heap rt) K h \<Longrightarrow> handle_repr fmt j K h rt = Some (t, rt) \<Longrightarrow> heap rt' \<subseteq>\<^sub>m heap rt2 \<Longrightarrow>
       handle_repr fmt j K c rt2 = Some (t, rt2)"
    and rt0: "rt_ok rt0" "forest (heap rt0)" and K: "K = HK_List \<or> K = HK_Dict"
    and "map_opt (clone_handle_value n K) hs rt = Some (cs, rt1)" "rt_ok (rt :: 'f runtime)" "forest (heap rt)" "heap rt0 \<subseteq>\<^sub>m heap rt"
    and "\<forall>h\<in>set hs. printable (heap rt0) K h" "map_opt (handle_repr fmt j K) hs rt0 = Some (ts, rt0')" "heap rt1 \<subseteq>\<^sub>m heap rt2"
  shows "map_opt (handle_repr fmt j K) cs rt2 = Some (ts, rt2)"
  using assms(5-)
proof (induction hs arbitrary: rt cs ts rt0')
  case (Cons h hs)
  from Cons.prems(1) obtain c rt3 cs3 where c: "clone_handle_value n K h rt = Some (c, rt3)"
    "map_opt (clone_handle_value n K) hs rt3 = Some (cs3, rt1)" "cs = c # cs3"
    by (auto simp: bind_eq_Some_conv split: prod.splits)
  from Cons.prems(6) obtain t ts3 rt0a where t: "handle_repr fmt j K h rt0 = Some (t, rt0a)"
    "map_opt (handle_repr fmt j K) hs rt0a = Some (ts3, rt0')" "ts = t # ts3"
    by (auto simp: bind_eq_Some_conv split: prod.splits)
  from Cons.prems(5) have pr: "printable (heap rt0) K h" by simp
  from repr_stable [OF t(1) rt0(2,1) map_le_refl pr Cons.prems(2,4)]
  have t': "rt0a = rt0" "handle_repr fmt j K h rt = Some (t, rt)" by simp_all
  have g: "grows rt K [c] rt3" by (rule clone_grows [OF c(1) Cons.prems(2,3) K])
  then have ok3: "rt_ok rt3" "forest (heap rt3)" "heap rt \<subseteq>\<^sub>m heap rt3" by (simp_all add: grows_def)
  have "grows rt3 K cs3 rt1"
    by (rule map_opt_grows [OF clone_grows c(2) ok3(1,2)]) (use K in auto)
  then have "heap rt3 \<subseteq>\<^sub>m heap rt1" by (simp add: grows_def)
  then have le: "heap rt3 \<subseteq>\<^sub>m heap rt2" by (rule map_le_trans [OF _ Cons.prems(7)])
  have "printable (heap rt) K h" using pr Cons.prems(4) by (auto simp: printable_def dest: map_leD)
  from step [OF c(1) Cons.prems(2,3) this t'(2) le] have 1: "handle_repr fmt j K c rt2 = Some (t, rt2)" .
  have "map_opt (handle_repr fmt j K) cs3 rt2 = Some (ts3, rt2)"
    by (rule Cons.IH [OF c(2) ok3(1,2) map_le_trans [OF Cons.prems(4) ok3(3)] _ t(2) [unfolded t'(1)] Cons.prems(7)])
      (use Cons.prems(5) in simp)
  with 1 c(3) t(3) show ?case by simp
qed simp

lemma clone_repr:
  "clone_handle_value n K h rt = Some (c, rt') \<Longrightarrow> rt_ok rt \<Longrightarrow> forest (heap rt) \<Longrightarrow> printable (heap rt) K h \<Longrightarrow>
   handle_repr fmt j K h rt = Some (t, rt) \<Longrightarrow> heap rt' \<subseteq>\<^sub>m heap rt2 \<Longrightarrow> rt_ok rt2 \<Longrightarrow> handle_repr fmt j K c rt2 = Some (t, rt2)"
proof (induction n arbitrary: K h rt c rt' j t)
  case (Suc n)
  note ok = Suc.prems(2,3)
  from Suc.prems(4) have K: "K = HK_List \<or> K = HK_Dict" by (simp add: printable_def)
  note f = find_printable [OF ok(1) map_le_refl Suc.prems(4)]
  from Suc.prems(5) obtain i where j: "j = Suc i" by (cases j) auto
  show ?case
  proof (cases "h = 0")
    case True
    with Suc.prems(1) f have "c = 0" by (simp add: clone_Suc [OF K])
    moreover have "find_object K 0 rt2 = (None, rt2)"
      using find_printable [OF Suc.prems(7) map_le_refl, of K 0] K by (simp add: printable_def)
    ultimately show ?thesis using True Suc.prems(5) f by (simp add: repr_Suc [OF K] j)
  next
    case False
    with Suc.prems(4) obtain obj where obj: "heap rt h = Some obj" "kind_of obj = K" by (auto simp: printable_def)
    with Suc.prems(1) False f obtain cs rt1 where
      cs: "map_opt (clone_handle_value n (child_kind obj)) (child_handles obj) rt = Some (cs, rt1)"
      "stash_object (with_children obj cs) rt1 = (c, rt')"
      by (auto simp: clone_Suc [OF K] bind_eq_Some_conv split: prod.splits)
    have ck: "child_kind obj = HK_List \<or> child_kind obj = HK_Dict" by (cases obj rule: child_kind.cases) simp_all
    have "grows rt (child_kind obj) cs rt1"
      by (rule map_opt_grows [OF clone_grows cs(1) ok]) (use ck in auto)
    then have "rt_ok rt1" by (simp add: grows_def)
    note s = stash_object_spec [OF this cs(2)]
    have "heap rt1 \<subseteq>\<^sub>m heap rt'" using s(3,4) by (auto simp: map_le_def)
    then have le: "heap rt1 \<subseteq>\<^sub>m heap rt2" by (rule map_le_trans [OF _ Suc.prems(6)])
    from Suc.prems(5) False f obj obtain ts rt0 where
      ts: "map_opt (handle_repr fmt i (child_kind obj)) (child_handles obj) rt = Some (ts, rt0)" "t = object_text fmt obj ts"
      by (auto simp: repr_Suc [OF K] j bind_eq_Some_conv)
    have "map_opt (handle_repr fmt i (child_kind obj)) cs rt2 = Some (ts, rt2)"
      by (rule clone_children_repr [OF Suc.IH ok ck cs(1) ok map_le_refl _ ts(1) le])
        (use printable_child [OF ok(2) obj(1)] Suc.prems(7) in auto)
    moreover have "heap rt2 c = Some (with_children obj cs)"
      by (rule map_leD [OF Suc.prems(6)]) (simp add: s(4))
    moreover have "find_object K c rt2 = (Some (with_children obj cs), rt2)"
      using find_printable [OF Suc.prems(7) map_le_refl, of K c] calculation(2) K obj(2) s(2)
      by (simp add: printable_def with_children_simps)
    moreover have len: "length cs = length (child_handles obj)" by (rule map_opt_length [OF cs(1)])
    ultimately show ?thesis
      by (simp add: j repr_Suc [OF K] with_children_simps object_text_cloned ts(2))
  qed
qed simp

subsection \<open>The invariant of the runtime\<close>

text \<open>Dictionary objects are well formed.\<close>

fun wf_object :: "'f robj \<Rightarrow> bool" where
  "wf_object (ODict (DictBool s)) = dict_inv s"
| "wf_object (ODict (DictI64 s)) = dict_inv s"
| "wf_object (ODict (DictF64 s)) = dict_inv s"
| "wf_object (ODict (DictString s)) = dict_inv s"
| "wf_object (ODict (DictListHandle s)) = dict_inv s"
| "wf_object (ODict (DictDictHandle s)) = dict_inv s"
| "wf_object (OList l) = True"

definition heap_wf :: "'f runtime \<Rightarrow> bool" where
  "heap_wf rt \<longleftrightarrow> (\<forall>obj\<in>ran (heap rt). wf_object obj)"

definition runtime_inv :: "'f runtime \<Rightarrow> bool" where
  "runtime_inv rt \<longleftrightarrow> rt_ok rt \<and> forest (heap rt) \<and> heap_wf rt
     \<and> styio_list_active_count rt = int (card (alive HK_List rt))
     \<and> styio_dict_active_count rt = int (card (alive HK_Dict rt))"

lemma runtime_inv_alt: "runtime_inv rt \<longleftrightarrow> rt_ok rt \<and> forest (heap rt) \<and> heap_wf rt
     \<and> (\<forall>K\<in>{HK_List, HK_Dict}. surplus K rt = 0)"
  by (auto simp: runtime_inv_def surplus_def active_def styio_list_active_count_def styio_dict_active_count_def)

lemma runtime_invD:
  assumes "runtime_inv rt"
  shows "rt_ok rt" "forest (heap rt)" "heap_wf rt" "\<And>h obj. heap rt h = Some obj \<Longrightarrow> wf_object obj"
  using assms by (auto simp: runtime_inv_def heap_wf_def ran_def)

lemma heap_wf_le: "heap_wf rt \<Longrightarrow> heap rt' \<subseteq>\<^sub>m heap rt \<Longrightarrow> heap_wf rt'"
  unfolding heap_wf_def ran_def by (auto dest: map_leD)

lemma heap_wf_upd: "heap_wf rt \<Longrightarrow> wf_object obj \<Longrightarrow> heap rt' = (heap rt)(h \<mapsto> obj) \<Longrightarrow> heap_wf rt'"
  by (auto simp: heap_wf_def ran_def split: if_splits)

lemma initial_inv: "runtime_inv (initial_runtime :: 'f runtime)"
proof -
  have h: "heap (initial_runtime :: 'f runtime) = Map.empty" by (simp add: heap_def initial_runtime_def fun_eq_iff)
  have "active K (initial_runtime :: 'f runtime) = 0" for K by (simp add: active_def initial_runtime_def)
  with h show ?thesis
    by (simp add: runtime_inv_alt initial_ok heap_wf_def surplus_def alive_def)
qed

lemma dict_inv_after_clone:
  assumes "distinct (map fst es)"
  shows "dict_inv (dict_after_clone (new_dict_storage impl \<lparr> d_entries := es \<rparr>))"
  using rebuild_upto [OF assms order_refl] assms
  by (cases impl; simp add: dict_after_clone_def new_dict_storage_def rebuild_dict_index_def dict_inv_def index_exact_def)

lemma wf_with_children:
  "wf_object obj \<Longrightarrow> length cs = length (child_handles obj) \<Longrightarrow> wf_object (with_children obj cs)"
  by (cases obj rule: child_handles.cases)
    (simp_all add: dict_inv_clone cloned_entries_def dict_inv_after_clone dict_keys_def dict_values_def dict_inv_def [of "_ :: _ dict_storage", THEN iffD1])

lemma map_opt_invariant:
  "map_opt f hs rt = Some (cs, rt') \<Longrightarrow> (\<And>h rt c rt'. f h rt = Some (c, rt') \<Longrightarrow> P rt \<Longrightarrow> P rt') \<Longrightarrow> P rt \<Longrightarrow> P rt'"
  by (induction hs arbitrary: rt cs) (fastforce simp: bind_eq_Some_conv split: prod.splits)+

lemma clone_wf:
  "clone_handle_value n K h (rt :: 'f runtime) = Some (c, rt') \<Longrightarrow> rt_ok rt \<Longrightarrow> forest (heap rt) \<Longrightarrow> K = HK_List \<or> K = HK_Dict \<Longrightarrow>
   heap_wf rt \<Longrightarrow> heap_wf rt'"
proof (induction n arbitrary: K h rt c rt')
  case (Suc n)
  from Suc.prems(2,4) show ?case
  proof (cases rule: find_object_cases [where h = h])
    case (hit obj)
    with Suc.prems(1) obtain cs rt1 where
      cs: "map_opt (clone_handle_value n (child_kind obj)) (child_handles obj) rt = Some (cs, rt1)"
      "stash_object (with_children obj cs) rt1 = (c, rt')"
      by (auto simp: clone_Suc [OF Suc.prems(4)] bind_eq_Some_conv split: prod.splits)
    have ck: "child_kind obj = HK_List \<or> child_kind obj = HK_Dict" by (cases obj rule: child_kind.cases) simp_all
    have rt1: "rt_ok rt1 \<and> forest (heap rt1) \<and> heap_wf rt1"
    proof (rule map_opt_invariant [OF cs(1)])
      fix h c and rt rt' :: "'f runtime" assume a: "clone_handle_value n (child_kind obj) h rt = Some (c, rt')" "rt_ok rt \<and> forest (heap rt) \<and> heap_wf rt"
      with clone_grows [OF a(1)] ck have "grows rt (child_kind obj) [c] rt'" by simp
      with Suc.IH [OF a(1)] a(2) ck show "rt_ok rt' \<and> forest (heap rt') \<and> heap_wf rt'" by (simp add: grows_def)
    qed (use Suc.prems in simp)
    have "wf_object obj" using Suc.prems(5) hit(1) by (auto simp: heap_wf_def ran_def)
    from wf_with_children [OF this map_opt_length [OF cs(1)]] stash_object_spec(4) [OF _ cs(2)] rt1
    show ?thesis using heap_wf_upd by blast
  next
    case (miss sub msg)
    with Suc.prems show ?thesis by (cases "h = 0") (auto simp: clone_Suc [OF Suc.prems(4)] heap_wf_def)
  qed
qed simp

subsection \<open>Every operation keeps the invariant\<close>

text \<open>What an operation may do: keep the invariant and the first error.\<close>

definition evolves :: "'f runtime \<Rightarrow> 'f runtime \<Rightarrow> bool" where
  "evolves rt rt' \<longleftrightarrow> keeps_error rt rt' \<and> (runtime_inv rt \<longrightarrow> runtime_inv rt')"

named_theorems evolve "operations that evolve the runtime"

lemma evolves_refl [evolve]: "evolves rt rt"
  by (simp add: evolves_def)

lemma evolves_trans: "evolves a b \<Longrightarrow> evolves b c \<Longrightarrow> evolves a c"
  by (auto simp: evolves_def intro: keeps_trans)

lemma evolves_once [evolve]: "evolves rt (set_runtime_error_once c m rt)"
proof -
  have "runtime_inv (set_runtime_error_once c m rt) \<longleftrightarrow> runtime_inv rt"
    by (simp add: runtime_inv_alt heap_wf_def)
  then show ?thesis by (simp add: evolves_def)
qed

lemma evolves_grows: "grows rt K cs rt' \<Longrightarrow> (heap_wf rt \<Longrightarrow> heap_wf rt') \<Longrightarrow> evolves rt rt'"
  by (auto simp: evolves_def grows_def runtime_inv_alt)

lemma evolves_clone:
  assumes "clone_handle_value n K h rt = Some (c, rt')" "K = HK_List \<or> K = HK_Dict" "runtime_inv rt"
  shows "evolves rt rt'" "runtime_inv rt'" "grows rt K [c] rt'"
proof -
  note ok = runtime_invD [OF assms(3)]
  show "grows rt K [c] rt'" by (rule clone_grows [OF assms(1) ok(1,2) assms(2)])
  then show "evolves rt rt'" using clone_wf [OF assms(1) ok(1,2) assms(2)] by (rule evolves_grows)
  then show "runtime_inv rt'" using assms(3) by (simp add: evolves_def)
qed

lemma evolves_stash:
  assumes "stash_object obj rt = (h, rt')" "child_handles obj = []" "wf_object obj"
  shows "evolves rt rt'"
proof (cases "runtime_inv rt")
  case True
  note ok = runtime_invD [OF True]
  have "grows rt (child_kind obj) (child_handles obj) rt" using grows_Nil [OF ok(1,2)] assms(2) by simp
  from stash_grows [OF this assms(1)] show ?thesis
    using heap_wf_upd [OF _ assms(3) stash_object_spec(4) [OF ok(1) assms(1)]] by (rule evolves_grows)
next
  case False
  have "keeps_error rt rt'"
    using keeps_stash(1) [of rt _ rt] keeps_stash(2) [of rt _ rt] assms(1) by (cases obj) (metis keeps_refl snd_conv stash_object.simps)+
  with False show ?thesis by (simp add: evolves_def)
qed

lemma evolves_stash_list [evolve]:
  "child_handles (OList l) = [] \<Longrightarrow> evolves rt (snd (stash_list l rt))"
  using evolves_stash [of "OList l" rt "fst (stash_list l rt)"] by simp

lemma evolves_stash_dict [evolve]:
  "child_handles (ODict d) = [] \<Longrightarrow> wf_object (ODict d) \<Longrightarrow> evolves rt (snd (stash_dict d rt))"
  using evolves_stash [of "ODict d" rt "fst (stash_dict d rt)"] by simp

lemma alive_upd:
  "heap rt h = Some old \<Longrightarrow> kind_of obj = kind_of old \<Longrightarrow> heap rt' = (heap rt)(h \<mapsto> obj) \<Longrightarrow> alive K rt' = alive K rt"
  by (auto simp: alive_def)

text \<open>Writing an object through its handle, when the heap stays a forest.\<close>

lemma heap_put:
  assumes "rt_ok rt" "heap rt h = Some old" "kind_of obj = kind_of old"
  shows "heap (put_object h obj rt) = (heap rt)(h \<mapsto> obj)" "rt_ok (put_object h obj rt)"
    "surplus K (put_object h obj rt) = surplus K rt"
proof -
  have r: "resolves_to rt h old" by (simp add: heap_resolves [OF assms(1)] assms(2))
  show p: "heap (put_object h obj rt) = (heap rt)(h \<mapsto> obj)"
    using put_object_live [OF assms(1) r assms(3)] by (auto simp: heap_def fun_eq_iff)
  show "rt_ok (put_object h obj rt)" by (rule put_object_ok [OF assms(1) r assms(3)])
  have "active K (put_object h obj rt) = active K rt" by (simp add: active_def put_object_def)
  then show "surplus K (put_object h obj rt) = surplus K rt"
    using alive_upd [OF assms(2,3) p, of K] by (simp add: surplus_def)
qed

lemma put_inv:
  assumes "runtime_inv rt" "heap rt h = Some old" "kind_of obj = kind_of old" "forest ((heap rt)(h \<mapsto> obj))" "wf_object obj"
  shows "runtime_inv (put_object h obj rt)"
  using heap_put [OF runtime_invD(1) [OF assms(1)] assms(2,3)] assms heap_wf_upd [OF runtime_invD(3) [OF assms(1)] assms(5)]
  by (simp add: runtime_inv_alt)

lemma forest_flat:
  assumes "forest m" "m h = Some old" "kind_of obj = kind_of old" "child_handles old = []" "child_handles obj = []"
  shows "forest (m(h \<mapsto> obj))" "roots (m(h \<mapsto> obj)) = roots m"
proof -
  obtain rank :: "int \<Rightarrow> nat" where r: "\<And>p obj c. m p = Some obj \<Longrightarrow> c \<in> set (children obj) \<Longrightarrow> rank c < rank p"
    using forest_rank [OF assms(1)] by blast
  have no: "children obj = []" "children old = []" using assms(4,5) by (simp_all add: children_def)
  show "forest (m(h \<mapsto> obj))"
  proof (rule forestI [where rank = rank])
    fix p o1 c assume p: "(m(h \<mapsto> obj)) p = Some o1" "c \<in> set (children o1)"
    then have "m p = Some o1" using no by (auto split: if_splits)
    from forestD(1) [OF assms(1) this p(2)] show "\<exists>child. (m(h \<mapsto> obj)) c = Some child \<and> kind_of child = child_kind o1"
      using assms(2,3) by auto
  qed (use no forestD [OF assms(1)] r in \<open>auto split: if_splits\<close>)
  have "unowned (m(h \<mapsto> obj)) c = unowned m c" for c
    using no assms(2) unfolding unowned_def by (metis empty_iff fun_upd_apply list.set(1) option.inject)
  then show "roots (m(h \<mapsto> obj)) = roots m" using assms(2) by (auto simp: roots_def)
qed

lemma evolves_put_flat:
  assumes "heap rt h = Some old" "kind_of obj = kind_of old" "child_handles old = []" "child_handles obj = []"
    "wf_object old \<Longrightarrow> wf_object obj"
  shows "evolves rt (put_object h obj rt)"
  unfolding evolves_def
  using put_inv [OF _ assms(1,2)] forest_flat(1) [OF runtime_invD(2) assms(1-4)] runtime_invD(4) [OF _ assms(1)] assms(5)
  by auto

subsection \<open>Flat operations\<close>

lemma elems_Some:
  "elems_bool l = Some xs \<longleftrightarrow> l = ListBool xs" "elems_i64 l = Some xs \<longleftrightarrow> l = ListI64 xs"
  "elems_f64 l = Some ys \<longleftrightarrow> l = ListF64 ys" "elems_string l = Some ss \<longleftrightarrow> l = ListString ss"
  "elems_list_handle l = Some hs \<longleftrightarrow> l = ListListHandle hs" "elems_dict_handle l = Some hs \<longleftrightarrow> l = ListDictHandle hs"
  by (cases l; auto)+

lemma storage_Some:
  "storage_bool d = Some s \<longleftrightarrow> d = DictBool s" "storage_i64 d = Some s \<longleftrightarrow> d = DictI64 s"
  "storage_f64 d = Some s1 \<longleftrightarrow> d = DictF64 s1" "storage_string d = Some s2 \<longleftrightarrow> d = DictString s2"
  "storage_list d = Some s3 \<longleftrightarrow> d = DictListHandle s3" "storage_dict d = Some s3 \<longleftrightarrow> d = DictDictHandle s3"
  by (cases d; auto)+

lemma as_list_base_evolves:
  "as_list_base h True rt = (r, rt') \<Longrightarrow> evolves rt rt' \<and> (case r of None \<Rightarrow> True | Some l \<Rightarrow> rt' = rt \<and> heap rt h = Some (OList l))"
  by (auto simp: as_list_base_def lookup_live heap_def evolve split: option.splits if_splits robj.splits prod.splits)

lemma as_dict_base_evolves:
  "as_dict_base h True rt = (r, rt') \<Longrightarrow> evolves rt rt' \<and> (case r of None \<Rightarrow> True | Some d \<Rightarrow> rt' = rt \<and> heap rt h = Some (ODict d))"
  by (auto simp: as_dict_base_def lookup_live heap_def evolve split: option.splits if_splits robj.splits prod.splits)

text \<open>Operations start by resolving their handle; a failure is the end of them.\<close>

lemma as_list_kind_SomeD:
  "as_list_kind nm e h True rt = (Some xs, rt') \<Longrightarrow> rt' = rt \<and> (\<exists>l. heap rt h = Some (OList l) \<and> e l = Some xs)"
  by (auto simp: as_list_kind_def dest: as_list_base_evolves split: prod.splits option.splits)

lemma as_list_kind_NoneD: "as_list_kind nm e h True rt = (None, rt') \<Longrightarrow> evolves rt rt'"
  by (auto simp: as_list_kind_def dest!: as_list_base_evolves intro: evolves_once split: prod.splits option.splits)

lemma as_dict_kind_SomeD:
  "as_dict_kind nm e h True rt = (Some s, rt') \<Longrightarrow> rt' = rt \<and> (\<exists>d. heap rt h = Some (ODict d) \<and> e d = Some s)"
  by (auto simp: as_dict_kind_def dest: as_dict_base_evolves split: prod.splits option.splits)

lemma as_dict_kind_NoneD: "as_dict_kind nm e h True rt = (None, rt') \<Longrightarrow> evolves rt rt'"
  by (auto simp: as_dict_kind_def dest!: as_dict_base_evolves intro: evolves_once split: prod.splits option.splits)

lemma as_list_base_D:
  "as_list_base h True rt = (Some l, rt') \<Longrightarrow> rt' = rt \<and> heap rt h = Some (OList l)"
  "as_list_base h True rt = (None, rt') \<Longrightarrow> evolves rt rt'"
  by (auto dest: as_list_base_evolves)

lemma as_dict_base_D:
  "as_dict_base h True rt = (Some d, rt') \<Longrightarrow> rt' = rt \<and> heap rt h = Some (ODict d)"
  "as_dict_base h True rt = (None, rt') \<Longrightarrow> evolves rt rt'"
  by (auto dest: as_dict_base_evolves)

lemmas resolve_dests = as_list_kind_SomeD as_list_kind_NoneD as_dict_kind_SomeD as_dict_kind_NoneD as_list_base_D as_dict_base_D

lemma check_list_index_D:
  "check_list_index n idx e rt = (True, rt') \<Longrightarrow> rt' = rt"
  "check_list_index n idx e rt = (False, rt') \<Longrightarrow> evolves rt rt'"
  by (auto simp: check_list_index_def Let_def evolve split: if_splits)

lemma evolves_put_list [evolve]:
  "heap rt h = Some (OList l) \<Longrightarrow> child_handles (OList l) = [] \<Longrightarrow> child_handles (OList l') = [] \<Longrightarrow>
   evolves rt (put_object h (OList l') rt)"
  by (erule evolves_put_flat) simp_all

lemma evolves_put_dict [evolve]:
  "heap rt h = Some (ODict d) \<Longrightarrow> child_handles (ODict d) = [] \<Longrightarrow> child_handles (ODict d') = [] \<Longrightarrow>
   (wf_object (ODict d) \<Longrightarrow> wf_object (ODict d')) \<Longrightarrow> evolves rt (put_object h (ODict d') rt)"
  by (erule evolves_put_flat) simp_all

lemmas list_op_defs = as_list_defs list_insert_value_def list_set_value_def

lemmas dict_op_defs = as_dict_bool_def as_dict_i64_def as_dict_f64_def as_dict_string_def as_dict_list_def as_dict_dict_def
  null_key_error_def missing_key_error_def

lemma evolves_news [evolve]:
  "evolves rt (snd (styio_list_new_bool rt))"
  "evolves rt (snd (styio_list_new_i64 rt))"
  "evolves rt (snd (styio_list_new_f64 rt))"
  "evolves rt (snd (styio_list_new_cstr rt))"
  "evolves rt (snd (styio_list_new_list rt))"
  "evolves rt (snd (styio_list_new_dict rt))"
  by (auto simp: styio_list_new_bool_def styio_list_new_i64_def styio_list_new_f64_def styio_list_new_cstr_def styio_list_new_list_def styio_list_new_dict_def
      intro: evolve)

lemma evolves_list_push [evolve]:
  "evolves rt (styio_list_push_bool h v rt)"
  "evolves rt (styio_list_push_i64 h v rt)"
  "evolves rt (styio_list_push_f64 h fv rt)"
  "evolves rt (styio_list_push_cstr h cv rt)"
  by (auto simp: styio_list_push_bool_def styio_list_push_i64_def styio_list_push_f64_def styio_list_push_cstr_def
      list_op_defs elems_Some dest!: resolve_dests intro!: evolve split: prod.split option.split bool.split)

lemma evolves_list_insert [evolve]:
  "evolves rt (styio_list_insert_bool h idx v rt)"
  "evolves rt (styio_list_insert_i64 h idx v rt)"
  "evolves rt (styio_list_insert_f64 h idx fv rt)"
  "evolves rt (styio_list_insert_cstr h idx cv rt)"
  by (auto simp: styio_list_insert_bool_def styio_list_insert_i64_def styio_list_insert_f64_def styio_list_insert_cstr_def
      list_op_defs elems_Some dest!: resolve_dests check_list_index_D intro!: evolve split: prod.split option.split bool.split)

lemma evolves_list_get [evolve]:
  "evolves rt (snd (styio_list_get_bool h idx rt))"
  "evolves rt (snd (styio_list_get h idx rt))"
  "evolves rt (snd (styio_list_get_cstr h idx rt))"
  by (auto simp: styio_list_get_bool_def styio_list_get_def styio_list_get_f64_def styio_list_get_cstr_def
      list_op_defs elems_Some dest!: resolve_dests check_list_index_D intro!: evolve split: prod.split option.split bool.split)

lemma evolves_list_get_f64 [evolve]:
  "evolves rt (snd (styio_list_get_f64 h idx rt))"
  by (auto simp: styio_list_get_bool_def styio_list_get_def styio_list_get_f64_def styio_list_get_cstr_def
      list_op_defs elems_Some dest!: resolve_dests check_list_index_D intro!: evolve split: prod.split option.split bool.split)

lemma evolves_list_set [evolve]:
  "evolves rt (styio_list_set_bool h idx v rt)"
  "evolves rt (styio_list_set h idx v rt)"
  "evolves rt (styio_list_set_f64 h idx fv rt)"
  "evolves rt (styio_list_set_cstr h idx cv rt)"
  by (auto simp: styio_list_set_bool_def styio_list_set_def styio_list_set_f64_def styio_list_set_cstr_def
      list_op_defs elems_Some dest!: resolve_dests check_list_index_D intro!: evolve split: prod.split option.split bool.split)

lemma evolves_list_rest [evolve]:
  "evolves rt (snd (styio_list_len h rt))"
  "evolves rt (snd (styio_string_lines s rt))"
  "evolves rt (snd (styio_list_i64_read_stdin input rt))"
  by (auto simp: styio_list_len_def styio_string_lines_def styio_list_i64_read_stdin_def
      dest!: resolve_dests intro!: evolve split: prod.split option.split bool.split)

lemma evolves_dict_news [evolve]:
  "evolves rt (snd (styio_dict_new_bool rt))"
  "evolves rt (snd (styio_dict_new_i64 rt))"
  "evolves rt (snd (styio_dict_new_f64 rt))"
  "evolves rt (snd (styio_dict_new_cstr rt))"
  "evolves rt (snd (styio_dict_new_list rt))"
  "evolves rt (snd (styio_dict_new_dict rt))"
  by (auto simp: styio_dict_new_bool_def styio_dict_new_i64_def styio_dict_new_f64_def styio_dict_new_cstr_def styio_dict_new_list_def styio_dict_new_dict_def
      make_dict_storage_def dict_values_def intro!: evolve dict_inv_new)

lemma evolves_dict_get [evolve]:
  "evolves rt (snd (styio_dict_get_bool h key rt))"
  "evolves rt (snd (styio_dict_get_i64 h key rt))"
  "evolves rt (snd (styio_dict_get_cstr h key rt))"
  by (auto simp: styio_dict_get_bool_def styio_dict_get_i64_def styio_dict_get_f64_def styio_dict_get_cstr_def
      dict_op_defs storage_Some dest!: resolve_dests intro!: evolve split: prod.split option.split bool.split)

lemma evolves_dict_get_f64 [evolve]:
  "evolves rt (snd (styio_dict_get_f64 h key rt))"
  by (auto simp: styio_dict_get_bool_def styio_dict_get_i64_def styio_dict_get_f64_def styio_dict_get_cstr_def
      dict_op_defs storage_Some dest!: resolve_dests intro!: evolve split: prod.split option.split bool.split)

lemma evolves_dict_set [evolve]:
  "evolves rt (styio_dict_set_bool h key v rt)"
  "evolves rt (styio_dict_set_i64 h key v rt)"
  "evolves rt (styio_dict_set_f64 h key fv rt)"
  "evolves rt (styio_dict_set_cstr h key cv rt)"
  by (auto simp: styio_dict_set_bool_def styio_dict_set_i64_def styio_dict_set_f64_def styio_dict_set_cstr_def
      dict_op_defs storage_Some dest!: resolve_dests intro!: evolve dict_inv_set split: prod.split option.split bool.split)

lemma evolves_dict_values [evolve]:
  "evolves rt (snd (styio_dict_values_bool h rt))"
  "evolves rt (snd (styio_dict_values_i64 h rt))"
  "evolves rt (snd (styio_dict_values_f64 h rt))"
  "evolves rt (snd (styio_dict_values_cstr h rt))"
  by (auto simp: styio_dict_values_bool_def styio_dict_values_i64_def styio_dict_values_f64_def styio_dict_values_cstr_def
      dict_op_defs storage_Some dest!: resolve_dests intro!: evolve split: prod.split option.split bool.split)

lemma evolves_dict_rest [evolve]:
  "evolves rt (snd (styio_dict_len h rt))"
  "evolves rt (snd (styio_dict_keys h rt))"
  by (auto simp: styio_dict_len_def styio_dict_keys_def
      dest!: resolve_dests intro!: evolve split: prod.split option.split bool.split)

subsection \<open>Operations on nested containers\<close>

text \<open>Storing one more handle in an owned container, possibly dropping others.\<close>

lemma unowned_0 [simp]: "unowned m 0"
  by (simp add: unowned_def children_def)

lemma distinct_submset:
  assumes "mset ys \<subseteq># mset xs" "distinct xs"
  shows "distinct ys"
proof -
  have "count (mset ys) a = (if a \<in> set ys then 1 else 0)" for a
  proof -
    have "count (mset ys) a \<le> count (mset xs) a" by (rule mset_subset_eq_count [OF assms(1)])
    also have "\<dots> = (if a \<in> set xs then 1 else 0)"
      by (rule assms(2) [unfolded distinct_count_atmost_1, rule_format])
    also have "\<dots> \<le> 1" by simp
    finally have "count (mset ys) a \<le> 1" .
    moreover have "count (mset ys) a = 0 \<longleftrightarrow> a \<notin> set ys" by (rule count_mset_0_iff)
    ultimately show ?thesis by (metis One_nat_def le_SucE le_zero_eq)
  qed
  then show ?thesis unfolding distinct_count_atmost_1 by (intro allI)
qed

lemma distinct_nonzero_sub:
  assumes "mset cs \<subseteq># add_mset c (mset hs)" "distinct (filter (\<lambda>x. x \<noteq> (0 :: int)) hs)" "c \<noteq> 0 \<Longrightarrow> c \<notin> set hs"
  shows "distinct (filter (\<lambda>x. x \<noteq> 0) cs)"
proof -
  have "mset (filter (\<lambda>x. x \<noteq> 0) cs) \<subseteq># mset (filter (\<lambda>x. x \<noteq> 0) (c # hs))"
    using multiset_filter_mono [OF assms(1), of "\<lambda>x. x \<noteq> 0"] by (cases "c = 0") simp_all
  moreover have "distinct (filter (\<lambda>x. x \<noteq> 0) (c # hs))" using assms(2,3) by simp
  ultimately show ?thesis by (rule distinct_submset)
qed

lemma nested_put:
  assumes inv: "runtime_inv rt" and old: "heap rt h = Some old" "unowned (heap rt) h"
    and k: "kind_of obj = kind_of old" "child_kind obj = child_kind old" "wf_object obj"
    and sub: "mset (child_handles obj) \<subseteq># add_mset c (mset (child_handles old))"
    and c: "c \<noteq> 0 \<Longrightarrow> c \<in> roots (heap rt) \<and> c \<noteq> h \<and> (\<exists>o1. heap rt c = Some o1 \<and> kind_of o1 = child_kind old)"
  shows "runtime_inv (put_object h obj rt)" "heap (put_object h obj rt) = (heap rt)(h \<mapsto> obj)"
    "roots (heap (put_object h obj rt)) = roots (heap rt) \<union> set (children old) - set (children obj)"
proof -
  note f = runtime_invD(2) [OF inv]
  have cold: "c \<notin> set (child_handles old)" if "c \<noteq> 0"
    using c [OF that] old(1) that by (auto simp: roots_def unowned_def children_def)
  have d: "distinct (children obj)"
    unfolding children_def by (rule distinct_nonzero_sub [OF sub _ cold]) (use forestD(2) [OF f old(1)] in \<open>simp add: children_def\<close>)
  have mem: "x = c \<or> x \<in> set (children old)" "x \<noteq> 0" if "x \<in> set (children obj)" for x
    using that set_mset_mono [OF sub] by (auto simp: children_def)
  have "h \<notin> set (children obj)"
    using mem [of h] old c by (auto simp: unowned_def)
  moreover have ch: "(unowned (heap rt) x \<or> x \<in> set (children old)) \<and> (\<exists>child. heap rt x = Some child \<and> kind_of child = child_kind obj)"
    if "x \<in> set (children obj)" for x
    using mem [OF that] c forestD(1) [OF f old(1), of x] by (auto simp: k roots_def)
  ultimately have fu: "forest ((heap rt)(h \<mapsto> obj))" "roots ((heap rt)(h \<mapsto> obj)) = roots (heap rt) \<union> set (children old) - set (children obj)"
    using forest_update [OF f old d] by blast+
  show "runtime_inv (put_object h obj rt)" by (rule put_inv [OF inv old(1) k(1) fu(1) k(3)])
  show p: "heap (put_object h obj rt) = (heap rt)(h \<mapsto> obj)" by (rule heap_put [OF runtime_invD(1) [OF inv] old(1) k(1)])
  show "roots (heap (put_object h obj rt)) = roots (heap rt) \<union> set (children old) - set (children obj)"
    using fu(2) by (simp add: p)
qed

text \<open>What a clone offers to be stored.\<close>

lemma clone_offers:
  assumes "runtime_inv rt" "clone_handle_value n K v rt = Some (c, rt')" "K = HK_List \<or> K = HK_Dict"
    "heap rt h = Some old" "unowned (heap rt) h" "child_kind old = K"
  shows "runtime_inv rt'" "evolves rt rt'" "heap rt' h = Some old" "unowned (heap rt') h" "heap rt \<subseteq>\<^sub>m heap rt'"
    "c \<noteq> 0 \<Longrightarrow> c \<in> roots (heap rt') \<and> c \<noteq> h \<and> (\<exists>o1. heap rt' c = Some o1 \<and> kind_of o1 = child_kind old)"
proof -
  note e = evolves_clone [OF assms(2,3,1)]
  show "runtime_inv rt'" "evolves rt rt'" using e by simp_all
  show le: "heap rt \<subseteq>\<^sub>m heap rt'" using e(3) by (simp add: grows_def)
  show "heap rt' h = Some old" by (rule map_leD [OF le assms(4)])
  have "h \<in> roots (heap rt)" using assms(4,5) by (auto simp: roots_def)
  then have "h \<in> roots (heap rt')" using e(3) by (simp add: grows_def)
  then show "unowned (heap rt') h" by (simp add: roots_def)
  assume "c \<noteq> 0"
  with e(3) have "c \<in> roots (heap rt')" "heap rt c = None" "\<exists>o1. heap rt' c = Some o1 \<and> kind_of o1 = K"
    by (auto simp: grows_def)
  with assms(4,6) show "c \<in> roots (heap rt') \<and> c \<noteq> h \<and> (\<exists>o1. heap rt' c = Some o1 \<and> kind_of o1 = child_kind old)" by auto
qed

lemma evolvesI: "keeps_error rt rt' \<Longrightarrow> runtime_inv rt' \<Longrightarrow> evolves rt rt'"
  by (simp add: evolves_def)

lemma keeps_evolves: "evolves rt rt' \<Longrightarrow> keeps_error rt rt'"
  by (simp add: evolves_def)

lemma evolves_push_nested:
  assumes "runtime_inv rt" "unowned (heap rt) h"
  shows "styio_list_push_list fuel h v rt = Some rt' \<Longrightarrow> evolves rt rt'"
    "styio_list_push_dict fuel h v rt = Some rt' \<Longrightarrow> evolves rt rt'"
proof -
  have main: "evolves rt (put_object h (OList (mk (xs @ [c]))) rt1)"
    if "heap rt h = Some (OList (mk xs))" "clone_handle_value fuel (child_kind (OList (mk xs))) v rt = Some (c, rt1)"
      "mk = ListListHandle \<or> mk = ListDictHandle" for mk xs c rt1
  proof -
    from that(3) have K: "child_kind (OList (mk xs)) = HK_List \<or> child_kind (OList (mk xs)) = HK_Dict" by auto
    note o = clone_offers [OF assms(1) that(2) K that(1) assms(2) refl]
    have "runtime_inv (put_object h (OList (mk (xs @ [c]))) rt1)"
      by (rule nested_put(1) [OF o(1,3,4) _ _ _ _ o(6)]) (use that(3) in auto)
    then show ?thesis using keeps_evolves [OF o(2)] by (intro evolvesI) simp_all
  qed
  show "styio_list_push_list fuel h v rt = Some rt' \<Longrightarrow> evolves rt rt'"
    using main [of ListListHandle]
    by (auto simp: styio_list_push_list_def list_op_defs elems_Some bind_eq_Some_conv dest!: resolve_dests split: prod.splits option.splits)
  show "styio_list_push_dict fuel h v rt = Some rt' \<Longrightarrow> evolves rt rt'"
    using main [of ListDictHandle]
    by (auto simp: styio_list_push_dict_def list_op_defs elems_Some bind_eq_Some_conv dest!: resolve_dests split: prod.splits option.splits)
qed

lemma evolves_insert_nested:
  assumes "runtime_inv rt" "unowned (heap rt) h"
  shows "styio_list_insert_list fuel h idx v rt = Some rt' \<Longrightarrow> evolves rt rt'"
    "styio_list_insert_dict fuel h idx v rt = Some rt' \<Longrightarrow> evolves rt rt'"
proof -
  have main: "evolves rt (put_object h (OList (mk (insert_at i c xs))) rt1)"
    if "heap rt h = Some (OList (mk xs))" "clone_handle_value fuel (child_kind (OList (mk xs))) v rt = Some (c, rt1)"
      "mk = ListListHandle \<or> mk = ListDictHandle" for mk xs i c rt1
  proof -
    from that(3) have K: "child_kind (OList (mk xs)) = HK_List \<or> child_kind (OList (mk xs)) = HK_Dict" by auto
    note o = clone_offers [OF assms(1) that(2) K that(1) assms(2) refl]
    have "mset (insert_at i c xs) = add_mset c (mset xs)"
      by (metis append_take_drop_id insert_at_def mset_append mset.simps(2) union_mset_add_mset_right)
    then have "runtime_inv (put_object h (OList (mk (insert_at i c xs))) rt1)"
      by (intro nested_put(1) [OF o(1,3,4) _ _ _ _ o(6)]) (use that(3) in auto)
    then show ?thesis using keeps_evolves [OF o(2)] by (intro evolvesI) simp_all
  qed
  show "styio_list_insert_list fuel h idx v rt = Some rt' \<Longrightarrow> evolves rt rt'"
    using main [of ListListHandle]
    by (auto simp: styio_list_insert_list_def list_op_defs elems_Some bind_eq_Some_conv
        dest!: resolve_dests check_list_index_D split: prod.splits option.splits bool.splits)
  show "styio_list_insert_dict fuel h idx v rt = Some rt' \<Longrightarrow> evolves rt rt'"
    using main [of ListDictHandle]
    by (auto simp: styio_list_insert_dict_def list_op_defs elems_Some bind_eq_Some_conv
        dest!: resolve_dests check_list_index_D split: prod.splits option.splits bool.splits)
qed

text \<open>Releasing a root.\<close>

lemma keeps_closes: "closes rt rt' \<Longrightarrow> keeps_error rt rt'"
  by (simp add: closes_def keeps_error_def)

lemma release_inv:
  assumes "runtime_inv rt" "unowned (heap rt) h" "K = HK_List \<or> K = HK_Dict" "table_size (rt_table rt) \<le> n"
  obtains rt' where "release_with (close_object n) K h rt = Some rt'" "evolves rt rt'" "runtime_inv rt'"
    "frees rt {h} rt' \<or> rt' = rt \<and> (\<forall>obj. heap rt h = Some obj \<longrightarrow> kind_of obj \<noteq> K)"
proof -
  note ok = runtime_invD [OF assms(1)]
  have K: "K \<noteq> HK_Unknown" using assms(3) by auto
  have "card (dom (heap rt)) \<le> n" using heap_card_le_size [OF ok(1)] assms(4) by simp
  from release_with_spec [OF ok(1) this K, of h] obtain rt' where
    rt': "release_with (close_object n) K h rt = Some rt'" "closes rt rt'"
    "(\<forall>K\<in>{HK_List, HK_Dict}. 0 \<le> surplus K rt) \<longrightarrow> (\<forall>K\<in>{HK_List, HK_Dict}. surplus K rt' = surplus K rt)" by auto
  from release_frees [OF ok(1,2) assms(2) K rt'(1)] have f: "frees rt {h} rt' \<or> rt' = rt \<and> (\<forall>obj. heap rt h = Some obj \<longrightarrow> kind_of obj \<noteq> K)" .
  have "forest (heap rt')" using f ok(2) by (auto simp: frees_def)
  moreover have "heap_wf rt'" using heap_wf_le [OF ok(3)] rt'(2) by (simp add: closes_def)
  ultimately have "runtime_inv rt'"
    using rt'(2,3) assms(1) by (simp add: runtime_inv_alt closes_def)
  with that rt'(1) f keeps_closes [OF rt'(2)] evolvesI show thesis by blast
qed

lemma evolves_release:
  assumes "runtime_inv rt" "unowned (heap rt) h"
  shows "styio_list_release h rt = Some rt' \<Longrightarrow> evolves rt rt'" "styio_dict_release h rt = Some rt' \<Longrightarrow> evolves rt rt'"
  using release_inv [OF assms, of HK_List "close_fuel rt"] release_inv [OF assms, of HK_Dict "close_fuel rt"]
  by (auto simp: styio_list_release_def styio_dict_release_def close_fuel_def)

text \<open>Closing an object does not look at a handle that survives, so writing there commutes with it.\<close>

lemma put_object_simps:
  "put_object h o1 (rt \<lparr> rt_table := t \<rparr>) = rt \<lparr> rt_table := store_object h o1 t \<rparr>"
  "put_object h o1 (dec_active K rt) = dec_active K (put_object h o1 rt)"
  "rt_table (put_object h o1 rt) = store_object h o1 (rt_table rt)"
  by (simp_all add: put_object_def dec_active_def)

lemma in_range_store [simp]: "in_range (store_object h o1 t) h' = in_range t h'"
  by (simp add: in_range_def store_object_def)

lemma store_store: "store_object h a (store_object h b t) = store_object h a t"
  by (auto simp: store_object_def in_range_def)

lemma put_put: "put_object h a (put_object h b rt) = put_object h a rt"
  by (simp add: put_object_def store_store)

lemma heap_in_range: "heap rt h = Some obj \<Longrightarrow> in_range (rt_table rt) h"
  by (auto simp: heap_def live_entry entry_for_in_range split: if_splits)

lemma put_same: "heap rt h = Some obj \<Longrightarrow> put_object h obj rt = rt"
proof -
  assume h: "heap rt h = Some obj"
  let ?t = "rt_table rt" and ?i = "nat (h - 1)"
  from h have r: "in_range ?t h" and p: "e_ptr (entries ?t ! ?i) = Some obj"
    by (auto simp: heap_def live_entry entry_for_in_range split: if_splits)
  have "(entries ?t ! ?i) \<lparr> e_ptr := Some obj \<rparr> = entries ?t ! ?i" using p by (simp add: entry.equality)
  then have "store_object h obj ?t = ?t" by (simp add: store_object_def)
  then show ?thesis by (simp add: put_object_def)
qed

lemma release_store:
  assumes "c \<noteq> h" "in_range t h"
  shows "release c K (store_object h o1 t) = (case release c K t of (b, raw, t') \<Rightarrow> (b, raw, store_object h o1 t'))"
proof -
  have e: "entry_for (store_object h o1 t) c = entry_for t c" using store_entry [OF assms(2)] assms(1) by simp
  have "recycle_handle c (store_object h o1 t) = store_object h o1 (recycle_handle c t)"
  proof (cases "\<exists>e. entry_for t c = Some e \<and> occupied e")
    case True
    then have r: "in_range t c" by (auto simp: entry_for_in_range split: if_splits)
    have i: "nat (c - 1) \<noteq> nat (h - 1)" using r assms by (auto simp: in_range_def)
    with True r show ?thesis using e assms(2)
      by (auto simp: recycle_handle_def store_object_def in_range_def list_update_swap)
  next
    case False
    then show ?thesis using e by (auto simp: recycle_handle_def split: option.split)
  qed
  then show ?thesis by (auto simp: release_def e split: option.split)
qed

lemma put_table: "put_object h o1 rt \<lparr> rt_table := t \<rparr> = rt \<lparr> rt_table := t \<rparr>"
    "rt \<lparr> rt_table := store_object h o1 (rt_table rt) \<rparr> = put_object h o1 rt"
  by (simp_all add: put_object_def)

lemma fold_put:
  assumes step: "\<And>obj (rt :: 'f runtime) rt'. close_object n obj rt = Some rt' \<Longrightarrow> rt_ok rt \<Longrightarrow> card (dom (heap rt)) < n \<Longrightarrow> heap rt' h \<noteq> None \<Longrightarrow>
      (\<And>obj. heap rt h = Some obj \<Longrightarrow> kind_of obj = kind_of o1) \<Longrightarrow> close_object n obj (put_object h o1 rt) = Some (put_object h o1 rt')"
    and "fold_opt (release_with (close_object n) K) hs (rt :: 'f runtime) = Some rt'" "rt_ok rt" "card (dom (heap rt)) \<le> n" "heap rt' h \<noteq> None"
    and K: "K \<noteq> HK_Unknown" and kind: "\<And>obj. heap rt h = Some obj \<Longrightarrow> kind_of obj = kind_of o1"
  shows "fold_opt (release_with (close_object n) K) hs (put_object h o1 rt) = Some (put_object h o1 rt')"
  using assms(2,3,4,5) kind
proof (induction hs arbitrary: rt)
  case (Cons c hs)
  from close_fold_spec [OF close_object_spec Cons.prems(2,3) K, of "c # hs"] Cons.prems(1) have cl: "closes rt rt'" by simp
  then have alive: "heap rt h = heap rt' h"
    using Cons.prems(4) map_leD [of "heap rt'" "heap rt" h] by (cases "heap rt' h") (auto simp: closes_def)
  have r: "in_range (rt_table rt) h" using alive Cons.prems(4) heap_in_range by fastforce
  from Cons.prems(2) K show ?case
  proof (cases rule: release_with_cases [where h = c and cl = "close_object n"])
    case (hit obj t)
    let ?rt1 = "rt \<lparr> rt_table := t \<rparr>"
    have "card (dom (heap ?rt1)) = card (dom (heap rt) - {c})" by (simp add: hit(5))
    also have "\<dots> < card (dom (heap rt))" using hit(1) by (intro card_Diff1_less) auto
    finally have small: "card (dom (heap ?rt1)) < n" using Cons.prems(3) by simp
    from Cons.prems(1) hit(3) obtain rt2 where rt2: "close_object n obj ?rt1 = Some rt2"
      "fold_opt (release_with (close_object n) K) hs rt2 = Some rt'" by (auto split: option.splits)
    from close_object_spec [OF hit(4) small, of obj] rt2(1) have c2: "closes ?rt1 rt2" by auto
    then have ok2: "rt_ok rt2" "card (dom (heap rt2)) \<le> n" using closes_card [OF c2] small by (auto simp: closes_def)
    from close_fold_spec [OF close_object_spec ok2 K, of hs] rt2(2) have c3: "closes rt2 rt'" by auto
    have a2: "heap rt2 h = heap rt h"
      using Cons.prems(4) alive map_leD [of "heap rt'" "heap rt2" h] c3 by (cases "heap rt' h") (auto simp: closes_def)
    have a1: "heap ?rt1 h = heap rt h"
      using Cons.prems(4) alive a2 map_leD [of "heap rt2" "heap ?rt1" h] c2 by (cases "heap rt2 h") (auto simp: closes_def)
    then have ne: "c \<noteq> h" using Cons.prems(4) alive by (auto simp: hit(5))
    have "in_range (rt_table rt) h" by (rule r)
    then have "release_with (close_object n) K c (put_object h o1 rt) = close_object n obj (put_object h o1 ?rt1)"
      by (simp add: release_with_def put_object_simps release_store [OF ne] hit(6) put_table)
    also have "\<dots> = Some (put_object h o1 rt2)"
      by (rule step [OF rt2(1) hit(4) small]) (use a2 a1 alive Cons.prems(4,5) in simp_all)
    finally show ?thesis
      using Cons.IH [OF rt2(2) ok2 Cons.prems(4)] Cons.prems(5) a2 by simp
  next
    case miss
    have "release_with (close_object n) K c (put_object h o1 rt) = Some (put_object h o1 rt)"
    proof (cases "c = h")
      case False
      from release_store [OF False r] show ?thesis
        by (simp add: release_with_def put_object_simps miss(3) put_table)
    next
      case True
      obtain old where old: "heap rt h = Some old" using alive Cons.prems(4) by auto
      with Cons.prems(5) have k: "kind_of o1 = kind_of old" by simp
      have "rt_ok (put_object h o1 rt)" "heap (put_object h o1 rt) h = Some o1"
        using heap_put [OF Cons.prems(2) old k] by simp_all
      from this(1) K this(2) show ?thesis
        using miss(1) old k True by (cases rule: release_with_cases [where h = h and cl = "close_object n"]) auto
    qed
    with Cons.IH [OF _ Cons.prems(2,3,4)] Cons.prems(1,5) miss(2) show ?thesis by simp
  qed
qed simp

lemma close_put:
  assumes "close_object n obj (rt :: 'f runtime) = Some rt'" "rt_ok rt" "card (dom (heap rt)) < n" "heap rt' h \<noteq> None"
    "\<And>obj. heap rt h = Some obj \<Longrightarrow> kind_of obj = kind_of o1"
  shows "close_object n obj (put_object h o1 rt) = Some (put_object h o1 rt')"
  using assms
proof (induction n arbitrary: obj rt rt')
  case (Suc n)
  from Suc.prems(1) obtain rt1 where rt1:
    "fold_opt (release_with (close_object n) (child_kind obj)) (child_handles obj) rt = Some rt1"
    "rt' = dec_active (kind_of obj) rt1" by (auto simp: close_object_Suc)
  have "fold_opt (release_with (close_object n) (child_kind obj)) (child_handles obj) (put_object h o1 rt) = Some (put_object h o1 rt1)"
    by (rule fold_put [OF Suc.IH rt1(1) Suc.prems(2)]) (use Suc.prems(3,4,5) rt1(2) in auto)
  with rt1(2) show ?case by (simp add: close_object_Suc put_object_simps)
qed simp

lemma release_put:
  assumes "release_with (close_object n) K x rt = Some rt'" "rt_ok rt" "card (dom (heap rt)) \<le> n" "heap rt' h \<noteq> None"
    "K \<noteq> HK_Unknown" "\<And>obj. heap rt h = Some obj \<Longrightarrow> kind_of obj = kind_of o1"
  shows "release_with (close_object n) K x (put_object h o1 rt) = Some (put_object h o1 rt')"
proof -
  have "fold_opt (release_with (close_object n) K) [x] (put_object h o1 rt) = Some (put_object h o1 rt')"
    by (rule fold_put [OF close_put _ assms(2-5)]) (use assms(1,6) in \<open>auto split: option.splits\<close>)
  then show ?thesis by (auto split: option.splits)
qed

lemma table_size_put [simp]: "table_size (rt_table (put_object h obj rt)) = table_size (rt_table rt)"
proof -
  have "map occupied (entries (rt_table (put_object h obj rt))) = map occupied (entries (rt_table rt))"
    by (auto simp: put_object_def store_object_def occupied_def in_range_def intro!: nth_equalityI) (auto simp: nth_list_update split: if_splits)
  then have "length (filter id (map occupied (entries (rt_table (put_object h obj rt))))) = length (filter id (map occupied (entries (rt_table rt))))"
    by simp
  then show ?thesis by (simp add: table_size_def filter_map comp_def)
qed

text \<open>A handle dropped by an update becomes a root.\<close>

lemma nested_drop:
  assumes inv: "runtime_inv rt" and old: "heap rt h = Some old" "unowned (heap rt) h"
    and k: "kind_of obj = kind_of old" "child_kind obj = child_kind old" "wf_object obj"
    and sub: "mset (child_handles obj) + {#x#} \<subseteq># add_mset c (mset (child_handles old))"
    and c: "c \<noteq> 0 \<Longrightarrow> c \<in> roots (heap rt) \<and> c \<noteq> h \<and> (\<exists>o1. heap rt c = Some o1 \<and> kind_of o1 = child_kind old)"
    and x: "x \<in> set (child_handles old)"
  shows "runtime_inv (put_object h obj rt)" "heap (put_object h obj rt) = (heap rt)(h \<mapsto> obj)" "x \<noteq> h"
    "unowned (heap (put_object h obj rt)) x" "h \<in> roots (heap (put_object h obj rt))"
proof -
  let ?p = "put_object h obj rt"
  have sub': "mset (child_handles obj) \<subseteq># add_mset c (mset (child_handles old))"
    by (rule subset_mset.order_trans [OF _ sub]) simp
  show "runtime_inv ?p" "heap ?p = (heap rt)(h \<mapsto> obj)"
    by (rule nested_put [OF inv old k sub']; use c in blast)+
  have r: "roots (heap ?p) = roots (heap rt) \<union> set (children old) - set (children obj)"
    by (rule nested_put [OF inv old k sub']) (use c in blast)
  have "h \<noteq> 0" using old(1) by (intro notI) simp
  then show "x \<noteq> h" using x old by (auto simp: unowned_def children_def)
  have "h \<notin> set (children obj)"
    using set_mset_mono [OF sub'] old c by (auto simp: unowned_def children_def)
  then show "h \<in> roots (heap ?p)" using r old by (auto simp: roots_def)
  show "unowned (heap ?p) x"
  proof (cases "x = 0")
    case False
    have "distinct (filter (\<lambda>y. y \<noteq> 0) (x # child_handles obj))"
    proof (rule distinct_nonzero_sub)
      show "mset (x # child_handles obj) \<subseteq># add_mset c (mset (child_handles old))" using sub by simp
      show "distinct (filter (\<lambda>y. y \<noteq> 0) (child_handles old))"
        using forestD(2) [OF runtime_invD(2) [OF inv] old(1)] by (simp add: children_def)
      show "c \<notin> set (child_handles old)" if "c \<noteq> 0"
        using c [OF that] old(1) that by (auto simp: roots_def unowned_def children_def)
    qed
    with False have "x \<notin> set (children obj)" by (simp add: children_def)
    with False x r have "x \<in> roots (heap ?p)" by (simp add: children_def)
    then show ?thesis by (simp add: roots_def)
  qed simp
qed

text \<open>Replacing an owned handle: the code closes the old one while its slot still names it, which
  is the same as storing first and closing afterwards.\<close>

lemma replace_nested:
  assumes inv: "runtime_inv rt" and old: "heap rt h = Some old" "unowned (heap rt) h"
    and k: "kind_of obj = kind_of old" "child_kind obj = child_kind old" "wf_object obj"
    and sub: "mset (child_handles obj) + {#x#} \<subseteq># add_mset c (mset (child_handles old))"
    and c: "c \<noteq> 0 \<Longrightarrow> c \<in> roots (heap rt) \<and> c \<noteq> h \<and> (\<exists>o1. heap rt c = Some o1 \<and> kind_of o1 = child_kind old)"
    and x: "x \<in> set (child_handles old)" and K: "K = HK_List \<or> K = HK_Dict" and n: "table_size (rt_table rt) \<le> n"
    and rel: "release_with (close_object n) K x rt = Some rt2"
  shows "evolves rt (put_object h obj rt2)"
proof -
  let ?p = "put_object h obj rt"
  have p: "runtime_inv ?p" "heap ?p = (heap rt)(h \<mapsto> obj)" "x \<noteq> h" "unowned (heap ?p) x" "h \<in> roots (heap ?p)"
    by (rule nested_drop [OF inv old k sub _ x]; use c in blast)+
  have n': "table_size (rt_table ?p) \<le> n" using n by simp
  from release_inv [OF p(1,4) K n'] obtain rt3 where rt3: "release_with (close_object n) K x ?p = Some rt3"
    "evolves ?p rt3" "runtime_inv rt3" "frees ?p {x} rt3 \<or> rt3 = ?p \<and> (\<forall>obj. heap ?p x = Some obj \<longrightarrow> kind_of obj \<noteq> K)" .
  have here: "heap rt3 h = Some obj"
    using rt3(4) p(2,3,5) by (auto simp: frees_def)
  have "release_with (close_object n) K x (put_object h old ?p) = Some (put_object h old rt3)"
  proof (rule release_put [OF rt3(1)])
    show "rt_ok ?p" by (rule runtime_invD(1) [OF p(1)])
    then show "card (dom (heap ?p)) \<le> n" using heap_card_le_size n' order_trans by blast
  qed (use here K k(1) p(2) in auto)
  then have "rt2 = put_object h old rt3" using rel by (simp add: put_put put_same [OF old(1)])
  then have "put_object h obj rt2 = rt3" by (simp add: put_put put_same [OF here])
  moreover have "keeps_error rt rt3" using keeps_evolves [OF rt3(2)] by (simp add: keeps_error_def put_object_def)
  ultimately show ?thesis using rt3(3) by (simp add: evolvesI)
qed

lemma evolves_set_nested:
  assumes "runtime_inv rt" "unowned (heap rt) h"
  shows "styio_list_set_list fuel h idx v rt = Some rt' \<Longrightarrow> evolves rt rt'"
    "styio_list_set_dict fuel h idx v rt = Some rt' \<Longrightarrow> evolves rt rt'"
proof -
  have main: "evolves rt (put_object h (OList (mk (xs[i := c]))) rt2)"
    if "heap rt h = Some (OList (mk xs))" "clone_handle_value fuel K v rt = Some (c, rt1)"
      "release_with (close_object (close_fuel rt1)) K (xs ! i) rt1 = Some rt2" "i < length xs"
      "mk = ListListHandle \<and> K = HK_List \<or> mk = ListDictHandle \<and> K = HK_Dict" for mk xs i c rt1 rt2 K
  proof -
    from that(5) have K: "K = HK_List \<or> K = HK_Dict" "child_kind (OList (mk xs)) = K" by auto
    note o = clone_offers [OF assms(1) that(2) K(1) that(1) assms(2) K(2)]
    have "mset (xs[i := c]) + {#xs ! i#} = add_mset c (mset xs)"
      using that(4) by (simp add: mset_update)
    then have "evolves rt1 (put_object h (OList (mk (xs[i := c]))) rt2)"
      by (intro replace_nested [OF o(1,3,4) _ _ _ _ o(6) _ K(1) _ that(3)]) (use that(4,5) in \<open>auto simp: close_fuel_def\<close>)
    then show ?thesis by (rule evolves_trans [OF o(2)])
  qed
  show "styio_list_set_list fuel h idx v rt = Some rt' \<Longrightarrow> evolves rt rt'"
    using main [of ListListHandle _ HK_List]
    by (auto simp: styio_list_set_list_def list_op_defs elems_Some bind_eq_Some_conv check_list_index_def Let_def evolve
        dest!: resolve_dests split: prod.splits option.splits bool.splits if_splits)
  show "styio_list_set_dict fuel h idx v rt = Some rt' \<Longrightarrow> evolves rt rt'"
    using main [of ListDictHandle _ HK_Dict]
    by (auto simp: styio_list_set_dict_def list_op_defs elems_Some bind_eq_Some_conv check_list_index_def Let_def evolve
        dest!: resolve_dests split: prod.splits option.splits bool.splits if_splits)
qed

lemma evolves_dict_set_nested:
  assumes "runtime_inv rt" "unowned (heap rt) h"
  shows "styio_dict_set_list fuel h key v rt = Some rt' \<Longrightarrow> evolves rt rt'"
    "styio_dict_set_dict fuel h key v rt = Some rt' \<Longrightarrow> evolves rt rt'"
proof -
  have main: "evolves rt (put_object h (ODict (mk s')) rt2)"
    if "heap rt h = Some (ODict (mk s))" "clone_handle_value fuel K v rt = Some (c, rt1)"
      "dict_set_handle s (Some k) c = (existing, s')"
      "(case existing of None \<Rightarrow> Some rt1 | Some x \<Rightarrow> release_with (close_object (close_fuel rt1)) K x rt1) = Some rt2"
      "mk = DictListHandle \<and> K = HK_List \<or> mk = DictDictHandle \<and> K = HK_Dict" for mk s s' existing c k rt1 rt2 K
  proof -
    from that(5) have K: "K = HK_List \<or> K = HK_Dict" "child_kind (ODict (mk s)) = K" by auto
    note o = clone_offers [OF assms(1) that(2) K(1) that(1) assms(2) K(2)]
    have si: "dict_inv s" using runtime_invD(4) [OF assms(1) that(1)] that(5) by auto
    have si': "dict_inv s'" using dict_inv_set [OF si, of "Some k" c] that(3) by (simp add: dict_set_def)
    have ex: "existing = map_of (d_entries s) k" "d_entries s' = AList.update k c (d_entries s)"
      using that(3) by (auto simp: set_handle_spec [OF si])
    have m: "mset (dict_values s') + mset (case existing of None \<Rightarrow> [] | Some old \<Rightarrow> [old]) = add_mset c (mset (dict_values s))"
      using update_values [of "d_entries s" k c] si ex by (simp add: dict_values_def dict_inv_def)
    show ?thesis
    proof (cases existing)
      case None
      with m have "runtime_inv (put_object h (ODict (mk s')) rt1)"
        by (intro nested_put(1) [OF o(1,3,4) _ _ _ _ o(6)]) (use that(5) si' in auto)
      with None that(4) keeps_evolves [OF o(2)] show ?thesis by (intro evolvesI) simp_all
    next
      case (Some x)
      have "map_of (d_entries s) k = Some x" using Some ex(1) by simp
      then have "(k, x) \<in> set (d_entries s)" by (rule map_of_SomeD)
      then have "x \<in> set (dict_values s)" by (force simp: dict_values_def)
      with m Some that(4) have "evolves rt1 (put_object h (ODict (mk s')) rt2)"
        by (intro replace_nested [OF o(1,3,4) _ _ _ _ o(6) _ K(1)]) (use that(5) si' in \<open>auto simp: close_fuel_def\<close>)
      then show ?thesis by (rule evolves_trans [OF o(2)])
    qed
  qed
  have run: "evolves rt rt'"
    if "do { (stored, rt) \<leftarrow> clone_handle_value fuel K v rt;
             let (existing, s') = dict_set_handle s (Some k) stored;
             rt \<leftarrow> (case existing of None \<Rightarrow> Some rt | Some old \<Rightarrow> release_with (close_object (close_fuel rt)) K old rt);
             Some (put_object h (ODict (mk s')) rt) } = Some rt'"
      "heap rt h = Some (ODict (mk s))" "mk = DictListHandle \<and> K = HK_List \<or> mk = DictDictHandle \<and> K = HK_Dict" for mk s k K
  proof -
    from that(1) obtain c rt1 where c: "clone_handle_value fuel K v rt = Some (c, rt1)"
      and r: "(let (existing, s') = dict_set_handle s (Some k) c in
          do { rt \<leftarrow> (case existing of None \<Rightarrow> Some rt1 | Some old \<Rightarrow> release_with (close_object (close_fuel rt1)) K old rt1);
             Some (put_object h (ODict (mk s')) rt) }) = Some rt'"
      by (auto simp: bind_eq_Some_conv)
    obtain existing s' where d: "dict_set_handle s (Some k) c = (existing, s')" by force
    with r main [OF that(2) c d _ that(3)] show ?thesis by (auto simp: bind_eq_Some_conv)
  qed
  show "styio_dict_set_list fuel h key v rt = Some rt' \<Longrightarrow> evolves rt rt'"
    using run [of HK_List _ _ DictListHandle]
    by (auto simp: styio_dict_set_list_def dict_op_defs storage_Some evolve dest!: resolve_dests split: prod.splits option.splits simp del: Let_def)
  show "styio_dict_set_dict fuel h key v rt = Some rt' \<Longrightarrow> evolves rt rt'"
    using run [of HK_Dict _ _ DictDictHandle]
    by (auto simp: styio_dict_set_dict_def dict_op_defs storage_Some evolve dest!: resolve_dests split: prod.splits option.splits simp del: Let_def)
qed

lemma evolves_pop_nested:
  assumes "runtime_inv rt" "unowned (heap rt) h" "heap rt h = Some (OList (mk xs))" "xs \<noteq> []"
    "release_with (close_object (close_fuel rt)) K (last xs) (put_object h (OList (mk (butlast xs))) rt) = Some rt'"
    "mk = ListListHandle \<and> K = HK_List \<or> mk = ListDictHandle \<and> K = HK_Dict"
  shows "evolves rt rt'"
proof -
  let ?p = "put_object h (OList (mk (butlast xs))) rt"
  have K: "K = HK_List \<or> K = HK_Dict" using assms(6) by auto
  have "mset (butlast xs @ [last xs]) = mset xs" using assms(4) by simp
  then have sub: "mset (child_handles (OList (mk (butlast xs)))) + {#last xs#} \<subseteq># add_mset 0 (mset (child_handles (OList (mk xs))))"
    using assms(6) by auto
  have p: "runtime_inv ?p" "unowned (heap ?p) (last xs)"
    by (rule nested_drop [OF assms(1,3,2) _ _ _ sub]; use assms(4,6) in auto)+
  obtain rt3 where "release_with (close_object (close_fuel rt)) K (last xs) ?p = Some rt3" "evolves ?p rt3"
    by (rule release_inv [OF p K, of "close_fuel rt"]) (auto simp: close_fuel_def)
  with assms(5) have "evolves ?p rt'" by simp
  moreover have "evolves rt ?p" using p(1) by (intro evolvesI) simp_all
  ultimately show ?thesis by (blast intro: evolves_trans)
qed

lemma evolves_pop:
  assumes "runtime_inv rt" "unowned (heap rt) h" "styio_list_pop h rt = Some rt'"
  shows "evolves rt rt'"
  using assms(3) evolves_pop_nested [OF assms(1,2), of ListListHandle _ HK_List] evolves_pop_nested [OF assms(1,2), of ListDictHandle _ HK_Dict]
  by (auto simp: styio_list_pop_def pop_last_def Let_def dest!: resolve_dests intro!: evolve split: prod.splits option.splits styio_list.splits if_splits)

lemma evolves_clone_all:
  assumes "runtime_inv rt" "map_opt (clone_handle_value fuel (child_kind obj)) hs rt = Some (child_handles obj, rt1)"
    "stash_object obj rt1 = (c, rt')" "wf_object obj"
  shows "evolves rt rt'"
proof -
  note ok = runtime_invD [OF assms(1)]
  have ck: "child_kind obj = HK_List \<or> child_kind obj = HK_Dict" by (cases obj rule: child_kind.cases) simp_all
  have g: "grows rt (child_kind obj) (child_handles obj) rt1"
    by (rule map_opt_grows [OF clone_grows assms(2) ok(1,2)]) (use ck in auto)
  have inv: "runtime_inv rt1"
    by (rule map_opt_invariant [where P = runtime_inv, OF assms(2) _ assms(1)]) (use ck in \<open>blast dest: evolves_clone(2)\<close>)
  from stash_grows [OF g assms(3)]
  have "grows rt (kind_of obj) [c] rt'" .
  then show ?thesis
    by (rule evolves_grows)
      (rule heap_wf_upd [OF runtime_invD(3) [OF inv] assms(4) stash_object_spec(4) [OF runtime_invD(1) [OF inv] assms(3)]])
qed

lemma evolves_clones:
  assumes "runtime_inv rt"
  shows "styio_list_clone fuel h rt = Some (c, rt') \<Longrightarrow> evolves rt rt'"
    "styio_dict_clone fuel h rt = Some (c, rt') \<Longrightarrow> evolves rt rt'"
    "styio_list_get_list fuel h idx rt = Some (c, rt') \<Longrightarrow> evolves rt rt'"
    "styio_list_get_dict fuel h idx rt = Some (c, rt') \<Longrightarrow> evolves rt rt'"
    "styio_dict_get_list fuel h key rt = Some (c, rt') \<Longrightarrow> evolves rt rt'"
    "styio_dict_get_dict fuel h key rt = Some (c, rt') \<Longrightarrow> evolves rt rt'"
  using evolves_clone(1) [OF _ _ assms]
  by (auto simp: styio_list_clone_def styio_dict_clone_def styio_list_get_list_def styio_list_get_dict_def
      styio_dict_get_list_def styio_dict_get_dict_def list_op_defs dict_op_defs evolve
      dest!: resolve_dests check_list_index_D split: prod.splits option.splits bool.splits)

lemma evolves_values_nested:
  assumes "runtime_inv rt"
  shows "styio_dict_values_list fuel h rt = Some (c, rt') \<Longrightarrow> evolves rt rt'"
    "styio_dict_values_dict fuel h rt = Some (c, rt') \<Longrightarrow> evolves rt rt'"
  using evolves_clone_all [OF assms, of fuel "OList (ListListHandle _)"] evolves_clone_all [OF assms, of fuel "OList (ListDictHandle _)"]
  by (auto simp: styio_dict_values_list_def styio_dict_values_dict_def dict_op_defs bind_eq_Some_conv
      dest!: resolve_dests split: prod.splits option.splits)

lemma find_object_evolves: "find_object K h rt = (r, rt') \<Longrightarrow> evolves rt rt'"
proof -
  assume f: "find_object K h rt = (r, rt')"
  obtain rl rt1 where l: "as_list_base h True rt = (rl, rt1)" by force
  obtain rd rt2 where d: "as_dict_base h True rt = (rd, rt2)" by force
  from as_list_base_evolves [OF l] as_dict_base_evolves [OF d] f l d show ?thesis
    by (auto simp: find_object_def split: if_splits)
qed

lemma repr_evolves:
  "handle_repr fmt n K h rt = Some (out, rt') \<Longrightarrow> K = HK_List \<or> K = HK_Dict \<Longrightarrow> evolves rt rt'"
proof (induction n arbitrary: K h rt out rt')
  case (Suc n)
  obtain r rt1 where f: "find_object K h rt = (r, rt1)" by force
  note e = find_object_evolves [OF f]
  show ?case
  proof (cases r)
    case None
    with Suc.prems f e show ?thesis by (simp add: repr_Suc)
  next
    case (Some obj)
    with Suc.prems f obtain ts where ts: "map_opt (handle_repr fmt n (child_kind obj)) (child_handles obj) rt1 = Some (ts, rt')"
      by (auto simp: repr_Suc bind_eq_Some_conv)
    have ck: "child_kind obj = HK_List \<or> child_kind obj = HK_Dict" by (cases obj rule: child_kind.cases) simp_all
    have "evolves rt1 rt'"
      by (rule map_opt_invariant [where P = "evolves rt1", OF ts]) (use Suc.IH ck in \<open>blast intro: evolves_trans evolves_refl\<close>)+
    with e show ?thesis by (rule evolves_trans)
  qed
qed simp

lemma evolves_to_cstr:
  "styio_list_to_cstr fmt fuel h rt = Some (out, rt') \<Longrightarrow> evolves rt rt'"
  "styio_dict_to_cstr fmt fuel h rt = Some (out, rt') \<Longrightarrow> evolves rt rt'"
  by (auto simp: styio_list_to_cstr_def styio_dict_to_cstr_def dest!: resolve_dests repr_evolves split: prod.splits option.splits)

lemma same_table_inv:
  "rt_table rt' = rt_table rt \<Longrightarrow> rt_active_lists rt' = rt_active_lists rt \<Longrightarrow> rt_active_dicts rt' = rt_active_dicts rt \<Longrightarrow>
   runtime_inv rt \<Longrightarrow> runtime_inv rt'"
  by (simp add: runtime_inv_def rt_ok_def heap_table [of rt' rt] heap_wf_def alive_def
      styio_list_active_count_def styio_dict_active_count_def)

lemma evolves_set_impl: "evolves rt (snd (styio_dict_runtime_set_impl_by_name nm rt))"
  by (auto simp: evolves_def styio_dict_runtime_set_impl_by_name_def keeps_error_def split: prod.split
      intro: same_table_inv [of _ rt])

lemma clear_inv: "runtime_inv rt \<Longrightarrow> runtime_inv (clear_runtime_error_state rt)"
  by (rule same_table_inv [of _ rt]) (simp_all add: clear_runtime_error_state_def)

end
