(* ===== verification/Styio_Clients.thy ===== *)
theory Styio_Clients
  imports Styio_Ownership
begin

text \<open>
  Clients of the container runtime: the C interface of ExternLib.cpp as a step relation, the
  states a program can bring the runtime into, and what holds in all of them. Compiled programs
  call these functions in any order and with any handles; the guarantees here do not depend on
  the calls being sensible, except that what a client changes deeply or releases it must own.
\<close>

subsection \<open>Runs of a client\<close>

text \<open>
  One call of the C interface. A client may read and clone through any handle; what it changes
  deeply or releases it must own: no container holds that handle.
\<close>

inductive api_step :: "('f :: zero) runtime \<Rightarrow> 'f runtime \<Rightarrow> bool" where
  list_new_bool: "api_step rt (snd (styio_list_new_bool rt))"
| list_new_i64: "api_step rt (snd (styio_list_new_i64 rt))"
| list_new_f64: "api_step rt (snd (styio_list_new_f64 rt))"
| list_new_cstr: "api_step rt (snd (styio_list_new_cstr rt))"
| list_new_list: "api_step rt (snd (styio_list_new_list rt))"
| list_new_dict: "api_step rt (snd (styio_list_new_dict rt))"
| list_push_bool: "api_step rt (styio_list_push_bool h v rt)"
| list_insert_bool: "api_step rt (styio_list_insert_bool h idx v rt)"
| list_get_bool: "api_step rt (snd (styio_list_get_bool h idx rt))"
| list_set_bool: "api_step rt (styio_list_set_bool h idx v rt)"
| list_push_i64: "api_step rt (styio_list_push_i64 h v rt)"
| list_insert_i64: "api_step rt (styio_list_insert_i64 h idx v rt)"
| list_get_i64: "api_step rt (snd (styio_list_get h idx rt))"
| list_set_i64: "api_step rt (styio_list_set h idx v rt)"
| list_push_f64: "api_step rt (styio_list_push_f64 h fv rt)"
| list_insert_f64: "api_step rt (styio_list_insert_f64 h idx fv rt)"
| list_get_f64: "api_step rt (snd (styio_list_get_f64 h idx rt))"
| list_set_f64: "api_step rt (styio_list_set_f64 h idx fv rt)"
| list_push_cstr: "api_step rt (styio_list_push_cstr h cv rt)"
| list_insert_cstr: "api_step rt (styio_list_insert_cstr h idx cv rt)"
| list_get_cstr: "api_step rt (snd (styio_list_get_cstr h idx rt))"
| list_set_cstr: "api_step rt (styio_list_set_cstr h idx cv rt)"
| list_push_list: "unowned (heap rt) h \<Longrightarrow> styio_list_push_list fuel h v rt = Some rt' \<Longrightarrow> api_step rt rt'"
| list_insert_list: "unowned (heap rt) h \<Longrightarrow> styio_list_insert_list fuel h idx v rt = Some rt' \<Longrightarrow> api_step rt rt'"
| list_get_list: "styio_list_get_list fuel h idx rt = Some (c, rt') \<Longrightarrow> api_step rt rt'"
| list_set_list: "unowned (heap rt) h \<Longrightarrow> styio_list_set_list fuel h idx v rt = Some rt' \<Longrightarrow> api_step rt rt'"
| list_push_dict: "unowned (heap rt) h \<Longrightarrow> styio_list_push_dict fuel h v rt = Some rt' \<Longrightarrow> api_step rt rt'"
| list_insert_dict: "unowned (heap rt) h \<Longrightarrow> styio_list_insert_dict fuel h idx v rt = Some rt' \<Longrightarrow> api_step rt rt'"
| list_get_dict: "styio_list_get_dict fuel h idx rt = Some (c, rt') \<Longrightarrow> api_step rt rt'"
| list_set_dict: "unowned (heap rt) h \<Longrightarrow> styio_list_set_dict fuel h idx v rt = Some rt' \<Longrightarrow> api_step rt rt'"
| list_len: "api_step rt (snd (styio_list_len h rt))"
| list_pop: "unowned (heap rt) h \<Longrightarrow> styio_list_pop h rt = Some rt' \<Longrightarrow> api_step rt rt'"
| list_clone: "styio_list_clone fuel h rt = Some (c, rt') \<Longrightarrow> api_step rt rt'"
| list_release: "unowned (heap rt) h \<Longrightarrow> styio_list_release h rt = Some rt' \<Longrightarrow> api_step rt rt'"
| list_to_cstr: "styio_list_to_cstr fmt fuel h rt = Some (out, rt') \<Longrightarrow> api_step rt rt'"
| lines: "api_step rt (snd (styio_string_lines text_arg rt))"
| read_stdin: "api_step rt (snd (styio_list_i64_read_stdin input rt))"
| dict_new_bool: "api_step rt (snd (styio_dict_new_bool rt))"
| dict_new_i64: "api_step rt (snd (styio_dict_new_i64 rt))"
| dict_new_f64: "api_step rt (snd (styio_dict_new_f64 rt))"
| dict_new_cstr: "api_step rt (snd (styio_dict_new_cstr rt))"
| dict_new_list: "api_step rt (snd (styio_dict_new_list rt))"
| dict_new_dict: "api_step rt (snd (styio_dict_new_dict rt))"
| dict_get_bool: "api_step rt (snd (styio_dict_get_bool h key rt))"
| dict_set_bool: "api_step rt (styio_dict_set_bool h key v rt)"
| dict_values_bool: "api_step rt (snd (styio_dict_values_bool h rt))"
| dict_get_i64: "api_step rt (snd (styio_dict_get_i64 h key rt))"
| dict_set_i64: "api_step rt (styio_dict_set_i64 h key v rt)"
| dict_values_i64: "api_step rt (snd (styio_dict_values_i64 h rt))"
| dict_get_f64: "api_step rt (snd (styio_dict_get_f64 h key rt))"
| dict_set_f64: "api_step rt (styio_dict_set_f64 h key fv rt)"
| dict_values_f64: "api_step rt (snd (styio_dict_values_f64 h rt))"
| dict_get_cstr: "api_step rt (snd (styio_dict_get_cstr h key rt))"
| dict_set_cstr: "api_step rt (styio_dict_set_cstr h key cv rt)"
| dict_values_cstr: "api_step rt (snd (styio_dict_values_cstr h rt))"
| dict_get_list: "styio_dict_get_list fuel h key rt = Some (c, rt') \<Longrightarrow> api_step rt rt'"
| dict_set_list: "unowned (heap rt) h \<Longrightarrow> styio_dict_set_list fuel h key v rt = Some rt' \<Longrightarrow> api_step rt rt'"
| dict_values_list: "styio_dict_values_list fuel h rt = Some (c, rt') \<Longrightarrow> api_step rt rt'"
| dict_get_dict: "styio_dict_get_dict fuel h key rt = Some (c, rt') \<Longrightarrow> api_step rt rt'"
| dict_set_dict: "unowned (heap rt) h \<Longrightarrow> styio_dict_set_dict fuel h key v rt = Some rt' \<Longrightarrow> api_step rt rt'"
| dict_values_dict: "styio_dict_values_dict fuel h rt = Some (c, rt') \<Longrightarrow> api_step rt rt'"
| dict_len: "api_step rt (snd (styio_dict_len h rt))"
| dict_keys: "api_step rt (snd (styio_dict_keys h rt))"
| dict_clone: "styio_dict_clone fuel h rt = Some (c, rt') \<Longrightarrow> api_step rt rt'"
| dict_release: "unowned (heap rt) h \<Longrightarrow> styio_dict_release h rt = Some rt' \<Longrightarrow> api_step rt rt'"
| dict_to_cstr: "styio_dict_to_cstr fmt fuel h rt = Some (out, rt') \<Longrightarrow> api_step rt rt'"
| set_impl: "api_step rt (snd (styio_dict_runtime_set_impl_by_name nm rt))"

inductive reachable :: "('f :: zero) runtime \<Rightarrow> bool" where
  start: "reachable initial_runtime"
| call: "reachable rt \<Longrightarrow> api_step rt rt' \<Longrightarrow> reachable rt'"
| clear: "reachable rt \<Longrightarrow> reachable (clear_runtime_error_state rt)"

lemmas evolves_nested = evolves_push_nested evolves_insert_nested evolves_set_nested evolves_dict_set_nested
  evolves_pop evolves_release evolves_clones evolves_values_nested

lemma step_evolves: "api_step rt rt' \<Longrightarrow> runtime_inv rt \<Longrightarrow> evolves rt rt'"
  by (induction rule: api_step.induct) (blast intro: evolve evolves_set_impl evolves_to_cstr evolves_nested)+

lemma reachable_inv: "reachable rt \<Longrightarrow> runtime_inv rt"
proof (induction rule: reachable.induct)
  case (call rt rt')
  with step_evolves [OF call.hyps(2)] show ?case by (simp add: evolves_def)
qed (simp_all add: initial_inv clear_inv)

subsection \<open>What clients can rely on\<close>

text \<open>A first reachable state with one list.\<close>

lemma sample_run:
  "sample_runtime = styio_list_push_i64 1 9 (styio_list_push_i64 1 7 (snd (styio_list_new_i64 initial_runtime)))"
  by (simp add: sample_runtime_def styio_list_push_i64_def styio_list_new_i64_def stash_list_def initial_runtime_def
      acquire_def place_entry_def empty_table_def as_list_i64_def as_list_kind_def as_list_base_def lookup_def
      entry_for_def is_indexable_def put_object_def store_object_def in_range_def)

lemma sample_reachable: "reachable sample_runtime" "heap sample_runtime 1 = Some (OList (ListI64 [7, 9]))"
proof -
  show "reachable sample_runtime"
    unfolding sample_run
    by (rule reachable.call [OF reachable.call [OF reachable.call [OF reachable.start list_new_i64] list_push_i64] list_push_i64])
  show "heap sample_runtime 1 = Some (OList (ListI64 [7, 9]))"
    using sample_runtime(2) heap_resolves [OF sample_runtime(1)] by blast
qed

text \<open>
  C4: in every state a client can reach, the table is well formed, every object sits under a
  handle of its kind, containers own their elements as a forest, dictionaries have distinct
  keys and exact indexes, and the counts the runtime reports are the numbers of live lists
  and dictionaries.
\<close>

theorem reachable_states_sound:
  assumes "reachable rt"
  shows "rt_ok rt \<and> forest (heap rt) \<and> heap_wf rt
    \<and> styio_list_active_count rt = int (card (alive HK_List rt))
    \<and> styio_dict_active_count rt = int (card (alive HK_Dict rt))"
  using reachable_inv [OF assms] by (simp add: runtime_inv_def)

text \<open>
  C25: the first error is the one reported. While an error is pending, no call replaces its
  message or subcode; only clearing the error state does.
\<close>

theorem first_error_kept:
  assumes "reachable rt" "api_step rt rt'" "runtime_last_error rt = Some message"
  shows "runtime_last_error rt' = Some message \<and> runtime_last_error_subcode rt' = runtime_last_error_subcode rt
    \<and> runtime_has_error rt' = 1 \<and> runtime_last_error (clear_runtime_error_state rt') = None"
  using keeps_evolves [OF step_evolves [OF assms(2) reachable_inv [OF assms(1)]]] assms(3)
  by (auto simp: keeps_error_def runtime_last_error_def runtime_last_error_subcode_def runtime_has_error_def
      clear_runtime_error_state_def split: if_splits)

lemma release_returns:
  assumes "rt_ok rt" "K = HK_List \<or> K = HK_Dict"
  shows "\<exists>rt'. release_with (close_object (close_fuel rt)) K h rt = Some rt'"
proof -
  have K: "K \<noteq> HK_Unknown" using assms(2) by auto
  have "card (dom (heap rt)) \<le> close_fuel rt" using heap_card_le_size [OF assms(1)] by (simp add: close_fuel_def)
  from release_with_spec [OF assms(1) this K] show ?thesis by blast
qed

lemma values_return:
  assumes "runtime_inv rt" "heap rt h = Some obj" "close_fuel rt \<le> fuel"
  shows "\<exists>cs rt'. map_opt (clone_handle_value fuel (child_kind obj)) (child_handles obj) rt = Some (cs, rt')"
proof -
  note ok = runtime_invD [OF assms(1)]
  note k = kind_of_cases [of obj]
  from clone_returns [OF ok(1,2) k, of "Suc fuel" h] assms(3) obtain c rt' where
    c: "clone_handle_value (Suc fuel) (kind_of obj) h rt = Some (c, rt')" by auto
  from ok(1) k show ?thesis
  proof (cases rule: find_object_cases [where h = h])
    case (hit obj')
    with c assms(2) show ?thesis by (auto simp: clone_Suc [OF k] bind_eq_Some_conv split: prod.splits)
  next
    case miss
    with assms(2) show ?thesis by simp
  qed
qed

lemma map_opt_fuel:
  "map_opt (clone_handle_value n K) hs rt = Some r \<Longrightarrow> n \<le> m \<Longrightarrow> K = HK_List \<or> K = HK_Dict \<Longrightarrow>
   map_opt (clone_handle_value m K) hs rt = Some r"
  by (rule map_opt_mono [rotated]) (blast intro: clone_fuel_mono)+

lemma clone_ex:
  assumes "runtime_inv rt" "close_fuel rt \<le> fuel" "K = HK_List \<or> K = HK_Dict"
  shows "\<exists>c rt'. clone_handle_value fuel K v rt = Some (c, rt') \<and> rt_ok rt'"
  using clone_returns [OF runtime_invD(1,2) [OF assms(1)] assms(3,2)] unfolding grows_def by blast

lemmas returning_simps = list_op_defs dict_op_defs elems_Some storage_Some check_list_index_def Let_def bind_eq_Some_conv

lemma nested_list_ops_return:
  assumes "runtime_inv rt" "close_fuel rt \<le> fuel"
  shows "\<exists>r. styio_list_push_list fuel h v rt = Some r" "\<exists>r. styio_list_push_dict fuel h v rt = Some r"
    "\<exists>r. styio_list_insert_list fuel h idx v rt = Some r" "\<exists>r. styio_list_insert_dict fuel h idx v rt = Some r"
    "\<exists>r. styio_list_set_list fuel h idx v rt = Some r" "\<exists>r. styio_list_set_dict fuel h idx v rt = Some r"
proof -
  obtain c1 rt1 where c1: "clone_handle_value fuel HK_List v rt = Some (c1, rt1)" "rt_ok rt1"
    using clone_ex [OF assms, of HK_List] by blast
  obtain c2 rt2 where c2: "clone_handle_value fuel HK_Dict v rt = Some (c2, rt2)" "rt_ok rt2"
    using clone_ex [OF assms, of HK_Dict] by blast
  note r1 = release_returns [OF c1(2), of HK_List] and r2 = release_returns [OF c2(2), of HK_Dict]
  show "\<exists>r. styio_list_push_list fuel h v rt = Some r" "\<exists>r. styio_list_push_dict fuel h v rt = Some r"
    "\<exists>r. styio_list_insert_list fuel h idx v rt = Some r" "\<exists>r. styio_list_insert_dict fuel h idx v rt = Some r"
    "\<exists>r. styio_list_set_list fuel h idx v rt = Some r" "\<exists>r. styio_list_set_dict fuel h idx v rt = Some r"
    using c1(1) c2(1) r1 r2
    by (auto simp: styio_list_push_list_def styio_list_push_dict_def styio_list_insert_list_def styio_list_insert_dict_def
        styio_list_set_list_def styio_list_set_dict_def returning_simps dest!: resolve_dests split: prod.split option.split)
qed

lemma nested_dict_ops_return:
  assumes "runtime_inv rt" "close_fuel rt \<le> fuel"
  shows "\<exists>r. styio_dict_set_list fuel h key v rt = Some r" "\<exists>r. styio_dict_set_dict fuel h key v rt = Some r"
proof -
  obtain c1 rt1 where c1: "clone_handle_value fuel HK_List v rt = Some (c1, rt1)" "rt_ok rt1"
    using clone_ex [OF assms, of HK_List] by blast
  obtain c2 rt2 where c2: "clone_handle_value fuel HK_Dict v rt = Some (c2, rt2)" "rt_ok rt2"
    using clone_ex [OF assms, of HK_Dict] by blast
  note r1 = release_returns [OF c1(2), of HK_List] and r2 = release_returns [OF c2(2), of HK_Dict]
  have "styio_dict_set_list fuel h key v rt \<noteq> None" "styio_dict_set_dict fuel h key v rt \<noteq> None"
    using c1(1) c2(1) r1 r2
    by (auto simp: styio_dict_set_list_def styio_dict_set_dict_def dict_op_defs storage_Some Let_def
        dest!: resolve_dests split: prod.splits option.splits)
      (simp_all add: bind_eq_Some_conv)
  then show "\<exists>r. styio_dict_set_list fuel h key v rt = Some r" "\<exists>r. styio_dict_set_dict fuel h key v rt = Some r" by auto
qed

lemma flat_calls_return:
  assumes "runtime_inv rt" "close_fuel rt \<le> fuel"
  shows "\<exists>r. styio_list_get_list fuel h idx rt = Some r" "\<exists>r. styio_list_get_dict fuel h idx rt = Some r"
    "\<exists>r. styio_dict_get_list fuel h key rt = Some r" "\<exists>r. styio_dict_get_dict fuel h key rt = Some r"
    "\<exists>r. styio_list_clone fuel h rt = Some r" "\<exists>r. styio_dict_clone fuel h rt = Some r"
    "\<exists>r. styio_list_release h rt = Some r" "\<exists>r. styio_dict_release h rt = Some r"
    "\<exists>r. styio_dict_values_list fuel h rt = Some r" "\<exists>r. styio_dict_values_dict fuel h rt = Some r"
    "\<exists>r. styio_list_to_cstr fmt fuel h rt = Some r" "\<exists>r. styio_dict_to_cstr fmt fuel h rt = Some r"
    "\<exists>r. styio_list_pop h rt = Some r"
proof -
  note ok = runtime_invD(1,2) [OF assms(1)]
  have c: "\<exists>a b. clone_handle_value fuel HK_List x rt = Some (a, b)" "\<exists>a b. clone_handle_value fuel HK_Dict x rt = Some (a, b)" for x
    using clone_ex [OF assms] by blast+
  then show "\<exists>r. styio_list_get_list fuel h idx rt = Some r" "\<exists>r. styio_list_get_dict fuel h idx rt = Some r"
    "\<exists>r. styio_dict_get_list fuel h key rt = Some r" "\<exists>r. styio_dict_get_dict fuel h key rt = Some r"
    "\<exists>r. styio_list_clone fuel h rt = Some r" "\<exists>r. styio_dict_clone fuel h rt = Some r"
    by (auto simp: styio_list_get_list_def styio_list_get_dict_def styio_dict_get_list_def styio_dict_get_dict_def
        styio_list_clone_def styio_dict_clone_def returning_simps dest!: resolve_dests split: prod.split option.split)
  show "\<exists>r. styio_list_release h rt = Some r" "\<exists>r. styio_dict_release h rt = Some r"
    using release_returns [OF ok(1)] by (auto simp: styio_list_release_def styio_dict_release_def)
  note v = values_return [OF assms(1) _ assms(2)]
  show "\<exists>r. styio_dict_values_list fuel h rt = Some r"
    using v [of h "ODict (DictListHandle _)"]
    by (fastforce simp: styio_dict_values_list_def returning_simps dest!: resolve_dests split: prod.split option.split)
  show "\<exists>r. styio_dict_values_dict fuel h rt = Some r"
    using v [of h "ODict (DictDictHandle _)"]
    by (fastforce simp: styio_dict_values_dict_def returning_simps dest!: resolve_dests split: prod.split option.split)
  note p = repr_returns [OF ok _ assms(2), of _ h fmt]
  show "\<exists>r. styio_list_to_cstr fmt fuel h rt = Some r"
    using p [of HK_List] by (fastforce simp: styio_list_to_cstr_def printable_def dest!: resolve_dests split: prod.split option.split)
  show "\<exists>r. styio_dict_to_cstr fmt fuel h rt = Some r"
    using p [of HK_Dict] by (fastforce simp: styio_dict_to_cstr_def printable_def dest!: resolve_dests split: prod.split option.split)
  have put: "\<exists>r. release_with (close_object (close_fuel rt)) HK_List x (put_object h (OList l') rt) = Some r"
    "\<exists>r. release_with (close_object (close_fuel rt)) HK_Dict x (put_object h (OList l') rt) = Some r"
    if "heap rt h = Some (OList l)" for x l l'
  proof -
    have "rt_ok (put_object h (OList l') rt)" by (rule heap_put(2) [OF ok(1) that]) simp
    from release_returns [OF this] show "\<exists>r. release_with (close_object (close_fuel rt)) HK_List x (put_object h (OList l') rt) = Some r"
      "\<exists>r. release_with (close_object (close_fuel rt)) HK_Dict x (put_object h (OList l') rt) = Some r"
      by (simp_all add: close_fuel_def)
  qed
  show "\<exists>r. styio_list_pop h rt = Some r"
    using put by (auto simp: styio_list_pop_def Let_def dest!: resolve_dests split: prod.split option.split styio_list.split)
qed

text \<open>
  C8: every call returns. With fuel for the occupied slots of the table, cloning, closing and
  printing nested containers never run out, whatever the handles passed.
\<close>

theorem calls_return:
  assumes "reachable rt" "close_fuel rt \<le> fuel"
  shows "(\<exists>r. styio_list_push_list fuel h v rt = Some r) \<and> (\<exists>r. styio_list_push_dict fuel h v rt = Some r)
    \<and> (\<exists>r. styio_list_insert_list fuel h idx v rt = Some r) \<and> (\<exists>r. styio_list_insert_dict fuel h idx v rt = Some r)
    \<and> (\<exists>r. styio_list_get_list fuel h idx rt = Some r) \<and> (\<exists>r. styio_list_get_dict fuel h idx rt = Some r)
    \<and> (\<exists>r. styio_list_set_list fuel h idx v rt = Some r) \<and> (\<exists>r. styio_list_set_dict fuel h idx v rt = Some r)
    \<and> (\<exists>r. styio_list_clone fuel h rt = Some r) \<and> (\<exists>r. styio_dict_clone fuel h rt = Some r)
    \<and> (\<exists>r. styio_list_pop h rt = Some r) \<and> (\<exists>r. styio_list_release h rt = Some r) \<and> (\<exists>r. styio_dict_release h rt = Some r)
    \<and> (\<exists>r. styio_dict_get_list fuel h key rt = Some r) \<and> (\<exists>r. styio_dict_get_dict fuel h key rt = Some r)
    \<and> (\<exists>r. styio_dict_set_list fuel h key v rt = Some r) \<and> (\<exists>r. styio_dict_set_dict fuel h key v rt = Some r)
    \<and> (\<exists>r. styio_dict_values_list fuel h rt = Some r) \<and> (\<exists>r. styio_dict_values_dict fuel h rt = Some r)
    \<and> (\<exists>r. styio_list_to_cstr fmt fuel h rt = Some r) \<and> (\<exists>r. styio_dict_to_cstr fmt fuel h rt = Some r)"
proof -
  note a = reachable_inv [OF assms(1)] assms(2)
  show ?thesis
    by (intro conjI nested_list_ops_return [OF a] nested_dict_ops_return [OF a] flat_calls_return [OF a])
qed

lemma no_roots_empty:
  assumes "forest m" "finite (dom m)" "roots m = {}"
  shows "m = Map.empty"
proof (rule ccontr)
  assume "m \<noteq> Map.empty"
  then have ne: "dom m \<noteq> {}" by auto
  obtain rank :: "int \<Rightarrow> nat" where r: "\<And>p obj c. m p = Some obj \<Longrightarrow> c \<in> set (children obj) \<Longrightarrow> rank c < rank p"
    using forest_rank [OF assms(1)] by blast
  obtain p where p: "p \<in> dom m" "\<And>q. q \<in> dom m \<Longrightarrow> rank q \<le> rank p"
    using Max_in [of "rank ` dom m"] Max_ge [of "rank ` dom m"] assms(2) ne by fastforce
  with assms(3) have "\<not> unowned m p" by (auto simp: roots_def)
  then obtain q obj where q: "m q = Some obj" "p \<in> set (children obj)" by (auto simp: unowned_def)
  from r [OF q] p(2) [of q] q(1) show False by auto
qed


text \<open>
  C7: releasing a container a client owns frees it and whatever it holds, and nothing else: its
  handle is dead, every other container the client owns is exactly as before, no error is
  raised, and the client's containers are the others.
\<close>

theorem release_isolated_tree:
  assumes "reachable rt" "h \<in> roots (heap rt)" "heap rt h = Some (OList l)"
  shows "\<exists>rt'. styio_list_release h rt = Some rt' \<and> heap rt' h = None \<and> roots (heap rt') = roots (heap rt) - {h}
    \<and> (\<forall>g\<in>roots (heap rt) - {h}. heap rt' g = heap rt g) \<and> runtime_has_error rt' = runtime_has_error rt
    \<and> styio_list_release h rt' = Some rt'"
proof -
  note inv = reachable_inv [OF assms(1)]
  have un: "unowned (heap rt) h" using assms(2) by (simp add: roots_def)
  have "card (dom (heap rt)) \<le> close_fuel rt"
    using heap_card_le_size [OF runtime_invD(1) [OF inv]] by (simp add: close_fuel_def)
  from release_with_spec [OF runtime_invD(1) [OF inv] this, of HK_List h] obtain rt' where
    rt': "release_with (close_object (close_fuel rt)) HK_List h rt = Some rt'" "closes rt rt'" by auto
  from release_frees [OF runtime_invD(1,2) [OF inv] un _ rt'(1)] assms(3) have f: "frees rt {h} rt'" by auto
  have dead: "heap rt' h = None"
  proof (rule ccontr)
    assume n: "heap rt' h \<noteq> None"
    have "heap rt' \<subseteq>\<^sub>m heap rt" using f by (simp add: frees_def)
    then have "unowned (heap rt') h" using un map_leD unfolding unowned_def by metis
    with n f show False by (auto simp: frees_def roots_def)
  qed
  have "rt_ok rt'" using f by (simp add: frees_def)
  then have "styio_list_release h rt' = Some rt'"
    unfolding styio_list_release_def
    by (rule release_with_cases [where h = h and K = HK_List and cl = "close_object (close_fuel rt')"]) (use dead in simp_all)
  with rt' f dead show ?thesis by (auto simp: styio_list_release_def frees_def closes_def runtime_has_error_def)
qed


text \<open>
  C5: a clone is an independent deep copy. It gets a fresh handle the client owns; everything
  that was there, nested containers included, is untouched; and it prints exactly as the
  original does.
\<close>

theorem clone_is_deep_copy:
  assumes "reachable rt" "heap rt h = Some (OList l)" "close_fuel rt \<le> fuel"
  shows "\<exists>c rt' shown. styio_list_clone fuel h rt = Some (c, rt') \<and> heap rt c = None
    \<and> heap rt \<subseteq>\<^sub>m heap rt' \<and> roots (heap rt') = insert c (roots (heap rt)) \<and> reachable rt'
    \<and> styio_list_to_cstr fmt fuel h rt = Some (Some shown, rt)
    \<and> styio_list_to_cstr fmt fuel h rt' = Some (Some shown, rt')
    \<and> styio_list_to_cstr fmt fuel c rt' = Some (Some shown, rt')"
proof -
  note inv = reachable_inv [OF assms(1)]
  note ok = runtime_invD(1,2) [OF inv]
  have pr: "printable (heap rt) HK_List h" using assms(2) by (simp add: printable_def)
  from clone_returns [OF ok _ assms(3), of HK_List h] obtain c rt' where
    c: "clone_handle_value fuel HK_List h rt = Some (c, rt')" and g: "grows rt HK_List [c] rt'" by auto
  from repr_returns [OF ok pr assms(3)] obtain shown where s: "handle_repr fmt fuel HK_List h rt = Some (shown, rt)" by auto
  have ok': "rt_ok rt'" "heap rt \<subseteq>\<^sub>m heap rt'" using g by (simp_all add: grows_def)
  from repr_stable [OF s ok(2,1) map_le_refl pr ok'] have s2: "handle_repr fmt fuel HK_List h rt' = Some (shown, rt')" by simp
  from clone_repr [OF c ok pr s map_le_refl ok'(1)] have s3: "handle_repr fmt fuel HK_List c rt' = Some (shown, rt')" .
  have "c \<noteq> 0"
  proof -
    obtain n where n: "fuel = Suc n" using assms(3) by (cases fuel) (auto simp: close_fuel_def)
    from find_printable [OF ok(1) map_le_refl pr] assms(2)
    have "find_object HK_List h rt = (Some (OList l), rt)" by (cases "h = 0") auto
    with c obtain cs rt1 where rt1: "map_opt (clone_handle_value n (child_kind (OList l))) (child_handles (OList l)) rt = Some (cs, rt1)"
      "stash_object (with_children (OList l) cs) rt1 = (c, rt')"
      by (auto simp: n clone_Suc bind_eq_Some_conv split: prod.splits)
    have ck: "child_kind (OList l) = HK_List \<or> child_kind (OList l) = HK_Dict" by (cases l) simp_all
    have "grows rt (child_kind (OList l)) cs rt1"
      by (rule map_opt_grows [OF clone_grows rt1(1) ok]) (use ck in auto)
    then show ?thesis using stash_object_spec(2) [OF _ rt1(2)] by (simp add: grows_def)
  qed
  with g obtain o1 where o1: "heap rt c = None" "heap rt' c = Some o1" "kind_of o1 = HK_List" "roots (heap rt') = insert c (roots (heap rt))"
    by (auto simp: grows_def)
  then obtain lc where lc: "heap rt c = None" "heap rt' c = Some (OList lc)" "roots (heap rt') = insert c (roots (heap rt))"
    by (cases o1) simp_all
  have "reachable rt'" by (rule reachable.call [OF assms(1) list_clone [of fuel h]]) (use c in \<open>simp add: styio_list_clone_def\<close>)
  moreover have "as_list_base h True rt = (Some l, rt)" "as_list_base h True rt' = (Some l, rt')" "as_list_base c True rt' = (Some lc, rt')"
    using assms(2) lc(2) map_leD [OF ok'(2) assms(2)] by (auto intro!: as_list_hit simp: heap_resolves [OF ok(1)] heap_resolves [OF ok'(1)])
  ultimately show ?thesis
    using c lc ok'(2) s s2 s3 by (auto simp: styio_list_clone_def styio_list_to_cstr_def)
qed


text \<open>
  C9: a dictionary handle denotes an insertion-ordered map. Reading finds the value last set,
  setting replaces the value or appends the key at the end, and touches nothing else; a missing
  key or a null key changes no object and reports the key error.
\<close>

theorem dict_i64_semantics:
  assumes "reachable rt" "heap rt h = Some (ODict (DictI64 s))"
  shows "styio_dict_len h rt = (int (length (dict_keys s)), rt) \<and> distinct (dict_keys s)
    \<and> (\<forall>w. map_of (d_entries s) k = Some w \<longrightarrow> styio_dict_get_i64 h (Some k) rt = (w, rt))
    \<and> (k \<notin> set (dict_keys s) \<longrightarrow> (\<exists>rt'. styio_dict_get_i64 h (Some k) rt = (0, rt')
         \<and> refused rt subcode_dict_key (''dict key not found: '' @ k) rt'))
    \<and> (\<exists>rt'. styio_dict_get_i64 h None rt = (0, rt') \<and> refused rt subcode_dict_key ''dict key is null'' rt')
    \<and> refused rt subcode_dict_key ''dict key is null'' (styio_dict_set_i64 h None v rt)
    \<and> (\<exists>s'. stores rt h (ODict (DictI64 s')) (styio_dict_set_i64 h (Some k) v rt)
         \<and> map_of (d_entries s') = (map_of (d_entries s))(k \<mapsto> v)
         \<and> dict_keys s' = (if k \<in> set (dict_keys s) then dict_keys s else dict_keys s @ [k]))"
proof -
  note inv = reachable_inv [OF assms(1)]
  note ok = runtime_invD(1) [OF inv]
  have si: "dict_inv s" using runtime_invD(4) [OF inv assms(2)] by simp
  have r: "resolves_to rt h (ODict (DictI64 s))" using heap_resolves [OF ok] assms(2) by blast
  have hit: "as_dict_i64 h True rt = (Some s, rt)" by (simp add: as_dict_i64_def as_dict_kind_def as_dict_hit [OF r])
  have "dict_keys (dict_set s (Some k) v) = (if k \<in> set (dict_keys s) then dict_keys s else dict_keys s @ [k])"
    by (simp add: dict_set_def set_handle_spec [OF si] dict_keys_def keys_update)
  moreover have "map_of (d_entries (dict_set s (Some k) v)) = (map_of (d_entries s))(k \<mapsto> v)"
    by (simp add: dict_set_def set_handle_spec [OF si] update_conv')
  moreover have "stores rt h (ODict (DictI64 (dict_set s (Some k) v))) (styio_dict_set_i64 h (Some k) v rt)"
    unfolding styio_dict_set_i64_def hit by (simp add: put_stores [OF ok r])
  moreover have "k \<notin> set (dict_keys s) \<Longrightarrow> map_of (d_entries s) k = None"
    by (simp add: dict_keys_def map_of_eq_None_iff)
  ultimately have ex: "\<exists>s'. stores rt h (ODict (DictI64 s')) (styio_dict_set_i64 h (Some k) v rt)
         \<and> map_of (d_entries s') = (map_of (d_entries s))(k \<mapsto> v)
         \<and> dict_keys s' = (if k \<in> set (dict_keys s) then dict_keys s else dict_keys s @ [k])"
    by blast
  have "styio_dict_len h rt = (int (length (dict_keys s)), rt) \<and> distinct (dict_keys s)"
    using si by (simp add: styio_dict_len_def as_dict_hit [OF r] dict_inv_def dict_keys_def)
  moreover have "\<forall>w. map_of (d_entries s) k = Some w \<longrightarrow> styio_dict_get_i64 h (Some k) rt = (w, rt)"
    by (simp add: styio_dict_get_i64_def hit try_get_spec si)
  moreover have "k \<notin> set (dict_keys s) \<longrightarrow> (\<exists>rt'. styio_dict_get_i64 h (Some k) rt = (0, rt')
         \<and> refused rt subcode_dict_key (''dict key not found: '' @ k) rt')"
    by (simp add: styio_dict_get_i64_def hit try_get_spec si dict_keys_def map_of_eq_None_iff [THEN iffD2] missing_key_error_def refused_once [OF ok])
  moreover have "\<exists>rt'. styio_dict_get_i64 h None rt = (0, rt') \<and> refused rt subcode_dict_key ''dict key is null'' rt'"
    by (simp add: styio_dict_get_i64_def hit null_key_error_def refused_once [OF ok])
  moreover have "refused rt subcode_dict_key ''dict key is null'' (styio_dict_set_i64 h None v rt)"
    by (simp add: styio_dict_set_i64_def hit null_key_error_def refused_once [OF ok])
  ultimately show ?thesis using ex by blast
qed

text \<open>
  C26: a bad handle is refused. On a handle that is dead or belongs to another kind of object,
  and on a list of another element type, the list calls return zero, change no object and
  report the handle, respectively the element type; handle zero is ignored silently.
\<close>

theorem bad_handle_refused:
  assumes "reachable rt" "\<forall>xs. heap rt h \<noteq> Some (OList (ListI64 xs))"
  shows "(let err = (\<lambda>rt'. if h = 0 then rt' = rt
            else case heap rt h of
              Some (OList l) \<Rightarrow> refused rt subcode_list_elem_kind (''list handle does not carry i64 elements: '' @ to_string_int h) rt'
            | _ \<Rightarrow> refused rt subcode_list_handle (''invalid list handle: '' @ to_string_int h) rt') in
     err (styio_list_push_i64 h v rt) \<and> err (styio_list_insert_i64 h idx v rt) \<and> err (styio_list_set h idx v rt)
     \<and> fst (styio_list_get h idx rt) = 0 \<and> err (snd (styio_list_get h idx rt)))"
proof -
  note ok = runtime_invD(1) [OF reachable_inv [OF assms(1)]]
  define rt1 where "rt1 = snd (as_list_i64 h True rt)"
  have none: "as_list_i64 h True rt = (None, rt1)"
  proof (cases "as_list_i64 h True rt")
    case (Pair r rt2)
    with assms(2) show ?thesis
      by (cases r) (auto simp: rt1_def as_list_i64_def elems_Some dest!: as_list_kind_SomeD)
  qed
  have base: "as_list_base h True rt = (if h = 0 then (None, rt) else case heap rt h of Some (OList l) \<Rightarrow> (Some l, rt)
      | _ \<Rightarrow> (None, set_runtime_error_once subcode_list_handle (''invalid list handle: '' @ to_string_int h) rt))"
    by (auto simp: as_list_base_def lookup_live heap_def split: option.split robj.split dest: rt_ok_kind [OF ok])
  have "if h = 0 then rt1 = rt else case heap rt h of
        Some (OList l) \<Rightarrow> refused rt subcode_list_elem_kind (''list handle does not carry i64 elements: '' @ to_string_int h) rt1
      | _ \<Rightarrow> refused rt subcode_list_handle (''invalid list handle: '' @ to_string_int h) rt1"
    using none refused_once [OF ok] unfolding as_list_i64_def as_list_kind_def base
    by (auto split: option.splits robj.splits if_splits)
  then show ?thesis
    by (simp add: Let_def styio_list_push_i64_def styio_list_insert_i64_def styio_list_set_def styio_list_get_def none)
qed

subsection \<open>Witnesses\<close>

definition sample_dict :: "nat runtime" where
  "sample_dict = styio_dict_set_i64 1 (Some ''a'') 5 (snd (styio_dict_new_i64 initial_runtime))"

lemma sample_dict: "reachable sample_dict" "\<exists>s. heap sample_dict 1 = Some (ODict (DictI64 s)) \<and> d_entries s = [(''a'', 5)]"
proof -
  show "reachable sample_dict"
    unfolding sample_dict_def
    by (rule reachable.call [OF reachable.call [OF reachable.start dict_new_i64] dict_set_i64])
  show "\<exists>s. heap sample_dict 1 = Some (ODict (DictI64 s)) \<and> d_entries s = [(''a'', 5)]"
    by (simp add: sample_dict_def styio_dict_set_i64_def styio_dict_new_i64_def stash_dict_def initial_runtime_def
        acquire_def place_entry_def empty_table_def as_dict_i64_def as_dict_kind_def as_dict_base_def lookup_def
        entry_for_def is_indexable_def put_object_def store_object_def in_range_def heap_def live_def dict_set_def
        dict_set_handle_def dict_find_pos_def new_dict_storage_def make_dict_storage_def current_dict_backend_spec_def backend_registry_def dict_backend_spec_by_impl_def Let_def)
qed

lemma sample_roots: "1 \<in> roots (heap sample_runtime)"
proof -
  have "heap sample_runtime p = Some obj \<Longrightarrow> p = 1" for p obj
    unfolding sample_run
    by (auto simp: styio_list_push_i64_def styio_list_new_i64_def stash_list_def initial_runtime_def
      acquire_def place_entry_def empty_table_def as_list_i64_def as_list_kind_def as_list_base_def lookup_def
      entry_for_def is_indexable_def put_object_def store_object_def in_range_def heap_def live_def Let_def split: if_splits)
  with sample_reachable(2) show ?thesis by (fastforce simp: roots_def unowned_def children_def)
qed

lemma sample_fuel: "close_fuel sample_runtime = 2"
  unfolding sample_run
    by (simp add: styio_list_push_i64_def styio_list_new_i64_def stash_list_def initial_runtime_def
      acquire_def place_entry_def empty_table_def as_list_i64_def as_list_kind_def as_list_base_def lookup_def
      entry_for_def is_indexable_def put_object_def store_object_def in_range_def close_fuel_def table_size_def occupied_def)

theorem reachable_states_sound_witness:
  "rt_ok sample_runtime \<and> forest (heap sample_runtime) \<and> heap_wf sample_runtime
    \<and> styio_list_active_count sample_runtime = int (card (alive HK_List sample_runtime))
    \<and> styio_dict_active_count sample_runtime = int (card (alive HK_Dict sample_runtime))"
  by (rule reachable_states_sound [OF sample_reachable(1)])

theorem first_error_kept_witness:
  "runtime_last_error (styio_list_set 7 0 3 (styio_list_set 1 2 4 sample_runtime)) = Some ''list index out of range: 2''"
proof -
  have "runtime_last_error (styio_list_set 1 2 4 sample_runtime) = Some ''list index out of range: 2''"
    using sample_runtime(3) as_list_kind_hit [OF sample_runtime(2), of elems_i64 _ "''i64''"]
    by (simp add: styio_list_set_def as_list_i64_def list_set_value_def check_list_index_def set_runtime_error_once_def
        runtime_last_error_def out_of_range_text_def to_string_int_def to_string_nat.simps Let_def)
  from first_error_kept [OF reachable.call [OF sample_reachable(1) list_set_i64] list_set_i64 this] show ?thesis by blast
qed

theorem calls_return_witness:
  "(\<exists>r. styio_list_clone 2 1 sample_runtime = Some r) \<and> (\<exists>r. styio_list_release 1 sample_runtime = Some r)"
  using calls_return [OF sample_reachable(1), of 2] by (simp add: sample_fuel)


theorem release_isolated_tree_witness:
  "\<exists>rt'. styio_list_release 1 sample_runtime = Some rt' \<and> heap rt' 1 = None \<and> styio_list_release 1 rt' = Some rt'"
  using release_isolated_tree [OF sample_reachable(1) sample_roots sample_reachable(2)] by blast

theorem clone_is_deep_copy_witness:
  "\<exists>c rt' shown. styio_list_clone 2 1 sample_runtime = Some (c, rt') \<and> heap sample_runtime c = None
    \<and> styio_list_to_cstr to_string_nat 2 c rt' = Some (Some shown, rt')"
  using clone_is_deep_copy [OF sample_reachable, of 2 to_string_nat] by (simp add: sample_fuel) blast

theorem dict_i64_semantics_witness:
  "styio_dict_get_i64 1 (Some ''a'') sample_dict = (5, sample_dict)
   \<and> (\<exists>rt'. styio_dict_get_i64 1 (Some ''b'') sample_dict = (0, rt')
       \<and> refused sample_dict subcode_dict_key ''dict key not found: b'' rt')"
proof -
  from sample_dict(2) obtain s where s: "heap sample_dict 1 = Some (ODict (DictI64 s))" "d_entries s = [(''a'', 5)]" by blast
  from dict_i64_semantics [OF sample_dict(1) s(1), of "''a''"] dict_i64_semantics [OF sample_dict(1) s(1), of "''b''"] s(2)
  show ?thesis by (simp add: dict_keys_def)
qed

theorem bad_handle_refused_witness:
  "fst (styio_list_get 1 0 sample_dict) = 0
   \<and> refused sample_dict subcode_list_handle ''invalid list handle: 1'' (styio_list_set 1 0 3 sample_dict)"
proof -
  from sample_dict(2) obtain s where s: "heap sample_dict 1 = Some (ODict (DictI64 s))" by blast
  then have "\<forall>xs. heap sample_dict 1 \<noteq> Some (OList (ListI64 xs))" by simp
  from bad_handle_refused [OF sample_dict(1) this, of 3 0] s show ?thesis
    by (simp add: Let_def to_string_int_def to_string_nat.simps)
qed

end
