(* ===== verification/Styio_IR.thy ===== *)
theory Styio_IR
  imports Styio_Token Styio_DataType
begin

text \<open>
  The intermediate representation: the node classes of src/src/StyioIR. A node class is a
  constructor; the classes are grouped as the headers group them, each group a datatype over the
  type of child nodes, and \<open>styio_ir\<close> ties the knot. A null node pointer is \<open>NullIR\<close>; a pointer to
  a block, which the code dereferences only for its statements, is an optional statement list.
  Node identity is not modelled: the code compares pointers in one place only, as a short cut.
\<close>

datatype sg_dyn_load_kind =
    DL_Bool | DL_I64 | DL_F64 | DL_CString | DL_ListHandle | DL_DictHandle | DL_MatrixHandle | DL_TaskHandle

datatype sg_loop_tag = Loop_Infinite | Loop_WhileCond

datatype sg_match_repr_kind = MK_Stmt | MK_ExprInt | MK_ExprFloat | MK_ExprMixed

datatype sg_state_slot_kind = Slot_Acc | Slot_Track | Slot_WinAvg | Slot_WinMax

datatype std_write_stream = Write_Stdout | Write_Stderr

record sg_state_slot_desc =
  ss_kind :: sg_state_slot_kind
  ss_id :: int
  ss_offset :: int
  ss_size :: int
  ss_win_n :: int
  ss_acc_name :: string
  ss_export_name :: string

record sg_pulse_plan =
  pp_slots :: "sg_state_slot_desc list"
  pp_commits :: "(int \<times> string) list"
  pp_total_bytes :: int
  pp_ref_to_slot :: "string \<Rightarrow> int option"

record sg_res_id =
  res_id :: string
  has_history_selector :: bool
  history_offset :: int

definition Create_ResId :: "string \<Rightarrow> sg_res_id" where
  "Create_ResId nm = \<lparr> res_id = nm, has_history_selector = False, history_offset = 0 \<rparr>"

definition CreateHistory :: "string \<Rightarrow> int \<Rightarrow> sg_res_id" where
  "CreateHistory nm offset = \<lparr> res_id = nm, has_history_selector = True, history_offset = offset \<rparr>"

text \<open>A variable of a binding; its name pointer may be null.\<close>

datatype 'ir sg_var =
  MkVar (sv_name: "sg_res_id option") (sv_type: styio_data_type) (sv_init: 'ir)
    (sv_dynamic_slot: bool) (sv_list_slot: bool)

text \<open>
  General nodes that denote values, and the two binding nodes (SGIR.hpp, SGResId to SGDynLoad).
  Fields in the order of the constructors' arguments there.
\<close>

datatype (plugins only: code size) 'ir sg_value =
    SGResId sg_res_id
  | SGType styio_data_type
  | SGConstBool bool
  | SGConstInt string nat
  | SGConstFloat string
  | SGConstChar char
  | SGConstString string
  | SGFormatString "string list" "'ir list"
  | SGStruct "sg_res_id option" "'ir sg_var list"
  | SGCast styio_data_type styio_data_type
  | SGBinOp styio_data_type 'ir 'ir styio_op_type styio_data_type styio_data_type
  | SGCond 'ir 'ir styio_op_type
  | SGVar "'ir sg_var"
  | SGFlexBind "'ir sg_var option" 'ir bool
  | SGFinalBind "'ir sg_var option" 'ir
  | SGDynLoad string sg_dyn_load_kind

text \<open>
  Functions, calls, native blocks and statement sequences (SGIR.hpp, SGFuncArg to SGMainEntry).
  A function's arguments are given with their names and types.
\<close>

datatype (plugins only: code size) 'ir sg_unit =
    SGFuncArg string styio_data_type
  | SGFunc styio_data_type sg_res_id "(string \<times> styio_data_type) list" "'ir list option"
  | SGCall sg_res_id "'ir list"
  | SGExportDecl "string list"
  | SGExternBlock string string
  | SGReturn 'ir
  | SGBlock "'ir list"
  | SGEntry "'ir list"
  | SGMainEntry "'ir list"

text \<open>
  Control flow, pulse state and the undefined-value algebra (SGIR.hpp, SGLoop to SGSnapshotShadowLoad).
\<close>

datatype (plugins only: code size) 'ir sg_control =
    SGLoop sg_loop_tag 'ir "'ir list option"
  | SGForEach 'ir string string "'ir list option" "sg_pulse_plan option" int
  | SGRangeFor 'ir 'ir 'ir string "'ir list option"
  | SGIf 'ir "'ir list option" "'ir list option"
  | SGStateSnapLoad int
  | SGStateHistLoad int int int
  | SGSeriesAvgStep int 'ir
  | SGSeriesMaxStep int 'ir
  | SGMatch 'ir "(int \<times> 'ir list option) list" "'ir list option" sg_match_repr_kind
  | SGBreak nat
  | SGContinue nat
  | SGUndef
  | SGFallback 'ir 'ir
  | SGWaveMerge 'ir 'ir 'ir
  | SGWaveDispatch 'ir 'ir 'ir
  | SGGuardSelect 'ir 'ir
  | SGEqProbe 'ir 'ir
  | SGSnapshotDecl string 'ir
  | SGSnapshotShadowLoad string

text \<open>
  Collections (SCIR.hpp).
\<close>

datatype (plugins only: code size) 'ir sc_node =
    SCListLiteral "'ir list" string
  | SCDictLiteral "('ir \<times> 'ir) list" string
  | SCMatrixLiteral "'ir list" string nat nat
  | SCListClone 'ir
  | SCListLen 'ir
  | SCListGet 'ir 'ir string
  | SCListSet 'ir 'ir 'ir string
  | SCListToString 'ir
  | SCMatrixGet 'ir 'ir 'ir string
  | SCMatrixRow 'ir 'ir string
  | SCMatrixToString 'ir
  | SCDictClone 'ir
  | SCDictLen 'ir
  | SCDictGet 'ir 'ir string
  | SCDictSet 'ir 'ir 'ir string
  | SCDictKeys 'ir
  | SCDictValues 'ir string
  | SCDictToString 'ir

text \<open>
  Files, standard streams and tasks (SIOIR.hpp, and IOIR.hpp for the last three).
\<close>

datatype (plugins only: code size) 'ir sio_node =
    SIOHandleAcquire string 'ir bool
  | SIOHandleRelease string 'ir bool bool
  | SIOFileLineIter bool 'ir string string "'ir list option" "sg_pulse_plan option" int
  | SIOStreamZip 'ir bool string 'ir bool string bool bool "'ir list option" "sg_pulse_plan option" int
  | SIOInstantPull 'ir
  | SIOListReadStdin string
  | SIOResourceWriteToFile 'ir 'ir bool bool bool
  | SIOStdStreamWrite std_write_stream "'ir list"
  | SIOStdStreamLineIter string "'ir list option" "sg_pulse_plan option" int
  | SIOStdStreamPull styio_data_type
  | SIOTaskCreate "'ir list option" styio_data_type
  | SIOFlowBind 'ir 'ir string styio_data_type bool bool
  | SIOPath string
  | SIOPrint "'ir list"
  | SIORead 'ir

datatype (plugins only: code size) styio_ir =
    NullIR
  | Val "styio_ir sg_value"
  | Fn "styio_ir sg_unit"
  | Ctl "styio_ir sg_control"
  | Coll "styio_ir sc_node"
  | Io "styio_ir sio_node"

end
