(* ===== verification/Styio_Optimizer.thy ===== *)
theory Styio_Optimizer
  imports Styio_IR
begin

text \<open>
  The IR optimizer (src/src/StyioLowering/StyioIROptimizer.cpp). Its one rewriting looks, in every
  statement sequence, for a match whose default arm binds a name to the expression matched on,
  takes that binding out of the arm, places it in front of the match and matches on the name.
  The functions below follow the C++ functions of the same names; a chain of casts is a case
  distinction.
\<close>

subsection \<open>Expressions\<close>

definition res_id_name :: "styio_ir \<Rightarrow> string option" where
  "res_id_name ir =
     (case ir of
        Val (SGResId r) \<Rightarrow> Some (res_id r)
      | Val (SGDynLoad nm k) \<Rightarrow> Some nm
      | _ \<Rightarrow> None)"

text \<open>Two null pointers are equal as pointers; other nodes are compared structurally.\<close>

fun ir_expr_equiv :: "styio_ir \<Rightarrow> styio_ir \<Rightarrow> bool" where
  "ir_expr_equiv lhs rhs =
     (case (lhs, rhs) of
        (NullIR, NullIR) \<Rightarrow> True
      | (Val (SGResId l), Val (SGResId r)) \<Rightarrow> res_id l = res_id r
      | (Val (SGDynLoad l kl), Val (SGDynLoad r kr)) \<Rightarrow> l = r \<and> kl = kr
      | (Val (SGConstBool l), Val (SGConstBool r)) \<Rightarrow> l = r
      | (Val (SGConstInt l nl), Val (SGConstInt r nr)) \<Rightarrow> l = r \<and> nl = nr
      | (Val (SGConstFloat l), Val (SGConstFloat r)) \<Rightarrow> l = r
      | (Val (SGConstString l), Val (SGConstString r)) \<Rightarrow> l = r
      | (Val (SGBinOp dt a b op ta tb), Val (SGBinOp dt' a' b' op' ta' tb')) \<Rightarrow>
          op = op' \<and> type_equals dt dt' \<and> type_equals ta ta' \<and> type_equals tb tb'
          \<and> ir_expr_equiv a a' \<and> ir_expr_equiv b b'
      | (Val (SGCond a b op), Val (SGCond a' b' op')) \<Rightarrow>
          op = op' \<and> ir_expr_equiv a a' \<and> ir_expr_equiv b b'
      | (Coll (SCListLen l), Coll (SCListLen r)) \<Rightarrow> ir_expr_equiv l r
      | (Coll (SCDictLen l), Coll (SCDictLen r)) \<Rightarrow> ir_expr_equiv l r
      | _ \<Rightarrow> False)"

declare ir_expr_equiv.simps [simp del]

definition is_speculatable_op :: "styio_op_type \<Rightarrow> bool" where
  "is_speculatable_op op \<longleftrightarrow>
     op \<in> {OP_Unary_Positive, OP_Unary_Negative, OP_Binary_Add, OP_Binary_Sub, OP_Binary_Mul,
           OP_Bitwise_NOT, OP_Bitwise_AND, OP_Bitwise_OR, OP_Bitwise_XOR, OP_Bitwise_Left_Shift, OP_Bitwise_Right_Shift,
           OP_Greater_Than, OP_Less_Than, OP_Greater_Than_Equal, OP_Less_Than_Equal, OP_Equal, OP_Not_Equal}"

fun ir_expr_is_speculatable :: "styio_ir \<Rightarrow> bool" where
  "ir_expr_is_speculatable ir =
     (case ir of
        NullIR \<Rightarrow> False
      | Val (SGResId r) \<Rightarrow> True
      | Val (SGDynLoad nm k) \<Rightarrow> True
      | Val (SGConstBool b) \<Rightarrow> True
      | Val (SGConstInt t n) \<Rightarrow> True
      | Val (SGConstFloat t) \<Rightarrow> True
      | Val (SGConstString t) \<Rightarrow> True
      | Val (SGBinOp dt a b op ta tb) \<Rightarrow>
          is_speculatable_op op \<and> ir_expr_is_speculatable a \<and> ir_expr_is_speculatable b
      | Val (SGCond a b op) \<Rightarrow>
          is_speculatable_op op \<and> ir_expr_is_speculatable a \<and> ir_expr_is_speculatable b
      | Coll (SCListLen l) \<Rightarrow> ir_expr_is_speculatable l
      | Coll (SCDictLen d) \<Rightarrow> ir_expr_is_speculatable d
      | _ \<Rightarrow> False)"

declare ir_expr_is_speculatable.simps [simp del]

fun ir_expr_has_no_runtime_effects :: "styio_ir \<Rightarrow> bool" where
  "ir_expr_has_no_runtime_effects ir =
     (case ir of
        NullIR \<Rightarrow> True
      | Val (SGResId r) \<Rightarrow> True
      | Val (SGDynLoad nm k) \<Rightarrow> True
      | Val (SGConstBool b) \<Rightarrow> True
      | Val (SGConstInt t n) \<Rightarrow> True
      | Val (SGConstFloat t) \<Rightarrow> True
      | Val (SGConstString t) \<Rightarrow> True
      | Val (SGCast t t') \<Rightarrow> True
      | Val (SGBinOp dt a b op ta tb) \<Rightarrow> ir_expr_has_no_runtime_effects a \<and> ir_expr_has_no_runtime_effects b
      | Val (SGCond a b op) \<Rightarrow> ir_expr_has_no_runtime_effects a \<and> ir_expr_has_no_runtime_effects b
      | Coll (SCListLen l) \<Rightarrow> ir_expr_has_no_runtime_effects l
      | Coll (SCDictLen d) \<Rightarrow> ir_expr_has_no_runtime_effects d
      | Coll (SCListGet l i t) \<Rightarrow> ir_expr_has_no_runtime_effects l \<and> ir_expr_has_no_runtime_effects i
      | Coll (SCDictGet d k t) \<Rightarrow> ir_expr_has_no_runtime_effects d \<and> ir_expr_has_no_runtime_effects k
      | Coll (SCMatrixGet m r c t) \<Rightarrow>
          ir_expr_has_no_runtime_effects m \<and> ir_expr_has_no_runtime_effects r \<and> ir_expr_has_no_runtime_effects c
      | Coll (SCMatrixRow m r t) \<Rightarrow> ir_expr_has_no_runtime_effects m \<and> ir_expr_has_no_runtime_effects r
      | _ \<Rightarrow> False)"

declare ir_expr_has_no_runtime_effects.simps [simp del]

fun stmt_is_rebind_hoist_transparent :: "styio_ir \<Rightarrow> bool" where
  "stmt_is_rebind_hoist_transparent ir =
     (case ir of
        NullIR \<Rightarrow> True
      | Val (SGFlexBind x v p) \<Rightarrow> ir_expr_has_no_runtime_effects v
      | Val (SGFinalBind x v) \<Rightarrow> ir_expr_has_no_runtime_effects v
      | Fn (SGBlock ss) \<Rightarrow> list_all stmt_is_rebind_hoist_transparent ss
      | _ \<Rightarrow> False)"

declare stmt_is_rebind_hoist_transparent.simps [simp del]

text \<open>The names an expression reads, as far as the optimizer looks.\<close>

fun collect_expr_reads :: "styio_ir \<Rightarrow> string set" where
  "collect_expr_reads ir =
     (case res_id_name ir of
        Some nm \<Rightarrow> {nm}
      | None \<Rightarrow>
          (case ir of
             Val (SGBinOp dt a b op ta tb) \<Rightarrow> collect_expr_reads a \<union> collect_expr_reads b
           | Val (SGCond a b op) \<Rightarrow> collect_expr_reads a \<union> collect_expr_reads b
           | Coll (SCListLen l) \<Rightarrow> collect_expr_reads l
           | Coll (SCDictLen d) \<Rightarrow> collect_expr_reads d
           | Coll (SCListGet l i t) \<Rightarrow> collect_expr_reads l \<union> collect_expr_reads i
           | Coll (SCDictGet d k t) \<Rightarrow> collect_expr_reads d \<union> collect_expr_reads k
           | _ \<Rightarrow> {}))"

declare collect_expr_reads.simps [simp del]

definition expr_reads_name :: "styio_ir \<Rightarrow> string \<Rightarrow> bool" where
  "expr_reads_name ir name \<longleftrightarrow> name \<in> collect_expr_reads ir"

subsection \<open>Statements\<close>

definition in_block :: "('ir \<Rightarrow> bool) \<Rightarrow> 'ir list option \<Rightarrow> bool" where
  "in_block p b = (case b of None \<Rightarrow> False | Some ss \<Rightarrow> list_ex p ss)"

lemma in_block_cong [fundef_cong]:
  "b = b' \<Longrightarrow> (\<And>ss s. b' = Some ss \<Longrightarrow> s \<in> set ss \<Longrightarrow> p s = q s) \<Longrightarrow> in_block p b = in_block q b'"
  by (auto simp: in_block_def list_ex_iff split: option.split)

definition binds_name :: "'ir sg_var option \<Rightarrow> string \<Rightarrow> bool" where
  "binds_name var name \<longleftrightarrow> Option.bind var (\<lambda>x. map_option res_id (sv_name x)) = Some name"

fun stmt_writes_name :: "styio_ir \<Rightarrow> string \<Rightarrow> bool" where
  "stmt_writes_name ir name =
     (case ir of
        Val (SGFlexBind x v p) \<Rightarrow> binds_name x name
      | Val (SGFinalBind x v) \<Rightarrow> binds_name x name
      | Coll (SCListSet l i v t) \<Rightarrow> res_id_name l = Some name
      | Coll (SCDictSet d k v t) \<Rightarrow> res_id_name d = Some name
      | Fn (SGBlock ss) \<Rightarrow> list_ex (\<lambda>s. stmt_writes_name s name) ss
      | Ctl (SGMatch e arms d k) \<Rightarrow>
          list_ex (\<lambda>(v, b). in_block (\<lambda>s. stmt_writes_name s name) b) arms
          \<or> in_block (\<lambda>s. stmt_writes_name s name) d
      | Ctl (SGLoop tag c b) \<Rightarrow> in_block (\<lambda>s. stmt_writes_name s name) b
      | Ctl (SGForEach it var et b pl rg) \<Rightarrow> var = name \<or> in_block (\<lambda>s. stmt_writes_name s name) b
      | Ctl (SGRangeFor f t st var b) \<Rightarrow> var = name \<or> in_block (\<lambda>s. stmt_writes_name s name) b
      | Ctl (SGIf c t e) \<Rightarrow> in_block (\<lambda>s. stmt_writes_name s name) t \<or> in_block (\<lambda>s. stmt_writes_name s name) e
      | _ \<Rightarrow> False)"

declare stmt_writes_name.simps [simp del]

definition stmt_writes_any :: "styio_ir \<Rightarrow> string set \<Rightarrow> bool" where
  "stmt_writes_any ir names \<longleftrightarrow> (\<exists>name\<in>names. stmt_writes_name ir name)"

fun stmt_reads_name :: "styio_ir \<Rightarrow> string \<Rightarrow> bool" where
  "stmt_reads_name ir name =
     (case ir of
        Val (SGFlexBind x v p) \<Rightarrow> expr_reads_name v name
      | Val (SGFinalBind x v) \<Rightarrow> expr_reads_name v name
      | Fn (SGBlock ss) \<Rightarrow> list_ex (\<lambda>s. stmt_reads_name s name) ss
      | Ctl (SGMatch e arms d k) \<Rightarrow>
          expr_reads_name e name
          \<or> list_ex (\<lambda>(v, b). in_block (\<lambda>s. stmt_reads_name s name) b) arms
          \<or> in_block (\<lambda>s. stmt_reads_name s name) d
      | Ctl (SGLoop tag c b) \<Rightarrow> expr_reads_name c name \<or> in_block (\<lambda>s. stmt_reads_name s name) b
      | Ctl (SGForEach it var et b pl rg) \<Rightarrow> expr_reads_name it name \<or> in_block (\<lambda>s. stmt_reads_name s name) b
      | Ctl (SGRangeFor f t st var b) \<Rightarrow>
          expr_reads_name f name \<or> expr_reads_name t name \<or> expr_reads_name st name
          \<or> in_block (\<lambda>s. stmt_reads_name s name) b
      | Ctl (SGIf c t e) \<Rightarrow>
          expr_reads_name c name
          \<or> in_block (\<lambda>s. stmt_reads_name s name) t \<or> in_block (\<lambda>s. stmt_reads_name s name) e
      | Coll (SCListSet l i v t) \<Rightarrow> expr_reads_name l name \<or> expr_reads_name i name \<or> expr_reads_name v name
      | Coll (SCDictSet d k v t) \<Rightarrow> expr_reads_name d name \<or> expr_reads_name k name \<or> expr_reads_name v name
      | Fn (SGReturn e) \<Rightarrow> expr_reads_name e name
      | _ \<Rightarrow> expr_reads_name ir name)"

declare stmt_reads_name.simps [simp del]

definition suffix_mentions_name :: "styio_ir list \<Rightarrow> nat \<Rightarrow> string \<Rightarrow> bool" where
  "suffix_mentions_name stmts first name \<longleftrightarrow>
     list_ex (\<lambda>s. stmt_reads_name s name \<or> stmt_writes_name s name) (drop first stmts)"

definition suffix_reads_name :: "styio_ir list \<Rightarrow> nat \<Rightarrow> string \<Rightarrow> bool" where
  "suffix_reads_name stmts first name \<longleftrightarrow> list_ex (\<lambda>s. stmt_reads_name s name) (drop first stmts)"

definition prefix_writes_name :: "styio_ir list \<Rightarrow> nat \<Rightarrow> string \<Rightarrow> bool" where
  "prefix_writes_name stmts stop name \<longleftrightarrow> list_ex (\<lambda>s. stmt_writes_name s name) (take stop stmts)"

subsection \<open>Hoisting\<close>

record default_rebind =
  dr_index :: nat
  dr_value :: styio_ir
  dr_bind :: styio_ir
  dr_name :: string

definition var_target :: "styio_ir sg_var option \<Rightarrow> string option" where
  "var_target var = Option.bind var (\<lambda>x. map_option res_id (sv_name x))"

definition prior_conflict :: "styio_ir list \<Rightarrow> nat \<Rightarrow> string \<Rightarrow> string set \<Rightarrow> bool" where
  "prior_conflict stmts i target scrutinee_deps \<longleftrightarrow>
     list_ex (\<lambda>s. stmt_reads_name s target \<or> stmt_writes_name s target
        \<or> stmt_writes_any s scrutinee_deps \<or> \<not> stmt_is_rebind_hoist_transparent s) (take i stmts)"

text \<open>One turn of the loop over the statements of the default arm.\<close>

definition rebind_at :: "styio_ir \<Rightarrow> styio_ir list \<Rightarrow> nat \<Rightarrow> default_rebind option" where
  "rebind_at scrutinee stmts i =
     (case stmts ! i of
        Val (SGFlexBind x v p) \<Rightarrow>
          (case var_target x of
             None \<Rightarrow> None
           | Some target \<Rightarrow>
               if ir_expr_equiv v scrutinee \<and> suffix_reads_name stmts (i + 1) target
                  \<and> \<not> prior_conflict stmts i target (collect_expr_reads scrutinee)
               then Some \<lparr> dr_index = i, dr_value = v, dr_bind = stmts ! i, dr_name = target \<rparr>
               else None)
      | _ \<Rightarrow> None)"

fun first_rebind :: "styio_ir \<Rightarrow> styio_ir list \<Rightarrow> nat list \<Rightarrow> default_rebind option" where
  "first_rebind scrutinee stmts [] = None"
| "first_rebind scrutinee stmts (i # is) =
     (case rebind_at scrutinee stmts i of Some r \<Rightarrow> Some r | None \<Rightarrow> first_rebind scrutinee stmts is)"

definition find_repeated_default_rebind :: "styio_ir \<Rightarrow> styio_ir list option \<Rightarrow> default_rebind option" where
  "find_repeated_default_rebind scrutinee default_arm =
     (case default_arm of
        None \<Rightarrow> None
      | Some stmts \<Rightarrow>
          if \<not> ir_expr_is_speculatable scrutinee then None
          else first_rebind scrutinee stmts [0..<length stmts])"

definition erase_at :: "nat \<Rightarrow> 'a list \<Rightarrow> 'a list" where
  "erase_at i xs = take i xs @ drop (Suc i) xs"

definition canonicalize_match_in_sequence :: "styio_ir list \<Rightarrow> nat \<Rightarrow> styio_ir" where
  "canonicalize_match_in_sequence owner_stmts match_index =
     (case owner_stmts ! match_index of
        Ctl (SGMatch scrutinee int_arms default_arm kind) \<Rightarrow>
          (case find_repeated_default_rebind scrutinee default_arm of
             None \<Rightarrow> owner_stmts ! match_index
           | Some rebind \<Rightarrow>
               if prefix_writes_name owner_stmts match_index (dr_name rebind) then owner_stmts ! match_index
               else if suffix_mentions_name owner_stmts (match_index + 1) (dr_name rebind) then owner_stmts ! match_index
               else
                 Fn (SGBlock
                   [dr_bind rebind,
                    Ctl (SGMatch (Val (SGResId (Create_ResId (dr_name rebind)))) int_arms
                           (map_option (erase_at (dr_index rebind)) default_arm) kind)]))
      | ir \<Rightarrow> ir)"

text \<open>The second loop of \<open>optimize_sequence\<close>: each statement sees the ones before it rewritten.\<close>

fun canonicalize_from :: "styio_ir list \<Rightarrow> nat list \<Rightarrow> styio_ir list" where
  "canonicalize_from stmts [] = stmts"
| "canonicalize_from stmts (i # is) =
     canonicalize_from (stmts[i := canonicalize_match_in_sequence stmts i]) is"

definition canonicalize_sequence :: "styio_ir list \<Rightarrow> styio_ir list" where
  "canonicalize_sequence stmts = canonicalize_from stmts [0..<length stmts]"

text \<open>\<open>Optimizer::optimize\<close> with \<open>optimize_sequence\<close>, \<open>optimize_block\<close> and \<open>optimize_children\<close>.\<close>

fun optimize :: "styio_ir \<Rightarrow> styio_ir" where
  "optimize ir =
     (case ir of
        NullIR \<Rightarrow> NullIR
      | Fn n \<Rightarrow> Fn (case n of
            SGBlock ss \<Rightarrow> SGBlock (canonicalize_sequence (map optimize ss))
          | SGMainEntry ss \<Rightarrow> SGMainEntry (canonicalize_sequence (map optimize ss))
          | SGEntry ss \<Rightarrow> SGEntry (canonicalize_sequence (map optimize ss))
          | SGReturn e \<Rightarrow> SGReturn (optimize e)
          | SGFunc t nm args b \<Rightarrow> SGFunc t nm args (map_option (\<lambda>ss. canonicalize_sequence (map optimize ss)) b)
          | SGCall nm args \<Rightarrow> SGCall nm (map optimize args)
          | _ \<Rightarrow> n)
      | Val n \<Rightarrow> Val (case n of
            SGFlexBind x v p \<Rightarrow> SGFlexBind x (optimize v) p
          | SGFinalBind x v \<Rightarrow> SGFinalBind x (optimize v)
          | SGBinOp dt a b op ta tb \<Rightarrow> SGBinOp dt (optimize a) (optimize b) op ta tb
          | SGCond a b op \<Rightarrow> SGCond (optimize a) (optimize b) op
          | _ \<Rightarrow> n)
      | Ctl n \<Rightarrow> Ctl (case n of
            SGLoop tag c b \<Rightarrow> SGLoop tag (optimize c) (map_option (\<lambda>ss. canonicalize_sequence (map optimize ss)) b)
          | SGForEach it var et b pl rg \<Rightarrow>
              SGForEach (optimize it) var et (map_option (\<lambda>ss. canonicalize_sequence (map optimize ss)) b) pl rg
          | SGRangeFor f t st var b \<Rightarrow>
              SGRangeFor (optimize f) (optimize t) (optimize st) var
                (map_option (\<lambda>ss. canonicalize_sequence (map optimize ss)) b)
          | SGIf c t e \<Rightarrow>
              SGIf (optimize c) (map_option (\<lambda>ss. canonicalize_sequence (map optimize ss)) t)
                (map_option (\<lambda>ss. canonicalize_sequence (map optimize ss)) e)
          | SGMatch e arms d k \<Rightarrow>
              SGMatch (optimize e)
                (map (\<lambda>(v, b). (v, map_option (\<lambda>ss. canonicalize_sequence (map optimize ss)) b)) arms)
                (map_option (\<lambda>ss. canonicalize_sequence (map optimize ss)) d) k
          | SGSeriesAvgStep i x \<Rightarrow> SGSeriesAvgStep i (optimize x)
          | SGSeriesMaxStep i x \<Rightarrow> SGSeriesMaxStep i (optimize x)
          | SGFallback p a \<Rightarrow> SGFallback (optimize p) (optimize a)
          | SGWaveMerge c t f \<Rightarrow> SGWaveMerge (optimize c) (optimize t) (optimize f)
          | SGWaveDispatch c t f \<Rightarrow> SGWaveDispatch (optimize c) (optimize t) (optimize f)
          | SGGuardSelect b g \<Rightarrow> SGGuardSelect (optimize b) (optimize g)
          | SGEqProbe b p \<Rightarrow> SGEqProbe (optimize b) (optimize p)
          | SGSnapshotDecl nm p \<Rightarrow> SGSnapshotDecl nm (optimize p)
          | _ \<Rightarrow> n)
      | Coll n \<Rightarrow> Coll (case n of
            SCListLiteral es t \<Rightarrow> SCListLiteral (map optimize es) t
          | SCDictLiteral es t \<Rightarrow> SCDictLiteral (map (\<lambda>(k, v). (optimize k, optimize v)) es) t
          | SCMatrixLiteral es t r c \<Rightarrow> SCMatrixLiteral (map optimize es) t r c
          | SCListClone l \<Rightarrow> SCListClone (optimize l)
          | SCListLen l \<Rightarrow> SCListLen (optimize l)
          | SCDictLen d \<Rightarrow> SCDictLen (optimize d)
          | SCListGet l i t \<Rightarrow> SCListGet (optimize l) (optimize i) t
          | SCDictGet d k t \<Rightarrow> SCDictGet (optimize d) (optimize k) t
          | SCListSet l i v t \<Rightarrow> SCListSet (optimize l) (optimize i) (optimize v) t
          | SCDictSet d k v t \<Rightarrow> SCDictSet (optimize d) (optimize k) (optimize v) t
          | SCListToString l \<Rightarrow> SCListToString (optimize l)
          | SCMatrixGet m r c t \<Rightarrow> SCMatrixGet (optimize m) (optimize r) (optimize c) t
          | SCMatrixRow m r t \<Rightarrow> SCMatrixRow (optimize m) (optimize r) t
          | SCMatrixToString m \<Rightarrow> SCMatrixToString (optimize m)
          | SCDictClone d \<Rightarrow> SCDictClone (optimize d)
          | SCDictKeys d \<Rightarrow> SCDictKeys (optimize d)
          | SCDictValues d t \<Rightarrow> SCDictValues (optimize d) t
          | SCDictToString d \<Rightarrow> SCDictToString (optimize d))
      | Io n \<Rightarrow> Io (case n of
            SIOHandleAcquire nm p a \<Rightarrow> SIOHandleAcquire nm (optimize p) a
          | SIOHandleRelease nm p a fp \<Rightarrow> SIOHandleRelease nm (optimize p) a fp
          | SIOFileLineIter fp p hv lv b pl rg \<Rightarrow>
              SIOFileLineIter fp (optimize p) hv lv (map_option (\<lambda>ss. canonicalize_sequence (map optimize ss)) b) pl rg
          | SIOStreamZip a fa va b fb vb sa sb bd pl rg \<Rightarrow>
              SIOStreamZip (optimize a) fa va (optimize b) fb vb sa sb
                (map_option (\<lambda>ss. canonicalize_sequence (map optimize ss)) bd) pl rg
          | SIOInstantPull p \<Rightarrow> SIOInstantPull (optimize p)
          | SIOResourceWriteToFile d p a pr nl \<Rightarrow> SIOResourceWriteToFile (optimize d) (optimize p) a pr nl
          | SIOStdStreamWrite st es \<Rightarrow> SIOStdStreamWrite st (map optimize es)
          | SIOStdStreamLineIter lv b pl rg \<Rightarrow>
              SIOStdStreamLineIter lv (map_option (\<lambda>ss. canonicalize_sequence (map optimize ss)) b) pl rg
          | SIOPrint es \<Rightarrow> SIOPrint (map optimize es)
          | SIORead p \<Rightarrow> SIORead (optimize p)
          | _ \<Rightarrow> n))"

declare optimize.simps [simp del]

definition optimize_styio_ir :: "styio_ir \<Rightarrow> styio_ir" where
  "optimize_styio_ir root = optimize root"

end
