(* ===== verification/Styio_IRSemantics.thy ===== *)
theory Styio_IRSemantics
  imports Styio_IR Styio_RuntimeText "HOL-Library.Word" "HOL-Library.Signed_Division"
begin

text \<open>
  What the code generated for an IR program does (src/src/StyioCodeGen/CodeGenG.cpp and the
  printing of CodeGenIO.cpp), for integer and boolean values, scalar variables and structured
  control flow. \<open>generate\<close> follows the generator at compile time: the names it knows, where it throws,
  and where a block is already terminated. \<open>eval\<close> and \<open>exec\<close> follow the instructions it emits. A
  result of \<open>None\<close> stands for a compile error, for undefined behaviour of the emitted code (an
  uninitialised slot, division by zero) and for what is outside this model: floating point, strings,
  collections, dynamic slots, bounded rings, calls and matches used as expressions. Values are not
  checked against the type of the slot they are stored to: the IR is taken to be well typed, and a
  value bound with \<open>:=\<close> to be used only where its definition dominates, as LLVM's verifier demands.
\<close>

subsection \<open>Values\<close>

datatype ir_value = VI "64 word" | VB bool

definition styio_undef_i64 :: "64 word" where
  "styio_undef_i64 = word_of_int i64_min"

text \<open>A condition that is not of type \<open>i1\<close> is compared with zero.\<close>

fun truth :: "ir_value \<Rightarrow> bool" where
  "truth (VB b) = b"
| "truth (VI w) = (w \<noteq> 0)"

text \<open>Sign extension of a narrower integer to 64 bits.\<close>

fun widen :: "ir_value \<Rightarrow> 64 word" where
  "widen (VI w) = w"
| "widen (VB b) = (if b then - 1 else 0)"

fun arith_i64 :: "(64 word \<Rightarrow> 64 word \<Rightarrow> 64 word option) \<Rightarrow> ir_value \<Rightarrow> ir_value \<Rightarrow> ir_value option" where
  "arith_i64 f (VI a) (VI b) =
     map_option (\<lambda>r. VI (if a = styio_undef_i64 \<or> b = styio_undef_i64 then styio_undef_i64 else r)) (f a b)"
| "arith_i64 f _ _ = None"

text \<open>Signed division and remainder are undefined for a zero divisor and on overflow.\<close>

definition signed_op :: "(int \<Rightarrow> int \<Rightarrow> int) \<Rightarrow> 64 word \<Rightarrow> 64 word \<Rightarrow> 64 word option" where
  "signed_op f a b =
     (if b = 0 \<or> (a = styio_undef_i64 \<and> b = - 1) then None else Some (word_of_int (f (sint a) (sint b))))"

fun compare_i64 :: "(64 word \<Rightarrow> 64 word \<Rightarrow> bool) \<Rightarrow> ir_value \<Rightarrow> ir_value \<Rightarrow> ir_value option" where
  "compare_i64 f (VI a) (VI b) = Some (VB (f a b))"
| "compare_i64 f _ _ = None"

fun equal_values :: "ir_value \<Rightarrow> ir_value \<Rightarrow> bool option" where
  "equal_values (VI a) (VI b) = Some (a = b)"
| "equal_values (VB a) (VB b) = Some (a = b)"
| "equal_values _ _ = None"

definition bin_op :: "styio_data_type \<Rightarrow> styio_op_type \<Rightarrow> ir_value \<Rightarrow> ir_value \<Rightarrow> ir_value option" where
  "bin_op dt op x y =
     (if styio_is_matrix_type dt then None
      else case op of
        OP_Binary_Add \<Rightarrow>
          if dt_option dt = DT_String \<or> isFloat dt then None else arith_i64 (\<lambda>a b. Some (a + b)) x y
      | OP_Binary_Sub \<Rightarrow> if isFloat dt then None else arith_i64 (\<lambda>a b. Some (a - b)) x y
      | OP_Binary_Mul \<Rightarrow> if isFloat dt then None else arith_i64 (\<lambda>a b. Some (a * b)) x y
      | OP_Binary_Div \<Rightarrow> if isFloat dt then None else arith_i64 (signed_op (sdiv)) x y
      | OP_Binary_Mod \<Rightarrow> if isFloat dt then None else arith_i64 (signed_op (smod)) x y
      | OP_Equal \<Rightarrow> map_option VB (equal_values x y)
      | OP_Not_Equal \<Rightarrow> map_option (\<lambda>e. VB (\<not> e)) (equal_values x y)
      | OP_Greater_Than \<Rightarrow> compare_i64 (\<lambda>a b. sint b < sint a) x y
      | OP_Greater_Than_Equal \<Rightarrow> compare_i64 (\<lambda>a b. sint b \<le> sint a) x y
      | OP_Less_Than \<Rightarrow> compare_i64 (\<lambda>a b. sint a < sint b) x y
      | OP_Less_Than_Equal \<Rightarrow> compare_i64 (\<lambda>a b. sint a \<le> sint b) x y
      | _ \<Rightarrow> None)"

definition cond_op :: "styio_op_type \<Rightarrow> ir_value \<Rightarrow> ir_value \<Rightarrow> ir_value option" where
  "cond_op op l r =
     (case op of
        OP_Logic_AND \<Rightarrow> Some (case (l, r) of
            (VB b, VI w) \<Rightarrow> VI (if b then w else 0)
          | (VI w, VB b) \<Rightarrow> VI (if b then w else 0)
          | _ \<Rightarrow> VB (truth l \<and> truth r))
      | OP_Logic_NOT \<Rightarrow> Some (VB (\<not> truth l))
      | OP_Logic_XOR \<Rightarrow> Some (VB (truth l \<noteq> truth r))
      | OP_Logic_OR \<Rightarrow> Some (VB (truth l \<or> truth r))
      | _ \<Rightarrow> None)"

text \<open>\<open>SGWaveMerge\<close>: both values are computed, one is selected; their types agree.\<close>

fun select_value :: "bool \<Rightarrow> ir_value \<Rightarrow> ir_value \<Rightarrow> ir_value option" where
  "select_value c (VI t) (VI f) = Some (VI (if c then t else f))"
| "select_value c (VB t) (VB f) = Some (VB (if c then t else f))"
| "select_value c _ _ = None"

fun fallback_value :: "ir_value \<Rightarrow> ir_value \<Rightarrow> ir_value" where
  "fallback_value (VI p) (VI a) = VI (if p = styio_undef_i64 then a else p)"
| "fallback_value p a = p"

subsection \<open>Expressions\<close>

text \<open>What the generator knows of a name: a slot in \<open>mutable_variables\<close>, or a value in \<open>named_values\<close>.\<close>

datatype binding = Mutable | Named

type_synonym names_env = "string \<Rightarrow> binding option"
type_synonym store = "string \<Rightarrow> ir_value option"

text \<open>\<open>std::stoll\<close> on the text of a constant; it throws where there is no number or it is out of range.\<close>

definition const_int :: "string \<Rightarrow> 64 word option" where
  "const_int t = (case strtoll t of Some (v, erange, n) \<Rightarrow> if erange then None else Some (word_of_int v) | None \<Rightarrow> None)"

fun eval :: "names_env \<Rightarrow> store \<Rightarrow> styio_ir \<Rightarrow> ir_value option" where
  "eval K \<sigma> ir =
     (case ir of
        Val (SGResId r) \<Rightarrow> if K (res_id r) = None then Some (VI 0) else \<sigma> (res_id r)
      | Val (SGConstBool b) \<Rightarrow> Some (VB b)
      | Val (SGConstInt t n) \<Rightarrow> map_option VI (const_int t)
      | Val (SGBinOp dt a b op ta tb) \<Rightarrow>
          Option.bind (eval K \<sigma> a) (\<lambda>x. Option.bind (eval K \<sigma> b) (\<lambda>y. bin_op dt op x y))
      | Val (SGCond a b op) \<Rightarrow>
          Option.bind (eval K \<sigma> a) (\<lambda>x. Option.bind (eval K \<sigma> b) (\<lambda>y. cond_op op x y))
      | Ctl SGUndef \<Rightarrow> Some (VI styio_undef_i64)
      | Ctl (SGFallback p a) \<Rightarrow>
          Option.bind (eval K \<sigma> p) (\<lambda>x. map_option (fallback_value x) (eval K \<sigma> a))
      | Ctl (SGWaveMerge c t f) \<Rightarrow>
          Option.bind (eval K \<sigma> c) (\<lambda>b. Option.bind (eval K \<sigma> t) (\<lambda>x.
            Option.bind (eval K \<sigma> f) (\<lambda>y. select_value (truth b) x y)))
      | Ctl (SGGuardSelect b g) \<Rightarrow>
          Option.bind (eval K \<sigma> b) (\<lambda>x. Option.bind (eval K \<sigma> g) (\<lambda>c.
            select_value (truth c) x (VI styio_undef_i64)))
      | Ctl (SGEqProbe b p) \<Rightarrow>
          Option.bind (eval K \<sigma> b) (\<lambda>x. Option.bind (eval K \<sigma> p) (\<lambda>y.
            Option.bind (equal_values x y) (\<lambda>e. select_value e x (VI styio_undef_i64))))
      | _ \<Rightarrow> None)"

declare eval.simps [simp del]

subsection \<open>What the generator knows after a statement\<close>

text \<open>Statements of a block are generated until one of them has terminated the block.\<close>

primrec emit_until :: "('s \<Rightarrow> 'k \<Rightarrow> ('k \<times> bool) option) \<Rightarrow> 's list \<Rightarrow> 'k \<Rightarrow> ('k \<times> bool) option" where
  "emit_until f [] K = Some (K, False)"
| "emit_until f (s # ss) K =
     (case f s K of
        None \<Rightarrow> None
      | Some (K', t) \<Rightarrow> if t then Some (K', True) else emit_until f ss K')"

lemma emit_until_cong [fundef_cong]:
  "ss = ss' \<Longrightarrow> K = K' \<Longrightarrow> (\<And>s L. s \<in> set ss' \<Longrightarrow> f s L = g s L) \<Longrightarrow> emit_until f ss K = emit_until g ss' K'"
  by (induction ss arbitrary: ss' K K') (auto split: option.split)

definition block_stmts :: "'ir list option \<Rightarrow> 'ir list" where
  "block_stmts b = (case b of None \<Rightarrow> [] | Some ss \<Rightarrow> ss)"

lemma size_block_stmts [termination_simp]:
  assumes "s \<in> set (block_stmts b)"
  shows "size s < size_option (size_list size) b"
proof -
  from assms obtain ss where "b = Some ss" "s \<in> set ss" by (auto simp: block_stmts_def split: option.splits)
  with size_list_estimation' [of s ss "size s" size] show ?thesis by simp
qed

lemma size_arm_stmts [termination_simp]:
  assumes "(v, b) \<in> set arms" "s \<in> set (block_stmts b)"
  shows "size s < size_list (size_prod f (size_option (size_list size))) arms"
  using size_block_stmts [OF assms(2)] size_list_estimation' [OF assms(1), of _ "size_prod f (size_option (size_list size))"]
  by fastforce

definition target_of :: "styio_ir sg_var option \<Rightarrow> string option" where
  "target_of var = Option.bind var (\<lambda>x. if sv_dynamic_slot x then None else map_option res_id (sv_name x))"

definition kStyioBoundedRingPrefix :: string where
  "kStyioBoundedRingPrefix = ''bounded_ring:''"

definition may_be_ring :: "styio_ir sg_var option \<Rightarrow> bool" where
  "may_be_ring var \<longleftrightarrow> (case var of None \<Rightarrow> False | Some x \<Rightarrow>
     dt_option (sv_type x) = DT_Defined \<and> starts_with (dt_name (sv_type x)) kStyioBoundedRingPrefix)"

text \<open>
  \<open>generate d\<close> is used inside \<open>d\<close> loops. A binding with \<open>=\<close> of an immutable name and a second binding with
  \<open>:=\<close> are compile errors; a \<open>:=\<close> or loop variable that hides a mutable name is outside the model.
\<close>

fun generate :: "nat \<Rightarrow> styio_ir \<Rightarrow> names_env \<Rightarrow> (names_env \<times> bool) option" where
  "generate d ir K =
     (case ir of
        Val (SGFlexBind x v p) \<Rightarrow>
          (case target_of x of
             None \<Rightarrow> None
           | Some n \<Rightarrow> if K n = Some Named then None else Some (K(n \<mapsto> Mutable), False))
      | Val (SGFinalBind x v) \<Rightarrow>
          (case target_of x of
             None \<Rightarrow> None
           | Some n \<Rightarrow> if K n \<noteq> None \<or> may_be_ring x then None else Some (K(n \<mapsto> Named), False))
      | Fn (SGBlock ss) \<Rightarrow> emit_until (generate d) ss K
      | Fn (SGReturn e) \<Rightarrow> Some (K, True)
      | Ctl (SGBreak n) \<Rightarrow> Some (K, 0 < d)
      | Ctl (SGContinue n) \<Rightarrow> Some (K, 0 < n \<and> n \<le> d)
      | Ctl (SGIf c t e) \<Rightarrow>
          map_option (\<lambda>K. (fst K, False))
            (Option.bind (emit_until (generate d) (block_stmts t) K) (\<lambda>(K, _). emit_until (generate d) (block_stmts e) K))
      | Ctl (SGLoop tag c b) \<Rightarrow>
          map_option (\<lambda>K. (fst K, False)) (emit_until (generate (Suc d)) (block_stmts b) K)
      | Ctl (SGRangeFor f t st var b) \<Rightarrow>
          if K var \<noteq> None then None
          else map_option (\<lambda>K. (fst K, False)) (emit_until (generate (Suc d)) (block_stmts b) (K(var \<mapsto> Mutable)))
      | Ctl (SGMatch e arms dflt k) \<Rightarrow>
          if k \<noteq> MK_Stmt then None
          else map_option (\<lambda>K. (fst K, False))
            (Option.bind
              (emit_until (\<lambda>(v, b) K. map_option (\<lambda>K. (fst K, False)) (emit_until (generate d) (block_stmts b) K)) arms K)
              (\<lambda>(K, _). emit_until (generate d) (block_stmts dflt) K))
      | _ \<Rightarrow> Some (K, False))"

declare generate.simps [simp del]

subsection \<open>Running a program\<close>

datatype flow = Normal | Broke | Continued nat | Returned ir_value

record ir_state =
  ir_store :: store
  ir_out :: string

text \<open>\<open>emit_std_stream_write_parts\<close>: \<open>@\<close> stands for the undefined value.\<close>

fun shown :: "ir_value \<Rightarrow> string" where
  "shown (VB b) = (if b then ''true'' else ''false'')"
| "shown (VI w) = (if w = styio_undef_i64 then ''@'' else to_string_int (sint w))"

fun print_all :: "names_env \<Rightarrow> styio_ir list \<Rightarrow> ir_state \<Rightarrow> ir_state option" where
  "print_all K [] s = Some s"
| "print_all K (e # es) s =
     (case eval K (ir_store s) e of
        None \<Rightarrow> None
      | Some v \<Rightarrow> print_all K es (s \<lparr> ir_out := ir_out s @ shown v \<rparr>))"

definition assign :: "string \<Rightarrow> ir_value option \<Rightarrow> ir_state \<Rightarrow> ir_state" where
  "assign n v s = s \<lparr> ir_store := (ir_store s)(n := v) \<rparr>"

text \<open>The compound assignments: \<open>do_self_assign\<close> on an integer slot, without the undefined-value test.\<close>

definition self_op :: "styio_op_type \<Rightarrow> (64 word \<Rightarrow> 64 word \<Rightarrow> 64 word option) option" where
  "self_op op =
     (case op of
        OP_Self_Add_Assign \<Rightarrow> Some (\<lambda>a b. Some (a + b))
      | OP_Self_Sub_Assign \<Rightarrow> Some (\<lambda>a b. Some (a - b))
      | OP_Self_Mul_Assign \<Rightarrow> Some (\<lambda>a b. Some (a * b))
      | OP_Self_Div_Assign \<Rightarrow> Some (signed_op (sdiv))
      | OP_Self_Mod_Assign \<Rightarrow> Some (signed_op (smod))
      | _ \<Rightarrow> None)"

definition self_assign :: "names_env \<Rightarrow> styio_ir \<Rightarrow> (64 word \<Rightarrow> 64 word \<Rightarrow> 64 word option) \<Rightarrow> ir_value \<Rightarrow> ir_state \<Rightarrow> ir_state option" where
  "self_assign K lhs f r s =
     (case lhs of
        Val (SGResId n) \<Rightarrow>
          if K (res_id n) \<noteq> Some Mutable then None
          else (case (ir_store s (res_id n), r) of
              (Some (VI a), VI b) \<Rightarrow> map_option (\<lambda>w. assign (res_id n) (Some (VI w)) s) (f a b)
            | _ \<Rightarrow> None)
      | _ \<Rightarrow> None)"

text \<open>A statement without control flow; an expression statement is evaluated and its value dropped.\<close>

definition exec_simple :: "names_env \<Rightarrow> styio_ir \<Rightarrow> ir_state \<Rightarrow> ir_state option" where
  "exec_simple K ir s =
     (case ir of
        Val (SGFlexBind x v p) \<Rightarrow>
          (case target_of x of
             None \<Rightarrow> None
           | Some n \<Rightarrow> map_option (\<lambda>w. assign n (Some w) s) (eval (K(n \<mapsto> Mutable)) (ir_store s) v))
      | Val (SGFinalBind x v) \<Rightarrow>
          (case target_of x of
             None \<Rightarrow> None
           | Some n \<Rightarrow> map_option (\<lambda>w. assign n (Some w) s) (eval K (ir_store s) v))
      | Val (SGBinOp dt a b op ta tb) \<Rightarrow>
          (case self_op op of
             Some f \<Rightarrow> Option.bind (eval K (ir_store s) b) (\<lambda>r. self_assign K a f r s)
           | None \<Rightarrow> map_option (\<lambda>_. s) (eval K (ir_store s) ir))
      | Io (SIOPrint es) \<Rightarrow> print_all K es s
      | Fn (SGFunc t nm args b) \<Rightarrow> Some s
      | Fn (SGExportDecl ns) \<Rightarrow> Some s
      | Fn (SGExternBlock a b) \<Rightarrow> Some s
      | _ \<Rightarrow> map_option (\<lambda>_. s) (eval K (ir_store s) ir))"

text \<open>The arm a switch takes, with the names known where it is generated.\<close>

fun pick_arm :: "nat \<Rightarrow> (int \<times> styio_ir list option) list \<Rightarrow> styio_ir list option \<Rightarrow> 64 word \<Rightarrow> names_env
    \<Rightarrow> (names_env \<times> styio_ir list) option" where
  "pick_arm d [] dflt w K = Some (K, block_stmts dflt)"
| "pick_arm d ((v, b) # arms) dflt w K =
     (if word_of_int v = w then Some (K, block_stmts b)
      else Option.bind (emit_until (generate d) (block_stmts b) K) (\<lambda>(K', _). pick_arm d arms dflt w K'))"

definition range_go :: "64 word \<Rightarrow> 64 word \<Rightarrow> 64 word \<Rightarrow> bool" where
  "range_go cur stop step \<longleftrightarrow>
     step \<noteq> 0 \<and> (if 0 < sint step then sint cur \<le> sint stop else sint stop \<le> sint cur)"

text \<open>What a loop does with the way its body ended: go on, or end in a way of its own.\<close>

definition after_body :: "flow \<Rightarrow> flow option" where
  "after_body f =
     (case f of
        Normal \<Rightarrow> None
      | Continued n \<Rightarrow> if n \<le> 1 then None else Some (Continued (n - 1))
      | Broke \<Rightarrow> Some Normal
      | Returned v \<Rightarrow> Some (Returned v))"

type_synonym result = "(flow \<times> ir_state) option"

text \<open>The statements of a block, run by \<open>run\<close>, each with the names known where it is generated.\<close>

primrec run_seq :: "nat \<Rightarrow> (names_env \<Rightarrow> styio_ir \<Rightarrow> ir_state \<Rightarrow> result) \<Rightarrow> styio_ir list \<Rightarrow> names_env \<Rightarrow> ir_state \<Rightarrow> result" where
  "run_seq d run [] K s = Some (Normal, s)"
| "run_seq d run (ir # ss) K s =
     (case generate d ir K of
        None \<Rightarrow> None
      | Some (K', t) \<Rightarrow>
          (case run K ir s of
             None \<Rightarrow> None
           | Some (f, s') \<Rightarrow> if f = Normal \<and> \<not> t then run_seq d run ss K' s' else Some (f, s')))"

primrec run_loop :: "nat \<Rightarrow> (ir_state \<Rightarrow> ir_value option) \<Rightarrow> (ir_state \<Rightarrow> result) \<Rightarrow> ir_state \<Rightarrow> result" where
  "run_loop 0 test body s = None"
| "run_loop (Suc n) test body s =
     (case test s of
        None \<Rightarrow> None
      | Some v \<Rightarrow>
          if \<not> truth v then Some (Normal, s)
          else
            (case body s of
               None \<Rightarrow> None
             | Some (f, s') \<Rightarrow>
                 (case after_body f of Some f' \<Rightarrow> Some (f', s') | None \<Rightarrow> run_loop n test body s')))"

primrec run_range :: "nat \<Rightarrow> string \<Rightarrow> 64 word \<Rightarrow> 64 word \<Rightarrow> (ir_state \<Rightarrow> result) \<Rightarrow> 64 word \<Rightarrow> ir_state \<Rightarrow> result" where
  "run_range 0 var stop step body cur s = None"
| "run_range (Suc n) var stop step body cur s =
     (if \<not> range_go cur stop step then Some (Normal, s)
      else
        (case body (assign var (Some (VI cur)) s) of
           None \<Rightarrow> None
         | Some (f, s') \<Rightarrow>
             (case after_body f of
                Some f' \<Rightarrow> Some (f', s')
              | None \<Rightarrow> run_range n var stop step body (cur + step) s')))"

text \<open>One statement, its parts run by \<open>run\<close> and its loops at most \<open>n\<close> times.\<close>

definition exec_stmt :: "nat \<Rightarrow> (nat \<Rightarrow> names_env \<Rightarrow> styio_ir \<Rightarrow> ir_state \<Rightarrow> result) \<Rightarrow> nat \<Rightarrow> names_env \<Rightarrow> styio_ir \<Rightarrow> ir_state \<Rightarrow> result" where
  "exec_stmt n run d K ir s =
     (case ir of
        Fn (SGBlock ss) \<Rightarrow> run_seq d (run d) ss K s
      | Fn (SGReturn e) \<Rightarrow> map_option (\<lambda>v. (Returned v, s)) (eval K (ir_store s) e)
      | Ctl (SGBreak k) \<Rightarrow> Some (if 0 < d then Broke else Normal, s)
      | Ctl (SGContinue k) \<Rightarrow> Some (if 0 < k \<and> k \<le> d then Continued k else Normal, s)
      | Ctl (SGIf c t e) \<Rightarrow>
          (case eval K (ir_store s) c of
             None \<Rightarrow> None
           | Some v \<Rightarrow>
               if truth v then run_seq d (run d) (block_stmts t) K s
               else Option.bind (emit_until (generate d) (block_stmts t) K)
                 (\<lambda>(K', _). run_seq d (run d) (block_stmts e) K' s))
      | Ctl (SGLoop tag c b) \<Rightarrow>
          run_loop n (\<lambda>s. if tag = Loop_Infinite then Some (VB True) else eval K (ir_store s) c)
            (run_seq (Suc d) (run (Suc d)) (block_stmts b) K) s
      | Ctl (SGRangeFor from_e to_e step_e var b) \<Rightarrow>
          (case (eval K (ir_store s) from_e, eval K (ir_store s) to_e, eval K (ir_store s) step_e) of
             (Some x, Some y, Some z) \<Rightarrow>
               run_range n var (widen y) (widen z)
                 (run_seq (Suc d) (run (Suc d)) (block_stmts b) (K(var \<mapsto> Mutable))) (widen x) (assign var None s)
           | _ \<Rightarrow> None)
      | Ctl (SGMatch e arms dflt k) \<Rightarrow>
          (case (if arms = [] then Some (VI 0) else eval K (ir_store s) e) of
             None \<Rightarrow> None
           | Some v \<Rightarrow>
               Option.bind (pick_arm d arms dflt (widen v) K) (\<lambda>(K', ss). run_seq d (run d) ss K' s))
      | _ \<Rightarrow> map_option (\<lambda>s'. (Normal, s')) (exec_simple K ir s))"

primrec exec :: "nat \<Rightarrow> nat \<Rightarrow> names_env \<Rightarrow> styio_ir \<Rightarrow> ir_state \<Rightarrow> result" where
  "exec 0 = (\<lambda>d K ir s. None)"
| "exec (Suc n) = exec_stmt n (exec n)"

text \<open>
  The main entry: its statements in order, and what the program printed. Export declarations,
  native blocks and functions generate no code there.
\<close>

definition run_main :: "nat \<Rightarrow> styio_ir \<Rightarrow> (flow \<times> string) option" where
  "run_main n ir =
     (case ir of
        Fn (SGMainEntry ss) \<Rightarrow>
          map_option (\<lambda>(f, s). (f, ir_out s))
            (run_seq 0 (exec n 0) ss Map.empty \<lparr> ir_store = Map.empty, ir_out = [] \<rparr>)
      | _ \<Rightarrow> None)"

end
