(* ===== verification/Styio_Hoisting.thy ===== *)
theory Styio_Hoisting
  imports Styio_Optimizer Styio_IRSemantics
begin

text \<open>
  What the proof about the optimizer needs to know of the semantics: the names an expression reads
  and a statement mentions, that other names do not matter to the generator (\<open>know\<close>) nor to the run
  (\<open>put\<close>), that more fuel changes nothing, and a description (\<open>becomes\<close>) of what the optimizer makes of
  every statement of a sequence.
\<close>

subsection \<open>Names in the modelled part of the IR\<close>

fun ir_reads :: "styio_ir \<Rightarrow> string set" where
  "ir_reads ir =
     (case ir of
        Val (SGResId r) \<Rightarrow> {res_id r}
      | Val (SGBinOp dt a b op ta tb) \<Rightarrow> ir_reads a \<union> ir_reads b
      | Val (SGCond a b op) \<Rightarrow> ir_reads a \<union> ir_reads b
      | Ctl (SGFallback p a) \<Rightarrow> ir_reads p \<union> ir_reads a
      | Ctl (SGWaveMerge c t f) \<Rightarrow> ir_reads c \<union> ir_reads t \<union> ir_reads f
      | Ctl (SGGuardSelect b g) \<Rightarrow> ir_reads b \<union> ir_reads g
      | Ctl (SGEqProbe b p) \<Rightarrow> ir_reads b \<union> ir_reads p
      | _ \<Rightarrow> {})"

declare ir_reads.simps [simp del]

fun mentions :: "styio_ir \<Rightarrow> string set" where
  "mentions ir =
     (case ir of
        Val (SGFlexBind x v p) \<Rightarrow> set_option (target_of x) \<union> ir_reads v
      | Val (SGFinalBind x v) \<Rightarrow> set_option (target_of x) \<union> ir_reads v
      | Fn (SGBlock ss) \<Rightarrow> (\<Union>s\<in>set ss. mentions s)
      | Fn (SGReturn e) \<Rightarrow> ir_reads e
      | Ctl (SGIf c t e) \<Rightarrow>
          ir_reads c \<union> (\<Union>s\<in>set (block_stmts t). mentions s) \<union> (\<Union>s\<in>set (block_stmts e). mentions s)
      | Ctl (SGLoop tag c b) \<Rightarrow> ir_reads c \<union> (\<Union>s\<in>set (block_stmts b). mentions s)
      | Ctl (SGRangeFor f t st var b) \<Rightarrow>
          insert var (ir_reads f \<union> ir_reads t \<union> ir_reads st \<union> (\<Union>s\<in>set (block_stmts b). mentions s))
      | Ctl (SGMatch e arms dflt k) \<Rightarrow>
          ir_reads e \<union> (\<Union>(v, b)\<in>set arms. \<Union>s\<in>set (block_stmts b). mentions s)
          \<union> (\<Union>s\<in>set (block_stmts dflt). mentions s)
      | Io (SIOPrint es) \<Rightarrow> (\<Union>e\<in>set es. ir_reads e)
      | _ \<Rightarrow> ir_reads ir)"

declare mentions.simps [simp del]

subsection \<open>Expressions\<close>

named_theorems ir_cases "the recursive functions on the constructors of the modelled part"

lemmas eval_unfold [ir_cases] =
  eval.simps [of _ _ "NullIR", simplified]
  eval.simps [of _ _ "Val n" for n, simplified]
  eval.simps [of _ _ "Fn n" for n, simplified]
  eval.simps [of _ _ "Ctl n" for n, simplified]
  eval.simps [of _ _ "Coll n" for n, simplified]
  eval.simps [of _ _ "Io n" for n, simplified]

lemmas ir_reads_unfold [ir_cases] =
  ir_reads.simps [of "NullIR", simplified]
  ir_reads.simps [of "Val n" for n, simplified]
  ir_reads.simps [of "Fn n" for n, simplified]
  ir_reads.simps [of "Ctl n" for n, simplified]
  ir_reads.simps [of "Coll n" for n, simplified]
  ir_reads.simps [of "Io n" for n, simplified]

lemmas optimize_unfold [ir_cases] =
  optimize.simps [of "NullIR", simplified]
  optimize.simps [of "Val n" for n, simplified]
  optimize.simps [of "Fn n" for n, simplified]
  optimize.simps [of "Ctl n" for n, simplified]
  optimize.simps [of "Coll n" for n, simplified]
  optimize.simps [of "Io n" for n, simplified]

text \<open>Induction over the modelled expressions; \<open>Other\<close> is everything without a value.\<close>

lemma expr_induct [case_names ResId Bool Int BinOp Cond Undef Fallback Wave Guard Probe Other]:
  assumes "\<And>r. P (Val (SGResId r))" "\<And>c. P (Val (SGConstBool c))" "\<And>t n. P (Val (SGConstInt t n))"
    "\<And>dt a b op ta tb. P a \<Longrightarrow> P b \<Longrightarrow> P (Val (SGBinOp dt a b op ta tb))"
    "\<And>a b op. P a \<Longrightarrow> P b \<Longrightarrow> P (Val (SGCond a b op))" "P (Ctl SGUndef)"
    "\<And>a b. P a \<Longrightarrow> P b \<Longrightarrow> P (Ctl (SGFallback a b))"
    "\<And>c a b. P c \<Longrightarrow> P a \<Longrightarrow> P b \<Longrightarrow> P (Ctl (SGWaveMerge c a b))"
    "\<And>a b. P a \<Longrightarrow> P b \<Longrightarrow> P (Ctl (SGGuardSelect a b))" "\<And>a b. P a \<Longrightarrow> P b \<Longrightarrow> P (Ctl (SGEqProbe a b))"
    "\<And>e. (\<And>K \<sigma>. eval K \<sigma> e = None) \<Longrightarrow> ir_reads e = {} \<Longrightarrow> P e"
  shows "P e"
proof (induction e rule: measure_induct_rule [of size])
  case (less e)
  show ?case
  proof (cases "(\<forall>K \<sigma>. eval K \<sigma> e = None) \<and> ir_reads e = {}")
    case False
    show ?thesis
    proof (cases e)
      case (Val n) with False less assms(1-5) show ?thesis by (cases n) (auto simp: ir_cases)
    next
      case (Ctl n) with False less assms(6-10) show ?thesis by (cases n) (auto simp: ir_cases)
    qed (use False in \<open>auto simp: ir_cases\<close>)
  qed (use assms(11) in blast)
qed

lemma eval_cong:
  "(\<And>x. x \<in> ir_reads e \<Longrightarrow> (K x = None) = (K' x = None) \<and> \<sigma> x = \<sigma>' x) \<Longrightarrow> eval K \<sigma> e = eval K' \<sigma>' e"
  by (induction e rule: expr_induct) (auto simp: ir_cases)

text \<open>An expression with a value contains nothing the optimizer rewrites.\<close>

lemma optimize_expr: "eval K \<sigma> e = Some v \<Longrightarrow> optimize e = e"
  by (induction e arbitrary: v rule: expr_induct) (auto simp: ir_cases bind_eq_Some_conv)

lemma equiv_Val:
  "ir_expr_equiv a (Val n) \<Longrightarrow> \<exists>m. a = Val m"
  by (subst (asm) ir_expr_equiv.simps; cases a) (simp_all split: sc_node.splits)

lemmas equiv_unfold = ir_expr_equiv.simps [of "Val m" "Val n" for m n, simplified]

lemma equiv_Ctl: "\<not> ir_expr_equiv a (Ctl n)"
  by (subst ir_expr_equiv.simps; cases a) (simp_all split: sc_node.split sg_value.split)

lemma equiv_eval:
  "ir_expr_equiv a b \<Longrightarrow> eval K \<sigma> b \<noteq> None \<Longrightarrow> eval K \<sigma> a = eval K \<sigma> b \<and> ir_reads a = ir_reads b"
proof (induction b arbitrary: a rule: expr_induct)
  case (ResId r)
  with equiv_Val obtain m where "a = Val m" by blast
  with ResId show ?case by (cases m) (simp_all add: equiv_unfold ir_cases)
next
  case (Bool c)
  with equiv_Val obtain m where "a = Val m" by blast
  with Bool show ?case by (cases m) (simp_all add: equiv_unfold ir_cases)
next
  case (Int t n)
  with equiv_Val obtain m where "a = Val m" by blast
  with Int show ?case by (cases m) (simp_all add: equiv_unfold ir_cases)
next
  case (BinOp dt x y op ta tb)
  with equiv_Val obtain m where m: "a = Val m" by blast
  from BinOp.prems(2) have "eval K \<sigma> x \<noteq> None" "eval K \<sigma> y \<noteq> None" by (auto simp: ir_cases bind_eq_Some_conv)
  with m BinOp show ?case by (cases m) (simp_all add: equiv_unfold ir_cases type_equals_iff)
next
  case (Cond x y op)
  with equiv_Val obtain m where m: "a = Val m" by blast
  from Cond.prems(2) have "eval K \<sigma> x \<noteq> None" "eval K \<sigma> y \<noteq> None" by (auto simp: ir_cases bind_eq_Some_conv)
  with m Cond show ?case by (cases m) (simp_all add: equiv_unfold ir_cases)
qed (simp_all add: equiv_Ctl)

lemma collect_Val: "collect_expr_reads (Val n) =
   (case n of SGResId r \<Rightarrow> {res_id r} | SGDynLoad nm k \<Rightarrow> {nm}
     | SGBinOp dt a b op ta tb \<Rightarrow> collect_expr_reads a \<union> collect_expr_reads b
     | SGCond a b op \<Rightarrow> collect_expr_reads a \<union> collect_expr_reads b
     | _ \<Rightarrow> {})"
  by (subst collect_expr_reads.simps; cases n) (simp_all add: res_id_name_def)

lemmas effects_unfold = ir_expr_has_no_runtime_effects.simps [of "Val n" for n, simplified]
  ir_expr_has_no_runtime_effects.simps [of "Ctl n" for n, simplified]

lemmas speculatable_unfold = ir_expr_is_speculatable.simps [of "Val n" for n, simplified]
  ir_expr_is_speculatable.simps [of "Ctl n" for n, simplified]

text \<open>Where the optimizer looks at all, it sees every name the expression reads.\<close>

lemma reads_collected:
  "ir_expr_has_no_runtime_effects e \<Longrightarrow> ir_reads e \<subseteq> collect_expr_reads e"
  "ir_expr_is_speculatable e \<Longrightarrow> ir_reads e \<subseteq> collect_expr_reads e"
  by (induction e rule: expr_induct) (auto simp: ir_cases collect_Val effects_unfold speculatable_unfold)

subsection \<open>Statements\<close>

definition compound :: "styio_ir \<Rightarrow> bool" where
  "compound ir \<longleftrightarrow>
     (case ir of Fn (SGBlock ss) \<Rightarrow> True | Ctl (SGIf c t e) \<Rightarrow> True | Ctl (SGLoop tag c b) \<Rightarrow> True
        | Ctl (SGRangeFor f t st var b) \<Rightarrow> True | Ctl (SGMatch e arms dflt k) \<Rightarrow> True | _ \<Rightarrow> False)"

lemma stmt_induct [case_names Block If Loop Range Match Simple]:
  assumes "\<And>ss. (\<And>s. s \<in> set ss \<Longrightarrow> P s) \<Longrightarrow> P (Fn (SGBlock ss))"
    "\<And>c t e. (\<And>s. s \<in> set (block_stmts t) \<Longrightarrow> P s) \<Longrightarrow> (\<And>s. s \<in> set (block_stmts e) \<Longrightarrow> P s) \<Longrightarrow> P (Ctl (SGIf c t e))"
    "\<And>tag c b. (\<And>s. s \<in> set (block_stmts b) \<Longrightarrow> P s) \<Longrightarrow> P (Ctl (SGLoop tag c b))"
    "\<And>f t st var b. (\<And>s. s \<in> set (block_stmts b) \<Longrightarrow> P s) \<Longrightarrow> P (Ctl (SGRangeFor f t st var b))"
    "\<And>e arms dflt k. (\<And>v b s. (v, b) \<in> set arms \<Longrightarrow> s \<in> set (block_stmts b) \<Longrightarrow> P s) \<Longrightarrow>
       (\<And>s. s \<in> set (block_stmts dflt) \<Longrightarrow> P s) \<Longrightarrow> P (Ctl (SGMatch e arms dflt k))"
    "\<And>s. \<not> compound s \<Longrightarrow> P s"
  shows "P s"
proof (induction s rule: measure_induct_rule [of size])
  case (less s)
  have seq: "P x" if "x \<in> set ss" "size_list size ss < size s" for x ss
    using less [of x] size_list_estimation' [OF that(1), of "size x" size] that by fastforce
  have block: "P x" if "x \<in> set (block_stmts b)" "size_option (size_list size) b \<le> size s" for x b
    using less [of x] size_block_stmts [OF that(1)] that(2) by linarith
  have arm: "P x" if "(v, b) \<in> set arms" "x \<in> set (block_stmts b)"
      "size_list (size_prod (\<lambda>x. 0) (size_option (size_list size))) arms \<le> size s" for x v b arms
    using less [of x] size_arm_stmts [OF that(1,2), of "\<lambda>x. 0"] that(3) by linarith
  show ?case
  proof (cases "compound s")
    case True
    then consider ss where "s = Fn (SGBlock ss)" | c t e where "s = Ctl (SGIf c t e)" | tag c b where "s = Ctl (SGLoop tag c b)"
      | f t st var b where "s = Ctl (SGRangeFor f t st var b)" | e arms dflt k where "s = Ctl (SGMatch e arms dflt k)"
      by (auto simp: compound_def split: styio_ir.splits sg_unit.splits sg_control.splits)
    then show ?thesis
    proof cases
      case 1 then show ?thesis by (simp only:) (rule assms(1), erule seq, simp_all)
    next
      case 2 then show ?thesis by (simp only:) (rule assms(2); erule block; simp)
    next
      case 3 then show ?thesis by (simp only:) (rule assms(3); erule block; simp)
    next
      case 4 then show ?thesis by (simp only:) (rule assms(4); erule block; simp)
    next
      case 5 then show ?thesis by (simp only:) (rule assms(5), erule (1) arm, simp, erule block, simp)
    qed
  qed (rule assms(6))
qed

lemmas emit_unfold =
  generate.simps [of d "Val n" for d n, simplified]
  generate.simps [of d "Fn n" for d n, simplified]
  generate.simps [of d "Ctl n" for d n, simplified]
  generate.simps [of d "Coll n" for d n, simplified]
  generate.simps [of d "Io n" for d n, simplified]
  generate.simps [of d "NullIR" for d, simplified]

lemmas mentions_unfold =
  mentions.simps [of "Val n" for n, simplified]
  mentions.simps [of "Fn n" for n, simplified]
  mentions.simps [of "Ctl n" for n, simplified]
  mentions.simps [of "Coll n" for n, simplified]
  mentions.simps [of "Io n" for n, simplified]
  mentions.simps [of "NullIR", simplified]

lemmas writes_unfold =
  stmt_writes_name.simps [of "Val n" x for x n, simplified]
  stmt_writes_name.simps [of "Fn n" x for x n, simplified]
  stmt_writes_name.simps [of "Ctl n" x for x n, simplified]
  stmt_writes_name.simps [of "Coll n" x for x n, simplified]
  stmt_writes_name.simps [of "Io n" x for x n, simplified]
  stmt_writes_name.simps [of "NullIR" x for x, simplified]

lemmas sreads_unfold =
  stmt_reads_name.simps [of "Val n" x for x n, simplified]
  stmt_reads_name.simps [of "Fn n" x for x n, simplified]
  stmt_reads_name.simps [of "Ctl n" x for x n, simplified]
  stmt_reads_name.simps [of "Coll n" x for x n, simplified]
  stmt_reads_name.simps [of "Io n" x for x n, simplified]
  stmt_reads_name.simps [of "NullIR" x for x, simplified]

lemmas transparent_unfold =
  stmt_is_rebind_hoist_transparent.simps [of "Val n" for n, simplified]
  stmt_is_rebind_hoist_transparent.simps [of "Fn n" for n, simplified]
  stmt_is_rebind_hoist_transparent.simps [of "Ctl n" for n, simplified]
  stmt_is_rebind_hoist_transparent.simps [of "Coll n" for n, simplified]
  stmt_is_rebind_hoist_transparent.simps [of "Io n" for n, simplified]
  stmt_is_rebind_hoist_transparent.simps [of "NullIR", simplified]


lemma emit_until_Some_step:
  "emit_until f (s # ss) K = Some (K', t) \<Longrightarrow>
   (\<And>K1. f s K = Some (K1, True) \<Longrightarrow> K' = K1 \<Longrightarrow> t \<Longrightarrow> P) \<Longrightarrow>
   (\<And>K1. f s K = Some (K1, False) \<Longrightarrow> emit_until f ss K1 = Some (K', t) \<Longrightarrow> P) \<Longrightarrow> P"
  by (auto split: option.splits prod.splits if_splits)

lemma emit_until_keep:
  "emit_until f ss K = Some (K', t) \<Longrightarrow> (\<And>s L L' t'. s \<in> set ss \<Longrightarrow> f s L = Some (L', t') \<Longrightarrow> L' y = L y) \<Longrightarrow>
   K' y = K y"
proof (induction ss arbitrary: K)
  case (Cons s ss)
  from Cons.prems(1) show ?case
  proof (rule emit_until_Some_step)
    fix K1 assume "f s K = Some (K1, True)" "K' = K1"
    with Cons.prems(2) [of s K K1 True] show ?thesis by simp
  next
    fix K1 assume k: "f s K = Some (K1, False)" "emit_until f ss K1 = Some (K', t)"
    have "K' y = K1 y" by (rule Cons.IH [OF k(2)], rule Cons.prems(2)) simp_all
    with Cons.prems(2) [OF _ k(1)] show ?thesis by simp
  qed
qed simp

text \<open>A name entered into what is known, whatever it was before.\<close>

definition know :: "string \<Rightarrow> binding \<Rightarrow> names_env \<Rightarrow> names_env" where
  "know x c K = K(x \<mapsto> c)"

lemma know_apply: "know x c K y = (if y = x then Some c else K y)"
  by (simp add: know_def)

lemma know_upd: "x \<noteq> y \<Longrightarrow> (know x c K)(y \<mapsto> b) = know x c (K(y \<mapsto> b))"
  by (simp add: know_def fun_upd_twist)

lemma emit_until_upd:
  "(\<And>s L. s \<in> set ss \<Longrightarrow> f s (know x b L) = map_option (map_prod (know x b) (\<lambda>t. t)) (f s L)) \<Longrightarrow>
   emit_until f ss (know x b K) = map_option (map_prod (know x b) (\<lambda>t. t)) (emit_until f ss K)"
  by (induction ss arbitrary: K) (auto split: option.split)

text \<open>Generating a statement changes only what is known of the names it binds.\<close>

lemma target_binds: "target_of x = Some n \<Longrightarrow> binds_name x n"
  by (auto simp: target_of_def binds_name_def bind_eq_Some_conv split: if_splits)

lemma emit_writes:
  "generate d u K = Some (K', t) \<Longrightarrow> \<not> stmt_writes_name u y \<Longrightarrow> K' y = K y"
proof (induction u arbitrary: d K K' t rule: stmt_induct)
  case (Block ss)
  from Block.prems have k: "emit_until (generate d) ss K = Some (K', t)" by (simp add: emit_unfold)
  show ?case by (rule emit_until_keep [OF k], rule Block.IH) (use Block.prems in \<open>auto simp: writes_unfold list_ex_iff\<close>)
next
  case (If c th el)
  from If.prems obtain K1 t1 t2 where k: "emit_until (generate d) (block_stmts th) K = Some (K1, t1)"
    "emit_until (generate d) (block_stmts el) K1 = Some (K', t2)"
    by (auto simp: emit_unfold bind_eq_Some_conv)
  have "K1 y = K y" by (rule emit_until_keep [OF k(1)], rule If.IH(1))
    (use If.prems in \<open>auto simp: writes_unfold in_block_def list_ex_iff block_stmts_def split: option.splits\<close>)
  moreover have "K' y = K1 y" by (rule emit_until_keep [OF k(2)], rule If.IH(2))
    (use If.prems in \<open>auto simp: writes_unfold in_block_def list_ex_iff block_stmts_def split: option.splits\<close>)
  ultimately show ?case by simp
next
  case (Loop tag c b)
  from Loop.prems obtain t1 where k: "emit_until (generate (Suc d)) (block_stmts b) K = Some (K', t1)" by (auto simp: emit_unfold)
  show ?case by (rule emit_until_keep [OF k], rule Loop.IH)
    (use Loop.prems in \<open>auto simp: writes_unfold in_block_def list_ex_iff block_stmts_def split: option.splits\<close>)
next
  case (Range f to st var b)
  from Range.prems obtain t1 where k: "emit_until (generate (Suc d)) (block_stmts b) (K(var \<mapsto> Mutable)) = Some (K', t1)"
    and v: "var \<noteq> y" by (auto simp: emit_unfold writes_unfold split: if_splits)
  have "K' y = (K(var \<mapsto> Mutable)) y" by (rule emit_until_keep [OF k], rule Range.IH)
    (use Range.prems in \<open>auto simp: writes_unfold in_block_def list_ex_iff block_stmts_def split: option.splits\<close>)
  with v show ?case by simp
next
  case (Match e arms dflt k)
  from Match.prems(1) obtain K1 t1 t2 where
    k: "emit_until (\<lambda>(v, b) K. map_option (\<lambda>K. (fst K, False)) (emit_until (generate d) (block_stmts b) K)) arms K = Some (K1, t1)"
    "emit_until (generate d) (block_stmts dflt) K1 = Some (K', t2)"
    by (auto simp: emit_unfold bind_eq_Some_conv split: if_splits)
  have w: "\<not> stmt_writes_name s y" if "(v, b) \<in> set arms" "s \<in> set (block_stmts b)" for v b s
    using Match.prems(2) that by (fastforce simp: writes_unfold in_block_def list_ex_iff block_stmts_def split: option.splits)
  have "K1 y = K y"
  proof (rule emit_until_keep [OF k(1)])
    fix s :: "int \<times> styio_ir list option" and L L' t'
    obtain v b where s: "s = (v, b)" by (cases s)
    assume "s \<in> set arms" "(case s of (v, b) \<Rightarrow> \<lambda>K. map_option (\<lambda>K. (fst K, False)) (emit_until (generate d) (block_stmts b) K)) L = Some (L', t')"
    with s obtain t3 where a: "(v, b) \<in> set arms" "emit_until (generate d) (block_stmts b) L = Some (L', t3)" by auto
    show "L' y = L y" by (rule emit_until_keep [OF a(2)], rule Match.IH(1) [OF a(1)]) (use w [OF a(1)] in simp_all)
  qed
  moreover have "K' y = K1 y" by (rule emit_until_keep [OF k(2)], rule Match.IH(2))
    (use Match.prems in \<open>auto simp: writes_unfold in_block_def list_ex_iff block_stmts_def split: option.splits\<close>)
  ultimately show ?case by simp
next
  case (Simple s)
  then show ?case
    by (cases s) (auto simp: emit_unfold writes_unfold compound_def split: sg_value.splits sg_unit.splits sg_control.splits
      option.splits if_splits dest: target_binds)
qed

text \<open>A name a statement does not mention may be known or not.\<close>

lemma emit_upd:
  "x \<notin> mentions u \<Longrightarrow> generate d u (know x c K) = map_option (map_prod (know x c) (\<lambda>t. t)) (generate d u K)"
proof (induction u arbitrary: d K rule: stmt_induct)
  case (Block ss)
  have "emit_until (generate d) ss (know x c K) = map_option (map_prod (know x c) (\<lambda>t. t)) (emit_until (generate d) ss K)"
    by (rule emit_until_upd, rule Block.IH) (use Block.prems in \<open>auto simp: mentions_unfold\<close>)
  then have "generate d (Fn (SGBlock ss)) (know x c K) = map_option (map_prod (know x c) (\<lambda>t. t)) (generate d (Fn (SGBlock ss)) K)"
    by (simp add: emit_unfold)
  then show ?case .
next
  case (If e th el)
  have "emit_until (generate d) (block_stmts th) (know x c L) = map_option (map_prod (know x c) (\<lambda>t. t)) (emit_until (generate d) (block_stmts th) L)"
    "emit_until (generate d) (block_stmts el) (know x c L) = map_option (map_prod (know x c) (\<lambda>t. t)) (emit_until (generate d) (block_stmts el) L)" for L
    using If by (auto simp: mentions_unfold intro!: emit_until_upd)
  then show ?case by (cases "emit_until (generate d) (block_stmts th) K") (auto simp: emit_unfold option.map_comp comp_def)
next
  case (Loop tag e b)
  have "emit_until (generate (Suc d)) (block_stmts b) (know x c L) = map_option (map_prod (know x c) (\<lambda>t. t)) (emit_until (generate (Suc d)) (block_stmts b) L)" for L
    using Loop by (auto simp: mentions_unfold intro!: emit_until_upd)
  then show ?case by (auto simp: emit_unfold option.map_comp comp_def)
next
  case (Range f to st var b)
  have "emit_until (generate (Suc d)) (block_stmts b) (know x c L) = map_option (map_prod (know x c) (\<lambda>t. t)) (emit_until (generate (Suc d)) (block_stmts b) L)" for L
    using Range by (auto simp: mentions_unfold intro!: emit_until_upd)
  moreover have "var \<noteq> x" "know x c K var = K var" using Range.prems by (auto simp: mentions_unfold know_apply)
  ultimately show ?case by (auto simp: emit_unfold option.map_comp comp_def know_upd)
next
  case (Match e arms dflt k)
  let ?arm = "\<lambda>(v, b) K. map_option (\<lambda>K. (fst K, False)) (emit_until (generate d) (block_stmts b) K)"
  have arm: "?arm a (know x c L) = map_option (map_prod (know x c) (\<lambda>t. t)) (?arm a L)" if a: "a \<in> set arms" for a L
  proof (cases a)
    case (Pair v b)
    have "emit_until (generate d) (block_stmts b) (know x c L) = map_option (map_prod (know x c) (\<lambda>t. t)) (emit_until (generate d) (block_stmts b) L)"
      by (rule emit_until_upd, rule Match.IH(1)) (use a Pair Match.prems in \<open>fastforce simp: mentions_unfold\<close>)+
    with Pair show ?thesis by (simp add: option.map_comp comp_def)
  qed
  have "emit_until ?arm arms (know x c K) = map_option (map_prod (know x c) (\<lambda>t. t)) (emit_until ?arm arms K)"
    by (rule emit_until_upd) (rule arm)
  moreover have "emit_until (generate d) (block_stmts dflt) (know x c L) = map_option (map_prod (know x c) (\<lambda>t. t)) (emit_until (generate d) (block_stmts dflt) L)" for L
    using Match by (auto simp: mentions_unfold intro!: emit_until_upd)
  ultimately show ?case
    by (cases "emit_until ?arm arms K") (auto simp: emit_unfold option.map_comp comp_def)
next
  case (Simple u)
  show ?case
  proof (cases u)
    case (Val n)
    with Simple show ?thesis by (cases n) (auto simp: emit_unfold mentions_unfold know_upd know_apply split: option.split)
  next
    case (Fn n)
    with Simple show ?thesis by (cases n) (auto simp: emit_unfold compound_def)
  next
    case (Ctl n)
    with Simple show ?thesis by (cases n) (auto simp: emit_unfold compound_def)
  qed (simp_all add: emit_unfold)
qed

lemma eval_upd: "x \<notin> ir_reads e \<Longrightarrow> eval (know x c K) \<sigma> e = eval K \<sigma> e"
  by (rule eval_cong) (auto simp: know_apply)

lemma print_upd: "x \<notin> (\<Union>e\<in>set es. ir_reads e) \<Longrightarrow> print_all (know x c K) es s = print_all K es s"
  by (induction es arbitrary: s) (auto simp: eval_upd split: option.split)

lemma self_assign_upd: "x \<notin> ir_reads l \<Longrightarrow> self_assign (know x c K) l f r s = self_assign K l f r s"
proof (cases l)
  case (Val n)
  assume "x \<notin> ir_reads l"
  with Val show ?thesis by (cases n) (auto simp: self_assign_def ir_cases know_apply)
qed (simp_all add: self_assign_def)

lemma exec_simple_upd:
  assumes "x \<notin> mentions u" "\<not> compound u"
  shows "exec_simple (know x c K) u s = exec_simple K u s"
proof (cases u)
  case (Val n)
  with assms show ?thesis
    by (cases n) (auto simp: exec_simple_def mentions_unfold ir_cases eval_upd know_upd know_apply self_assign_upd
        split: option.split)
next
  case (Fn n)
  with assms show ?thesis by (cases n) (auto simp: exec_simple_def ir_cases)
next
  case (Ctl n)
  with assms show ?thesis by (cases n) (auto simp: exec_simple_def mentions_unfold ir_cases eval_upd)
next
  case (Io n)
  with assms show ?thesis by (cases n) (auto simp: exec_simple_def mentions_unfold ir_cases print_upd)
qed (simp_all add: exec_simple_def ir_cases)

lemma run_seq_upd:
  "(\<And>u L s. u \<in> set ss \<Longrightarrow> run (know x c L) u s = run L u s) \<Longrightarrow> x \<notin> (\<Union>u\<in>set ss. mentions u) \<Longrightarrow>
   run_seq d run ss (know x c K) s = run_seq d run ss K s"
  by (induction ss arbitrary: K s) (auto simp: emit_upd split: option.split)

lemma pick_arm_upd:
  "x \<notin> (\<Union>(v, b)\<in>set arms. \<Union>s\<in>set (block_stmts b). mentions s) \<Longrightarrow>
   pick_arm d arms dflt w (know x c K) = map_option (map_prod (know x c) (\<lambda>t. t)) (pick_arm d arms dflt w K)"
proof (induction arms arbitrary: K)
  case (Cons a arms)
  obtain v b where a: "a = (v, b)" by (cases a)
  have "emit_until (generate d) (block_stmts b) (know x c K) = map_option (map_prod (know x c) (\<lambda>t. t)) (emit_until (generate d) (block_stmts b) K)"
    by (rule emit_until_upd, rule emit_upd) (use Cons.prems a in auto)
  moreover have "pick_arm d arms dflt w (know x c L) = map_option (map_prod (know x c) (\<lambda>t. t)) (pick_arm d arms dflt w L)" for L
    by (rule Cons.IH) (use Cons.prems in auto)
  ultimately have "pick_arm d ((v, b) # arms) dflt w (know x c K)
      = map_option (map_prod (know x c) (\<lambda>t. t)) (pick_arm d ((v, b) # arms) dflt w K)"
    by (cases "emit_until (generate d) (block_stmts b) K") auto
  then show ?case unfolding a .
qed simp

lemma pick_arm_stmts:
  "pick_arm d arms dflt w K = Some (K', ss) \<Longrightarrow> ss = block_stmts dflt \<or> (\<exists>v b. (v, b) \<in> set arms \<and> ss = block_stmts b)"
proof (induction arms arbitrary: K)
  case (Cons a arms)
  then show ?case by (cases a) (fastforce simp: bind_eq_Some_conv split: if_splits)
qed simp

lemma exec_upd: "x \<notin> mentions u \<Longrightarrow> exec n d (know x c K) u s = exec n d K u s"
proof (induction n arbitrary: d K u s)
  case (Suc n)
  note seq = run_seq_upd [of _ "exec n _", OF Suc.IH]
  show ?case
  proof (cases "compound u")
    case True
    then consider ss where "u = Fn (SGBlock ss)" | e th el where "u = Ctl (SGIf e th el)" | tag e b where "u = Ctl (SGLoop tag e b)"
      | f to st var b where "u = Ctl (SGRangeFor f to st var b)" | e arms dflt k where "u = Ctl (SGMatch e arms dflt k)"
      by (auto simp: compound_def split: styio_ir.splits sg_unit.splits sg_control.splits)
    then show ?thesis
    proof cases
      case 1
      have "run_seq d (exec n d) ss (know x c K) s = run_seq d (exec n d) ss K s"
        by (rule seq) (use 1 Suc.prems in \<open>auto simp: mentions_unfold\<close>)
      then have "exec (Suc n) d (know x c K) (Fn (SGBlock ss)) s = exec (Suc n) d K (Fn (SGBlock ss)) s"
        by (simp add: exec_stmt_def)
      then show ?thesis unfolding 1 .
    next
      case 2
      have "emit_until (generate d) (block_stmts th) (know x c K) = map_option (map_prod (know x c) (\<lambda>t. t)) (emit_until (generate d) (block_stmts th) K)"
        by (rule emit_until_upd, rule emit_upd) (use 2 Suc.prems in \<open>auto simp: mentions_unfold\<close>)
      with 2 Suc.prems show ?thesis
        by (cases "emit_until (generate d) (block_stmts th) K")
          (auto simp: exec_stmt_def mentions_unfold seq eval_upd split: option.split)
    next
      case 3
      have "run_seq (Suc d) (exec n (Suc d)) (block_stmts b) (know x c K) = run_seq (Suc d) (exec n (Suc d)) (block_stmts b) K"
        by (rule ext, rule seq) (use 3 Suc.prems in \<open>auto simp: mentions_unfold\<close>)
      moreover have "x \<notin> ir_reads e" using 3 Suc.prems by (simp add: mentions_unfold)
      ultimately show ?thesis using 3 by (simp add: exec_stmt_def eval_upd cong: if_cong)
    next
      case 4
      then have ne: "var \<noteq> x" using Suc.prems by (auto simp: mentions_unfold)
      have "run_seq (Suc d) (exec n (Suc d)) (block_stmts b) (know x c (K(var \<mapsto> Mutable)))
          = run_seq (Suc d) (exec n (Suc d)) (block_stmts b) (K(var \<mapsto> Mutable))"
        by (rule ext, rule seq) (use 4 Suc.prems in \<open>auto simp: mentions_unfold\<close>)
      moreover have "eval (know x c K) (ir_store s) e = eval K (ir_store s) e" if "e \<in> {f, to, st}" for e
        using 4 Suc.prems that by (intro eval_upd) (auto simp: mentions_unfold)
      ultimately show ?thesis using 4 ne know_upd [of x var] by (auto simp: exec_stmt_def split: option.split)
    next
      case 5
      have "run_seq d (exec n d) ss (know x c L) s = run_seq d (exec n d) ss L s" if "pick_arm d arms dflt w M = Some (L, ss)" for w L M ss
        by (rule seq) (use 5 Suc.prems pick_arm_stmts [OF that] in \<open>auto simp: mentions_unfold\<close>)
      moreover have "x \<notin> (\<Union>(v, b)\<in>set arms. \<Union>s\<in>set (block_stmts b). mentions s)"
        using 5 Suc.prems by (auto simp: mentions_unfold)
      ultimately show ?thesis using 5 Suc.prems
        by (auto simp: exec_stmt_def mentions_unfold eval_upd pick_arm_upd bind_map_option comp_def map_prod_def
            intro!: Option.bind_cong split: option.split)
    qed
  next
    case False
    show ?thesis
    proof (cases "(\<exists>e. u = Fn (SGReturn e)) \<or> (\<exists>k. u = Ctl (SGBreak k)) \<or> (\<exists>k. u = Ctl (SGContinue k))")
      case True
      with Suc.prems show ?thesis by (auto simp: exec_stmt_def mentions_unfold eval_upd)
    next
      case other: False
      have "exec (Suc n) d L u s = map_option (\<lambda>s'. (Normal, s')) (exec_simple L u s)" for L
        using False other by (auto simp: exec_stmt_def compound_def split: styio_ir.splits sg_unit.splits sg_control.splits)
      with exec_simple_upd [OF Suc.prems False] show ?thesis by simp
    qed
  qed
qed simp

subsection \<open>Fuel\<close>

lemma run_seq_mono:
  "run_seq d f ss K s = Some r \<Longrightarrow> (\<And>L u t q. u \<in> set ss \<Longrightarrow> f L u t = Some q \<Longrightarrow> g L u t = Some q) \<Longrightarrow>
   run_seq d g ss K s = Some r"
proof (induction ss arbitrary: K s)
  case (Cons u ss)
  from Cons.prems(1) obtain K' t q s' where e: "generate d u K = Some (K', t)" "f K u s = Some (q, s')"
    by (auto split: option.splits)
  with Cons.prems(2) have "g K u s = Some (q, s')" by simp
  with e Cons show ?case by (auto split: if_splits)
qed simp

lemma run_loop_mono:
  "run_loop n test f s = Some r \<Longrightarrow> n \<le> m \<Longrightarrow> (\<And>t q. f t = Some q \<Longrightarrow> g t = Some q) \<Longrightarrow> run_loop m test g s = Some r"
proof (induction n arbitrary: m s)
  case (Suc n)
  then obtain k where "m = Suc k" "n \<le> k" by (cases m) auto
  with Suc show ?case by (auto split: option.splits if_splits prod.splits)
qed simp

lemma run_range_mono:
  "run_range n var stop step f cur s = Some r \<Longrightarrow> n \<le> m \<Longrightarrow> (\<And>t q. f t = Some q \<Longrightarrow> g t = Some q) \<Longrightarrow>
   run_range m var stop step g cur s = Some r"
proof (induction n arbitrary: m cur s)
  case (Suc n)
  then obtain k where "m = Suc k" "n \<le> k" by (cases m) auto
  with Suc show ?case by (auto split: option.splits if_splits prod.splits)
qed simp

lemma compound_cases:
  assumes "compound u"
  obtains ss where "u = Fn (SGBlock ss)" | e th el where "u = Ctl (SGIf e th el)" | tag e b where "u = Ctl (SGLoop tag e b)"
    | f to st var b where "u = Ctl (SGRangeFor f to st var b)" | e arms dflt k where "u = Ctl (SGMatch e arms dflt k)"
  using assms by (auto simp: compound_def split: styio_ir.splits sg_unit.splits sg_control.splits)

lemma exec_flat:
  assumes "\<not> compound u"
  shows "exec (Suc n) d K u s = exec (Suc 0) d K u s"
proof (cases u)
  case (Fn k) with assms show ?thesis by (cases k) (auto simp: exec_stmt_def compound_def)
next
  case (Ctl k) with assms show ?thesis by (cases k) (auto simp: exec_stmt_def compound_def)
qed (simp_all add: exec_stmt_def)

lemma exec_mono: "exec n d K u s = Some r \<Longrightarrow> n \<le> m \<Longrightarrow> exec m d K u s = Some r"
proof (induction n arbitrary: m d K u s r)
  case (Suc n)
  then obtain k where m: "m = Suc k" "n \<le> k" by (cases m) auto
  have seq: "run_seq e (exec k e) ss L t = Some q" if "run_seq e (exec n e) ss L t = Some q" for e ss L t q
    by (rule run_seq_mono [OF that]) (rule Suc.IH [OF _ m(2)])
  show ?case
  proof (cases "compound u")
    case True
    then show ?thesis
    proof (cases rule: compound_cases)
      case 1
      with Suc.prems m seq show ?thesis by (auto simp: exec_stmt_def)
    next
      case (2 e th el)
      with Suc.prems m show ?thesis
        by (auto simp: exec_stmt_def bind_eq_Some_conv intro: seq split: option.splits if_splits)
    next
      case (3 tag e b)
      with Suc.prems(1) have "run_loop n (\<lambda>s. if tag = Loop_Infinite then Some (VB True) else eval K (ir_store s) e)
            (run_seq (Suc d) (exec n (Suc d)) (block_stmts b) K) s = Some r" by (simp add: exec_stmt_def)
      from run_loop_mono [OF this m(2) seq] 3 m show ?thesis by (simp add: exec_stmt_def)
    next
      case (4 f to st var b)
      with Suc.prems(1) obtain x y z where v: "eval K (ir_store s) f = Some x" "eval K (ir_store s) to = Some y" "eval K (ir_store s) st = Some z"
        "run_range n var (widen y) (widen z)
           (run_seq (Suc d) (exec n (Suc d)) (block_stmts b) (K(var \<mapsto> Mutable))) (widen x) (assign var None s) = Some r"
        by (auto simp: exec_stmt_def split: option.splits)
      from run_range_mono [OF v(4) m(2) seq] v(1-3) 4 m show ?thesis by (simp add: exec_stmt_def)
    next
      case 5
      with Suc.prems m show ?thesis by (auto simp: exec_stmt_def bind_eq_Some_conv intro: seq split: option.splits if_splits)
    qed
  next
    case False
    from exec_flat [OF this, of n d K s] exec_flat [OF this, of k d K s] Suc.prems m show ?thesis by simp
  qed
qed simp

lemma run_seq_exec_mono: "run_seq d (exec n d) ss K s = Some r \<Longrightarrow> n \<le> m \<Longrightarrow> run_seq d (exec m d) ss K s = Some r"
  by (erule run_seq_mono) (rule exec_mono)

text \<open>A statement that terminated its block never ends normally.\<close>

lemma run_seq_terminated:
  "run_seq d f ss K s = Some (q, s') \<Longrightarrow> emit_until (generate d) ss K = Some (K', True) \<Longrightarrow>
   (\<And>u L L' t t'. u \<in> set ss \<Longrightarrow> generate d u L = Some (L', True) \<Longrightarrow> f L u t \<noteq> Some (Normal, t')) \<Longrightarrow> q \<noteq> Normal"
proof (induction ss arbitrary: K s)
  case (Cons u ss)
  from Cons.prems(2) show ?case
  proof (rule emit_until_Some_step)
    fix K1 assume "generate d u K = Some (K1, True)"
    with Cons.prems(1) Cons.prems(3) [of u] show ?thesis by (auto split: option.splits)
  next
    fix K1 assume k: "generate d u K = Some (K1, False)" "emit_until (generate d) ss K1 = Some (K', True)"
    from Cons.prems(1) k(1) consider "q \<noteq> Normal" | t where "run_seq d f ss K1 t = Some (q, s')"
      by (auto split: option.splits if_splits)
    then show ?thesis
    proof cases
      case 2
      show ?thesis by (rule Cons.IH [OF 2 k(2)]) (use Cons.prems(3) in simp)
    qed
  qed
qed simp

lemma terminated_abrupt: "generate d u K = Some (K', True) \<Longrightarrow> exec n d K u s \<noteq> Some (Normal, s')"
proof (induction u arbitrary: n d K K' s s' rule: stmt_induct)
  case (Block ss)
  show ?case
  proof (cases n)
    case (Suc k)
    with Block show ?thesis using run_seq_terminated [of d "exec k d" ss K s Normal s' K'] by (auto simp: exec_stmt_def emit_unfold)
  qed simp
next
  case (Simple u)
  show ?case
  proof (cases u)
    case (Val j)
    with Simple show ?thesis by (cases j) (auto simp: emit_unfold split: option.splits if_splits)
  next
    case (Fn j)
    with Simple show ?thesis by (cases j; cases n) (auto simp: emit_unfold compound_def exec_stmt_def)
  next
    case (Ctl j)
    with Simple show ?thesis by (cases j; cases n) (auto simp: emit_unfold compound_def exec_stmt_def)
  qed (use Simple in \<open>simp_all add: emit_unfold\<close>)
qed (auto simp: emit_unfold split: if_splits)

subsection \<open>What the optimizer does to a sequence\<close>

abbreviation optseq :: "styio_ir list \<Rightarrow> styio_ir list" where
  "optseq ss \<equiv> canonicalize_sequence (map optimize ss)"

text \<open>The name hoisted out of a match, read off from what a statement has become.\<close>

definition hoisted_name :: "styio_ir \<Rightarrow> styio_ir \<Rightarrow> string option" where
  "hoisted_name old new =
     (case (old, new) of
        (Ctl (SGMatch e arms dflt k), Fn (SGBlock (Val (SGFlexBind x v p) # _))) \<Rightarrow> var_target x
      | _ \<Rightarrow> None)"

definition decisions :: "styio_ir list \<Rightarrow> string option list" where
  "decisions ss = map2 hoisted_name (map optimize ss) (optseq ss)"

definition hoisted_form :: "default_rebind \<Rightarrow> (int \<times> styio_ir list option) list \<Rightarrow> styio_ir list option \<Rightarrow> sg_match_repr_kind \<Rightarrow> styio_ir" where
  "hoisted_form r arms dflt k =
     Fn (SGBlock
       [dr_bind r,
        Ctl (SGMatch (Val (SGResId (Create_ResId (dr_name r)))) arms (map_option (erase_at (dr_index r)) dflt) k)])"

text \<open>A statement, whether a name is hoisted out of it, and what the optimizer makes of it.\<close>

definition becomes :: "string option \<Rightarrow> styio_ir \<Rightarrow> styio_ir \<Rightarrow> bool" where
  "becomes h s u \<longleftrightarrow>
     (h = None \<and> u = optimize s)
     \<or> (\<exists>e arms ds k r. s = Ctl (SGMatch e arms (Some ds) k)
          \<and> find_repeated_default_rebind (optimize e) (Some (optseq ds)) = Some r \<and> h = Some (dr_name r)
          \<and> u = hoisted_form r (map (map_prod id (map_option optseq)) arms) (Some (optseq ds)) k)"

lemma canonicalize_from_spec:
  "distinct is \<Longrightarrow> set is \<subseteq> {..<length ts} \<Longrightarrow>
   length (canonicalize_from ts is) = length ts
   \<and> (\<forall>i<length ts. i \<notin> set is \<longrightarrow> canonicalize_from ts is ! i = ts ! i)
   \<and> (\<forall>i\<in>set is. \<exists>os. os ! i = ts ! i \<and> canonicalize_from ts is ! i = canonicalize_match_in_sequence os i)"
proof (induction "is" arbitrary: ts)
  case (Cons i js)
  let ?ts = "ts[i := canonicalize_match_in_sequence ts i]"
  have IH: "length (canonicalize_from ?ts js) = length ?ts"
    "\<forall>j<length ?ts. j \<notin> set js \<longrightarrow> canonicalize_from ?ts js ! j = ?ts ! j"
    "\<forall>j\<in>set js. \<exists>os. os ! j = ?ts ! j \<and> canonicalize_from ?ts js ! j = canonicalize_match_in_sequence os j"
    using Cons.IH [of ?ts] Cons.prems by auto
  have "\<exists>os. os ! j = ts ! j \<and> canonicalize_from ?ts js ! j = canonicalize_match_in_sequence os j" if j: "j \<in> set (i # js)" for j
  proof (cases "j = i")
    case True
    with Cons.prems IH(2) show ?thesis by (intro exI [of _ ts]) auto
  next
    case False
    then have "?ts ! j = ts ! j" by simp
    moreover from False j have "j \<in> set js" by simp
    ultimately show ?thesis using IH(3) by metis
  qed
  with IH show ?case by auto
qed simp

lemma optseq_length [simp]: "length (optseq ss) = length ss" "length (decisions ss) = length ss"
  using canonicalize_from_spec [of "[0..<length ss]" "map optimize ss"]
  by (auto simp: canonicalize_sequence_def decisions_def atLeast0LessThan)

lemma find_rebind_SomeD:
  assumes "find_repeated_default_rebind e dflt = Some r"
  obtains ds x v p where "dflt = Some ds" "ir_expr_is_speculatable e" "dr_index r < length ds"
    "ds ! dr_index r = Val (SGFlexBind x v p)" "dr_bind r = Val (SGFlexBind x v p)" "var_target x = Some (dr_name r)"
    "ir_expr_equiv v e" "\<not> prior_conflict ds (dr_index r) (dr_name r) (collect_expr_reads e)"
proof -
  from assms obtain ds where ds: "dflt = Some ds" "ir_expr_is_speculatable e" "first_rebind e ds [0..<length ds] = Some r"
    by (auto simp: find_repeated_default_rebind_def split: option.splits if_splits)
  have "\<exists>i\<in>set is. rebind_at e ds i = Some r" if "first_rebind e ds is = Some r" for "is"
    using that by (induction "is") (auto split: option.splits)
  with ds(3) obtain i where "i < length ds" "rebind_at e ds i = Some r" by fastforce
  with ds(1,2) that show thesis
    by (auto simp: rebind_at_def split: styio_ir.splits sg_value.splits option.splits if_splits)
qed

lemma becomes_seq:
  assumes "i < length ss"
  shows "becomes (decisions ss ! i) (ss ! i) (optseq ss ! i)"
proof -
  let ?ts = "map optimize ss"
  have "i \<in> set [0..<length ?ts]" using assms by simp
  with canonicalize_from_spec [of "[0..<length ?ts]" ?ts] obtain os where
    os: "os ! i = ?ts ! i" "optseq ss ! i = canonicalize_match_in_sequence os i"
    unfolding canonicalize_sequence_def by fastforce
  have d: "decisions ss ! i = hoisted_name (optimize (ss ! i)) (optseq ss ! i)"
    using assms by (simp add: decisions_def)
  consider "optseq ss ! i = optimize (ss ! i)"
    | e arms dflt k r where "optimize (ss ! i) = Ctl (SGMatch e arms dflt k)"
        "find_repeated_default_rebind e dflt = Some r" "optseq ss ! i = hoisted_form r arms dflt k"
    using os assms unfolding canonicalize_match_in_sequence_def hoisted_form_def
    by (auto split: styio_ir.splits sg_control.splits option.splits if_splits)
  then show ?thesis
  proof cases
    case 1
    then have "decisions ss ! i = None"
      unfolding d hoisted_name_def by (auto split: styio_ir.splits sg_control.splits)
    with 1 show ?thesis by (simp add: becomes_def)
  next
    case 2
    from 2(1) obtain e' arms' dflt' where s: "ss ! i = Ctl (SGMatch e' arms' dflt' k)"
      "e = optimize e'" "arms = map (map_prod id (map_option optseq)) arms'" "dflt = map_option optseq dflt'"
      by (cases "ss ! i") (auto simp: optimize_unfold map_prod_def id_def split: sg_control.splits)
    from find_rebind_SomeD [OF 2(2)] obtain ds x v p where r: "dflt = Some ds"
      "dr_bind r = Val (SGFlexBind x v p)" "var_target x = Some (dr_name r)" by metis
    then obtain ds' where "dflt' = Some ds'" "ds = optseq ds'" using s(4) by auto
    with 2 s r d show ?thesis by (auto simp: becomes_def hoisted_name_def hoisted_form_def)
  qed
qed

subsection \<open>Stores\<close>

text \<open>A name a statement does not mention may hold any value.\<close>

definition put :: "string \<Rightarrow> ir_value option \<Rightarrow> ir_state \<Rightarrow> ir_state" where
  "put x w s = assign x w s"

lemma put_simps [simp]:
  "ir_out (put x w s) = ir_out s"
  "y \<noteq> x \<Longrightarrow> ir_store (put x w s) y = ir_store s y"
  "ir_store (put x w s) x = w"
  by (simp_all add: put_def assign_def)

lemma put_assign: "x \<noteq> y \<Longrightarrow> assign y v (put x w s) = put x w (assign y v s)"
  by (simp add: put_def assign_def fun_upd_twist)

lemma put_out [simp]: "put x w s \<lparr> ir_out := t \<rparr> = put x w (s \<lparr> ir_out := t \<rparr>)"
  by (simp add: put_def assign_def)

lemma eval_put: "x \<notin> ir_reads e \<Longrightarrow> eval K (ir_store (put x w s)) e = eval K (ir_store s) e"
  by (rule eval_cong) (auto simp: put_def assign_def)

lemma print_put:
  "x \<notin> (\<Union>e\<in>set es. ir_reads e) \<Longrightarrow> print_all K es (put x w s) = map_option (put x w) (print_all K es s)"
  by (induction es arbitrary: s) (auto simp: eval_put split: option.split)

lemma self_assign_put:
  "x \<notin> ir_reads l \<Longrightarrow> self_assign K l f r (put x w s) = map_option (put x w) (self_assign K l f r s)"
proof (cases l)
  case (Val n)
  assume "x \<notin> ir_reads l"
  with Val show ?thesis
    by (cases n) (auto simp: self_assign_def ir_cases put_assign option.map_comp comp_def split: option.split ir_value.split)
qed (simp_all add: self_assign_def)

lemma exec_simple_put:
  assumes "x \<notin> mentions u" "\<not> compound u"
  shows "exec_simple K u (put x w s) = map_option (put x w) (exec_simple K u s)"
proof (cases u)
  case (Val n)
  have b: "x \<notin> ir_reads e \<Longrightarrow> map_option (\<lambda>v. assign y (Some v) (put x w s)) (eval L (ir_store (put x w s)) e)
      = map_option (put x w) (map_option (\<lambda>v. assign y (Some v) s) (eval L (ir_store s) e))" if "x \<noteq> y" for L e y
    using that by (simp add: eval_put put_assign option.map_comp comp_def)
  have e: "x \<notin> ir_reads e \<Longrightarrow> map_option (\<lambda>_. put x w s) (eval L (ir_store (put x w s)) e)
      = map_option (put x w) (map_option (\<lambda>_. s) (eval L (ir_store s) e))" for L e
    by (simp add: eval_put option.map_comp comp_def)
  have o: "x \<notin> ir_reads l \<union> ir_reads r \<Longrightarrow> Option.bind (eval K (ir_store (put x w s)) r) (\<lambda>q. self_assign K l f q (put x w s))
      = map_option (put x w) (Option.bind (eval K (ir_store s) r) (\<lambda>q. self_assign K l f q s))" for l r f
    by (cases "eval K (ir_store s) r") (simp_all add: eval_put self_assign_put)
  from Val assms show ?thesis
    by (cases n) (use b e [of u] o in \<open>auto simp: exec_simple_def mentions_unfold ir_reads_unfold split: option.split\<close>)
next
  case (Fn n)
  with assms show ?thesis by (cases n) (auto simp: exec_simple_def ir_cases)
next
  case (Ctl n)
  have e: "x \<notin> ir_reads e \<Longrightarrow> map_option (\<lambda>_. put x w s) (eval L (ir_store (put x w s)) e)
      = map_option (put x w) (map_option (\<lambda>_. s) (eval L (ir_store s) e))" for L e
    by (simp add: eval_put option.map_comp comp_def)
  from Ctl assms e [of u] show ?thesis by (cases n) (simp_all add: exec_simple_def mentions_unfold compound_def)
next
  case (Io n)
  with assms show ?thesis by (cases n) (auto simp: exec_simple_def mentions_unfold ir_cases print_put)
qed (simp_all add: exec_simple_def ir_cases)

lemma run_seq_put:
  "(\<And>u L s. u \<in> set ss \<Longrightarrow> run L u (put x w s) = map_option (map_prod (\<lambda>f. f) (put x w)) (run L u s)) \<Longrightarrow>
   run_seq d run ss K (put x w s) = map_option (map_prod (\<lambda>f. f) (put x w)) (run_seq d run ss K s)"
  by (induction ss arbitrary: K s) (auto split: option.split)

lemma run_loop_put:
  assumes "\<And>s. test (put x w s) = test s" "\<And>s. body (put x w s) = map_option (map_prod (\<lambda>f. f) (put x w)) (body s)"
  shows "run_loop n test body (put x w s) = map_option (map_prod (\<lambda>f. f) (put x w)) (run_loop n test body s)"
  using assms by (induction n arbitrary: s) (auto split: option.split)

lemma run_range_put:
  assumes "var \<noteq> x" "\<And>s. body (put x w s) = map_option (map_prod (\<lambda>f. f) (put x w)) (body s)"
  shows "run_range n var stop step body cur (put x w s) = map_option (map_prod (\<lambda>f. f) (put x w)) (run_range n var stop step body cur s)"
  using assms by (induction n arbitrary: cur s) (auto simp: put_assign split: option.split)

lemma exec_put: "x \<notin> mentions u \<Longrightarrow> exec n d K u (put x w s) = map_option (map_prod (\<lambda>f. f) (put x w)) (exec n d K u s)"
proof (induction n arbitrary: d K u s)
  case (Suc n)
  have seq: "run_seq e (exec n e) ss L (put x w t) = map_option (map_prod (\<lambda>f. f) (put x w)) (run_seq e (exec n e) ss L t)"
    if "x \<notin> (\<Union>u\<in>set ss. mentions u)" for e ss L t
    by (rule run_seq_put) (use Suc.IH that in auto)
  show ?case
  proof (cases "compound u")
    case True
    then show ?thesis
    proof (cases rule: compound_cases)
      case 1
      with Suc.prems seq show ?thesis by (simp add: exec_stmt_def mentions_unfold)
    next
      case (2 e th el)
      with Suc.prems show ?thesis
        by (cases "emit_until (generate d) (block_stmts th) K")
          (auto simp: exec_stmt_def mentions_unfold seq eval_put split: option.split)
    next
      case (3 tag e b)
      with Suc.prems have r: "x \<notin> ir_reads e" by (simp add: mentions_unfold)
      from 3 Suc.prems show ?thesis
        by (simp add: exec_stmt_def) (rule run_loop_put; simp add: eval_put r seq mentions_unfold cong: if_cong)
    next
      case (4 f to st var b)
      with Suc.prems have ne: "var \<noteq> x" by (auto simp: mentions_unfold)
      have "run_range k var y z (run_seq (Suc d) (exec n (Suc d)) (block_stmts b) L) cur (put x w t)
          = map_option (map_prod (\<lambda>f. f) (put x w)) (run_range k var y z (run_seq (Suc d) (exec n (Suc d)) (block_stmts b) L) cur t)" for k y z L cur t
        by (rule run_range_put [OF ne], rule seq) (use 4 Suc.prems in \<open>simp add: mentions_unfold\<close>)
      moreover have "eval K (ir_store (put x w s)) e = eval K (ir_store s) e" if "e \<in> {f, to, st}" for e
        using 4 Suc.prems that by (intro eval_put) (auto simp: mentions_unfold)
      ultimately show ?thesis using 4 ne by (auto simp: exec_stmt_def put_assign split: option.split)
    next
      case (5 e arms dflt k)
      have "run_seq d (exec n d) ss L (put x w t) = map_option (map_prod (\<lambda>f. f) (put x w)) (run_seq d (exec n d) ss L t)"
        if "pick_arm d arms dflt v M = Some (L, ss)" for v L M ss t
        by (rule seq) (use 5 Suc.prems pick_arm_stmts [OF that] in \<open>auto simp: mentions_unfold\<close>)
      moreover have "x \<notin> ir_reads e" using 5 Suc.prems by (simp add: mentions_unfold)
      ultimately show ?thesis using 5
        by (auto simp: exec_stmt_def eval_put map_option_bind comp_def case_prod_beta intro!: Option.bind_cong split: option.split)
    qed
  next
    case False
    show ?thesis
    proof (cases "(\<exists>e. u = Fn (SGReturn e)) \<or> (\<exists>k. u = Ctl (SGBreak k)) \<or> (\<exists>k. u = Ctl (SGContinue k))")
      case True
      with Suc.prems show ?thesis by (auto simp: exec_stmt_def mentions_unfold eval_put option.map_comp comp_def)
    next
      case other: False
      have "exec (Suc n) d K u t = map_option (\<lambda>s'. (Normal, s')) (exec_simple K u t)" for t
        using False other by (auto simp: exec_stmt_def compound_def split: styio_ir.splits sg_unit.splits sg_control.splits)
      with exec_simple_put [OF Suc.prems False] show ?thesis by (simp add: option.map_comp comp_def)
    qed
  qed
qed simp

end
