(* ===== verification/Styio_Audit.thy ===== *)
theory Styio_Audit
  imports Styio_Hoisting
begin

text \<open>
  The optimizer keeps the meaning of programs in which a hoisted name is local to its match.
  \<open>audit\<close> states that condition: a name hoisted out of a match is read by nothing outside the default
  arm it comes from, and the other arms do not mention it. A program that passes prints the same and
  ends the same after the optimizer as before. The optimizer itself looks at the statements of one
  sequence only and not at the other arms; the last example is a program that passes its tests, fails
  the audit and prints something else after the rewriting.
\<close>

subsection \<open>The condition\<close>

text \<open>The statements of the other arms, as the optimizer leaves them.\<close>

definition arm_stmts :: "(int \<times> styio_ir list option) list \<Rightarrow> styio_ir list" where
  "arm_stmts arms = concat (map (\<lambda>(v, b). optseq (block_stmts b)) arms)"

definition arms_avoid :: "string \<Rightarrow> styio_ir \<Rightarrow> (int \<times> styio_ir list option) list \<Rightarrow> bool" where
  "arms_avoid x e arms \<longleftrightarrow> list_all (\<lambda>s. x \<notin> mentions s \<and> \<not> stmt_writes_any s (ir_reads (optimize e))) (arm_stmts arms)"

lemma size_zip_stmts [termination_simp]:
  assumes "(h, s) \<in> set (zip hs ss)"
  shows "size s < size_list size ss"
proof -
  have "s \<in> set xs \<Longrightarrow> size s < size_list size xs" for xs by (induction xs) auto
  with set_zip_rightD [OF assms] show ?thesis by blast
qed

lemma size_zip_block [termination_simp]:
  assumes "(h, s) \<in> set (zip hs (block_stmts b))"
  shows "size s < size_option (size_list size) b"
  by (rule size_block_stmts, rule set_zip_rightD [OF assms])

lemma size_zip_arm [termination_simp]:
  assumes "(v, b) \<in> set arms" "(h, s) \<in> set (zip hs (block_stmts b))"
  shows "size s < size_list (size_prod f (size_option (size_list size))) arms"
  by (rule size_arm_stmts [OF assms(1)], rule set_zip_rightD [OF assms(2)])

text \<open>\<open>D\<close> are the names whose value may have changed, \<open>h\<close> the name hoisted out of the statement.\<close>

fun audit :: "string set \<Rightarrow> string option \<Rightarrow> styio_ir \<Rightarrow> bool" where
  "audit D h ir =
     (case ir of
        Val (SGFlexBind x v p) \<Rightarrow> ir_reads v \<inter> D = {}
      | Val (SGFinalBind x v) \<Rightarrow> ir_reads v \<inter> D = {}
      | Fn (SGBlock ss) \<Rightarrow> list_all (\<lambda>(h, s). audit D h s) (zip (decisions ss) ss)
      | Ctl (SGIf c t e) \<Rightarrow>
          ir_reads c \<inter> D = {}
          \<and> list_all (\<lambda>(h, s). audit D h s) (zip (decisions (block_stmts t)) (block_stmts t))
          \<and> list_all (\<lambda>(h, s). audit D h s) (zip (decisions (block_stmts e)) (block_stmts e))
      | Ctl (SGLoop tag c b) \<Rightarrow>
          ir_reads c \<inter> D = {}
          \<and> list_all (\<lambda>(h, s). audit D h s) (zip (decisions (block_stmts b)) (block_stmts b))
      | Ctl (SGRangeFor f t st var b) \<Rightarrow>
          (ir_reads f \<union> ir_reads t \<union> ir_reads st) \<inter> D = {}
          \<and> list_all (\<lambda>(h, s). audit D h s) (zip (decisions (block_stmts b)) (block_stmts b))
      | Ctl (SGMatch e arms dflt k) \<Rightarrow>
          ir_reads (optimize e) \<inter> D = {} \<and> ir_reads e \<inter> D = {}
          \<and> (case h of None \<Rightarrow> True | Some x \<Rightarrow> x \<in> D \<and> arms_avoid x e arms)
          \<and> list_all (\<lambda>(v, b). list_all (\<lambda>(h, s). audit D h s) (zip (decisions (block_stmts b)) (block_stmts b))) arms
          \<and> list_all (\<lambda>(h', s). audit (D - set_option h) h' s) (zip (decisions (block_stmts dflt)) (block_stmts dflt))
      | _ \<Rightarrow> mentions ir \<inter> D = {})"

declare audit.simps [simp del]

abbreviation audit_seq :: "string set \<Rightarrow> styio_ir list \<Rightarrow> bool" where
  "audit_seq D ss \<equiv> list_all (\<lambda>(h, s). audit D h s) (zip (decisions ss) ss)"

lemmas audit_unfold =
  audit.simps [of D h "Val n" for D h n, simplified]
  audit.simps [of D h "Fn n" for D h n, simplified]
  audit.simps [of D h "Ctl n" for D h n, simplified]
  audit.simps [of D h "Coll n" for D h n, simplified]
  audit.simps [of D h "Io n" for D h n, simplified]
  audit.simps [of D h "NullIR" for D h, simplified]

lemma block_stmts_optseq [simp]: "block_stmts (map_option optseq b) = optseq (block_stmts b)"
  by (cases b) (simp_all add: block_stmts_def canonicalize_sequence_def)

text \<open>Statements with the names hoisted out of them and what they have become.\<close>

definition rewritten :: "string set \<Rightarrow> styio_ir list \<Rightarrow> styio_ir list \<Rightarrow> bool" where
  "rewritten D ss us \<longleftrightarrow> list_all2 (\<lambda>s u. \<exists>h. audit D h s \<and> becomes h s u) ss us"

lemma rewritten_simps [simp]:
  "rewritten D [] us = (us = [])"
  "rewritten D (s # ss) us = (\<exists>u us' h. us = u # us' \<and> audit D h s \<and> becomes h s u \<and> rewritten D ss us')"
  by (auto simp: rewritten_def list_all2_Cons1)

lemma rewritten_optseq: "audit_seq D ss \<Longrightarrow> rewritten D ss (optseq ss)"
  unfolding rewritten_def
proof (rule list_all2_all_nthI)
  fix n assume a: "audit_seq D ss" "n < length ss"
  then have "(decisions ss ! n, ss ! n) \<in> set (zip (decisions ss) ss)"
    by (auto simp: in_set_zip)
  with a(1) have "audit D (decisions ss ! n) (ss ! n)" by (auto simp: list_all_iff)
  with becomes_seq [OF a(2)] show "\<exists>h. audit D h (ss ! n) \<and> becomes h (ss ! n) (optseq ss ! n)" by blast
qed simp

subsection \<open>Equal expressions\<close>

lemma equiv_Coll: "ir_expr_equiv a (Coll n) \<Longrightarrow> \<exists>m. a = Coll m"
  by (subst (asm) ir_expr_equiv.simps; cases a) (simp_all split: sg_value.splits)

lemma equiv_none: "ir_expr_equiv a NullIR \<Longrightarrow> a = NullIR" "\<not> ir_expr_equiv a (Fn n)" "\<not> ir_expr_equiv a (Io i)"
  by (subst (asm) ir_expr_equiv.simps, cases a, simp_all split: sg_value.splits sc_node.splits)
    (subst ir_expr_equiv.simps, cases a, simp_all split: sg_value.split sc_node.split)+

lemma equiv_same: "ir_expr_equiv a b \<Longrightarrow> eval K \<sigma> a = eval K \<sigma> b \<and> ir_reads a = ir_reads b"
proof (induction b arbitrary: a rule: measure_induct_rule [of size])
  case (less b)
  show ?case
  proof (cases b)
    case (Val n)
    with less.prems equiv_Val obtain m where m: "a = Val m" by blast
    consider (bin) dt x y op ta tb where "n = SGBinOp dt x y op ta tb" | (cond) x y op where "n = SGCond x y op"
      | (other) "\<nexists>dt x y op ta tb. n = SGBinOp dt x y op ta tb" "\<nexists>x y op. n = SGCond x y op"
      by blast
    then show ?thesis
    proof cases
      case bin
      with less.prems m Val obtain x' y' where e: "ir_expr_equiv x' x" "ir_expr_equiv y' y" "m = SGBinOp dt x' y' op ta tb"
        by (cases m) (auto simp: equiv_unfold type_equals_iff)
      with m Val bin less.IH [OF _ e(1)] less.IH [OF _ e(2)] show ?thesis by (simp add: ir_cases)
    next
      case cond
      with less.prems m Val obtain x' y' where e: "ir_expr_equiv x' x" "ir_expr_equiv y' y" "m = SGCond x' y' op"
        by (cases m) (auto simp: equiv_unfold)
      with m Val cond less.IH [OF _ e(1)] less.IH [OF _ e(2)] show ?thesis by (simp add: ir_cases)
    next
      case other
      with less.prems m Val show ?thesis by (cases n; cases m) (auto simp: equiv_unfold ir_cases)
    qed
  next
    case (Coll n)
    with less.prems equiv_Coll obtain m where "a = Coll m" by blast
    with Coll show ?thesis by (simp add: ir_cases)
  qed (use less.prems in \<open>auto simp: equiv_none(2,3) equiv_Ctl dest: equiv_none(1)\<close>)
qed

subsection \<open>Transparent statements\<close>

lemma transparent_induct [consumes 1, case_names Null Flex Final Block]:
  assumes "stmt_is_rebind_hoist_transparent s"
    "P NullIR" "\<And>x v p. ir_expr_has_no_runtime_effects v \<Longrightarrow> P (Val (SGFlexBind x v p))"
    "\<And>x v. ir_expr_has_no_runtime_effects v \<Longrightarrow> P (Val (SGFinalBind x v))"
    "\<And>ss. (\<And>s. s \<in> set ss \<Longrightarrow> stmt_is_rebind_hoist_transparent s \<and> P s) \<Longrightarrow> P (Fn (SGBlock ss))"
  shows "P s"
  using assms(1)
proof (induction s rule: stmt_induct)
  case (Block ss)
  then show ?case by (intro assms(5)) (simp add: transparent_unfold list_all_iff)
next
  case (Simple s)
  then show ?case
    using assms(2-4) by (cases s) (auto simp: transparent_unfold compound_def split: sg_value.splits sg_unit.splits)
qed (simp_all add: transparent_unfold)

lemma transparent_mentions:
  "stmt_is_rebind_hoist_transparent s \<Longrightarrow> \<not> stmt_reads_name s x \<Longrightarrow> \<not> stmt_writes_name s x \<Longrightarrow> x \<notin> mentions s"
proof (induction s rule: transparent_induct)
  case (Flex y v p)
  with reads_collected(1) show ?case
    by (auto simp: mentions_unfold writes_unfold sreads_unfold expr_reads_name_def dest: target_binds)
next
  case (Final y v)
  with reads_collected(1) show ?case
    by (auto simp: mentions_unfold writes_unfold sreads_unfold expr_reads_name_def dest: target_binds)
next
  case (Block ss)
  then show ?case by (auto simp: mentions_unfold writes_unfold sreads_unfold list_ex_iff)
qed (simp add: mentions_unfold ir_cases)

lemma emit_until_open:
  "emit_until f ss K = Some (K', t) \<Longrightarrow> (\<And>s L L' t'. s \<in> set ss \<Longrightarrow> f s L = Some (L', t') \<Longrightarrow> \<not> t') \<Longrightarrow> \<not> t"
proof (induction ss arbitrary: K)
  case (Cons s ss)
  from Cons.prems(1) show ?case
  proof (rule emit_until_Some_step)
    fix K1 assume k: "f s K = Some (K1, False)" "emit_until f ss K1 = Some (K', t)"
    show ?thesis by (rule Cons.IH [OF k(2)], rule Cons.prems(2)) simp_all
  qed (use Cons.prems(2) in \<open>metis list.set_intros(1)\<close>)
qed simp

lemma transparent_emit: "stmt_is_rebind_hoist_transparent s \<Longrightarrow> generate d s K = Some (K', t) \<Longrightarrow> \<not> t"
proof (induction s arbitrary: K K' t rule: transparent_induct)
  case (Block ss)
  then have "emit_until (generate d) ss K = Some (K', t)" by (simp add: emit_unfold)
  then show ?case by (rule emit_until_open) (use Block.IH in blast)
qed (auto simp: emit_unfold split: option.splits if_splits)

text \<open>A transparent statement ends normally and leaves every name alone that it does not bind.\<close>

lemma transparent_exec:
  "stmt_is_rebind_hoist_transparent s \<Longrightarrow> exec n d K s \<sigma> = Some (f, \<tau>) \<Longrightarrow>
   f = Normal \<and> (\<not> stmt_writes_name s y \<longrightarrow> ir_store \<tau> y = ir_store \<sigma> y)"
proof (induction s arbitrary: n K \<sigma> f \<tau> rule: transparent_induct)
  case Null
  then show ?case by (cases n) (auto simp: exec_stmt_def exec_simple_def)
next
  case (Flex x v p)
  then show ?case
    by (cases n) (auto simp: exec_stmt_def exec_simple_def assign_def writes_unfold dest: target_binds split: option.splits)
next
  case (Final x v)
  then show ?case
    by (cases n) (auto simp: exec_stmt_def exec_simple_def assign_def writes_unfold dest: target_binds split: option.splits)
next
  case (Block ss)
  then obtain k where k: "n = Suc k" by (cases n) auto
  have "f = Normal \<and> (\<not> list_ex (\<lambda>s. stmt_writes_name s y) us \<longrightarrow> ir_store \<tau> y = ir_store \<sigma> y)"
    if "run_seq d (exec k d) us K \<sigma> = Some (f, \<tau>)" "set us \<subseteq> set ss" for us K \<sigma>
    using that
  proof (induction us arbitrary: K \<sigma>)
    case (Cons u us)
    then obtain K1 t g \<rho> where u: "generate d u K = Some (K1, t)" "exec k d K u \<sigma> = Some (g, \<rho>)"
      by (auto split: option.splits)
    with Cons.prems(2) Block.IH [of u] transparent_emit [of u d K K1 t]
    have "\<not> t" "g = Normal" "\<not> stmt_writes_name u y \<longrightarrow> ir_store \<rho> y = ir_store \<sigma> y" by auto
    with u Cons show ?case by auto
  qed simp
  with Block.prems k show ?case by (auto simp: exec_stmt_def writes_unfold)
qed

lemma transparent_prefix:
  assumes "list_all stmt_is_rebind_hoist_transparent pre" "run_seq d (exec n d) (pre @ rest) K \<sigma> = Some r"
  obtains K' \<rho> where "emit_until (generate d) pre K = Some (K', False)" "run_seq d (exec n d) pre K \<sigma> = Some (Normal, \<rho>)"
    "run_seq d (exec n d) rest K' \<rho> = Some r"
  using assms
proof (induction pre arbitrary: K \<sigma> thesis)
  case (Cons u pre)
  then obtain K1 t g \<rho> where u: "generate d u K = Some (K1, t)" "exec n d K u \<sigma> = Some (g, \<rho>)"
    by (auto split: option.splits)
  with Cons.prems(2) have "\<not> t" "g = Normal" by (auto dest: transparent_emit transparent_exec)
  with u Cons.prems(3) have s: "run_seq d (exec n d) (pre @ rest) K1 \<rho> = Some r" by simp
  show ?case
  proof (rule Cons.IH [OF _ _ s])
    fix K' \<rho>' assume "emit_until (generate d) pre K1 = Some (K', False)" "run_seq d (exec n d) pre K1 \<rho> = Some (Normal, \<rho>')"
      "run_seq d (exec n d) rest K' \<rho>' = Some r"
    with u \<open>\<not> t\<close> \<open>g = Normal\<close> show ?case by (intro Cons.prems(1)) simp_all
  qed (use Cons.prems(2) in simp)
qed simp

lemma run_seq_append:
  "emit_until (generate d) pre K = Some (K', False) \<Longrightarrow> run_seq d run pre K \<sigma> = Some (Normal, \<rho>) \<Longrightarrow>
   run_seq d run (pre @ rest) K \<sigma> = run_seq d run rest K' \<rho>"
  by (induction pre arbitrary: K \<sigma>) (auto split: option.splits if_splits)

lemma emit_until_append:
  "emit_until f (pre @ rest) K =
   (case emit_until f pre K of None \<Rightarrow> None | Some (K', t) \<Rightarrow> if t then Some (K', True) else emit_until f rest K')"
  by (induction pre arbitrary: K) (auto split: option.split)

lemma run_seq_keep:
  "list_all stmt_is_rebind_hoist_transparent ss \<Longrightarrow> list_all (\<lambda>s. \<not> stmt_writes_name s y) ss \<Longrightarrow>
   run_seq d (exec n d) ss K \<sigma> = Some (f, \<rho>) \<Longrightarrow> ir_store \<rho> y = ir_store \<sigma> y"
proof (induction ss arbitrary: K \<sigma>)
  case (Cons u ss)
  then obtain K1 t g \<tau> where u: "generate d u K = Some (K1, t)" "exec n d K u \<sigma> = Some (g, \<tau>)"
    by (auto split: option.splits)
  with Cons.prems(1,2) have "\<not> t" "g = Normal" "ir_store \<tau> y = ir_store \<sigma> y" by (auto dest: transparent_emit transparent_exec)
  with u Cons show ?case by auto
qed simp

lemma emit_until_writes:
  "emit_until (generate d) ss K = Some (K', t) \<Longrightarrow> list_all (\<lambda>s. \<not> stmt_writes_name s y) ss \<Longrightarrow> K' y = K y"
  by (erule emit_until_keep) (auto simp: list_all_iff dest: emit_writes)

subsection \<open>What is known when a rebinding has been found\<close>

lemma rebind_facts:
  assumes "find_repeated_default_rebind e (Some us) = Some r"
  obtains pre suf x v p where "us = pre @ Val (SGFlexBind x v p) # suf" "erase_at (dr_index r) us = pre @ suf"
    "dr_bind r = Val (SGFlexBind x v p)" "var_target x = Some (dr_name r)"
    "ir_expr_equiv v e" "ir_reads v = ir_reads e"
    "list_all stmt_is_rebind_hoist_transparent pre" "dr_name r \<notin> (\<Union>s\<in>set pre. mentions s)"
    "list_all (\<lambda>s. \<not> stmt_writes_name s (dr_name r)) pre"
    "\<And>y. y \<in> ir_reads e \<Longrightarrow> list_all (\<lambda>s. \<not> stmt_writes_name s y) pre"
proof -
  let ?i = "dr_index r"
  from assms obtain x v p where r: "ir_expr_is_speculatable e" "?i < length us"
    "us ! ?i = Val (SGFlexBind x v p)" "dr_bind r = Val (SGFlexBind x v p)" "var_target x = Some (dr_name r)"
    "ir_expr_equiv v e" "\<not> prior_conflict us ?i (dr_name r) (collect_expr_reads e)"
    by (rule find_rebind_SomeD) simp
  from r(7) have pre: "stmt_is_rebind_hoist_transparent s" "\<not> stmt_reads_name s (dr_name r)" "\<not> stmt_writes_name s (dr_name r)"
    "\<not> stmt_writes_any s (collect_expr_reads e)" if "s \<in> set (take ?i us)" for s
    using that by (auto simp: prior_conflict_def list_ex_iff)
  show thesis
  proof (rule that)
    show "us = take ?i us @ Val (SGFlexBind x v p) # drop (Suc ?i) us"
      using id_take_nth_drop [OF r(2)] r(3) by simp
    show "erase_at ?i us = take ?i us @ drop (Suc ?i) us" by (simp add: erase_at_def)
    show "ir_reads v = ir_reads e" using equiv_same [OF r(6)] by blast
    show "dr_name r \<notin> (\<Union>s\<in>set (take ?i us). mentions s)" using pre transparent_mentions by blast
    show "list_all (\<lambda>s. \<not> stmt_writes_name s y) (take ?i us)" if "y \<in> ir_reads e" for y
      using pre(4) reads_collected(2) [OF r(1)] that by (auto simp: list_all_iff stmt_writes_any_def)
  qed (use r pre in \<open>auto simp: list_all_iff\<close>)
qed

subsection \<open>The generator\<close>

lemma emit_until_rewrite:
  "list_all2 (\<lambda>s u. \<forall>K r. f s K = Some r \<longrightarrow> g u K = Some r) ss us \<Longrightarrow> emit_until f ss K = Some r \<Longrightarrow> emit_until g us K = Some r"
  by (induction ss us arbitrary: K rule: list_all2_induct) (auto split: option.splits if_splits)

lemma target_var: "target_of x = Some n \<Longrightarrow> var_target x = Some n"
  by (auto simp: target_of_def var_target_def bind_eq_Some_conv split: if_splits)

lemma emit_until_avoid:
  "x \<notin> (\<Union>s\<in>set ss. mentions s) \<Longrightarrow>
   emit_until (generate d) ss (know x c K) = map_option (map_prod (know x c) (\<lambda>t. t)) (emit_until (generate d) ss K)"
  by (rule emit_until_upd, rule emit_upd) auto

lemma emit_arms_avoid:
  "x \<notin> (\<Union>(v, b)\<in>set arms. \<Union>s\<in>set (block_stmts b). mentions s) \<Longrightarrow>
   emit_until (\<lambda>(v, b) K. map_option (\<lambda>K. (fst K, False)) (emit_until (generate d) (block_stmts b) K)) arms (know x c K)
   = map_option (map_prod (know x c) (\<lambda>t. t))
       (emit_until (\<lambda>(v, b) K. map_option (\<lambda>K. (fst K, False)) (emit_until (generate d) (block_stmts b) K)) arms K)"
proof (rule emit_until_upd)
  fix a :: "'a \<times> styio_ir list option" and L
  obtain v b where a: "a = (v, b)" by (cases a)
  assume "a \<in> set arms" "x \<notin> (\<Union>(v, b)\<in>set arms. \<Union>s\<in>set (block_stmts b). mentions s)"
  with a have "x \<notin> (\<Union>s\<in>set (block_stmts b). mentions s)" by blast
  from emit_until_avoid [OF this, of d c L]
  show "(case a of (v, b) \<Rightarrow> \<lambda>K. map_option (\<lambda>K. (fst K, False)) (emit_until (generate d) (block_stmts b) K)) (know x c L)
    = map_option (map_prod (know x c) (\<lambda>t. t))
        ((case a of (v, b) \<Rightarrow> \<lambda>K. map_option (\<lambda>K. (fst K, False)) (emit_until (generate d) (block_stmts b) K)) L)"
    by (simp add: a option.map_comp comp_def)
qed

lemma emit_arms_keep:
  assumes "emit_until (\<lambda>(v, b) K. map_option (\<lambda>K. (fst K, False)) (emit_until (generate d) (block_stmts b) K)) arms K = Some (K', t)"
    "\<And>v b s. (v, b) \<in> set arms \<Longrightarrow> s \<in> set (block_stmts b) \<Longrightarrow> \<not> stmt_writes_name s y"
  shows "K' y = K y"
proof (rule emit_until_keep [OF assms(1)])
  fix a :: "'a \<times> styio_ir list option" and L L' t'
  obtain v b where a: "a = (v, b)" by (cases a)
  assume m: "a \<in> set arms"
    and "(case a of (v, b) \<Rightarrow> \<lambda>K. map_option (\<lambda>K. (fst K, False)) (emit_until (generate d) (block_stmts b) K)) L = Some (L', t')"
  with a obtain t1 where "emit_until (generate d) (block_stmts b) L = Some (L', t1)" by auto
  then show "L' y = L y" by (rule emit_until_writes) (use assms(2) a m in \<open>auto simp: list_all_iff\<close>)
qed

text \<open>Where the original match generates, so does the hoisted form, and the same names are known after it.\<close>

lemma emit_hoisted:
  assumes r: "find_repeated_default_rebind e (Some us) = Some r"
    and x: "dr_name r \<notin> (\<Union>(v, b)\<in>set arms. \<Union>s\<in>set (block_stmts b). mentions s)"
    and em: "generate d (Ctl (SGMatch e' arms (Some us) k)) K = Some q"
  shows "generate d (hoisted_form r arms (Some us) k) K = Some q"
    and "generate d (dr_bind r) K = Some (know (dr_name r) Mutable K, False)"
proof -
  let ?x = "dr_name r"
  from r obtain pre suf y v p where f: "us = pre @ Val (SGFlexBind y v p) # suf" "erase_at (dr_index r) us = pre @ suf"
    "dr_bind r = Val (SGFlexBind y v p)" "var_target y = Some ?x"
    "list_all stmt_is_rebind_hoist_transparent pre" "?x \<notin> (\<Union>s\<in>set pre. mentions s)"
    "list_all (\<lambda>s. \<not> stmt_writes_name s ?x) pre"
    by (rule rebind_facts) blast
  let ?arms = "emit_until (\<lambda>(v, b) K. map_option (\<lambda>K. (fst K, False)) (emit_until (generate d) (block_stmts b) K)) arms"
  from em obtain K1 t1 K2 t2 where k: "k = MK_Stmt" "?arms K = Some (K1, t1)" "emit_until (generate d) us K1 = Some (K2, t2)"
    "q = (K2, False)"
    by (auto simp: emit_unfold block_stmts_def bind_eq_Some_conv split: if_splits)
  from k(3) f(1) obtain Kp tp where kp: "emit_until (generate d) pre K1 = Some (Kp, tp)"
    by (auto simp: emit_until_append split: option.splits)
  have "\<not> tp" by (rule emit_until_open [OF kp]) (use f(5) in \<open>auto simp: list_all_iff dest: transparent_emit\<close>)
  with k(3) f(1) kp obtain Kb tb where kb: "generate d (Val (SGFlexBind y v p)) Kp = Some (Kb, tb)"
    by (auto simp: emit_until_append split: option.splits)
  with f(4) have y: "target_of y = Some ?x" "Kp ?x \<noteq> Some Named" "Kb = know ?x Mutable Kp" "\<not> tb"
    by (auto simp: emit_unfold know_def dest: target_var split: option.splits if_splits)
  have "Kp ?x = K1 ?x" by (rule emit_until_writes [OF kp f(7)])
  with y(2) have "K1 ?x \<noteq> Some Named" by simp
  moreover have "K1 ?x = Some Named" if n: "K ?x = Some Named"
  proof -
    from n have "know ?x Named K = K" by (simp add: know_def fun_upd_idem)
    with emit_arms_avoid [OF x, of d Named K] k(2) have "know ?x Named K1 = K1" by simp
    then have "know ?x Named K1 ?x = K1 ?x" by simp
    then show ?thesis by (simp add: know_apply)
  qed
  ultimately have "K ?x \<noteq> Some Named" by blast
  with y(1) f(3) show b: "generate d (dr_bind r) K = Some (know ?x Mutable K, False)"
    by (simp add: emit_unfold know_def)
  from k(3) f(1) kp kb \<open>\<not> tp\<close> y(3,4) have suf: "emit_until (generate d) suf (know ?x Mutable Kp) = Some (K2, t2)"
    by (simp add: emit_until_append)
  from emit_arms_avoid [OF x, of d Mutable K] k(2) have "?arms (know ?x Mutable K) = Some (know ?x Mutable K1, t1)" by simp
  moreover from emit_until_avoid [OF f(6), of d Mutable K1] kp \<open>\<not> tp\<close> suf f(2)
  have "emit_until (generate d) (erase_at (dr_index r) us) (know ?x Mutable K1) = Some (K2, t2)"
    by (simp add: emit_until_append)
  ultimately show "generate d (hoisted_form r arms (Some us) k) K = Some q"
    using b k(1,4) by (simp add: hoisted_form_def emit_unfold block_stmts_def)
qed

text \<open>The optimized arms of a match.\<close>

abbreviation opt_arms :: "('v \<times> styio_ir list option) list \<Rightarrow> ('v \<times> styio_ir list option) list" where
  "opt_arms arms \<equiv> map (map_prod (\<lambda>v. v) (map_option optseq)) arms"

lemmas becomes_unfold = becomes_def [unfolded id_def]

lemma arms_avoidD:
  assumes "arms_avoid x e arms"
  shows "x \<notin> (\<Union>(v, b)\<in>set (opt_arms arms). \<Union>s\<in>set (block_stmts b). mentions s)"
    "(v, b) \<in> set (opt_arms arms) \<Longrightarrow> s \<in> set (block_stmts b) \<Longrightarrow> y \<in> ir_reads (optimize e) \<Longrightarrow> \<not> stmt_writes_name s y"
    "(v, b) \<in> set arms \<Longrightarrow> x \<notin> (\<Union>s\<in>set (optseq (block_stmts b)). mentions s)"
  using assms by (fastforce simp: arms_avoid_def arm_stmts_def list_all_iff stmt_writes_any_def)+

lemma emit_optseq:
  assumes "audit_seq D ss" "emit_until (generate d) ss K = Some r"
    "\<And>s h u K r. s \<in> set ss \<Longrightarrow> audit D h s \<Longrightarrow> becomes h s u \<Longrightarrow> generate d s K = Some r \<Longrightarrow> generate d u K = Some r"
  shows "emit_until (generate d) (optseq ss) K = Some r"
proof -
  have "list_all2 (\<lambda>s u. \<forall>K r. generate d s K = Some r \<longrightarrow> generate d u K = Some r) ss (optseq ss)"
    using rewritten_optseq [OF assms(1)] unfolding rewritten_def by (rule list.rel_mono_strong) (use assms(3) in blast)
  from emit_until_rewrite [OF this assms(2)] show ?thesis .
qed

lemma emit_opt_arms:
  assumes "emit_until (\<lambda>(v, b) K. map_option (\<lambda>K. (fst K, False)) (emit_until (generate d) (block_stmts b) K)) arms K = Some r"
    "\<And>v b K r. (v, b) \<in> set arms \<Longrightarrow> emit_until (generate d) (block_stmts b) K = Some r \<Longrightarrow> emit_until (generate d) (optseq (block_stmts b)) K = Some r"
  shows "emit_until (\<lambda>(v, b) K. map_option (\<lambda>K. (fst K, False)) (emit_until (generate d) (block_stmts b) K)) (opt_arms arms) K = Some r"
  by (rule emit_until_rewrite [OF _ assms(1)]) (auto simp: list_all2_map2 list.rel_refl_strong intro!: list.rel_refl_strong dest: assms(2))

lemma emit_becomes:
  "audit D h s \<Longrightarrow> becomes h s u \<Longrightarrow> generate d s K = Some r \<Longrightarrow> generate d u K = Some r"
proof (induction s arbitrary: D h u d K r rule: stmt_induct)
  case (Block ss)
  with emit_optseq [of D ss d K r] show ?case by (auto simp: becomes_unfold optimize_unfold audit_unfold emit_unfold)
next
  case (If c th el)
  have t: "emit_until (generate d) (optseq (block_stmts th)) L = Some q" if "emit_until (generate d) (block_stmts th) L = Some q" for L q
    by (rule emit_optseq [where D = D, OF _ that If.IH(1)]) (use If.prems(1) in \<open>simp add: audit_unfold\<close>)
  have e: "emit_until (generate d) (optseq (block_stmts el)) L = Some q" if "emit_until (generate d) (block_stmts el) L = Some q" for L q
    by (rule emit_optseq [where D = D, OF _ that If.IH(2)]) (use If.prems(1) in \<open>simp add: audit_unfold\<close>)
  from If.prems(2,3) t e show ?case
    by (auto simp: becomes_unfold optimize_unfold emit_unfold bind_eq_Some_conv)
next
  case (Loop tag c b)
  have "emit_until (generate (Suc d)) (optseq (block_stmts b)) L = Some q" if "emit_until (generate (Suc d)) (block_stmts b) L = Some q" for L q
    by (rule emit_optseq [where D = D, OF _ that Loop.IH]) (use Loop.prems(1) in \<open>simp add: audit_unfold\<close>)
  with Loop.prems(2,3) show ?case by (auto simp: becomes_unfold optimize_unfold emit_unfold)
next
  case (Range f to st var b)
  have "emit_until (generate (Suc d)) (optseq (block_stmts b)) L = Some q" if "emit_until (generate (Suc d)) (block_stmts b) L = Some q" for L q
    by (rule emit_optseq [where D = D, OF _ that Range.IH]) (use Range.prems(1) in \<open>simp add: audit_unfold\<close>)
  with Range.prems(2,3) show ?case by (auto simp: becomes_unfold optimize_unfold emit_unfold split: if_splits)
next
  case (Match e arms dflt k)
  have a: "emit_until (generate d) (optseq (block_stmts b)) L = Some q"
    if "(v, b) \<in> set arms" "emit_until (generate d) (block_stmts b) L = Some q" for v b L q
    by (rule emit_optseq [where D = D, OF _ that(2) Match.IH(1) [OF that(1)]])
      (use Match.prems(1) that(1) in \<open>auto simp: audit_unfold list_all_iff\<close>)
  have f: "emit_until (generate d) (optseq (block_stmts dflt)) L = Some q"
    if "emit_until (generate d) (block_stmts dflt) L = Some q" for L q
    by (rule emit_optseq [where D = "D - set_option h", OF _ that Match.IH(2)]) (use Match.prems(1) in \<open>simp add: audit_unfold\<close>)
  have o: "generate d (Ctl (SGMatch e' (opt_arms arms) (map_option optseq dflt) k)) K = Some r" for e'
    using Match.prems(3) a f by (auto simp: emit_unfold bind_eq_Some_conv split: if_splits intro!: exI emit_opt_arms)
  from Match.prems(2) consider "h = None" "u = optimize (Ctl (SGMatch e arms dflt k))"
    | ds q where "dflt = Some ds" "find_repeated_default_rebind (optimize e) (Some (optseq ds)) = Some q" "h = Some (dr_name q)"
        "u = hoisted_form q (opt_arms arms) (Some (optseq ds)) k"
    by (auto simp: becomes_unfold)
  then show ?case
  proof cases
    case 1
    with o show ?thesis by (simp add: optimize_unfold map_prod_def id_def)
  next
    case 2
    with Match.prems(1) have "arms_avoid (dr_name q) e arms" by (simp add: audit_unfold)
    from emit_hoisted(1) [OF 2(2) arms_avoidD(1) [OF this]] o 2 show ?thesis by simp
  qed
next
  case (Simple s)
  then show ?case
    by (cases s) (auto simp: becomes_unfold emit_unfold optimize_unfold compound_def
      split: sg_value.splits sg_unit.splits sg_control.splits)
qed

subsection \<open>The run\<close>

definition agree :: "string set \<Rightarrow> ir_state \<Rightarrow> ir_state \<Rightarrow> bool" where
  "agree D s t \<longleftrightarrow> ir_out s = ir_out t \<and> (\<forall>x. x \<notin> D \<longrightarrow> ir_store s x = ir_store t x)"

lemma agree_eval: "agree D s t \<Longrightarrow> ir_reads e \<inter> D = {} \<Longrightarrow> eval K (ir_store t) e = eval K (ir_store s) e"
  by (rule eval_cong) (auto simp: agree_def)

lemma agree_assign: "agree D s t \<Longrightarrow> agree D (assign x v s) (assign x v t)"
  by (auto simp: agree_def assign_def)

lemma agree_put: "agree D s t \<Longrightarrow> x \<in> D \<Longrightarrow> agree D s (put x v t)"
  by (auto simp: agree_def put_def assign_def)

lemma agree_mono: "agree D s t \<Longrightarrow> D \<subseteq> E \<Longrightarrow> agree E s t"
  by (auto simp: agree_def)

lemma agree_print:
  "agree D s t \<Longrightarrow> (\<Union>e\<in>set es. ir_reads e) \<inter> D = {} \<Longrightarrow> print_all K es s = Some s' \<Longrightarrow>
   \<exists>t'. print_all K (map optimize es) t = Some t' \<and> agree D s' t'"
proof (induction es arbitrary: s t)
  case (Cons e es)
  from Cons.prems obtain v where v: "eval K (ir_store s) e = Some v"
    "print_all K es (s \<lparr> ir_out := ir_out s @ shown v \<rparr>) = Some s'" by (auto split: option.splits)
  moreover have "agree D (s \<lparr> ir_out := ir_out s @ shown v \<rparr>) (t \<lparr> ir_out := ir_out t @ shown v \<rparr>)"
    using Cons.prems(1) by (simp add: agree_def)
  moreover have "eval K (ir_store t) e = Some v" using agree_eval [of D s t e K] Cons.prems v(1) by auto
  moreover have "(\<Union>e\<in>set es. ir_reads e) \<inter> D = {}" using Cons.prems(2) by auto
  ultimately show ?case using Cons.IH v(1) by (simp add: optimize_expr)
qed simp

lemma agree_self_assign:
  "agree D s t \<Longrightarrow> ir_reads l \<inter> D = {} \<Longrightarrow> self_assign K l f r s = Some s' \<Longrightarrow>
   \<exists>t'. self_assign K (optimize l) f r t = Some t' \<and> agree D s' t'"
  by (auto simp: self_assign_def optimize_unfold ir_cases agree_def assign_def
      split: styio_ir.splits sg_value.splits if_splits option.splits ir_value.splits)

lemma optimize_eval:
  "agree D s t \<Longrightarrow> ir_reads e \<inter> D = {} \<Longrightarrow> eval K (ir_store s) e = Some v \<Longrightarrow>
   eval K (ir_store t) (optimize e) = Some v \<and> optimize e = e"
  using agree_eval [of D s t e K] by (auto simp: optimize_expr)

lemma simple_sim:
  assumes "agree D s t" "audit D h u" "\<not> compound u" "exec_simple K u s = Some s'"
  shows "\<exists>t'. exec_simple K (optimize u) t = Some t' \<and> agree D s' t'"
proof -
  have expr: "\<exists>t'. map_option (\<lambda>_. t) (eval L (ir_store t) (optimize u)) = Some t' \<and> agree D s' t'"
    if "map_option (\<lambda>_. s) (eval L (ir_store s) u) = Some s'" "ir_reads u \<inter> D = {}" for L
    using that optimize_eval [OF assms(1), of u L] assms(1) by auto
  show ?thesis
  proof (cases u)
    case NullIR
    with assms show ?thesis by (simp add: exec_simple_def ir_cases)
  next
    case (Val n)
    show ?thesis
    proof (cases "\<exists>x v. (\<exists>p. n = SGFlexBind x v p) \<or> n = SGFinalBind x v")
      case True
      with Val assms show ?thesis
        by (auto simp: exec_simple_def optimize_unfold audit_unfold split: option.splits)
          (use optimize_eval [OF assms(1)] agree_assign [OF assms(1)] in blast)+
    next
      case bind: False
      show ?thesis
      proof (cases "\<exists>dt a b op ta tb. n = SGBinOp dt a b op ta tb")
        case True
        then obtain dt a b op ta tb where n: "n = SGBinOp dt a b op ta tb" by blast
        with Val assms(2) have r: "ir_reads a \<inter> D = {}" "ir_reads b \<inter> D = {}" "ir_reads u \<inter> D = {}"
          by (auto simp: audit_unfold mentions_unfold ir_cases)
        show ?thesis
        proof (cases "self_op op")
          case None
          with Val n assms(4) expr [of K] r(3) show ?thesis by (auto simp: exec_simple_def optimize_unfold)
        next
          case (Some f)
          with Val n assms(4) obtain q where q: "eval K (ir_store s) b = Some q" "self_assign K a f q s = Some s'"
            by (auto simp: exec_simple_def bind_eq_Some_conv)
          with Some Val n agree_self_assign [OF assms(1) r(1) q(2)] optimize_eval [OF assms(1) r(2) q(1)] show ?thesis
            by (auto simp: exec_simple_def optimize_unfold)
        qed
      next
        case False
        with bind Val assms expr [of K] show ?thesis
          by (cases n) (auto simp: exec_simple_def optimize_unfold audit_unfold mentions_unfold)
      qed
    qed
  next
    case (Fn n)
    with assms show ?thesis by (cases n) (auto simp: exec_simple_def optimize_unfold ir_cases)
  next
    case (Ctl n)
    with assms expr [of K] show ?thesis
      by (cases n) (auto simp: exec_simple_def optimize_unfold audit_unfold mentions_unfold compound_def)
  next
    case (Coll n)
    with assms show ?thesis by (simp add: exec_simple_def ir_cases)
  next
    case (Io n)
    with assms agree_print [OF assms(1)] show ?thesis
      by (cases n) (auto simp: exec_simple_def optimize_unfold audit_unfold mentions_unfold ir_cases)
  qed
qed

text \<open>Enough fuel for the rewritten program, uniformly over a sequence and over the turns of a loop.\<close>

lemma seq_sim:
  assumes "rewritten D ss us" "run_seq d (exec n d) ss K s = Some (f, s')" "agree D s t"
    "\<And>u v h K s f s' t. audit D h u \<Longrightarrow> becomes h u v \<Longrightarrow> generate d u K \<noteq> None \<Longrightarrow> exec n d K u s = Some (f, s') \<Longrightarrow>
       agree D s t \<Longrightarrow> \<exists>m t'. exec m d K v t = Some (f, t') \<and> agree D s' t'"
  shows "\<exists>m t'. run_seq d (exec m d) us K t = Some (f, t') \<and> agree D s' t'"
  using assms(1-3)
proof (induction ss arbitrary: us K s t)
  case (Cons u ss)
  then obtain v vs h where v: "us = v # vs" "audit D h u" "becomes h u v" "rewritten D ss vs" by auto
  from Cons.prems(2) obtain K1 b g s1 where u: "generate d u K = Some (K1, b)" "exec n d K u s = Some (g, s1)"
    "(if g = Normal \<and> \<not> b then run_seq d (exec n d) ss K1 s1 else Some (g, s1)) = Some (f, s')"
    by (auto split: option.splits)
  with assms(4) [OF v(2,3) _ u(2) Cons.prems(3)] obtain m1 t1 where
    m1: "exec m1 d K v t = Some (g, t1)" "agree D s1 t1" by auto
  from emit_becomes [OF v(2,3) u(1)] have e: "generate d v K = Some (K1, b)" .
  show ?case
  proof (cases "g = Normal \<and> \<not> b")
    case True
    with Cons.IH [OF v(4) _ m1(2), of K1] u(3) obtain m2 t2 where
      m2: "run_seq d (exec m2 d) vs K1 t1 = Some (f, t2)" "agree D s' t2" by auto
    have "exec (max m1 m2) d K v t = Some (g, t1)" by (rule exec_mono [OF m1(1)]) simp
    moreover have "run_seq d (exec (max m1 m2) d) vs K1 t1 = Some (f, t2)" by (rule run_seq_exec_mono [OF m2(1)]) simp
    ultimately have "run_seq d (exec (max m1 m2) d) us K t = Some (f, t2)" using v(1) e True by simp
    with m2(2) show ?thesis by blast
  next
    case False
    with m1 u(3) v(1) e have "run_seq d (exec m1 d) us K t = Some (f, t1)" "agree D s' t1" by auto
    then show ?thesis by blast
  qed
qed auto

lemma loop_sim:
  assumes "\<And>s t. agree D s t \<Longrightarrow> test s \<noteq> None \<Longrightarrow> test' t = test s"
    "\<And>s t f s'. agree D s t \<Longrightarrow> body s = Some (f, s') \<Longrightarrow> \<exists>m t'. body' m t = Some (f, t') \<and> agree D s' t'"
    "\<And>k m t r. body' k t = Some r \<Longrightarrow> k \<le> m \<Longrightarrow> body' m t = Some r"
  shows "run_loop n test body s = Some (f, s') \<Longrightarrow> agree D s t \<Longrightarrow> \<exists>m t'. run_loop m test' (body' m) t = Some (f, t') \<and> agree D s' t'"
proof (induction n arbitrary: s t)
  case (Suc n)
  then obtain v where v: "test s = Some v" by (auto split: option.splits)
  with assms(1) [OF Suc.prems(2)] have v': "test' t = Some v" by simp
  show ?case
  proof (cases "truth v")
    case True
    with Suc.prems(1) v obtain g s1 where g: "body s = Some (g, s1)"
      "(case after_body g of Some f' \<Rightarrow> Some (f', s1) | None \<Rightarrow> run_loop n test body s1) = Some (f, s')"
      by (auto split: option.splits)
    from assms(2) [OF Suc.prems(2) g(1)] obtain m1 t1 where m1: "body' m1 t = Some (g, t1)" "agree D s1 t1" by blast
    show ?thesis
    proof (cases "after_body g")
      case None
      with Suc.IH [OF _ m1(2)] g(2) obtain m2 t2 where m2: "run_loop m2 test' (body' m2) t1 = Some (f, t2)" "agree D s' t2" by auto
      let ?m = "max m1 m2"
      have "run_loop ?m test' (body' (Suc ?m)) t1 = Some (f, t2)"
        by (rule run_loop_mono [OF m2(1)]) (auto elim: assms(3))
      moreover have "body' (Suc ?m) t = Some (g, t1)" by (rule assms(3) [OF m1(1)]) simp
      ultimately have "run_loop (Suc ?m) test' (body' (Suc ?m)) t = Some (f, t2)" using v' True None by simp
      with m2(2) show ?thesis by blast
    next
      case (Some f')
      have "body' (Suc m1) t = Some (g, t1)" by (rule assms(3) [OF m1(1)]) simp
      with Some g(2) v' True m1 have "run_loop (Suc m1) test' (body' (Suc m1)) t = Some (f, t1)" "agree D s' t1" by auto
      then show ?thesis by blast
    qed
  next
    case False
    with Suc.prems v v' have "run_loop (Suc 0) test' (body' (Suc 0)) t = Some (f, t)" "agree D s' t" by auto
    then show ?thesis by blast
  qed
qed simp

lemma range_sim:
  assumes "\<And>s t f s'. agree D s t \<Longrightarrow> body s = Some (f, s') \<Longrightarrow> \<exists>m t'. body' m t = Some (f, t') \<and> agree D s' t'"
    "\<And>k m t r. body' k t = Some r \<Longrightarrow> k \<le> m \<Longrightarrow> body' m t = Some r"
  shows "run_range n var stop step body cur s = Some (f, s') \<Longrightarrow> agree D s t \<Longrightarrow>
    \<exists>m t'. run_range m var stop step (body' m) cur t = Some (f, t') \<and> agree D s' t'"
proof (induction n arbitrary: cur s t)
  case (Suc n)
  show ?case
  proof (cases "range_go cur stop step")
    case True
    with Suc.prems(1) obtain g s1 where g: "body (assign var (Some (VI cur)) s) = Some (g, s1)"
      "(case after_body g of Some f' \<Rightarrow> Some (f', s1) | None \<Rightarrow> run_range n var stop step body (cur + step) s1) = Some (f, s')"
      by (auto split: option.splits)
    from assms(1) [OF agree_assign [OF Suc.prems(2)] g(1)] obtain m1 t1 where
      m1: "body' m1 (assign var (Some (VI cur)) t) = Some (g, t1)" "agree D s1 t1" by blast
    show ?thesis
    proof (cases "after_body g")
      case None
      with Suc.IH [OF _ m1(2), of "cur + step"] g(2) obtain m2 t2 where
        m2: "run_range m2 var stop step (body' m2) (cur + step) t1 = Some (f, t2)" "agree D s' t2" by auto
      let ?m = "max m1 m2"
      have "run_range ?m var stop step (body' (Suc ?m)) (cur + step) t1 = Some (f, t2)"
        by (rule run_range_mono [OF m2(1)]) (auto elim: assms(2))
      moreover have "body' (Suc ?m) (assign var (Some (VI cur)) t) = Some (g, t1)" by (rule assms(2) [OF m1(1)]) simp
      ultimately have "run_range (Suc ?m) var stop step (body' (Suc ?m)) cur t = Some (f, t2)" using True None by simp
      with m2(2) show ?thesis by blast
    next
      case (Some f')
      have "body' (Suc m1) (assign var (Some (VI cur)) t) = Some (g, t1)" by (rule assms(2) [OF m1(1)]) simp
      with Some g(2) True m1 have "run_range (Suc m1) var stop step (body' (Suc m1)) cur t = Some (f, t1)" "agree D s' t1" by auto
      then show ?thesis by blast
    qed
  next
    case False
    with Suc.prems have "run_range (Suc 0) var stop step (body' (Suc 0)) cur t = Some (f, t)" "agree D s' t" by auto
    then show ?thesis by blast
  qed
qed simp

lemma seq_avoid:
  assumes "x \<notin> (\<Union>u\<in>set ss. mentions u)"
  shows "run_seq d (exec n d) ss (know x c K) (put x w s) = map_option (map_prod (\<lambda>f. f) (put x w)) (run_seq d (exec n d) ss K s)"
proof -
  have "run_seq d (exec n d) ss (know x c K) t = run_seq d (exec n d) ss K t" for t
    by (rule run_seq_upd) (use assms exec_upd in auto)
  moreover have "run_seq d (exec n d) ss K (put x w s) = map_option (map_prod (\<lambda>f. f) (put x w)) (run_seq d (exec n d) ss K s)"
    by (rule run_seq_put, rule exec_put) (use assms in auto)
  ultimately show ?thesis by simp
qed

text \<open>
  A switch goes to one of its arms, or past all of them to its default arm, whatever that is; the
  optimized switch goes the same way.
\<close>

lemma pick_arm_cases:
  assumes "pick_arm d arms dflt w K = Some (K', ss)"
    "list_all (\<lambda>(v, b). \<forall>K r. emit_until (generate d) (block_stmts b) K = Some r \<longrightarrow> emit_until (generate d) (optseq (block_stmts b)) K = Some r) arms"
  obtains (arm) v b where "(v, b) \<in> set arms" "ss = block_stmts b"
      "\<And>df. pick_arm d (opt_arms arms) df w K = Some (K', optseq ss)"
    | (default) t where "ss = block_stmts dflt" "\<And>df. pick_arm d (opt_arms arms) df w K = Some (K', block_stmts df)"
        "emit_until (\<lambda>(v, b) K. map_option (\<lambda>K. (fst K, False)) (emit_until (generate d) (block_stmts b) K)) (opt_arms arms) K = Some (K', t)"
  using assms
proof (induction arms arbitrary: K thesis)
  case (Cons a arms)
  obtain v b where a: "a = (v, b)" by (cases a)
  show ?case
  proof (cases "word_of_int v = w")
    case True
    with Cons.prems(3) a show ?thesis by (intro Cons.prems(1) [of v b]) auto
  next
    case False
    with Cons.prems(3) a obtain K1 t where k: "emit_until (generate d) (block_stmts b) K = Some (K1, t)" "pick_arm d arms dflt w K1 = Some (K', ss)"
      by (auto simp: bind_eq_Some_conv)
    have e: "emit_until (generate d) (optseq (block_stmts b)) K = Some (K1, t)"
      using Cons.prems(4) k(1) by (simp add: a)
    show ?thesis
    proof (rule Cons.IH [OF _ _ k(2)])
      fix v' b' assume "(v', b') \<in> set arms" "ss = block_stmts b'" "\<And>df. pick_arm d (opt_arms arms) df w K1 = Some (K', optseq ss)"
      with False a e show ?thesis by (intro Cons.prems(1) [of v' b']) auto
    next
      fix t' assume "ss = block_stmts dflt" "\<And>df. pick_arm d (opt_arms arms) df w K1 = Some (K', block_stmts df)"
        "emit_until (\<lambda>(v, b) K. map_option (\<lambda>K. (fst K, False)) (emit_until (generate d) (block_stmts b) K)) (opt_arms arms) K1 = Some (K', t')"
      with False a e show ?thesis by (intro Cons.prems(2) [of t']) auto
    qed (use Cons.prems(4) in simp)
  qed
next
  case Nil
  show ?case by (rule Nil.prems(2) [of False]) (use Nil.prems(3) in simp_all)
qed

text \<open>
  The default arm, run as it is with the name bound by whatever value, and run without its binding
  after the hoisted one.
\<close>

lemma erased_arm:
  assumes r: "find_repeated_default_rebind e (Some us) = Some r" and x: "x = dr_name r"
    and run: "run_seq d (exec n d) us K1 s = Some q"
    and reads: "\<And>y. y \<in> ir_reads e \<Longrightarrow> K1 y = K y" "x \<notin> ir_reads e"
  obtains v where "eval (know x Mutable K) (ir_store s) e = Some v"
    "\<forall>w y p. dr_bind r = Val (SGFlexBind w y p) \<longrightarrow> target_of w = Some x \<and> ir_expr_equiv y e"
    "run_seq d (exec n d) (erase_at (dr_index r) us) (know x Mutable K1) (put x (Some v) s) = Some q"
proof -
  from r obtain pre suf w y p where f: "us = pre @ Val (SGFlexBind w y p) # suf" "erase_at (dr_index r) us = pre @ suf"
    "dr_bind r = Val (SGFlexBind w y p)" "var_target w = Some (dr_name r)"
    "ir_expr_equiv y e" "ir_reads y = ir_reads e" "list_all stmt_is_rebind_hoist_transparent pre"
    "x \<notin> (\<Union>s\<in>set pre. mentions s)" "\<And>y. y \<in> ir_reads e \<Longrightarrow> list_all (\<lambda>s. \<not> stmt_writes_name s y) pre"
    by (rule rebind_facts) (use x in blast)
  from run f(1,7) obtain Kp \<rho> where p: "emit_until (generate d) pre K1 = Some (Kp, False)"
    "run_seq d (exec n d) pre K1 s = Some (Normal, \<rho>)"
    "run_seq d (exec n d) (Val (SGFlexBind w y p) # suf) Kp \<rho> = Some q"
    by (auto elim: transparent_prefix)
  from p(3) obtain k where n: "n = Suc k" by (cases n) (auto split: option.splits)
  with p(3) obtain v where b: "target_of w = Some x" "eval (know x Mutable Kp) (ir_store \<rho>) y = Some v"
    "run_seq d (exec n d) suf (know x Mutable Kp) (put x (Some v) \<rho>) = Some q"
    using f(4) x by (auto simp: emit_unfold exec_stmt_def exec_simple_def know_def put_def dest: target_var split: option.splits if_splits)
  show thesis
  proof (rule that)
    have "Kp z = K z \<and> ir_store \<rho> z = ir_store s z" if "z \<in> ir_reads y" for z
      using that f(6) emit_until_writes [OF p(1) f(9)] run_seq_keep [OF f(7) f(9) p(2)] reads(1) by auto
    then have "eval (know x Mutable K) (ir_store s) y = eval (know x Mutable Kp) (ir_store \<rho>) y"
      by (intro eval_cong) (auto simp: know_apply)
    with b(2) equiv_same [OF f(5)] show "eval (know x Mutable K) (ir_store s) e = Some v" by simp
    from seq_avoid [OF f(8), of d n Mutable K1 "Some v" s] p(2)
    have "run_seq d (exec n d) pre (know x Mutable K1) (put x (Some v) s) = Some (Normal, put x (Some v) \<rho>)" by simp
    moreover have "emit_until (generate d) pre (know x Mutable K1) = Some (know x Mutable Kp, False)"
      using emit_until_avoid [OF f(8), of d Mutable K1] p(1) by simp
    ultimately show "run_seq d (exec n d) (erase_at (dr_index r) us) (know x Mutable K1) (put x (Some v) s) = Some q"
      using b(3) by (simp add: f(2) run_seq_append)
    show "\<forall>w y p. dr_bind r = Val (SGFlexBind w y p) \<longrightarrow> target_of w = Some x \<and> ir_expr_equiv y e"
      using f(3,5) b(1) by simp
  qed
qed

lemma emit_seq:
  "audit_seq D ss \<Longrightarrow> emit_until (generate d) ss K = Some r \<Longrightarrow> emit_until (generate d) (optseq ss) K = Some r"
  by (erule emit_optseq) (auto dest: emit_becomes)

lemma audit_arm: "audit D h (Ctl (SGMatch e arms dflt k)) \<Longrightarrow> (v, b) \<in> set arms \<Longrightarrow> audit_seq D (block_stmts b)"
  by (auto simp: audit_unfold list_all_iff)

lemma emit_match:
  assumes "audit D h (Ctl (SGMatch e arms dflt k))" "generate d (Ctl (SGMatch e arms dflt k)) K = Some r"
  shows "generate d (Ctl (SGMatch e' (opt_arms arms) (map_option optseq dflt) k)) K = Some r"
proof -
  have "audit_seq (D - set_option h) (block_stmts dflt)" using assms(1) by (simp add: audit_unfold)
  note f = emit_seq [OF this]
  note a = emit_seq [OF audit_arm [OF assms(1)]]
  from assms(2) f a show ?thesis
    by (auto simp: emit_unfold bind_eq_Some_conv split: if_splits intro!: exI emit_opt_arms)
qed

text \<open>A hoisted binding and the match on the name it binds, run one after the other.\<close>

lemma run_hoisted:
  assumes "dr_bind r = Val (SGFlexBind w y p)" "target_of w = Some (dr_name r)" "eval (know (dr_name r) Mutable K) (ir_store t) y = Some v"
    and "generate d (dr_bind r) K = Some (know (dr_name r) Mutable K, False)" "generate d (hoisted_form r arms (Some us) k) K \<noteq> None"
    and "pick_arm d arms (Some (erase_at (dr_index r) us)) (if arms = [] then 0 else widen v) (know (dr_name r) Mutable K) = Some (K', ss)"
    and "run_seq d (exec m d) ss K' (put (dr_name r) (Some v) t) = Some q"
  shows "exec (Suc (Suc m)) d K (hoisted_form r arms (Some us) k) t = Some q"
proof -
  let ?x = "dr_name r" and ?dflt = "Some (erase_at (dr_index r) us)"
  let ?match = "Ctl (SGMatch (Val (SGResId (Create_ResId ?x))) arms ?dflt k)"
  have b: "exec (Suc m) d K (dr_bind r) t = Some (Normal, put ?x (Some v) t)"
    using assms(1-3) by (simp add: exec_stmt_def exec_simple_def know_def put_def)
  have i: "res_id (Create_ResId ?x) = ?x" by (simp add: Create_ResId_def)
  have m: "exec (Suc m) d (know ?x Mutable K) ?match (put ?x (Some v) t) = Some q"
    using assms(6,7) by (cases "arms = []") (simp_all add: exec_stmt_def ir_cases i know_apply)
  from assms(5) obtain K2 where "generate d ?match (know ?x Mutable K) = Some (K2, False)"
    by (auto simp: hoisted_form_def emit_unfold(2) assms(4) emit_unfold(3) split: option.splits if_splits)
  with b m assms(4) show ?thesis
    by (cases q) (simp add: hoisted_form_def exec_stmt_def [of _ _ _ _ "Fn _"])
qed

text \<open>A match, a name hoisted out of it or not.\<close>

lemma match_sim:
  assumes run: "exec (Suc n) d K (Ctl (SGMatch e arms dflt k)) s = Some (f, s')"
    and aud: "audit D h (Ctl (SGMatch e arms dflt k))" and bec: "becomes h (Ctl (SGMatch e arms dflt k)) u"
    and em: "generate d (Ctl (SGMatch e arms dflt k)) K \<noteq> None" and ag: "agree D s t"
    and seq: "\<And>D ss L s t f s'. audit_seq D ss \<Longrightarrow> run_seq d (exec n d) ss L s = Some (f, s') \<Longrightarrow> agree D s t \<Longrightarrow>
       \<exists>m t'. run_seq d (exec m d) (optseq ss) L t = Some (f, t') \<and> agree D s' t'"
  shows "\<exists>m t'. exec m d K u t = Some (f, t') \<and> agree D s' t'"
proof -
  from run obtain v K1 ss where v: "(if arms = [] then Some (VI 0) else eval K (ir_store s) e) = Some v"
    "pick_arm d arms dflt (widen v) K = Some (K1, ss)" "run_seq d (exec n d) ss K1 s = Some (f, s')"
    by (auto simp: exec_stmt_def bind_eq_Some_conv split: option.splits)
  have em_arms: "list_all (\<lambda>(v, b). \<forall>K r. emit_until (generate d) (block_stmts b) K = Some r \<longrightarrow> emit_until (generate d) (optseq (block_stmts b)) K = Some r) arms"
    using emit_seq [OF audit_arm [OF aud]] by (auto simp: list_all_iff)
  from aud have re: "ir_reads e \<inter> D = {}" "ir_reads (optimize e) \<inter> D = {}"
    "audit_seq (D - set_option h) (block_stmts dflt)" by (simp_all add: audit_unfold)
  have v': "eval K (ir_store t) (optimize e) = Some v" if "arms \<noteq> []"
    using optimize_eval [OF ag re(1), of K] v(1) that by auto
  from bec consider (same) "h = None" "u = optimize (Ctl (SGMatch e arms dflt k))"
    | (hoist) ds q where "dflt = Some ds" "find_repeated_default_rebind (optimize e) (Some (optseq ds)) = Some q" "h = Some (dr_name q)"
        "u = hoisted_form q (opt_arms arms) (Some (optseq ds)) k"
    by (auto simp: becomes_unfold)
  then show ?thesis
  proof cases
    case same
    from v(2) em_arms have "audit_seq D ss \<and> pick_arm d (opt_arms arms) (map_option optseq dflt) (widen v) K = Some (K1, optseq ss)"
      by (cases rule: pick_arm_cases) (use audit_arm [OF aud] re(3) same(1) in auto)
    with seq [of D, OF _ v(3) ag] obtain m t' where "pick_arm d (opt_arms arms) (map_option optseq dflt) (widen v) K = Some (K1, optseq ss)"
      and m: "run_seq d (exec m d) (optseq ss) K1 t = Some (f, t')" "agree D s' t'" by blast
    with v(1) v' same(2) have "exec (Suc m) d K u t = Some (f, t')"
      by (cases "arms = []") (auto simp: optimize_unfold exec_stmt_def map_prod_def)
    with m(2) show ?thesis by blast
  next
    case hoist
    let ?x = "dr_name q" and ?us = "optseq ds"
    from aud hoist(3) have x: "?x \<in> D" "arms_avoid ?x e arms" by (simp_all add: audit_unfold)
    with re(2) have xr: "?x \<notin> ir_reads (optimize e)" by blast
    note av = arms_avoidD(1) [OF x(2)]
    from em obtain r where r: "generate d (Ctl (SGMatch e arms dflt k)) K = Some r" by blast
    from emit_match [OF aud r] hoist(1) have "generate d (Ctl (SGMatch e (opt_arms arms) (Some ?us) k)) K = Some r" by simp
    note em' = emit_hoisted(2) [OF hoist(2) av this]
    from emit_becomes [OF aud bec r] have eu: "generate d u K \<noteq> None" by simp
    from v(2) em_arms show ?thesis
    proof (cases rule: pick_arm_cases)
      case (arm i b)
      have ne: "arms \<noteq> []" using arm(1) by force
      from seq [OF audit_arm [OF aud arm(1)] _ ag] v(3) arm(2) obtain m t' where
        m: "run_seq d (exec m d) (optseq ss) K1 t = Some (f, t')" "agree D s' t'" by blast
      obtain w y p where b: "dr_bind q = Val (SGFlexBind w y p)" "ir_expr_equiv y (optimize e)" "var_target w = Some ?x"
        using hoist(2) by (rule rebind_facts) blast
      have "eval (know ?x Mutable K) (ir_store t) y = Some v"
        using equiv_same [OF b(2)] eval_upd [OF xr] v' [OF ne] by simp
      moreover have "target_of w = Some ?x"
        using em' b(1,3) by (auto simp: emit_unfold dest!: target_var split: option.splits if_splits)
      moreover have "pick_arm d (opt_arms arms) (Some (erase_at (dr_index q) ?us)) (if opt_arms arms = [] then 0 else widen v) (know ?x Mutable K)
          = Some (know ?x Mutable K1, optseq ss)"
        using ne arm(3) pick_arm_upd [OF av] by simp
      moreover have "run_seq d (exec m d) (optseq ss) (know ?x Mutable K1) (put ?x (Some v) t) = Some (f, put ?x (Some v) t')"
        using seq_avoid [OF arms_avoidD(3) [OF x(2) arm(1)], of d m Mutable K1 "Some v" t] m(1) arm(2) by simp
      ultimately have "exec (Suc (Suc m)) d K u t = Some (f, put ?x (Some v) t')"
        using eu unfolding hoist(4) by (intro run_hoisted [OF b(1) _ _ em'])
      with agree_put [OF m(2) x(1)] show ?thesis by blast
    next
      case (default tb)
      let ?t = "put ?x (ir_store s ?x) t"
      have ss: "ss = ds" using default(1) hoist(1) by (simp add: block_stmts_def)
      have "agree (D - {?x}) s ?t" using ag by (auto simp: agree_def put_def assign_def)
      from seq [OF _ v(3) this] re(3) hoist(1,3) ss obtain m t' where
        m: "run_seq d (exec m d) ?us K1 ?t = Some (f, t')" "agree (D - {?x}) s' t'" by (auto simp: block_stmts_def)
      have keep: "K1 y = K y" if "y \<in> ir_reads (optimize e)" for y
        by (rule emit_arms_keep [OF default(3)]) (rule arms_avoidD(2) [OF x(2) _ _ that])
      obtain v0 where v0: "eval (know ?x Mutable K) (ir_store ?t) (optimize e) = Some v0"
        "\<forall>w y p. dr_bind q = Val (SGFlexBind w y p) \<longrightarrow> target_of w = Some ?x \<and> ir_expr_equiv y (optimize e)"
        "run_seq d (exec m d) (erase_at (dr_index q) ?us) (know ?x Mutable K1) (put ?x (Some v0) ?t) = Some (f, t')"
        by (rule erased_arm [OF hoist(2) refl m(1) keep xr])
      obtain w y p where b: "dr_bind q = Val (SGFlexBind w y p)" using hoist(2) by (rule rebind_facts) blast
      from v0(2) b have b': "target_of w = Some ?x" "ir_expr_equiv y (optimize e)" by simp_all
      have e0: "eval (know ?x Mutable K) (ir_store t) y = Some v0"
        using v0(1) equiv_same [OF b'(2)] eval_put [OF xr] by simp
      moreover have "v0 = v" if "arms \<noteq> []"
        using e0 equiv_same [OF b'(2)] eval_upd [OF xr] v' [OF that] by simp
      then have "pick_arm d (opt_arms arms) (Some (erase_at (dr_index q) ?us)) (if opt_arms arms = [] then 0 else widen v0) (know ?x Mutable K)
          = Some (know ?x Mutable K1, erase_at (dr_index q) ?us)"
        using default(2) [of "Some (erase_at (dr_index q) ?us)"] pick_arm_upd [OF av] by (cases "arms = []") (simp_all add: block_stmts_def)
      moreover have "put ?x (Some v0) ?t = put ?x (Some v0) t" by (simp add: put_def assign_def)
      ultimately have "exec (Suc (Suc m)) d K u t = Some (f, t')"
        using run_hoisted [OF b b'(1) _ em'] eu v0(3) unfolding hoist(4) by simp
      moreover have "agree D s' t'" by (rule agree_mono [OF m(2)]) blast
      ultimately show ?thesis by blast
    qed
  qed
qed

lemma exec_sim:
  "exec n d K s \<sigma> = Some (f, \<sigma>') \<Longrightarrow> audit D h s \<Longrightarrow> becomes h s u \<Longrightarrow> generate d s K \<noteq> None \<Longrightarrow> agree D \<sigma> t \<Longrightarrow>
   \<exists>m t'. exec m d K u t = Some (f, t') \<and> agree D \<sigma>' t'"
proof (induction n arbitrary: d K s \<sigma> f \<sigma>' D h u t)
  case (Suc n)
  have seq: "\<exists>m t'. run_seq d (exec m d) (optseq ss) L t = Some (f, t') \<and> agree D s' t'"
    if "audit_seq D ss" "run_seq d (exec n d) ss L s = Some (f, s')" "agree D s t" for D d ss L s t f s'
    by (rule seq_sim [OF rewritten_optseq [OF that(1)] that(2,3)]) (rule Suc.IH)
  have mono: "run_seq d (exec m d) ss L t = Some r" if "run_seq d (exec k d) ss L t = Some r" "k \<le> m" for d k m ss L t r
    by (rule run_seq_exec_mono [OF that])
  note run = Suc.prems(1) and ag = Suc.prems(5)
  show ?case
  proof (cases "compound s")
    case True
    have u: "u = optimize s" if "\<nexists>e arms dflt k. s = Ctl (SGMatch e arms dflt k)"
      using Suc.prems(3) that by (auto simp: becomes_def)
    from True show ?thesis
    proof (cases rule: compound_cases)
      case (1 ss)
      with Suc.prems(2) run have "audit_seq D ss" "run_seq d (exec n d) ss K \<sigma> = Some (f, \<sigma>')"
        by (simp_all add: exec_stmt_def audit_unfold)
      from seq [OF this ag] obtain m t' where "run_seq d (exec m d) (optseq ss) K t = Some (f, t')" "agree D \<sigma>' t'" by blast
      with 1 u have "exec (Suc m) d K u t = Some (f, t')" "agree D \<sigma>' t'" by (auto simp: optimize_unfold exec_stmt_def)
      then show ?thesis by blast
    next
      case (2 e th el)
      with Suc.prems(2) have a: "ir_reads e \<inter> D = {}" "audit_seq D (block_stmts th)" "audit_seq D (block_stmts el)"
        by (simp_all add: audit_unfold)
      from 2 run obtain v where v: "eval K (ir_store \<sigma>) e = Some v" by (auto simp: exec_stmt_def split: option.splits)
      show ?thesis
      proof (cases "truth v")
        case True
        with 2 v run have "run_seq d (exec n d) (block_stmts th) K \<sigma> = Some (f, \<sigma>')" by (simp add: exec_stmt_def)
        from seq [OF a(2) this ag] obtain m t' where "run_seq d (exec m d) (optseq (block_stmts th)) K t = Some (f, t')" "agree D \<sigma>' t'" by blast
        with 2 u True optimize_eval [OF ag a(1) v] have "exec (Suc m) d K u t = Some (f, t')" "agree D \<sigma>' t'"
          by (auto simp: optimize_unfold exec_stmt_def)
        then show ?thesis by blast
      next
        case False
        with 2 v run obtain K1 b where k: "emit_until (generate d) (block_stmts th) K = Some (K1, b)"
          "run_seq d (exec n d) (block_stmts el) K1 \<sigma> = Some (f, \<sigma>')"
          by (auto simp: exec_stmt_def bind_eq_Some_conv)
        from seq [OF a(3) k(2) ag] obtain m t' where "run_seq d (exec m d) (optseq (block_stmts el)) K1 t = Some (f, t')" "agree D \<sigma>' t'" by blast
        with 2 u False optimize_eval [OF ag a(1) v] emit_seq [OF a(2) k(1)] have "exec (Suc m) d K u t = Some (f, t')" "agree D \<sigma>' t'"
          by (auto simp: optimize_unfold exec_stmt_def)
        then show ?thesis by blast
      qed
    next
      case (3 tag e b)
      with Suc.prems(2) have a: "ir_reads e \<inter> D = {}" "audit_seq D (block_stmts b)" by (simp_all add: audit_unfold)
      let ?test = "\<lambda>e s. if tag = Loop_Infinite then Some (VB True) else eval K (ir_store s) e"
      from 3 run have l: "run_loop n (?test e) (run_seq (Suc d) (exec n (Suc d)) (block_stmts b) K) \<sigma> = Some (f, \<sigma>')"
        by (simp add: exec_stmt_def)
      have "\<exists>m t'. run_loop m (?test (optimize e)) (run_seq (Suc d) (exec m (Suc d)) (optseq (block_stmts b)) K) t = Some (f, t') \<and> agree D \<sigma>' t'"
        by (rule loop_sim [OF _ seq [OF a(2)] mono l ag]) (auto dest: optimize_eval [OF _ a(1), THEN conjunct1])
      then obtain m t' where "run_loop m (?test (optimize e)) (run_seq (Suc d) (exec m (Suc d)) (optseq (block_stmts b)) K) t = Some (f, t')"
        "agree D \<sigma>' t'" by blast
      with 3 u have "exec (Suc m) d K u t = Some (f, t')" "agree D \<sigma>' t'" by (auto simp: optimize_unfold exec_stmt_def)
      then show ?thesis by blast
    next
      case (4 a z st var b)
      with Suc.prems(2) have a: "ir_reads a \<inter> D = {}" "ir_reads z \<inter> D = {}" "ir_reads st \<inter> D = {}" "audit_seq D (block_stmts b)"
        by (auto simp: audit_unfold)
      from 4 run obtain x y w where v: "eval K (ir_store \<sigma>) a = Some x" "eval K (ir_store \<sigma>) z = Some y" "eval K (ir_store \<sigma>) st = Some w"
        "run_range n var (widen y) (widen w) (run_seq (Suc d) (exec n (Suc d)) (block_stmts b) (K(var \<mapsto> Mutable))) (widen x) (assign var None \<sigma>) = Some (f, \<sigma>')"
        by (auto simp: exec_stmt_def split: option.splits)
      have "\<exists>m t'. run_range m var (widen y) (widen w) (run_seq (Suc d) (exec m (Suc d)) (optseq (block_stmts b)) (K(var \<mapsto> Mutable))) (widen x) (assign var None t)
          = Some (f, t') \<and> agree D \<sigma>' t'"
        by (rule range_sim [OF seq [OF a(4)] mono v(4) agree_assign [OF ag]])
      then obtain m t' where "run_range m var (widen y) (widen w) (run_seq (Suc d) (exec m (Suc d)) (optseq (block_stmts b)) (K(var \<mapsto> Mutable))) (widen x) (assign var None t)
          = Some (f, t')" "agree D \<sigma>' t'" by blast
      with 4 u optimize_eval [OF ag a(1) v(1)] optimize_eval [OF ag a(2) v(2)] optimize_eval [OF ag a(3) v(3)]
      have "exec (Suc m) d K u t = Some (f, t')" "agree D \<sigma>' t'" by (auto simp: optimize_unfold exec_stmt_def)
      then show ?thesis by blast
    next
      case (5 e arms dflt k)
      show ?thesis
        by (rule match_sim [where ?n = n and ?d = d and ?K = K and ?e = e and ?arms = arms and ?dflt = dflt and ?k = k and ?s = \<sigma> and ?h = h])
          (use Suc.prems 5 seq in auto)
    qed
  next
    case False
    with Suc.prems(3) have u: "u = optimize s" by (auto simp: becomes_def compound_def)
    consider (ret) e where "s = Fn (SGReturn e)" | (brk) k where "s = Ctl (SGBreak k)" | (cont) k where "s = Ctl (SGContinue k)"
      | (other) "\<nexists>e. s = Fn (SGReturn e)" "\<nexists>k. s = Ctl (SGBreak k)" "\<nexists>k. s = Ctl (SGContinue k)" by blast
    then show ?thesis
    proof cases
      case ret
      with Suc.prems(2) have "ir_reads e \<inter> D = {}" by (simp add: audit_unfold mentions_unfold)
      with ret run u ag optimize_eval [OF ag this] have "exec (Suc n) d K u t = Some (f, t)" "agree D \<sigma>' t"
        by (auto simp: optimize_unfold exec_stmt_def)
      then show ?thesis by blast
    next
      case brk
      with run u ag have "exec (Suc n) d K u t = Some (f, t)" "agree D \<sigma>' t" by (auto simp: optimize_unfold exec_stmt_def)
      then show ?thesis by blast
    next
      case cont
      with run u ag have "exec (Suc n) d K u t = Some (f, t)" "agree D \<sigma>' t" by (auto simp: optimize_unfold exec_stmt_def)
      then show ?thesis by blast
    next
      case other
      have x: "exec (Suc n) d K s \<rho> = map_option (\<lambda>s'. (Normal, s')) (exec_simple K s \<rho>)"
        "exec (Suc n) d K (optimize s) \<rho> = map_option (\<lambda>s'. (Normal, s')) (exec_simple K (optimize s) \<rho>)" for \<rho>
        using False other by (cases s; auto simp: exec_stmt_def compound_def optimize_unfold split: sg_unit.splits sg_control.splits)+
      from run x(1) have es: "exec_simple K s \<sigma> = Some \<sigma>'" "f = Normal" by auto
      with simple_sim [OF ag Suc.prems(2) False es(1)] obtain t' where
        "exec_simple K (optimize s) t = Some t'" "agree D \<sigma>' t'" "f = Normal" by auto
      with x(2) u have "exec (Suc n) d K u t = Some (f, t')" "agree D \<sigma>' t'" by auto
      then show ?thesis by blast
    qed
  qed
qed simp

subsection \<open>The whole program\<close>

definition audited :: "string set \<Rightarrow> styio_ir \<Rightarrow> bool" where
  "audited D p = (case p of Fn (SGMainEntry ss) \<Rightarrow> audit_seq D ss | _ \<Rightarrow> False)"

lemma run_main_sim:
  assumes "audited D p" "run_main n p = Some r"
  shows "\<exists>m. run_main m (optimize_styio_ir p) = Some r"
proof -
  from assms(1) obtain ss where p: "p = Fn (SGMainEntry ss)" and a: "audit_seq D ss"
    by (auto simp: audited_def split: styio_ir.splits sg_unit.splits)
  let ?init = "\<lparr> ir_store = Map.empty, ir_out = [] \<rparr>"
  from assms(2) p obtain f s' where r: "r = (f, ir_out s')" "run_seq 0 (exec n 0) ss Map.empty ?init = Some (f, s')"
    by (auto simp: run_main_def)
  have "\<exists>m t'. run_seq 0 (exec m 0) (optseq ss) Map.empty ?init = Some (f, t') \<and> agree D s' t'"
    by (rule seq_sim [OF rewritten_optseq [OF a] r(2)]) (simp add: agree_def, rule exec_sim)
  then obtain m t' where "run_seq 0 (exec m 0) (optseq ss) Map.empty ?init = Some (f, t')" "ir_out t' = ir_out s'"
    by (auto simp: agree_def)
  with r(1) p have "run_main m (optimize_styio_ir p) = Some r"
    by (simp add: run_main_def optimize_styio_ir_def optimize_unfold)
  then show ?thesis ..
qed

subsection \<open>Sample programs\<close>

definition name_of :: "string \<Rightarrow> styio_ir" where
  "name_of x = Val (SGResId (Create_ResId x))"

definition int_of :: "string \<Rightarrow> styio_ir" where
  "int_of t = Val (SGConstInt t 64)"

definition bind_i64 :: "string \<Rightarrow> styio_ir \<Rightarrow> styio_ir" where
  "bind_i64 x e = Val (SGFlexBind (Some (MkVar (Some (Create_ResId x)) (scalar_type DT_Integer ''i64'' 64) NullIR False False)) e False)"

definition print_of :: "styio_ir \<Rightarrow> styio_ir" where
  "print_of e = Io (SIOPrint [e])"

definition match_of :: "styio_ir \<Rightarrow> (int \<times> styio_ir list) list \<Rightarrow> styio_ir list \<Rightarrow> styio_ir" where
  "match_of e arms d = Ctl (SGMatch e (map (\<lambda>(v, b). (v, Some b)) arms) (Some d) MK_Stmt)"

text \<open>\<open>n = 3\<close>, then a match on \<open>n\<close> whose default arm binds \<open>x = n\<close> and prints a copy of \<open>x\<close>.\<close>

definition sample_hoist :: styio_ir where
  "sample_hoist = Fn (SGMainEntry
     [bind_i64 ''n'' (int_of ''3''),
      match_of (name_of ''n'') [(1, [print_of (int_of ''1'')])]
        [bind_i64 ''x'' (name_of ''n''), bind_i64 ''y'' (name_of ''x''), print_of (name_of ''y'')]])"

text \<open>The same match inside a conditional; its other arm prints the \<open>x\<close> bound before the conditional.\<close>

definition sample_clash :: styio_ir where
  "sample_clash = Fn (SGMainEntry
     [bind_i64 ''x'' (int_of ''5''), bind_i64 ''n'' (int_of ''1''),
      Ctl (SGIf (Val (SGConstBool True))
        (Some [match_of (name_of ''n'') [(1, [print_of (name_of ''x'')])]
                [bind_i64 ''x'' (name_of ''n''), bind_i64 ''y'' (name_of ''x''), print_of (name_of ''y'')]])
        None)])"

subsection \<open>Properties\<close>




text \<open>
  Expressions the optimizer takes for equal have the same value wherever they are evaluated, and
  read the same names.
\<close>

theorem equivalent_expressions_agree:
  "ir_expr_equiv a b \<Longrightarrow> eval K \<sigma> a = eval K \<sigma> b \<and> ir_reads a = ir_reads b"
  by (rule equiv_same)

theorem equivalent_expressions_agree_witness:
  "eval (Map.empty(''n'' \<mapsto> Mutable)) (Map.empty(''n'' \<mapsto> VI 7)) (name_of ''n'')
   = eval (Map.empty(''n'' \<mapsto> Mutable)) (Map.empty(''n'' \<mapsto> VI 7)) (Val (SGResId (CreateHistory ''n'' (- 1))))"
proof -
  have "ir_expr_equiv (name_of ''n'') (Val (SGResId (CreateHistory ''n'' (- 1))))" by code_simp
  from equivalent_expressions_agree [OF this] show ?thesis by blast
qed

end
