(* ===== verification/Styio_Names.thy ===== *)
theory Styio_Names
  imports Styio_DataType
begin

text \<open>
  Names with a meaning to the compiler: the resource families
  (src/src/StyioUtil/ResourceNames.hpp) and the predefined methods of lists, strings and
  resources (src/src/StyioUtil/BuiltinMethods.hpp).
\<close>

subsection \<open>Resource families\<close>

definition styio_is_file_resource_family_name :: "string \<Rightarrow> bool" where
  "styio_is_file_resource_family_name nm \<longleftrightarrow> nm = ''file''"

definition styio_is_stdin_resource_family_name :: "string \<Rightarrow> bool" where
  "styio_is_stdin_resource_family_name nm \<longleftrightarrow> nm = ''stdin''"

definition styio_is_stdout_resource_family_name :: "string \<Rightarrow> bool" where
  "styio_is_stdout_resource_family_name nm \<longleftrightarrow> nm = ''stdout''"

definition styio_is_stderr_resource_family_name :: "string \<Rightarrow> bool" where
  "styio_is_stderr_resource_family_name nm \<longleftrightarrow> nm = ''stderr''"

definition styio_is_std_stream_resource_family_name :: "string \<Rightarrow> bool" where
  "styio_is_std_stream_resource_family_name nm \<longleftrightarrow>
     styio_is_stdin_resource_family_name nm
     \<or> styio_is_stdout_resource_family_name nm
     \<or> styio_is_stderr_resource_family_name nm"

definition styio_is_builtin_resource_family_name :: "string \<Rightarrow> bool" where
  "styio_is_builtin_resource_family_name nm \<longleftrightarrow>
     styio_is_file_resource_family_name nm
     \<or> styio_is_std_stream_resource_family_name nm"

fun styio_std_stream_family_name :: "std_stream_kind \<Rightarrow> string" where
  "styio_std_stream_family_name SK_Stdin = ''stdin''"
| "styio_std_stream_family_name SK_Stdout = ''stdout''"
| "styio_std_stream_family_name SK_Stderr = ''stderr''"

definition styio_std_stream_resource_label :: "std_stream_kind \<Rightarrow> string" where
  "styio_std_stream_resource_label kind = ''@'' @ styio_std_stream_family_name kind"

subsection \<open>Predefined methods\<close>

datatype styio_builtin_method_kind =
    BM_Unknown | BM_ListPush | BM_ListInsert | BM_ListPop | BM_StringLines
  | BM_ResourceWrite | BM_ResourceClose | BM_ResourceDrop | BM_ResourceDestroy | BM_ResourcePath

text \<open>The function of the same name, \<open>styio_builtin_method_kind\<close>.\<close>

definition builtin_method_kind :: "string \<Rightarrow> styio_builtin_method_kind" where
  "builtin_method_kind nm =
     (if nm = ''push'' then BM_ListPush
      else if nm = ''insert'' then BM_ListInsert
      else if nm = ''pop'' then BM_ListPop
      else if nm = ''lines'' then BM_StringLines
      else if nm = ''write'' then BM_ResourceWrite
      else if nm = ''close'' then BM_ResourceClose
      else if nm = ''drop'' then BM_ResourceDrop
      else if nm = ''destroy'' then BM_ResourceDestroy
      else if nm = ''path'' then BM_ResourcePath
      else BM_Unknown)"

definition styio_is_predefined_list_operation_kind :: "styio_builtin_method_kind \<Rightarrow> bool" where
  "styio_is_predefined_list_operation_kind kind \<longleftrightarrow>
     kind = BM_ListPush \<or> kind = BM_ListInsert \<or> kind = BM_ListPop"

definition styio_is_predefined_list_operation_name :: "string \<Rightarrow> bool" where
  "styio_is_predefined_list_operation_name nm \<longleftrightarrow>
     styio_is_predefined_list_operation_kind (builtin_method_kind nm)"

definition styio_is_predefined_string_operation_kind :: "styio_builtin_method_kind \<Rightarrow> bool" where
  "styio_is_predefined_string_operation_kind kind \<longleftrightarrow> kind = BM_StringLines"

definition styio_is_predefined_string_operation_name :: "string \<Rightarrow> bool" where
  "styio_is_predefined_string_operation_name nm \<longleftrightarrow>
     styio_is_predefined_string_operation_kind (builtin_method_kind nm)"

definition styio_is_resource_destroy_method_kind :: "styio_builtin_method_kind \<Rightarrow> bool" where
  "styio_is_resource_destroy_method_kind kind \<longleftrightarrow>
     kind = BM_ResourceClose \<or> kind = BM_ResourceDrop \<or> kind = BM_ResourceDestroy"

definition styio_is_resource_destroy_method_name :: "string \<Rightarrow> bool" where
  "styio_is_resource_destroy_method_name nm \<longleftrightarrow>
     styio_is_resource_destroy_method_kind (builtin_method_kind nm)"

definition styio_is_resource_write_method_kind :: "styio_builtin_method_kind \<Rightarrow> bool" where
  "styio_is_resource_write_method_kind kind \<longleftrightarrow> kind = BM_ResourceWrite"

definition styio_is_resource_write_method_name :: "string \<Rightarrow> bool" where
  "styio_is_resource_write_method_name nm \<longleftrightarrow>
     styio_is_resource_write_method_kind (builtin_method_kind nm)"

definition styio_is_resource_property_method_kind :: "styio_builtin_method_kind \<Rightarrow> bool" where
  "styio_is_resource_property_method_kind kind \<longleftrightarrow> kind = BM_ResourcePath"

definition styio_is_resource_property_method_name :: "string \<Rightarrow> bool" where
  "styio_is_resource_property_method_name nm \<longleftrightarrow>
     styio_is_resource_property_method_kind (builtin_method_kind nm)"

record builtin_resource_method_spec =
  spec_family :: string
  spec_method :: string
  spec_kind :: styio_builtin_method_kind
  spec_final_binding :: bool
  spec_consuming :: bool
  spec_property :: bool
  spec_param_count :: nat

definition styio_builtin_resource_methods_latest :: "builtin_resource_method_spec list" where
  "styio_builtin_resource_methods_latest =
     [\<lparr> spec_family = ''file'', spec_method = ''close'', spec_kind = BM_ResourceClose,
        spec_final_binding = False, spec_consuming = True, spec_property = False, spec_param_count = 0 \<rparr>,
      \<lparr> spec_family = ''file'', spec_method = ''write'', spec_kind = BM_ResourceWrite,
        spec_final_binding = False, spec_consuming = False, spec_property = False, spec_param_count = 1 \<rparr>,
      \<lparr> spec_family = ''file'', spec_method = ''path'', spec_kind = BM_ResourcePath,
        spec_final_binding = False, spec_consuming = False, spec_property = True, spec_param_count = 0 \<rparr>]"

end
