(* ===== verification/Styio_AST.thy ===== *)
theory Styio_AST
  imports Styio_Token Styio_Names
begin

text \<open>
  The abstract syntax tree: the node classes of src/src/StyioAST/AST.hpp, their node types
  (\<open>StyioNodeType\<close> of src/src/StyioToken/Token.hpp) and data types. A node is its address and its
  class; a class is a constructor over the type of child pointers, so that a pass is a primitive
  recursion that is given every child together with the pass's result on it. Children are owned by
  their parent (\<open>std::unique_ptr\<close>), which makes a program a tree.
\<close>

subsection \<open>Node types\<close>

text \<open>The enumeration is split at the comments that divide it.\<close>

datatype (plugins only: code) nt_basic =
    NT_End | NT_Pass | NT_Break | NT_Continue | NT_Return | NT_Comment | NT_Naive | NT_True |
    NT_False | NT_None | NT_Empty | NT_EmptyBlock

datatype (plugins only: code) nt_type =
    NT_Id | NT_DType | NT_TypeTuple | NT_TypedVar | NT_OptArg | NT_OptKwArg | NT_Variable |
    NT_Param | NT_Bool | NT_Integer | NT_Float | NT_Char | NT_NumConvert | NT_BinOp

datatype (plugins only: code) nt_external =
    NT_LocalPath | NT_RemotePath | NT_WebUrl | NT_DBUrl | NT_ExtPack | NT_ExportDecl |
    NT_ExternBlock

datatype (plugins only: code) nt_collection =
    NT_String | NT_FmtStr | NT_List | NT_Dict | NT_Tuple | NT_Set | NT_Range

datatype (plugins only: code) nt_operation =
    NT_Not | NT_Compare | NT_Condition | NT_UndefLiteral | NT_WaveMerge | NT_WaveDispatch |
    NT_Fallback | NT_GuardSelector | NT_EqProbeSelector | NT_Call | NT_Attribute |
    NT_CondFlow_True | NT_CondFlow_False | NT_CondFlow_Both

datatype (plugins only: code) nt_list_op =
    NT_Access | NT_Access_By_Index | NT_Access_By_Name | NT_Get_Index_By_Value |
    NT_Get_Indices_By_Many_Values | NT_Append_Value | NT_Insert_Item_By_Index |
    NT_Remove_Last_Item | NT_Remove_Item_By_Index | NT_Remove_Items_By_Many_Indices |
    NT_Remove_Item_By_Value | NT_Remove_Items_By_Many_Values | NT_Get_Reversed |
    NT_Get_Index_By_Item_From_Right | NT_SizeOf

datatype (plugins only: code) nt_definition =
    NT_Resources | NT_MutBind | NT_FinalBind | NT_ParallelAssign | NT_Func | NT_SimpleFunc |
    NT_AnonyFunc | NT_MatchCases | NT_Struct | NT_Eval | NT_Infinite | NT_Loop | NT_Iterator |
    NT_IterSeq | NT_IterWithMatch

datatype (plugins only: code) nt_resource =
    NT_FileResource | NT_EmptyResource | NT_ResourceReceiver | NT_ResourceMethodDef |
    NT_ResourceOrder | NT_ResourceDecl | NT_ResourceRef | NT_HandleAcquire | NT_ResourceWrite |
    NT_ResourceRedirect | NT_TaskBlock | NT_TaskGroupLaunch | NT_FlowBind | NT_StateDecl |
    NT_StateRef | NT_HistoryProbe | NT_SeriesIntrinsic | NT_StreamZip | NT_SnapshotDecl |
    NT_InstantPull | NT_StdinResource | NT_StdoutResource | NT_StderrResource | NT_ReadFile |
    NT_Print

datatype (plugins only: code) nt_layer =
    NT_Parameters | NT_CheckEq | NT_CheckIsin | NT_CheckCond | NT_Forward |
    NT_If_Equal_To_Forward | NT_If_Is_In_Forward | NT_Cases_Forward | NT_If_True_Forward |
    NT_If_False_Forward | NT_If_Both_Forward | NT_Fill_Forward | NT_Fill_If_Equal_To_Forward |
    NT_Fill_If_Is_in_Forward | NT_Fill_Cases_Forward | NT_Fill_If_True_Forward |
    NT_Fill_If_False_Forward | NT_Fill_If_Both_Forward | NT_Backward | NT_TupleOperation |
    NT_Chain_Of_Data_Processing | NT_MainBlock | NT_Block | NT_Cases | NT_Connection |
    NT_HashTagName

datatype (plugins only: code) styio_node_type =
    In_Basic nt_basic
  | In_Type nt_type
  | In_External nt_external
  | In_Collection nt_collection
  | In_Operation nt_operation
  | In_List_Op nt_list_op
  | In_Definition nt_definition
  | In_Resource nt_resource
  | In_Layer nt_layer

definition nt_basic_word :: "nt_basic \<Rightarrow> string" where
  "nt_basic_word t =
     (case t of
        NT_Pass \<Rightarrow> ''do_nothing''
      | NT_Break \<Rightarrow> ''break''
      | NT_Continue \<Rightarrow> ''continue''
      | NT_Return \<Rightarrow> ''return''
      | NT_True \<Rightarrow> ''true''
      | NT_False \<Rightarrow> ''false''
      | NT_None \<Rightarrow> ''none''
      | NT_Empty \<Rightarrow> ''empty''
      | _ \<Rightarrow> ''unknown'')"

definition nt_type_word :: "nt_type \<Rightarrow> string" where
  "nt_type_word t =
     (case t of
        NT_Id \<Rightarrow> ''name''
      | NT_DType \<Rightarrow> ''type''
      | NT_TypeTuple \<Rightarrow> ''types''
      | NT_TypedVar \<Rightarrow> ''var''
      | NT_Variable \<Rightarrow> ''var''
      | NT_Param \<Rightarrow> ''arg''
      | NT_Integer \<Rightarrow> ''''
      | NT_Float \<Rightarrow> ''float''
      | NT_Char \<Rightarrow> ''char''
      | NT_NumConvert \<Rightarrow> ''convert''
      | NT_BinOp \<Rightarrow> ''binop''
      | _ \<Rightarrow> ''unknown'')"

definition nt_external_word :: "nt_external \<Rightarrow> string" where
  "nt_external_word t =
     (case t of
        NT_LocalPath \<Rightarrow> ''path''
      | NT_RemotePath \<Rightarrow> ''addr''
      | NT_WebUrl \<Rightarrow> ''url''
      | NT_DBUrl \<Rightarrow> ''url.database''
      | NT_ExtPack \<Rightarrow> ''package''
      | NT_ExportDecl \<Rightarrow> ''export''
      | NT_ExternBlock \<Rightarrow> ''extern'')"

definition nt_collection_word :: "nt_collection \<Rightarrow> string" where
  "nt_collection_word t =
     (case t of
        NT_String \<Rightarrow> ''string''
      | NT_FmtStr \<Rightarrow> ''fmtstr''
      | NT_List \<Rightarrow> ''list''
      | NT_Dict \<Rightarrow> ''dict''
      | NT_Tuple \<Rightarrow> ''tuple''
      | NT_Set \<Rightarrow> ''set''
      | NT_Range \<Rightarrow> ''range'')"

definition nt_operation_word :: "nt_operation \<Rightarrow> string" where
  "nt_operation_word t =
     (case t of
        NT_Condition \<Rightarrow> ''cond''
      | NT_Call \<Rightarrow> ''call''
      | NT_Attribute \<Rightarrow> ''attr''
      | NT_CondFlow_True \<Rightarrow> ''only_true''
      | NT_CondFlow_False \<Rightarrow> ''only_false''
      | NT_CondFlow_Both \<Rightarrow> ''if_else''
      | _ \<Rightarrow> ''unknown'')"

definition nt_list_op_word :: "nt_list_op \<Rightarrow> string" where
  "nt_list_op_word t =
     (case t of
        NT_Access \<Rightarrow> ''access''
      | NT_Access_By_Index \<Rightarrow> ''access.by_index''
      | NT_Access_By_Name \<Rightarrow> ''access.by_name''
      | NT_Get_Index_By_Value \<Rightarrow> ''get_index.by_value''
      | NT_Get_Indices_By_Many_Values \<Rightarrow> ''get_indices.by_values''
      | NT_Append_Value \<Rightarrow> ''append''
      | NT_Insert_Item_By_Index \<Rightarrow> ''insert.by_index''
      | NT_Remove_Item_By_Index \<Rightarrow> ''remove.by_index''
      | NT_Remove_Items_By_Many_Indices \<Rightarrow> ''remove.by_indices''
      | NT_Remove_Item_By_Value \<Rightarrow> ''remove.by_value''
      | NT_Remove_Items_By_Many_Values \<Rightarrow> ''remove.by_values''
      | NT_Get_Reversed \<Rightarrow> ''reversed''
      | NT_Get_Index_By_Item_From_Right \<Rightarrow> ''get_index.by_item_backward''
      | NT_SizeOf \<Rightarrow> ''sizeof''
      | _ \<Rightarrow> ''unknown'')"

definition nt_definition_word :: "nt_definition \<Rightarrow> string" where
  "nt_definition_word t =
     (case t of
        NT_Resources \<Rightarrow> ''resources''
      | NT_MutBind \<Rightarrow> ''bind.flex''
      | NT_FinalBind \<Rightarrow> ''styio.ast.bind.final''
      | NT_ParallelAssign \<Rightarrow> ''assign.parallel''
      | NT_Func \<Rightarrow> ''func''
      | NT_SimpleFunc \<Rightarrow> ''func.simple''
      | NT_Struct \<Rightarrow> ''struct''
      | NT_Loop \<Rightarrow> ''loop''
      | NT_Iterator \<Rightarrow> ''iterator''
      | NT_IterSeq \<Rightarrow> ''iterator.sequence''
      | _ \<Rightarrow> ''unknown'')"

definition nt_resource_word :: "nt_resource \<Rightarrow> string" where
  "nt_resource_word t =
     (case t of
        NT_FileResource \<Rightarrow> ''resource.file''
      | NT_EmptyResource \<Rightarrow> ''resource.empty''
      | NT_ResourceReceiver \<Rightarrow> ''resource.receiver''
      | NT_ResourceMethodDef \<Rightarrow> ''resource.method.def''
      | NT_ResourceOrder \<Rightarrow> ''resource.order''
      | NT_ResourceDecl \<Rightarrow> ''resource.decl''
      | NT_ResourceRef \<Rightarrow> ''resource.ref''
      | NT_HandleAcquire \<Rightarrow> ''handle.acquire''
      | NT_ResourceWrite \<Rightarrow> ''resource.write''
      | NT_ResourceRedirect \<Rightarrow> ''resource.redirect''
      | NT_TaskBlock \<Rightarrow> ''task.block''
      | NT_TaskGroupLaunch \<Rightarrow> ''task.group''
      | NT_FlowBind \<Rightarrow> ''flow.bind''
      | NT_StateDecl \<Rightarrow> ''state.decl''
      | NT_StateRef \<Rightarrow> ''state.ref''
      | NT_HistoryProbe \<Rightarrow> ''state.history''
      | NT_SeriesIntrinsic \<Rightarrow> ''series.intrinsic''
      | NT_StreamZip \<Rightarrow> ''stream.zip''
      | NT_SnapshotDecl \<Rightarrow> ''snapshot.decl''
      | NT_InstantPull \<Rightarrow> ''instant.pull''
      | NT_ReadFile \<Rightarrow> ''read.file''
      | NT_Print \<Rightarrow> ''print''
      | _ \<Rightarrow> ''unknown'')"

definition nt_layer_word :: "nt_layer \<Rightarrow> string" where
  "nt_layer_word t =
     (case t of
        NT_Parameters \<Rightarrow> ''vars''
      | NT_CheckEq \<Rightarrow> ''check.equal''
      | NT_CheckIsin \<Rightarrow> ''check.isin''
      | NT_Forward \<Rightarrow> ''forward.run''
      | NT_If_Equal_To_Forward \<Rightarrow> ''forward.check.equal''
      | NT_If_Is_In_Forward \<Rightarrow> ''forward.check.isin''
      | NT_Cases_Forward \<Rightarrow> ''forward.cases''
      | NT_If_True_Forward \<Rightarrow> ''forward.only_true''
      | NT_If_False_Forward \<Rightarrow> ''forward.only_false''
      | NT_Fill_Forward \<Rightarrow> ''forward.fill.run''
      | NT_Fill_If_Equal_To_Forward \<Rightarrow> ''fill.check.equal''
      | NT_Fill_If_Is_in_Forward \<Rightarrow> ''fill.check.isin''
      | NT_Fill_Cases_Forward \<Rightarrow> ''fill.cases''
      | NT_Fill_If_True_Forward \<Rightarrow> ''fill.only_true''
      | NT_Fill_If_False_Forward \<Rightarrow> ''fill.only_false''
      | NT_Backward \<Rightarrow> ''backward''
      | NT_TupleOperation \<Rightarrow> ''tuple.op''
      | NT_Chain_Of_Data_Processing \<Rightarrow> ''chain_of_data_processing''
      | NT_MainBlock \<Rightarrow> ''main''
      | NT_Block \<Rightarrow> ''block''
      | NT_Cases \<Rightarrow> ''cases''
      | NT_HashTagName \<Rightarrow> ''hash_tag''
      | _ \<Rightarrow> ''unknown'')"

definition reprASTType :: "styio_node_type \<Rightarrow> string \<Rightarrow> string" where
  "reprASTType t extra =
     ''styio.ast.'' @
     (case t of
        In_Basic n \<Rightarrow> nt_basic_word n
      | In_Type n \<Rightarrow> nt_type_word n
      | In_External n \<Rightarrow> nt_external_word n
      | In_Collection n \<Rightarrow> nt_collection_word n
      | In_Operation n \<Rightarrow> nt_operation_word n
      | In_List_Op n \<Rightarrow> nt_list_op_word n
      | In_Definition n \<Rightarrow> nt_definition_word n
      | In_Resource n \<Rightarrow> nt_resource_word n
      | In_Layer n \<Rightarrow> nt_layer_word n) @ extra"

subsection \<open>Small enumerations\<close>

datatype styio_path_type =
    local_absolute_unix_like | local_absolute_windows | local_relevant_any
  | ipv4_addr | ipv6_addr
  | url_localhost | url_http | url_https | url_ftp
  | db_mysql | db_postgresql | db_mongo | remote_windows

datatype num_promo_ty = Bool_To_Int | Int_To_Float

datatype resource_selector_kind = Whole | Offset | SliceFrom | SnapshotAll

datatype series_intrinsic_op = Op_Avg | Op_Max

datatype bind_mode = Mode_Final | Mode_Flex

subsection \<open>Classes other nodes point to\<close>

text \<open>
  An object with its address. The passes key tables by node pointers, so an address is part of
  the node. A pointer to a class is such an object; it is an option where the code may find it null.
\<close>

datatype (plugins only: code) 'c object = Obj (obj_addr: nat) (obj_val: 'c)

type_synonym name_ast = "string object"
type_synonym type_ast = "styio_data_type object"

definition undefined_type :: styio_data_type where
  "undefined_type = scalar_type DT_Undefined ''undefined'' 0"

definition TypeAST_of_name :: "string \<Rightarrow> styio_data_type" where
  "TypeAST_of_name type_name =
     (case map_of DTypeTable type_name of
        Some t \<Rightarrow> t
      | None \<Rightarrow> scalar_type DT_Defined type_name 0)"

definition CreateBoundedRingBuffer :: "string \<Rightarrow> styio_data_type" where
  "CreateBoundedRingBuffer capacity_digits =
     scalar_type DT_Defined (''bounded_ring:'' @ capacity_digits) 0"

datatype (plugins only: code) int_ast = MkInt (int_value: string) (int_num_of_bit: nat)

datatype (plugins only: code) 'p block_ast = MkBlock (blk_stmts: "'p list") (blk_followings: "'p list")

text \<open>\<open>VarAST\<close> and the classes derived from it, which add no state.\<close>

datatype (plugins only: code) 'p var_ast =
  MkVar (var_name: name_ast) (var_type: type_ast) (val_init: 'p)

datatype (plugins only: code) var_class = VarAST | ParamAST | OptArgAST | OptKwArgAST

definition getNameAsStr :: "'p var_ast object \<Rightarrow> string" where
  "getNameAsStr v = obj_val (var_name (obj_val v))"

definition getDType :: "'p var_ast object \<Rightarrow> styio_data_type" where
  "getDType v = obj_val (var_type (obj_val v))"

definition isTyped :: "'p var_ast object \<Rightarrow> bool" where
  "isTyped v \<longleftrightarrow> dt_option (getDType v) \<noteq> DT_Undefined"

datatype (plugins only: code) 'p cond_ast =
  MkCond (cond_op: logic_type) (cond_value: 'p) (cond_lhs: 'p) (cond_rhs: 'p)

datatype (plugins only: code) 'p file_ast = MkFile (file_path: 'p) (auto_detect: bool)

datatype (plugins only: code) 'p cases_ast =
  MkCases (case_list: "('p \<times> 'p) list") (case_default: 'p)

datatype (plugins only: code) 'p cond_flow_ast =
  MkCondFlow (what_flow: styio_node_type) (flow_cond: "'p cond_ast object") (flow_then: 'p) (flow_else: 'p)

text \<open>
  A link of a chain of data processing: the next link belongs to it, the previous one is
  given by its address.
\<close>

datatype (plugins only: code) 'p codp_ast =
  MkCodp (op_name: string) (op_args: "'p list") (prev_op: "nat option") (next_op: "'p codp_ast object option")

definition setNextOp :: "'p codp_ast object \<Rightarrow> 'p codp_ast object option \<Rightarrow> 'p codp_ast object" where
  "setNextOp this nxt =
     Obj (obj_addr this)
       (MkCodp (op_name (obj_val this)) (op_args (obj_val this)) (prev_op (obj_val this))
          (map_option
             (\<lambda>n. Obj (obj_addr n)
                (MkCodp (op_name (obj_val n)) (op_args (obj_val n)) (Some (obj_addr this)) (next_op (obj_val n))))
             nxt))"

subsection \<open>The node classes\<close>

text \<open>
  A class is a constructor with its fields; the classes are grouped in the order of the header,
  over the type \<open>'p\<close> of child pointers. What owns a child and the flat views of it are one field here.
\<close>

datatype (plugins only: code) 'p names_ast =
    CommentAST string
  | NameAST string
  | TypeAST styio_data_type
  | TypeTupleAST "type_ast list"

datatype (plugins only: code) 'p scalar_ast =
    NoneAST
  | EmptyAST
  | BoolAST bool
  | IntAST int_ast

datatype (plugins only: code) 'p text_ast =
    FloatAST string styio_data_type
  | CharAST string
  | StringAST string

datatype (plugins only: code) 'p block_level_ast =
    BlockAST "'p block_ast"
  | MainBlockAST 'p "'p list"
  | EOFAST
  | BreakAST nat
  | ContinueAST nat
  | PassAST
  | ReturnAST 'p

datatype (plugins only: code) 'p variable_ast = Variable var_class "'p var_ast"

datatype (plugins only: code) 'p convert_ast =
    FmtStrAST "string list" "'p list"
  | TypeConvertAST 'p num_promo_ty

datatype (plugins only: code) 'p path_ast =
    ResPathAST styio_path_type string
  | RemotePathAST styio_path_type string
  | WebUrlAST styio_path_type string
  | DBUrlAST styio_path_type string

text \<open>A tuple, list or dictionary keeps its elements, a flag and the type its elements share.\<close>

datatype (plugins only: code) 'p tuple_ast =
    TupleAST "'p list" bool type_ast
  | VarTupleAST "'p var_ast object list" bool type_ast

datatype (plugins only: code) 'p collection_ast =
    ListAST "'p list" bool type_ast
  | DictAST "('p \<times> 'p) list" bool type_ast

datatype (plugins only: code) 'p extent_ast =
    SetAST "'p list"
  | RangeAST 'p 'p 'p
  | SizeOfAST 'p type_ast

datatype (plugins only: code) 'p binary_ast =
    BinOpAST type_ast styio_op_type 'p 'p
  | BinCompAST comp_type 'p 'p

datatype (plugins only: code) 'p wave_ast =
    UndefinedLitAST
  | WaveMergeAST 'p 'p 'p
  | WaveDispatchAST 'p 'p 'p
  | FallbackAST 'p 'p

datatype (plugins only: code) 'p selector_ast =
    GuardSelectorAST 'p 'p
  | EqProbeAST 'p 'p
  | CondAST "'p cond_ast"

datatype (plugins only: code) 'p call_ast = FuncCallAST 'p name_ast "'p list"

datatype (plugins only: code) 'p access_ast =
    ListOpAST styio_node_type 'p 'p 'p
  | AttrAST 'p 'p

datatype (plugins only: code) 'p resource_ast =
    ResourceAST "('p \<times> string) list"
  | EmptyResourceAST
  | ResourceReceiverAST string

datatype (plugins only: code) 'p method_ast =
    ResourceMethodDefAST string string bool bool "'p var_ast object list" 'p
  | ResourceOrderAST 'p 'p

datatype (plugins only: code) 'p decl_ast =
    ResourceDeclAST "(name_ast \<times> type_ast) list" "'p block_ast object option"
  | ResourceRefAST "name_ast option" resource_selector_kind int styio_data_type

datatype (plugins only: code) 'p bind_ast =
    FlexBindAST "'p var_ast object" 'p
  | FinalBindAST "'p var_ast object" 'p
  | ParallelAssignAST "'p list" "'p list"

datatype (plugins only: code) 'p structure_ast =
    StructAST name_ast "'p var_ast object list"
  | ReadFileAST name_ast 'p
  | FileResourceAST "'p file_ast"

datatype (plugins only: code) 'p handle_ast =
    StdStreamAST std_stream_kind bool
  | HandleAcquireAST "'p var_ast object" 'p bind_mode

datatype (plugins only: code) 'p write_ast =
    ResourceWriteAST 'p 'p
  | ResourceRedirectAST 'p 'p

datatype (plugins only: code) 'p pulse_ast =
    StateRefAST name_ast
  | HistoryProbeAST "name_ast object" 'p
  | SeriesIntrinsicAST 'p series_intrinsic_op 'p

datatype (plugins only: code) 'p state_ast =
    StateDeclAST "int_ast object option" "name_ast option" 'p "'p var_ast object option" 'p
  | PrintAST "'p list"

datatype (plugins only: code) 'p package_ast =
    ExtPackAST "string list"
  | ExportDeclAST "string list"
  | ExternBlockAST string string
  | CondFlowAST "'p cond_flow_ast"

datatype (plugins only: code) 'p match_ast =
    CasesAST "'p cases_ast"
  | MatchCasesAST 'p "'p cases_ast object"

datatype (plugins only: code) 'p check_ast =
    CheckEqualAST "'p list"
  | CheckIsinAST 'p
  | HashTagNameAST "string list"

datatype (plugins only: code) 'p forward_ast =
    ForwardAST "'p var_ast object list" "'p block_ast object" "'p list object option" "'p object option"
      'p "'p cond_flow_ast object option" 'p styio_node_type
  | BackwardAST 'p "'p var_ast object list object" "'p list" "'p list"

datatype (plugins only: code) 'p chain_ast =
    CODPAST "'p codp_ast"
  | InfiniteAST bool 'p 'p

datatype (plugins only: code) 'p function_ast =
    AnonyFuncAST "'p var_ast object list object" 'p
  | FunctionAST "name_ast option" bool "'p var_ast object list" "type_ast option + type_ast list object option" 'p

datatype (plugins only: code) 'p simple_func_ast =
    SimpleFuncAST "name_ast option" bool "'p var_ast object list" "type_ast option + type_ast list object option" 'p

datatype (plugins only: code) 'p loop_ast =
    InfiniteLoopAST 'p "'p block_ast object"
  | IteratorAST 'p "'p var_ast object list" "'p list"

datatype (plugins only: code) 'p stream_ast =
    StreamZipAST 'p "'p var_ast object list" 'p "'p var_ast object list" "'p list"
  | SnapshotDeclAST name_ast "'p file_ast object"

datatype (plugins only: code) 'p task_ast =
    InstantPullAST 'p styio_data_type
  | TaskBlockAST "'p block_ast object" styio_data_type
  | TaskGroupLaunchAST "'p list"

datatype (plugins only: code) 'p flow_ast =
    FlowBindAST 'p "'p var_ast object" 'p bool bool bool styio_data_type
  | IterSeqAST 'p "'p var_ast object list" "'p list" "string list object list"
  | ExtractorAST 'p 'p

datatype (plugins only: code) 'p ast_class =
    Names "'p names_ast"
  | Scalar "'p scalar_ast"
  | Text "'p text_ast"
  | BlockLevel "'p block_level_ast"
  | Var "'p variable_ast"
  | Convert "'p convert_ast"
  | Path "'p path_ast"
  | TupleC "'p tuple_ast"
  | Collection "'p collection_ast"
  | Extent "'p extent_ast"
  | Binary "'p binary_ast"
  | Wave "'p wave_ast"
  | Selector "'p selector_ast"
  | Call "'p call_ast"
  | Access "'p access_ast"
  | Resource "'p resource_ast"
  | Method "'p method_ast"
  | Decl "'p decl_ast"
  | Bind "'p bind_ast"
  | Structure "'p structure_ast"
  | Handle "'p handle_ast"
  | Write "'p write_ast"
  | Pulse "'p pulse_ast"
  | StateLedger "'p state_ast"
  | Package "'p package_ast"
  | Match "'p match_ast"
  | Check "'p check_ast"
  | Forward "'p forward_ast"
  | Chain "'p chain_ast"
  | Function "'p function_ast"
  | SimpleFunc "'p simple_func_ast"
  | Loop "'p loop_ast"
  | Stream "'p stream_ast"
  | Task "'p task_ast"
  | Flow "'p flow_ast"

datatype (plugins only: code) styio_ast =
    NullAST
  | Ast (ast_addr: nat) (ast_class: "styio_ast ast_class")

subsection \<open>Constructors with behaviour\<close>

text \<open>\<open>BreakAST\<close> drops the depth it is given; \<open>ContinueAST\<close> keeps it.\<close>

definition BreakAST_Create :: "nat \<Rightarrow> 'p block_level_ast" where
  "BreakAST_Create d = BreakAST 1"

definition ContinueAST_Create :: "nat \<Rightarrow> 'p block_level_ast" where
  "ContinueAST_Create d = ContinueAST d"

text \<open>The reserved name of a call of a callable value.\<close>

definition CallableApplyName :: string where
  "CallableApplyName = ''__styio_resume_oneshot''"

definition CreateCallable :: "nat \<Rightarrow> styio_ast \<Rightarrow> styio_ast list \<Rightarrow> styio_ast call_ast" where
  "CreateCallable a func_callee arguments =
     FuncCallAST func_callee (Obj a CallableApplyName) arguments"

fun isCallableApply :: "styio_ast call_ast \<Rightarrow> bool" where
  "isCallableApply (FuncCallAST callee nm as) \<longleftrightarrow>
     callee \<noteq> NullAST \<and> obj_val nm = CallableApplyName"

definition FlowBind_Create :: "'p \<Rightarrow> 'p \<Rightarrow> 'p var_ast object \<Rightarrow> bool \<Rightarrow> 'p flow_ast" where
  "FlowBind_Create null source target pull_direction =
     FlowBindAST source target null pull_direction False False undefined_type"

definition FlowBind_CreateAwait :: "'p \<Rightarrow> 'p var_ast object \<Rightarrow> 'p \<Rightarrow> 'p flow_ast" where
  "FlowBind_CreateAwait source target fallback =
     FlowBindAST source target fallback False True True undefined_type"

text \<open>
  \<open>hasRetType\<close> asks whether the variant of return types lost its value to an exception, which
  no constructor of the class lets happen.
\<close>

fun hasRetType :: "'p function_ast \<Rightarrow> bool" where
  "hasRetType f = False"

fun hasName :: "'p function_ast \<Rightarrow> bool" where
  "hasName (FunctionAST nm u ps r b) = (nm \<noteq> None)"
| "hasName (AnonyFuncAST a t) = False"

fun allArgsTyped :: "'p function_ast \<Rightarrow> bool" where
  "allArgsTyped (FunctionAST nm u ps r b) = list_all isTyped ps"
| "allArgsTyped (AnonyFuncAST a t) = True"

fun getParamMap :: "'p function_ast \<Rightarrow> string \<Rightarrow> 'p var_ast object option" where
  "getParamMap (FunctionAST nm u ps r b) =
     fold (\<lambda>p m. m(getNameAsStr p \<mapsto> p)) ps Map.empty"
| "getParamMap (AnonyFuncAST a t) = Map.empty"

subsection \<open>Data types of nodes\<close>

definition receiver_data_type :: "string \<Rightarrow> styio_data_type" where
  "receiver_data_type family =
     (if styio_is_file_resource_family_name family then styio_make_file_handle_type ''i64''
      else if styio_is_stdin_resource_family_name family
        then styio_make_std_stream_type SK_Stdin ''string''
      else if styio_is_stdout_resource_family_name family
        then styio_make_std_stream_type SK_Stdout ''string''
      else if styio_is_stderr_resource_family_name family
        then styio_make_std_stream_type SK_Stderr ''string''
      else scalar_type DT_Defined (''resource-family:'' @ family) 0)"

definition i64_type :: styio_data_type where
  "i64_type = scalar_type DT_Integer ''i64'' 64"

definition task_block_data_type :: "styio_data_type \<Rightarrow> styio_data_type" where
  "task_block_data_type result_type =
     (if dt_option result_type = DT_Undefined then styio_make_task_type ''unit''
      else styio_make_task_type (dt_name result_type))"

text \<open>The virtual function of all classes; most have no type of their own.\<close>

definition class_data_type :: "'p ast_class \<Rightarrow> styio_data_type" where
  "class_data_type c =
     (case c of
        Names (TypeAST t) \<Rightarrow> t
      | Names (TypeTupleAST ts) \<Rightarrow> scalar_type DT_Tuple ''TypeTuple'' 0
      | Scalar (BoolAST b) \<Rightarrow> scalar_type DT_Bool ''Boolean'' 1
      | Scalar (IntAST i) \<Rightarrow> scalar_type DT_Integer ''int'' (int_num_of_bit i)
      | Text (FloatAST s t) \<Rightarrow> t
      | TupleC (TupleAST es b t) \<Rightarrow> obj_val t
      | Collection (ListAST es b t) \<Rightarrow> obj_val t
      | Collection (DictAST es b t) \<Rightarrow> obj_val t
      | Extent (RangeAST s e st) \<Rightarrow> styio_make_range_type ''i64''
      | Extent (SizeOfAST v t) \<Rightarrow> obj_val t
      | Resource EmptyResourceAST \<Rightarrow> scalar_type DT_Defined ''empty-resource'' 0
      | Resource (ResourceReceiverAST family) \<Rightarrow> receiver_data_type family
      | Decl (ResourceRefAST nm sel off t) \<Rightarrow> t
      | Structure (StructAST nm as) \<Rightarrow> scalar_type DT_Struct (obj_val nm) 0
      | Structure (FileResourceAST f) \<Rightarrow> styio_make_file_handle_type ''i64''
      | Handle (StdStreamAST kind th) \<Rightarrow> styio_make_std_stream_type kind ''string''
      | Pulse p \<Rightarrow> i64_type
      | Check (HashTagNameAST ws) \<Rightarrow> scalar_type DT_String ''#name'' 0
      | SimpleFunc f \<Rightarrow> scalar_type DT_Undefined ''TupleOp'' 0
      | Task (InstantPullAST r t) \<Rightarrow> t
      | Task (TaskBlockAST b t) \<Rightarrow> task_block_data_type t
      | Flow (FlowBindAST s t f p d a r) \<Rightarrow> r
      | Flow (ExtractorAST t op) \<Rightarrow> scalar_type DT_Undefined ''TupleOp'' 0
      | _ \<Rightarrow> undefined_type)"

fun getDataType :: "styio_ast \<Rightarrow> styio_data_type" where
  "getDataType NullAST = undefined_type"
| "getDataType (Ast a c) = class_data_type c"

subsection \<open>Node types of nodes\<close>

definition expr_node_type :: "'p ast_class \<Rightarrow> styio_node_type option" where
  "expr_node_type c =
     (case c of
        Names (CommentAST s) \<Rightarrow> Some (In_Basic NT_Comment)
      | Names (NameAST s) \<Rightarrow> Some (In_Type NT_Id)
      | Names (TypeAST t) \<Rightarrow> Some (In_Type NT_DType)
      | Names (TypeTupleAST ts) \<Rightarrow> Some (In_Type NT_TypeTuple)
      | Scalar NoneAST \<Rightarrow> Some (In_Basic NT_None)
      | Scalar EmptyAST \<Rightarrow> Some (In_Basic NT_Empty)
      | Scalar (BoolAST b) \<Rightarrow> Some (In_Type NT_Bool)
      | Scalar (IntAST i) \<Rightarrow> Some (In_Type NT_Integer)
      | Text (FloatAST s t) \<Rightarrow> Some (In_Type NT_Float)
      | Text (CharAST s) \<Rightarrow> Some (In_Type NT_Char)
      | Text (StringAST s) \<Rightarrow> Some (In_Collection NT_String)
      | Var (Variable VarAST v) \<Rightarrow> Some (In_Type NT_Variable)
      | Var (Variable ParamAST v) \<Rightarrow> Some (In_Type NT_Param)
      | Var (Variable OptArgAST v) \<Rightarrow> Some (In_Type NT_OptArg)
      | Var (Variable OptKwArgAST v) \<Rightarrow> Some (In_Type NT_OptKwArg)
      | Convert (FmtStrAST fs es) \<Rightarrow> Some (In_Collection NT_FmtStr)
      | Convert (TypeConvertAST v p) \<Rightarrow> Some (In_Type NT_NumConvert)
      | Path (ResPathAST t p) \<Rightarrow> Some (In_External NT_LocalPath)
      | Path (RemotePathAST t p) \<Rightarrow> Some (In_External NT_RemotePath)
      | Path (WebUrlAST t p) \<Rightarrow> Some (In_External NT_WebUrl)
      | Path (DBUrlAST t p) \<Rightarrow> Some (In_External NT_DBUrl)
      | TupleC (TupleAST es b t) \<Rightarrow> Some (In_Collection NT_Tuple)
      | TupleC (VarTupleAST vs b t) \<Rightarrow> Some (In_Layer NT_Parameters)
      | Collection (ListAST es b t) \<Rightarrow> Some (In_Collection NT_List)
      | Collection (DictAST es b t) \<Rightarrow> Some (In_Collection NT_Dict)
      | Extent (SetAST es) \<Rightarrow> Some (In_Collection NT_Set)
      | Extent (RangeAST s e st) \<Rightarrow> Some (In_Collection NT_Range)
      | Extent (SizeOfAST v t) \<Rightarrow> Some (In_List_Op NT_SizeOf)
      | Binary (BinOpAST t op l r) \<Rightarrow> Some (In_Type NT_BinOp)
      | Binary (BinCompAST sg l r) \<Rightarrow> Some (In_Operation NT_Compare)
      | Wave UndefinedLitAST \<Rightarrow> Some (In_Operation NT_UndefLiteral)
      | Wave (WaveMergeAST x t f) \<Rightarrow> Some (In_Operation NT_WaveMerge)
      | Wave (WaveDispatchAST x t f) \<Rightarrow> Some (In_Operation NT_WaveDispatch)
      | Wave (FallbackAST p a) \<Rightarrow> Some (In_Operation NT_Fallback)
      | Selector (GuardSelectorAST b x) \<Rightarrow> Some (In_Operation NT_GuardSelector)
      | Selector (EqProbeAST b v) \<Rightarrow> Some (In_Operation NT_EqProbeSelector)
      | Selector (CondAST x) \<Rightarrow> Some (In_Operation NT_Condition)
      | Call f \<Rightarrow> Some (In_Operation NT_Call)
      | Access (ListOpAST op l s1 s2) \<Rightarrow> Some op
      | Access (AttrAST b a) \<Rightarrow> Some (In_Operation NT_Attribute)
      | _ \<Rightarrow> None)"

definition std_stream_node_type :: "std_stream_kind \<Rightarrow> styio_node_type" where
  "std_stream_node_type kind =
     (case kind of
        SK_Stdin \<Rightarrow> In_Resource NT_StdinResource
      | SK_Stdout \<Rightarrow> In_Resource NT_StdoutResource
      | SK_Stderr \<Rightarrow> In_Resource NT_StderrResource)"

definition stmt_node_type :: "'p ast_class \<Rightarrow> styio_node_type option" where
  "stmt_node_type c =
     (case c of
        BlockLevel (BlockAST b) \<Rightarrow> Some (In_Layer NT_Block)
      | BlockLevel (MainBlockAST r ss) \<Rightarrow> Some (In_Layer NT_MainBlock)
      | BlockLevel EOFAST \<Rightarrow> Some (In_Basic NT_End)
      | BlockLevel (BreakAST d) \<Rightarrow> Some (In_Basic NT_Break)
      | BlockLevel (ContinueAST d) \<Rightarrow> Some (In_Basic NT_Continue)
      | BlockLevel PassAST \<Rightarrow> Some (In_Basic NT_Pass)
      | BlockLevel (ReturnAST e) \<Rightarrow> Some (In_Basic NT_Return)
      | Resource (ResourceAST rs) \<Rightarrow> Some (In_Definition NT_Resources)
      | Resource EmptyResourceAST \<Rightarrow> Some (In_Resource NT_EmptyResource)
      | Resource (ResourceReceiverAST family) \<Rightarrow> Some (In_Resource NT_ResourceReceiver)
      | Method (ResourceMethodDefAST fam m fb pr ps b) \<Rightarrow> Some (In_Resource NT_ResourceMethodDef)
      | Method (ResourceOrderAST b a) \<Rightarrow> Some (In_Resource NT_ResourceOrder)
      | Decl (ResourceDeclAST slots d) \<Rightarrow> Some (In_Resource NT_ResourceDecl)
      | Decl (ResourceRefAST nm sel off t) \<Rightarrow> Some (In_Resource NT_ResourceRef)
      | Bind (FlexBindAST v e) \<Rightarrow> Some (In_Definition NT_MutBind)
      | Bind (FinalBindAST v e) \<Rightarrow> Some (In_Definition NT_FinalBind)
      | Bind (ParallelAssignAST l r) \<Rightarrow> Some (In_Definition NT_ParallelAssign)
      | Structure (StructAST nm as) \<Rightarrow> Some (In_Definition NT_Struct)
      | Structure (ReadFileAST nm v) \<Rightarrow> Some (In_Resource NT_ReadFile)
      | Structure (FileResourceAST f) \<Rightarrow> Some (In_Resource NT_FileResource)
      | Handle (StdStreamAST kind th) \<Rightarrow> Some (std_stream_node_type kind)
      | Handle (HandleAcquireAST v r m) \<Rightarrow> Some (In_Resource NT_HandleAcquire)
      | Write (ResourceWriteAST d r) \<Rightarrow> Some (In_Resource NT_ResourceWrite)
      | Write (ResourceRedirectAST d r) \<Rightarrow> Some (In_Resource NT_ResourceRedirect)
      | Pulse (StateRefAST nm) \<Rightarrow> Some (In_Resource NT_StateRef)
      | Pulse (HistoryProbeAST t d) \<Rightarrow> Some (In_Resource NT_HistoryProbe)
      | Pulse (SeriesIntrinsicAST b op w) \<Rightarrow> Some (In_Resource NT_SeriesIntrinsic)
      | StateLedger (StateDeclAST wh an ai ev up) \<Rightarrow> Some (In_Resource NT_StateDecl)
      | StateLedger (PrintAST es) \<Rightarrow> Some (In_Resource NT_Print)
      | _ \<Rightarrow> None)"

definition flow_node_type :: "'p ast_class \<Rightarrow> styio_node_type option" where
  "flow_node_type c =
     (case c of
        Package (ExtPackAST ps) \<Rightarrow> Some (In_External NT_ExtPack)
      | Package (ExportDeclAST ss) \<Rightarrow> Some (In_External NT_ExportDecl)
      | Package (ExternBlockAST abi b) \<Rightarrow> Some (In_External NT_ExternBlock)
      | Package (CondFlowAST f) \<Rightarrow> Some (what_flow f)
      | Match (CasesAST cs) \<Rightarrow> Some (In_Layer NT_Cases)
      | Match (MatchCasesAST v cs) \<Rightarrow> Some (In_Definition NT_MatchCases)
      | Check (CheckEqualAST vs) \<Rightarrow> Some (In_Layer NT_CheckEq)
      | Check (CheckIsinAST i) \<Rightarrow> Some (In_Layer NT_CheckIsin)
      | Check (HashTagNameAST ws) \<Rightarrow> Some (In_Layer NT_HashTagName)
      | Forward (ForwardAST ps b eq isin nx cf ret ty) \<Rightarrow> Some ty
      | Forward (BackwardAST ob ps ops rets) \<Rightarrow> Some (In_Layer NT_Backward)
      | Chain (CODPAST ch) \<Rightarrow> Some (In_Layer NT_Chain_Of_Data_Processing)
      | Chain (InfiniteAST incremental s i) \<Rightarrow> Some (In_Definition NT_Infinite)
      | Function (AnonyFuncAST as t) \<Rightarrow> Some (In_Definition NT_AnonyFunc)
      | Function (FunctionAST nm u ps r b) \<Rightarrow> Some (In_Definition NT_Func)
      | SimpleFunc f \<Rightarrow> Some (In_Definition NT_SimpleFunc)
      | Loop (InfiniteLoopAST w b) \<Rightarrow> Some (In_Definition NT_Loop)
      | Loop (IteratorAST coll ps fs) \<Rightarrow> Some (In_Definition NT_Iterator)
      | Stream (StreamZipAST ca pa cb pb fs) \<Rightarrow> Some (In_Resource NT_StreamZip)
      | Stream (SnapshotDeclAST nm f) \<Rightarrow> Some (In_Resource NT_SnapshotDecl)
      | Task (InstantPullAST r t) \<Rightarrow> Some (In_Resource NT_InstantPull)
      | Task (TaskBlockAST b t) \<Rightarrow> Some (In_Resource NT_TaskBlock)
      | Task (TaskGroupLaunchAST es) \<Rightarrow> Some (In_Resource NT_TaskGroupLaunch)
      | Flow (FlowBindAST s t f p d a r) \<Rightarrow> Some (In_Resource NT_FlowBind)
      | Flow (IterSeqAST coll ps fs tags) \<Rightarrow> Some (In_Definition NT_IterSeq)
      | Flow (ExtractorAST t op) \<Rightarrow> Some (In_Layer NT_TupleOperation)
      | _ \<Rightarrow> None)"

text \<open>Every class is in one of the three parts of the header, so the default is never taken.\<close>

definition getNodeType :: "'p ast_class \<Rightarrow> styio_node_type" where
  "getNodeType c =
     (case expr_node_type c of
        Some t \<Rightarrow> t
      | None \<Rightarrow>
          (case stmt_node_type c of
             Some t \<Rightarrow> t
           | None \<Rightarrow> (case flow_node_type c of Some t \<Rightarrow> t | None \<Rightarrow> In_Basic NT_End)))"

end
