(* ===== verification/Styio_Topology.thy ===== *)
theory Styio_Topology
  imports Styio_AST Styio_RuntimeText "HOL-Library.Monad_Syntax"
begin

text \<open>
  The resource topology (src/src/StyioResourceTopology/ResourceTopology.cpp and .hpp): before a
  program is lowered, its tree is walked and its resources, their owners and the effects on them
  are recorded as a graph, which is then checked. \<open>kNoNode\<close> is \<open>None\<close>, a hash table is an association list
  whose first entry for a key counts, and the visitor takes and returns the builder. A result of \<open>None\<close> is the exception of \<open>Graph::node\<close>
  for an index out of range.
\<close>

subsection \<open>Capabilities, nodes and edges\<close>

definition Cap_None :: "32 word" where "Cap_None = 0"
definition Cap_Pull :: "32 word" where "Cap_Pull = push_bit 0 1"
definition Cap_Iter :: "32 word" where "Cap_Iter = push_bit 1 1"
definition Cap_Push :: "32 word" where "Cap_Push = push_bit 2 1"
definition Cap_Close :: "32 word" where "Cap_Close = push_bit 3 1"
definition Cap_Clone :: "32 word" where "Cap_Clone = push_bit 4 1"
definition Cap_Checkpoint :: "32 word" where "Cap_Checkpoint = push_bit 5 1"
definition Cap_Task :: "32 word" where "Cap_Task = push_bit 6 1"
definition Cap_StateRead :: "32 word" where "Cap_StateRead = push_bit 7 1"
definition Cap_StateWrite :: "32 word" where "Cap_StateWrite = push_bit 8 1"

unbundle bit_operations_syntax

definition has_capability :: "32 word \<Rightarrow> 32 word \<Rightarrow> bool" where
  "has_capability caps cap \<longleftrightarrow> caps AND cap \<noteq> 0"

datatype node_kind =
    NK_Program | NK_DriverSource | NK_Handle | NK_StreamOp | NK_StateSlot
  | NK_HiddenLedger | NK_Sink | NK_Task | NK_FailureDomain | NK_Value

datatype edge_kind =
    EK_Flow | EK_Intent | EK_Ownership | EK_Borrow | EK_Mutation
  | EK_Backpressure | EK_Commit | EK_HappensBefore | EK_Failure | EK_Placement

datatype type_state =
    State_Unknown | State_Declared | State_Open | State_Eof | State_Closed
  | State_Materialized | State_Ready

record top_node =
  n_id :: nat
  n_kind :: node_kind
  n_label :: string
  n_caps :: "32 word"
  n_state :: type_state
  n_source :: "nat option"

record top_edge =
  ed_kind :: edge_kind
  ed_from :: nat
  ed_to :: nat
  ed_label :: string

record graph =
  g_nodes :: "top_node list"
  g_edges :: "top_edge list"

record validation_error =
  ve_message :: string
  ve_source :: "nat option"

record build_options =
  opt_phase :: string
  opt_require_close_owner :: bool
  opt_validate_series_scope :: bool

definition default_options :: build_options where
  "default_options =
     \<lparr> opt_phase = ''resource-topology'', opt_require_close_owner = True, opt_validate_series_scope = True \<rparr>"

subsection \<open>The graph\<close>

definition g_add_node :: "node_kind \<Rightarrow> string \<Rightarrow> 32 word \<Rightarrow> type_state \<Rightarrow> nat option \<Rightarrow> graph \<Rightarrow> nat \<times> graph" where
  "g_add_node kind label caps state source g =
     (let node_id = length (g_nodes g) in
      (node_id,
       g\<lparr>g_nodes := g_nodes g @
          [\<lparr> n_id = node_id, n_kind = kind, n_label = label, n_caps = caps, n_state = state, n_source = source \<rparr>]\<rparr>))"

definition g_add_edge :: "edge_kind \<Rightarrow> nat option \<Rightarrow> nat option \<Rightarrow> string \<Rightarrow> graph \<Rightarrow> graph" where
  "g_add_edge kind from to label g =
     (case (from, to) of
        (Some f, Some t) \<Rightarrow>
          g\<lparr>g_edges := g_edges g @ [\<lparr> ed_kind = kind, ed_from = f, ed_to = t, ed_label = label \<rparr>]\<rparr>
      | _ \<Rightarrow> g)"

definition g_node :: "graph \<Rightarrow> nat \<Rightarrow> top_node option" where
  "g_node g i = (if i \<ge> length (g_nodes g) then None else Some (g_nodes g ! i))"

definition node_count :: "graph \<Rightarrow> node_kind \<Rightarrow> nat" where
  "node_count g kind = length (filter (\<lambda>n. n_kind n = kind) (g_nodes g))"

definition edge_count :: "graph \<Rightarrow> edge_kind \<Rightarrow> nat" where
  "edge_count g kind = length (filter (\<lambda>e. ed_kind e = kind) (g_edges g))"

fun node_kind_to_string :: "node_kind \<Rightarrow> string" where
  "node_kind_to_string NK_Program = ''Program''"
| "node_kind_to_string NK_DriverSource = ''DriverSource''"
| "node_kind_to_string NK_Handle = ''Handle''"
| "node_kind_to_string NK_StreamOp = ''StreamOp''"
| "node_kind_to_string NK_StateSlot = ''StateSlot''"
| "node_kind_to_string NK_HiddenLedger = ''HiddenLedger''"
| "node_kind_to_string NK_Sink = ''Sink''"
| "node_kind_to_string NK_Task = ''Task''"
| "node_kind_to_string NK_FailureDomain = ''FailureDomain''"
| "node_kind_to_string NK_Value = ''Value''"

fun edge_kind_to_string :: "edge_kind \<Rightarrow> string" where
  "edge_kind_to_string EK_Flow = ''Flow''"
| "edge_kind_to_string EK_Intent = ''Intent''"
| "edge_kind_to_string EK_Ownership = ''Ownership''"
| "edge_kind_to_string EK_Borrow = ''Borrow''"
| "edge_kind_to_string EK_Mutation = ''Mutation''"
| "edge_kind_to_string EK_Backpressure = ''Backpressure''"
| "edge_kind_to_string EK_Commit = ''Commit''"
| "edge_kind_to_string EK_HappensBefore = ''HappensBefore''"
| "edge_kind_to_string EK_Failure = ''Failure''"
| "edge_kind_to_string EK_Placement = ''Placement''"

fun type_state_to_string :: "type_state \<Rightarrow> string" where
  "type_state_to_string State_Unknown = ''Unknown''"
| "type_state_to_string State_Declared = ''Declared''"
| "type_state_to_string State_Open = ''Open''"
| "type_state_to_string State_Eof = ''Eof''"
| "type_state_to_string State_Closed = ''Closed''"
| "type_state_to_string State_Materialized = ''Materialized''"
| "type_state_to_string State_Ready = ''Ready''"

fun join_with :: "string \<Rightarrow> string list \<Rightarrow> string" where
  "join_with sep [] = []"
| "join_with sep [p] = p"
| "join_with sep (p # q # ps) = p @ sep @ join_with sep (q # ps)"

definition caps_to_string :: "32 word \<Rightarrow> string" where
  "caps_to_string caps =
     (if caps = Cap_None then ''none''
      else join_with ''|''
        (map snd (filter (\<lambda>p. has_capability caps (fst p))
          [(Cap_Pull, ''pull''), (Cap_Iter, ''iter''), (Cap_Push, ''push''), (Cap_Close, ''close''),
           (Cap_Clone, ''clone''), (Cap_Checkpoint, ''checkpoint''), (Cap_Task, ''task''),
           (Cap_StateRead, ''state-read''), (Cap_StateWrite, ''state-write'')])))"

definition debug_string :: "graph \<Rightarrow> string" where
  "debug_string g =
     ''nodes='' @ to_string_nat (length (g_nodes g)) @ '' edges='' @ to_string_nat (length (g_edges g))
     @ concat (map (\<lambda>n. [CHR 0x0A] @ ''node '' @ to_string_nat (n_id n) @ '' '' @ node_kind_to_string (n_kind n)
         @ '' '' @ n_label n @ '' caps='' @ caps_to_string (n_caps n)
         @ '' state='' @ type_state_to_string (n_state n)) (g_nodes g))
     @ concat (map (\<lambda>e. [CHR 0x0A] @ ''edge '' @ to_string_nat (ed_from e) @ '' -> '' @ to_string_nat (ed_to e)
         @ '' '' @ edge_kind_to_string (ed_kind e)
         @ (if ed_label e = [] then [] else '' '' @ ed_label e)) (g_edges g))"

definition report_message :: "validation_error list \<Rightarrow> string" where
  "report_message errors = join_with [CHR 0x0A] (map ve_message errors)"

subsection \<open>From types and nodes to capabilities and labels\<close>

definition type_caps :: "styio_data_type \<Rightarrow> 32 word list" where
  "type_caps t =
     [if styio_type_has_capability t TC_Readable \<or> styio_type_has_capability t TC_Pull then Cap_Pull else Cap_None,
      if styio_type_has_capability t TC_Iterable then Cap_Iter else Cap_None,
      if styio_type_has_capability t TC_Writable \<or> styio_type_has_capability t TC_Push then Cap_Push else Cap_None,
      if styio_type_has_capability t TC_Close then Cap_Close else Cap_None,
      if styio_type_has_capability t TC_Cloneable then Cap_Clone else Cap_None,
      if dt_handle_family t = HF_Task then Cap_Task else Cap_None,
      if dt_handle_family t = HF_File then Cap_Pull OR Cap_Iter OR Cap_Push OR Cap_Close else Cap_None,
      if styio_is_topology_resource_type t then Cap_Pull OR Cap_Push OR Cap_Iter OR Cap_Checkpoint else Cap_None]"

definition capabilities_from_type :: "styio_data_type \<Rightarrow> 32 word" where
  "capabilities_from_type t = fold (\<lambda>c caps. caps OR c) (type_caps t) Cap_None"

definition state_from_type :: "styio_data_type \<Rightarrow> type_state" where
  "state_from_type t =
     (case dt_state t of
        TS_Open \<Rightarrow> State_Open
      | TS_Materialized \<Rightarrow> State_Materialized
      | TS_Ready \<Rightarrow> State_Ready
      | TS_Done \<Rightarrow> State_Ready
      | TS_Closed \<Rightarrow> State_Closed
      | _ \<Rightarrow> State_Unknown)"

text \<open>The down-casts (\<open>dynamic_cast\<close>) the builder makes on child nodes.\<close>

definition as_name :: "styio_ast \<Rightarrow> string option" where
  "as_name ast = (case ast of Ast a (Names (NameAST s)) \<Rightarrow> Some s | _ \<Rightarrow> None)"

definition as_string :: "styio_ast \<Rightarrow> string option" where
  "as_string ast = (case ast of Ast a (Text (StringAST s)) \<Rightarrow> Some s | _ \<Rightarrow> None)"

definition as_int :: "styio_ast \<Rightarrow> int_ast object option" where
  "as_int ast = (case ast of Ast a (Scalar (IntAST i)) \<Rightarrow> Some (Obj a i) | _ \<Rightarrow> None)"

definition as_std_stream :: "styio_ast \<Rightarrow> std_stream_kind option" where
  "as_std_stream ast = (case ast of Ast a (Handle (StdStreamAST k th)) \<Rightarrow> Some k | _ \<Rightarrow> None)"

definition as_receiver :: "styio_ast \<Rightarrow> string option" where
  "as_receiver ast = (case ast of Ast a (Resource (ResourceReceiverAST fam)) \<Rightarrow> Some fam | _ \<Rightarrow> None)"

definition is_empty_resource :: "styio_ast \<Rightarrow> bool" where
  "is_empty_resource ast = (case ast of Ast a (Resource EmptyResourceAST) \<Rightarrow> True | _ \<Rightarrow> False)"

definition is_resource_ref :: "styio_ast \<Rightarrow> bool" where
  "is_resource_ref ast = (case ast of Ast a (Decl (ResourceRefAST n s i t)) \<Rightarrow> True | _ \<Rightarrow> False)"

definition is_file_resource :: "styio_ast \<Rightarrow> bool" where
  "is_file_resource ast = (case ast of Ast a (Structure (FileResourceAST f)) \<Rightarrow> True | _ \<Rightarrow> False)"

fun source_of :: "styio_ast \<Rightarrow> nat option" where
  "source_of NullAST = None"
| "source_of (Ast a c) = Some a"

definition file_label :: "styio_ast file_ast \<Rightarrow> string" where
  "file_label f =
     (if file_path f = NullAST then ''@file(<null>)''
      else case as_string (file_path f) of
             Some s \<Rightarrow> if auto_detect f then ''@'' @ ''{'' @ s @ ''}'' else ''@file('' @ s @ '')''
           | None \<Rightarrow> if auto_detect f then ''@'' @ ''{<expr>}'' else ''@file(<expr>)'')"

definition state_slot_label :: "'p var_ast object option \<Rightarrow> name_ast option \<Rightarrow> string" where
  "state_slot_label export_var acc_name =
     (case export_var of
        Some v \<Rightarrow> ''state:'' @ getNameAsStr v
      | None \<Rightarrow>
          (case acc_name of
             Some n \<Rightarrow> ''state:'' @ obj_val n
           | None \<Rightarrow> ''state:<anonymous>''))"

text \<open>\<open>std::stoll\<close> throws without digits and out of range; both count as not positive.\<close>

definition int_ast_positive :: "int_ast \<Rightarrow> bool" where
  "int_ast_positive i =
     (case strtoll (int_value i) of
        None \<Rightarrow> False
      | Some (v, erange, n) \<Rightarrow> \<not> erange \<and> v > 0)"

subsection \<open>The builder\<close>

record resource_method_info =
  mi_consuming :: bool
  mi_property :: bool
  mi_param_count :: nat

text \<open>Families, and the methods of each.\<close>

type_synonym method_table = "(string \<times> (string \<times> resource_method_info) list) list"

record resource_access =
  ac_resource :: nat
  ac_owner :: nat
  ac_exclusive :: bool
  ac_source :: "nat option"
  ac_label :: string

datatype visit_context =
  Context (ctx_owner: "nat option") (ctx_in_state_decl: bool) (ctx_top_level: bool)

record builder =
  b_options :: build_options
  b_graph :: graph
  b_errors :: "validation_error list"
  b_ast_nodes :: "(nat \<times> nat) list"
  b_binding_nodes :: "(string \<times> nat) list"
  b_binding_types :: "(string \<times> styio_data_type) list"
  b_handle_bindings :: "(string \<times> nat) list"
  b_resource_nodes :: "(string \<times> nat) list"
  b_state_slots :: "(string \<times> nat) list"
  b_task_bindings :: "(string \<times> nat) list"
  b_block_bindings :: "(string \<times> nat) list"
  b_resource_methods :: "method_table"
  b_destroyed :: "nat set"
  b_unordered :: "nat set"
  b_accesses :: "resource_access list"

definition put_method :: "string \<Rightarrow> string \<Rightarrow> resource_method_info
    \<Rightarrow> method_table
    \<Rightarrow> method_table" where
  "put_method family nm info tab =
     (family, (nm, info) # (case map_of tab family of None \<Rightarrow> [] | Some m \<Rightarrow> m)) # tab"

definition new_builder :: "build_options \<Rightarrow> builder" where
  "new_builder options =
     \<lparr> b_options = options, b_graph = \<lparr> g_nodes = [], g_edges = [] \<rparr>, b_errors = [],
       b_ast_nodes = [], b_binding_nodes = [], b_binding_types = [],
       b_handle_bindings = [], b_resource_nodes = [], b_state_slots = [],
       b_task_bindings = [], b_block_bindings = [],
       b_resource_methods =
         fold (\<lambda>m. put_method (spec_family m) (spec_method m)
                 \<lparr> mi_consuming = spec_consuming m, mi_property = spec_property m,
                   mi_param_count = spec_param_count m \<rparr>)
           styio_builtin_resource_methods_latest [],
       b_destroyed = {}, b_unordered = {}, b_accesses = [] \<rparr>"

definition report_error :: "string \<Rightarrow> nat option \<Rightarrow> builder \<Rightarrow> builder" where
  "report_error msg source b =
     b\<lparr>b_errors := b_errors b @
        [\<lparr> ve_message = opt_phase (b_options b) @ '': '' @ msg, ve_source = source \<rparr>]\<rparr>"

definition graph_add_node :: "node_kind \<Rightarrow> string \<Rightarrow> 32 word \<Rightarrow> type_state \<Rightarrow> nat option \<Rightarrow> builder \<Rightarrow> nat \<times> builder" where
  "graph_add_node kind label caps state source b =
     (case g_add_node kind label caps state source (b_graph b) of
        (i, g) \<Rightarrow> (i, b\<lparr>b_graph := g\<rparr>))"

definition add_edge :: "edge_kind \<Rightarrow> nat option \<Rightarrow> nat option \<Rightarrow> string \<Rightarrow> builder \<Rightarrow> builder" where
  "add_edge kind from to label b = b\<lparr>b_graph := g_add_edge kind from to label (b_graph b)\<rparr>"

definition node :: "builder \<Rightarrow> nat \<Rightarrow> top_node option" where
  "node b i = g_node (b_graph b) i"

definition add_ast_node :: "nat \<Rightarrow> node_kind \<Rightarrow> string \<Rightarrow> 32 word \<Rightarrow> type_state \<Rightarrow> visit_context
    \<Rightarrow> builder \<Rightarrow> nat \<times> builder" where
  "add_ast_node ast kind label caps state ctx b =
     (case map_of (b_ast_nodes b) ast of
        Some i \<Rightarrow> (i, b)
      | None \<Rightarrow>
          (case graph_add_node kind label caps state (Some ast) b of
             (i, b1) \<Rightarrow>
               let b2 = b1\<lparr>b_ast_nodes := (ast, i) # b_ast_nodes b1\<rparr> in
               (i, if ctx_owner ctx \<noteq> None \<and> ctx_owner ctx \<noteq> Some i
                   then add_edge EK_Ownership (ctx_owner ctx) (Some i) [] b2
                   else b2)))"

subsection \<open>Type hints\<close>

text \<open>
  A recursive function on the tree is given the children together with its results on them:
  a child is the pair of the node and the result.
\<close>

definition attr_hint :: "string option \<Rightarrow> styio_data_type \<Rightarrow> styio_data_type" where
  "attr_hint attr_name base =
     (case attr_name of
        None \<Rightarrow> undefined_type
      | Some nm \<Rightarrow>
          if (nm = ''length'' \<or> nm = ''size'') \<and> styio_type_is_sized base then i64_type
          else if nm = ''keys'' \<and> styio_is_dict_type base
            then styio_make_list_type (styio_dict_key_type_name base)
          else if nm = ''values'' \<and> styio_is_dict_type base
            then styio_make_list_type (styio_dict_value_type_name base)
          else undefined_type)"

definition access_hint :: "styio_node_type \<Rightarrow> styio_data_type \<Rightarrow> styio_data_type" where
  "access_hint op base =
     (if op = In_List_Op NT_Access_By_Name \<and> styio_is_dict_type base
      then styio_data_type_from_name (styio_dict_value_type_name base)
      else if op = In_List_Op NT_Access_By_Index \<and> (styio_is_list_type base \<or> styio_is_dict_type base)
      then styio_data_type_from_name (styio_type_item_type_name base)
      else undefined_type)"

definition call_hint :: "bool \<Rightarrow> string \<Rightarrow> styio_data_type \<Rightarrow> styio_data_type" where
  "call_hint has_callee nm callee_type =
     (let builtin_method = builtin_method_kind nm in
      if has_callee \<and> builtin_method = BM_StringLines \<and> dt_option callee_type = DT_String
      then styio_make_list_type ''string''
      else if has_callee \<and> styio_is_predefined_list_operation_kind builtin_method then i64_type
      else undefined_type)"

definition hint_class :: "(string \<Rightarrow> styio_data_type option) \<Rightarrow> (styio_ast \<times> styio_data_type) ast_class
    \<Rightarrow> styio_data_type" where
  "hint_class binding_types c =
     (case c of
        Names (NameAST nm) \<Rightarrow>
          (case binding_types nm of Some t \<Rightarrow> t | None \<Rightarrow> undefined_type)
      | Access (AttrAST body attr) \<Rightarrow> attr_hint (as_name (fst attr)) (snd body)
      | Access (ListOpAST op l s1 s2) \<Rightarrow> access_hint op (snd l)
      | Call (FuncCallAST callee nm args) \<Rightarrow> call_hint (fst callee \<noteq> NullAST) (obj_val nm) (snd callee)
      | _ \<Rightarrow> class_data_type c)"

primrec type_hint :: "(string \<Rightarrow> styio_data_type option) \<Rightarrow> styio_ast \<Rightarrow> styio_data_type" where
  "type_hint binding_types NullAST = undefined_type"
| "type_hint binding_types (Ast a c) =
     hint_class binding_types (map_ast_class (\<lambda>x. (x, type_hint binding_types x)) c)"

definition hint :: "builder \<Rightarrow> styio_ast \<Rightarrow> styio_data_type" where
  "hint b ast = type_hint (map_of (b_binding_types b)) ast"

subsection \<open>Helpers of the visitor\<close>

definition add_value :: "nat \<Rightarrow> styio_ast \<Rightarrow> string \<Rightarrow> visit_context \<Rightarrow> builder \<Rightarrow> nat \<times> builder" where
  "add_value a ast label ctx b =
     (let t = hint b ast in
      add_ast_node a NK_Value label (capabilities_from_type t) (state_from_type t) ctx b)"

definition record_binding :: "string \<Rightarrow> nat option \<Rightarrow> styio_data_type \<Rightarrow> builder \<Rightarrow> builder" where
  "record_binding nm node_id t b =
     (case node_id of
        None \<Rightarrow> b
      | Some i \<Rightarrow>
          if nm = [] then b
          else b\<lparr>b_binding_nodes := (nm, i) # b_binding_nodes b,
                 b_binding_types := (nm, t) # b_binding_types b\<rparr>)"

definition require_cap :: "nat option \<Rightarrow> 32 word \<Rightarrow> string \<Rightarrow> nat option \<Rightarrow> builder \<Rightarrow> builder option" where
  "require_cap node_id cap msg source b =
     (case node_id of
        None \<Rightarrow> Some (report_error (msg @ '' (missing node)'') source b)
      | Some i \<Rightarrow>
          do {
            n \<leftarrow> node b i;
            Some (if \<not> has_capability (n_caps n) cap
                  then report_error (msg @ '': '' @ n_label n) source b
                  else b)
          })"

definition own_if_close :: "nat option \<Rightarrow> nat option \<Rightarrow> builder \<Rightarrow> builder option" where
  "own_if_close owner resource b =
     (case (owner, resource) of
        (Some ow, Some res) \<Rightarrow>
          do {
            n \<leftarrow> node b res;
            Some (if has_capability (n_caps n) Cap_Close
                  then add_edge EK_Ownership owner resource ''close-owner'' b
                  else b)
          }
      | _ \<Rightarrow> Some b)"

definition record_access :: "nat option \<Rightarrow> nat option \<Rightarrow> bool \<Rightarrow> nat option \<Rightarrow> string \<Rightarrow> builder \<Rightarrow> builder" where
  "record_access resource owner exclusive source label b =
     (case resource of
        None \<Rightarrow> b
      | Some res \<Rightarrow>
          b\<lparr>b_accesses := b_accesses b @
             [\<lparr> ac_resource = res, ac_owner = (case owner of None \<Rightarrow> 0 | Some i \<Rightarrow> i),
                ac_exclusive = exclusive, ac_source = source, ac_label = label \<rparr>]\<rparr>)"

definition named_execution_node :: "builder \<Rightarrow> styio_ast \<Rightarrow> nat option" where
  "named_execution_node b ast =
     (case as_name ast of
        None \<Rightarrow> None
      | Some key \<Rightarrow>
          (case map_of (b_block_bindings b) key of
             Some i \<Rightarrow> Some i
           | None \<Rightarrow>
               (case map_of (b_task_bindings b) key of
                  Some i \<Rightarrow> Some i
                | None \<Rightarrow> map_of (b_binding_nodes b) key)))"

text \<open>
  The loop of \<open>happens_before\<close>: a stack of nodes, its top at the head, and the nodes seen. Scanning
  the edges pushes the targets of the current node's edges one by one, or finds the node sought.
\<close>

fun hb_scan :: "top_edge list \<Rightarrow> nat \<Rightarrow> nat \<Rightarrow> nat list \<Rightarrow> nat list option" where
  "hb_scan [] cur after stack = Some stack"
| "hb_scan (e # es) cur after stack =
     (if ed_kind e \<noteq> EK_HappensBefore \<or> ed_from e \<noteq> cur then hb_scan es cur after stack
      else if ed_to e = after then None
      else hb_scan es cur after (ed_to e # stack))"

definition hb_sources :: "top_edge list \<Rightarrow> nat set" where
  "hb_sources es = ed_from ` {e \<in> set es. ed_kind e = EK_HappensBefore}"

lemma hb_scan_no_source:
  "cur \<notin> hb_sources es \<Longrightarrow> hb_scan es cur after stack = Some stack"
  by (induction es) (auto simp: hb_sources_def image_iff)

function hb_loop :: "top_edge list \<Rightarrow> nat \<Rightarrow> nat list \<Rightarrow> nat set \<Rightarrow> bool" where
  "hb_loop es after [] seen = False"
| "hb_loop es after (cur # stack) seen =
     (if cur \<in> seen then hb_loop es after stack seen
      else case hb_scan es cur after stack of
             None \<Rightarrow> True
           | Some stack' \<Rightarrow> hb_loop es after stack' (insert cur seen))"
  by pat_completeness auto
termination
proof (relation "measures [\<lambda>(es, after, stack, seen). card (hb_sources es - seen),
                           \<lambda>(es, after, stack, seen). length stack]")
  fix es after cur stack seen stack'
  assume a: "cur \<notin> seen" "hb_scan es cur after stack = Some stack'"
  have fin: "finite (hb_sources es)" by (simp add: hb_sources_def)
  show "((es, after, stack', insert cur seen), (es, after, cur # stack, seen)) \<in>
    measures [\<lambda>(es, after, stack, seen). card (hb_sources es - seen), \<lambda>(es, after, stack, seen). length stack]"
  proof (cases "cur \<in> hb_sources es")
    case True
    then have "hb_sources es - insert cur seen \<subset> hb_sources es - seen" using a by auto
    then have "card (hb_sources es - insert cur seen) < card (hb_sources es - seen)"
      using fin by (intro psubset_card_mono) auto
    then show ?thesis by simp
  next
    case False
    then have "hb_sources es - insert cur seen = hb_sources es - seen" by auto
    moreover have "stack' = stack" using a hb_scan_no_source [OF False] by simp
    ultimately show ?thesis by simp
  qed
qed auto

definition happens_before :: "builder \<Rightarrow> nat \<Rightarrow> nat \<Rightarrow> bool" where
  "happens_before b start after =
     (if start = after then True
      else hb_loop (g_edges (b_graph b)) after [start] {})"

subsection \<open>Resource methods\<close>

definition family_of_stream_code :: "int \<Rightarrow> string" where
  "family_of_stream_code i =
     (if i = 0 then styio_std_stream_family_name SK_Stdin
      else if i = 1 then styio_std_stream_family_name SK_Stdout
      else if i = 2 then styio_std_stream_family_name SK_Stderr
      else [])"

definition resource_family_for_expr :: "builder \<Rightarrow> styio_ast \<Rightarrow> string" where
  "resource_family_for_expr b expr =
     (if expr = NullAST then []
      else if is_file_resource expr then ''file''
      else case as_std_stream expr of
             Some k \<Rightarrow> styio_std_stream_family_name k
           | None \<Rightarrow>
               (case as_receiver expr of
                  Some family \<Rightarrow> family
                | None \<Rightarrow>
                    if is_resource_ref expr then ''resource''
                    else (let t = hint b expr in
                          if dt_handle_family t = HF_File then ''file''
                          else if dt_handle_family t = HF_Stream
                            then (if dt_has_std_stream_kind t then family_of_stream_code (dt_std_stream_kind t)
                                  else ''stream'')
                          else if styio_is_topology_resource_type t then ''resource''
                          else [])))"

definition find_resource_method :: "method_table
    \<Rightarrow> string \<Rightarrow> string \<Rightarrow> resource_method_info option" where
  "find_resource_method methods family nm =
     (case map_of methods family of None \<Rightarrow> None | Some m \<Rightarrow> map_of m nm)"

definition consumes_class :: "method_table \<Rightarrow> string
    \<Rightarrow> (styio_ast \<times> bool) ast_class \<Rightarrow> bool" where
  "consumes_class methods family c =
     (case c of
        Write (ResourceRedirectAST data resource) \<Rightarrow>
          as_receiver (fst data) = Some family \<and> is_empty_resource (fst resource)
          \<or> snd data \<or> snd resource
      | Call (FuncCallAST callee nm args) \<Rightarrow>
          as_receiver (fst callee) = Some family
            \<and> (case find_resource_method methods family (obj_val nm) of
                 Some info \<Rightarrow> mi_consuming info
               | None \<Rightarrow> False)
          \<or> list_ex snd args
      | BlockLevel (BlockAST blk) \<Rightarrow> list_ex snd (blk_stmts blk)
      | Binary (BinOpAST t op lhs rhs) \<Rightarrow> snd lhs \<or> snd rhs
      | Selector (CondAST x) \<Rightarrow> snd (cond_value x) \<or> snd (cond_lhs x) \<or> snd (cond_rhs x)
      | _ \<Rightarrow> False)"

primrec resource_method_body_consumes_receiver ::
    "method_table \<Rightarrow> string \<Rightarrow> styio_ast \<Rightarrow> bool" where
  "resource_method_body_consumes_receiver methods family NullAST = False"
| "resource_method_body_consumes_receiver methods family (Ast a c) =
     consumes_class methods family
       (map_ast_class (\<lambda>x. (x, resource_method_body_consumes_receiver methods family x)) c)"

subsection \<open>Visiting a node\<close>

type_synonym visitor = "visit_context \<Rightarrow> builder \<Rightarrow> (nat option \<times> builder) option"
type_synonym child = "styio_ast \<times> visitor"

definition visit_list :: "child list \<Rightarrow> visit_context \<Rightarrow> builder \<Rightarrow> builder option" where
  "visit_list cs ctx b = fold (\<lambda>c r. do { b \<leftarrow> r; (i, b) \<leftarrow> snd c ctx b; Some b }) cs (Some b)"

text \<open>Visiting a list of children and drawing an edge to or from each of them that has a node.\<close>

definition visit_linked :: "(nat \<Rightarrow> builder \<Rightarrow> builder) \<Rightarrow> child list \<Rightarrow> visit_context \<Rightarrow> builder \<Rightarrow> builder option" where
  "visit_linked link cs ctx b =
     fold (\<lambda>c r. do {
              b \<leftarrow> r;
              (i, b) \<leftarrow> snd c ctx b;
              Some (case i of None \<Rightarrow> b | Some n \<Rightarrow> link n b)
            }) cs (Some b)"

text \<open>A value node with the children visited in its scope.\<close>

definition visit_value :: "nat \<Rightarrow> styio_ast \<Rightarrow> string \<Rightarrow> child list \<Rightarrow> visitor" where
  "visit_value a ast label cs ctx b =
     (let (i, b) = add_value a ast label ctx b in
      do {
        b \<leftarrow> visit_list cs (Context (Some i) (ctx_in_state_decl ctx) False) b;
        Some (Some i, b)
      })"

definition visit_file_resource :: "nat \<Rightarrow> child file_ast \<Rightarrow> visitor" where
  "visit_file_resource a f ctx b =
     (let (i, b) = add_ast_node a NK_DriverSource (file_label (map_file_ast fst f))
                     (Cap_Pull OR Cap_Iter OR Cap_Push OR Cap_Close) State_Declared ctx b in
      Some (Some i, b))"

definition visit_std_stream :: "nat \<Rightarrow> std_stream_kind \<Rightarrow> visitor" where
  "visit_std_stream a kind ctx b =
     (let caps = (if kind = SK_Stdin then Cap_Pull OR Cap_Iter else Cap_Push);
          (i, b) = add_ast_node a NK_DriverSource (styio_std_stream_resource_label kind) caps State_Open ctx b in
      Some (Some i, b))"

definition visit_empty_resource :: "nat \<Rightarrow> visitor" where
  "visit_empty_resource a ctx b =
     (let (i, b) = add_ast_node a NK_Sink ''@()'' Cap_None State_Closed ctx b in Some (Some i, b))"

definition visit_receiver :: "nat \<Rightarrow> string \<Rightarrow> visitor" where
  "visit_receiver a family ctx b =
     (let caps = (if styio_is_stdin_resource_family_name family then Cap_Pull OR Cap_Iter
                  else if styio_is_stdout_resource_family_name family
                          \<or> styio_is_stderr_resource_family_name family then Cap_Push
                  else Cap_Pull OR Cap_Iter OR Cap_Push OR Cap_Close);
          (i, b) = add_ast_node a NK_Handle (''receiver:@'' @ family) caps State_Open ctx b in
      Some (Some i, b))"

definition visit_method_def :: "nat \<Rightarrow> string \<Rightarrow> string \<Rightarrow> bool \<Rightarrow> nat \<Rightarrow> child \<Rightarrow> visitor" where
  "visit_method_def a family nm property param_count body ctx b =
     (let consuming = (\<not> property
            \<and> resource_method_body_consumes_receiver (b_resource_methods b) family (fst body));
          b = b\<lparr>b_resource_methods :=
                 put_method family nm
                   \<lparr> mi_consuming = consuming, mi_property = property, mi_param_count = param_count \<rparr>
                   (b_resource_methods b)\<rparr>;
          (i, b) = add_ast_node a NK_Value (''resource-method:@'' @ family @ ''::'' @ nm)
                     Cap_None State_Ready ctx b in
      if fst body \<noteq> NullAST then
        do {
          (j, b) \<leftarrow> snd body (Context (Some i) (ctx_in_state_decl ctx) False) b;
          Some (Some i, b)
        }
      else Some (Some i, b))"

definition execution_node :: "child \<Rightarrow> visitor" where
  "execution_node p ctx b =
     (case named_execution_node b (fst p) of
        Some i \<Rightarrow> Some (Some i, b)
      | None \<Rightarrow> snd p ctx b)"

definition visit_order :: "child \<Rightarrow> child \<Rightarrow> visitor" where
  "visit_order earlier later ctx b =
     do {
       (i, b) \<leftarrow> execution_node earlier ctx b;
       (j, b) \<leftarrow> execution_node later ctx b;
       Some (j, add_edge EK_HappensBefore i j ''sequence'' b)
     }"

definition visit_block :: "nat \<Rightarrow> child block_ast \<Rightarrow> visitor" where
  "visit_block a blk ctx b =
     (let (i, b) = add_ast_node a NK_StreamOp ''block'' Cap_None State_Ready ctx b;
          inner = Context (Some i) (ctx_in_state_decl ctx) False in
      do {
        b \<leftarrow> visit_list (blk_stmts blk) inner b;
        b \<leftarrow> visit_list (blk_followings blk) inner b;
        Some (Some i, b)
      })"

definition decl_slot :: "nat \<Rightarrow> visit_context \<Rightarrow> name_ast \<times> type_ast \<Rightarrow> nat option \<times> builder \<Rightarrow> nat option \<times> builder" where
  "decl_slot a ctx slot r =
     (let nm = obj_val (fst slot);
          t = styio_normalize_resource_decl_type (obj_val (snd slot));
          (i, b) = add_ast_node a NK_StateSlot (''resource:@'' @ nm) (capabilities_from_type t)
                     State_Declared ctx (snd r);
          b = b\<lparr>b_resource_nodes := (nm, i) # b_resource_nodes b\<rparr> in
      (Some i, record_binding (''@'' @ nm) (Some i) t b))"

definition visit_resource_decl :: "nat \<Rightarrow> (name_ast \<times> type_ast) list \<Rightarrow> child block_ast object option \<Rightarrow> visitor" where
  "visit_resource_decl a slots driver ctx b =
     (let b = (if ctx_top_level ctx then b
               else report_error ''resource declarations are top-level only'' (Some a) b);
          (last_id, b) = fold (decl_slot a ctx) slots (None, b) in
      case driver of
        None \<Rightarrow> Some (last_id, b)
      | Some d \<Rightarrow>
          do {
            (j, b) \<leftarrow> visit_block (obj_addr d) (obj_val d)
                        (Context (if last_id = None then ctx_owner ctx else last_id) (ctx_in_state_decl ctx) False) b;
            Some (last_id, b)
          })"

definition visit_resource_ref :: "nat \<Rightarrow> styio_ast \<Rightarrow> string \<Rightarrow> resource_selector_kind \<Rightarrow> visitor" where
  "visit_resource_ref a ast nm selector ctx b =
     (case map_of (b_resource_nodes b) nm of
        None \<Rightarrow>
          (let b = report_error (''unknown resource: @'' @ nm) (Some a) b;
               (i, b) = add_value a ast (''resource-ref:@'' @ nm) ctx b in
           Some (Some i, b))
      | Some resource \<Rightarrow>
          if selector = Whole then
            (let b = add_edge EK_Borrow (ctx_owner ctx) (Some resource) ''resource-ref'' b;
                 b = record_access (Some resource) (ctx_owner ctx) False (Some a) ''resource-ref'' b in
             Some (Some resource, b))
          else
            do {
              b \<leftarrow> require_cap (Some resource) Cap_Pull ''resource selector needs read capability'' (Some a) b;
              b \<leftarrow> require_cap (Some resource) Cap_Checkpoint ''resource selector needs snapshot capability'' (Some a) b;
              let (i, b) = add_ast_node a NK_Value (''resource-select:@'' @ nm) Cap_None State_Ready ctx b;
              let b = add_edge EK_Flow (Some resource) (Some i) ''committed-snapshot-read'' b;
              let b = add_edge EK_Borrow (Some i) (Some resource) ''selector-borrow'' b;
              let b = record_access (Some resource) (ctx_owner ctx) False (Some a) ''selector-read'' b;
              Some (Some i, b)
            })"

definition visit_name :: "nat \<Rightarrow> styio_ast \<Rightarrow> string \<Rightarrow> visitor" where
  "visit_name a ast nm ctx b =
     (case map_of (b_handle_bindings b) nm of
        Some h \<Rightarrow>
          Some (Some h, record_access (Some h) (ctx_owner ctx) False (Some a) ''name-ref''
                  (add_edge EK_Borrow (ctx_owner ctx) (Some h) ''name-ref'' b))
      | None \<Rightarrow>
      case map_of (b_state_slots b) nm of
        Some s \<Rightarrow> Some (Some s, add_edge EK_Borrow (ctx_owner ctx) (Some s) ''state-ref'' b)
      | None \<Rightarrow>
      case map_of (b_task_bindings b) nm of
        Some t \<Rightarrow> Some (Some t, add_edge EK_Borrow (ctx_owner ctx) (Some t) ''task_ref'' b)
      | None \<Rightarrow>
      case map_of (b_binding_nodes b) nm of
        Some v \<Rightarrow> Some (Some v, add_edge EK_Borrow (ctx_owner ctx) (Some v) ''binding-ref'' b)
      | None \<Rightarrow>
          (let (i, b) = add_value a ast (''value:'' @ nm) ctx b in Some (Some i, b)))"

text \<open>Visiting something outside of any owner.\<close>

definition detached :: "visit_context \<Rightarrow> visit_context" where
  "detached ctx = Context None (ctx_in_state_decl ctx) False"

definition visit_acquire :: "nat \<Rightarrow> child var_ast object \<Rightarrow> child \<Rightarrow> bind_mode \<Rightarrow> visitor" where
  "visit_acquire a v resource mode ctx b =
     do {
       (source, b) \<leftarrow> snd resource (detached ctx) b;
       let binding_type = (if isUndefined (getDType v) then hint b (fst resource) else getDType v);
       let binding_type = (if mode = Mode_Flex \<and> as_std_stream (fst resource) = Some SK_Stdin
                           then styio_make_list_type ''string'' else binding_type);
       let (h, b) = add_ast_node a NK_Handle (''handle:'' @ getNameAsStr v)
                      (capabilities_from_type binding_type) (state_from_type binding_type) ctx b;
       let b = (if source = None then b
                else add_edge EK_Mutation (Some h) source ''open''
                       (add_edge EK_Ownership (Some h) source ''acquire'' b));
       let b = b\<lparr>b_handle_bindings := (getNameAsStr v, h) # b_handle_bindings b\<rparr>;
       Some (Some h, record_binding (getNameAsStr v) (Some h) binding_type b)
     }"

record sink_words =
  sink_label :: string
  data_edge_label :: string
  commit_label :: string
  mutation_label :: string
  cap_msg :: string
  access_label :: string

definition visit_resource_sink_write :: "nat \<Rightarrow> child \<Rightarrow> child \<Rightarrow> sink_words \<Rightarrow> visitor" where
  "visit_resource_sink_write a data resource_expr w ctx b =
     do {
       (resource, b) \<leftarrow> snd resource_expr (detached ctx) b;
       let (sink, b) = add_ast_node a NK_Sink (sink_label w) Cap_None State_Ready ctx b;
       (d, b) \<leftarrow> snd data (Context (Some sink) (ctx_in_state_decl ctx) False) b;
       b \<leftarrow> require_cap resource Cap_Push (cap_msg w) (source_of (fst resource_expr)) b;
       let b = (if d = None then b else add_edge EK_Flow d (Some sink) (data_edge_label w) b);
       if resource = None then Some (Some sink, b)
       else
         do {
           let logical = is_resource_ref (fst resource_expr);
           let b = add_edge EK_Commit (Some sink) resource
                     (if logical then ''pending-write-commit'' else commit_label w) b;
           let b = add_edge EK_Mutation (Some sink) resource
                     (if logical then ''pending-write'' else mutation_label w) b;
           let b = add_edge EK_Backpressure (Some sink) resource ''write-pressure'' b;
           let b = record_access resource (ctx_owner ctx) True (Some a) (access_label w) b;
           b \<leftarrow> own_if_close (Some sink) resource b;
           Some (Some sink, b)
         }
     }"

definition visit_collect_stdin :: "nat \<Rightarrow> string \<Rightarrow> child \<Rightarrow> visitor" where
  "visit_collect_stdin a nm resource_expr ctx b =
     do {
       (resource, b) \<leftarrow> snd resource_expr (detached ctx) b;
       let collected_type = styio_make_list_type ''string'';
       let (binding, b) = add_ast_node a NK_StateSlot (''collect:stdin:'' @ nm)
             (capabilities_from_type collected_type) (state_from_type collected_type) ctx b;
       let b = (if resource = None then b
                else add_edge EK_Backpressure (Some binding) resource ''collect-pressure''
                       (add_edge EK_Mutation (Some binding) resource ''collect-read''
                         (add_edge EK_Flow resource (Some binding) ''stdin-collect'' b)));
       Some (Some binding, record_binding nm (Some binding) collected_type b)
     }"

definition write_words :: sink_words where
  "write_words =
     \<lparr> sink_label = ''sink:resource_write'', data_edge_label = ''write-data'', commit_label = ''write-commit'',
       mutation_label = ''write'', cap_msg = ''write target must have push capability'', access_label = ''write'' \<rparr>"

definition redirect_words :: sink_words where
  "redirect_words =
     \<lparr> sink_label = ''sink:resource_redirect'', data_edge_label = ''redirect-data'',
       commit_label = ''redirect-commit'', mutation_label = ''redirect'',
       cap_msg = ''redirect target must have push capability'', access_label = ''redirect'' \<rparr>"

definition visit_write :: "nat \<Rightarrow> child \<Rightarrow> child \<Rightarrow> visitor" where
  "visit_write a data resource_expr ctx b =
     (case as_name (fst data) of
        Some nm \<Rightarrow>
          if as_std_stream (fst resource_expr) = Some SK_Stdin \<and> map_of (b_binding_nodes b) nm = None
          then visit_collect_stdin a nm resource_expr ctx b
          else visit_resource_sink_write a data resource_expr write_words ctx b
      | None \<Rightarrow> visit_resource_sink_write a data resource_expr write_words ctx b)"

definition visit_redirect :: "nat \<Rightarrow> child \<Rightarrow> child \<Rightarrow> visitor" where
  "visit_redirect a data resource_expr ctx b =
     (if is_empty_resource (fst resource_expr) then
        (let (sink, b) = add_ast_node a NK_Sink ''sink:resource_redirect'' Cap_None State_Ready ctx b in
         do {
           (d, b) \<leftarrow> snd data (Context (Some sink) (ctx_in_state_decl ctx) False) b;
           case d of
             None \<Rightarrow> Some (Some sink, b)
           | Some i \<Rightarrow>
               (let b = add_edge EK_Mutation (Some sink) d ''destroy'' b;
                    b = add_edge EK_Commit (Some sink) d ''destroy-commit'' b;
                    b = record_access d (ctx_owner ctx) True (Some a) ''destroy'' b in
                Some (Some sink, b\<lparr>b_destroyed := insert i (b_destroyed b)\<rparr>))
         })
      else visit_resource_sink_write a data resource_expr redirect_words ctx b)"

text \<open>What an iterator and a zip record of the collection they draw from.\<close>

definition draw_from :: "nat \<Rightarrow> nat \<Rightarrow> nat option \<Rightarrow> nat option \<Rightarrow> string \<Rightarrow> string \<Rightarrow> builder \<Rightarrow> builder option" where
  "draw_from a op collection owner label pressure b =
     (if collection = None then Some b
      else
        let b = add_edge EK_Flow collection (Some op) label b;
            b = add_edge EK_Backpressure (Some op) collection pressure b;
            b = record_access collection owner False (Some a) label b in
        own_if_close (Some op) collection b)"

definition visit_iterator :: "nat \<Rightarrow> child \<Rightarrow> child list \<Rightarrow> visitor" where
  "visit_iterator a coll following ctx b =
     do {
       (collection, b) \<leftarrow> snd coll (detached ctx) b;
       let (op, b) = add_ast_node a NK_StreamOp ''stream:iterator'' Cap_None State_Ready ctx b;
       b \<leftarrow> require_cap collection Cap_Iter ''iterator source must have iter capability'' (source_of (fst coll)) b;
       b \<leftarrow> draw_from a op collection (ctx_owner ctx) ''iterate'' ''iterator-pressure'' b;
       b \<leftarrow> visit_linked (\<lambda>n. add_edge EK_Flow (Some op) (Some n) ''iterator-body'') following
             (Context (Some op) (ctx_in_state_decl ctx) False) b;
       Some (Some op, b)
     }"

definition visit_zip :: "nat \<Rightarrow> child \<Rightarrow> child \<Rightarrow> child list \<Rightarrow> visitor" where
  "visit_zip a coll_a coll_b following ctx b =
     do {
       (x, b) \<leftarrow> snd coll_a (detached ctx) b;
       (y, b) \<leftarrow> snd coll_b (detached ctx) b;
       let (op, b) = add_ast_node a NK_StreamOp ''stream:zip'' Cap_None State_Ready ctx b;
       b \<leftarrow> require_cap x Cap_Iter ''zip lhs must have iter capability'' (source_of (fst coll_a)) b;
       b \<leftarrow> require_cap y Cap_Iter ''zip rhs must have iter capability'' (source_of (fst coll_b)) b;
       b \<leftarrow> draw_from a op x (ctx_owner ctx) ''zip-a'' ''zip-a-pressure'' b;
       b \<leftarrow> draw_from a op y (ctx_owner ctx) ''zip-b'' ''zip-b-pressure'' b;
       b \<leftarrow> visit_linked (\<lambda>n. add_edge EK_Flow (Some op) (Some n) ''zip-body'') following
             (Context (Some op) (ctx_in_state_decl ctx) False) b;
       Some (Some op, b)
     }"

definition visit_snapshot :: "nat \<Rightarrow> string \<Rightarrow> child file_ast object \<Rightarrow> visitor" where
  "visit_snapshot a nm f ctx b =
     do {
       (resource, b) \<leftarrow> visit_file_resource (obj_addr f) (obj_val f) (detached ctx) b;
       let (state, b) = add_ast_node a NK_StateSlot (''snapshot:'' @ nm)
             (Cap_StateRead OR Cap_StateWrite) State_Ready ctx b;
       let b = b\<lparr>b_state_slots := (nm, state) # b_state_slots b\<rparr>;
       b \<leftarrow> require_cap resource Cap_Pull ''snapshot source must have pull capability'' (Some (obj_addr f)) b;
       if resource = None then Some (Some state, b)
       else
         do {
           let b = add_edge EK_Flow resource (Some state) ''snapshot'' b;
           let b = add_edge EK_Mutation (Some state) resource ''snapshot-read'' b;
           let b = record_access resource (ctx_owner ctx) False (Some a) ''snapshot'' b;
           b \<leftarrow> own_if_close (Some state) resource b;
           Some (Some state, b)
         }
     }"

definition visit_instant_pull :: "nat \<Rightarrow> child \<Rightarrow> visitor" where
  "visit_instant_pull a r ctx b =
     do {
       (resource, b) \<leftarrow> snd r (detached ctx) b;
       let (v, b) = add_ast_node a NK_Value ''value:instant_pull'' Cap_None State_Ready ctx b;
       b \<leftarrow> require_cap resource Cap_Pull ''instant pull source must have pull capability'' (source_of (fst r)) b;
       if resource = None then Some (Some v, b)
       else
         do {
           let b = add_edge EK_Flow resource (Some v) ''instant-pull'' b;
           let b = add_edge EK_Mutation (Some v) resource ''pull'' b;
           let b = record_access resource (ctx_owner ctx) False (Some a) ''pull'' b;
           b \<leftarrow> own_if_close (Some v) resource b;
           Some (Some v, b)
         }
     }"

definition state_window :: "nat \<Rightarrow> int_ast object \<Rightarrow> builder \<Rightarrow> builder" where
  "state_window state w b =
     (let b = (if int_ast_positive (obj_val w) then b
               else report_error ''state window must be a positive integer'' (Some (obj_addr w)) b);
          (ledger, b) = graph_add_node NK_HiddenLedger ''hidden-ledger:window''
            (Cap_StateRead OR Cap_StateWrite) State_Ready (Some (obj_addr w)) b in
      add_edge EK_Ownership (Some state) (Some ledger) ''state-window'' b)"

definition visit_state_decl :: "nat \<Rightarrow> int_ast object option \<Rightarrow> name_ast option \<Rightarrow> child
    \<Rightarrow> child var_ast object option \<Rightarrow> child \<Rightarrow> visitor" where
  "visit_state_decl a window acc_name acc_init export_var update ctx b =
     (let (state, b) = add_ast_node a NK_StateSlot (state_slot_label export_var acc_name)
            (Cap_StateRead OR Cap_StateWrite OR Cap_Pull OR Cap_Push) State_Ready ctx b;
          b = (case export_var of None \<Rightarrow> b
               | Some v \<Rightarrow> b\<lparr>b_state_slots := (getNameAsStr v, state) # b_state_slots b\<rparr>);
          b = (case acc_name of None \<Rightarrow> b
               | Some n \<Rightarrow> b\<lparr>b_state_slots := (obj_val n, state) # b_state_slots b\<rparr>);
          b = (case window of None \<Rightarrow> b | Some w \<Rightarrow> state_window state w b);
          state_ctx = Context (Some state) True False in
      do {
        b \<leftarrow> (if fst acc_init = NullAST then Some b
              else do {
                (i, b) \<leftarrow> snd acc_init state_ctx b;
                Some (add_edge EK_Flow i (Some state) ''state-init'' b)
              });
        (u, b) \<leftarrow> snd update state_ctx b;
        Some (Some state, add_edge EK_Mutation (Some state) u ''state-update'' b)
      })"

definition visit_series :: "nat \<Rightarrow> child \<Rightarrow> child \<Rightarrow> visitor" where
  "visit_series a base window ctx b =
     (let b = (if opt_validate_series_scope (b_options b) \<and> \<not> ctx_in_state_decl ctx
               then report_error ''series intrinsic must be owned by a state declaration'' (Some a) b
               else b);
          (ledger, b) = add_ast_node a NK_HiddenLedger ''hidden-ledger:series''
            (Cap_StateRead OR Cap_StateWrite) State_Ready ctx b;
          inner = Context (Some ledger) (ctx_in_state_decl ctx) False in
      do {
        (x, b) \<leftarrow> snd base inner b;
        (w, b) \<leftarrow> snd window inner b;
        let b = (case as_int (fst window) of
                   None \<Rightarrow> b
                 | Some i \<Rightarrow>
                     if int_ast_positive (obj_val i) then b
                     else report_error ''series intrinsic window must be a positive integer'' (Some (obj_addr i)) b);
        let b = add_edge EK_Flow x (Some ledger) ''series-base'' b;
        Some (Some ledger, add_edge EK_Intent w (Some ledger) ''series-window'' b)
      })"

definition visit_task_block :: "nat \<Rightarrow> child block_ast object \<Rightarrow> visitor" where
  "visit_task_block a body ctx b =
     (let (i, b) = add_ast_node a NK_Task ''task:block'' (Cap_Task OR Cap_Close) State_Ready ctx b;
          (failure, b) = graph_add_node NK_FailureDomain ''failure-domain:task'' Cap_None State_Ready (Some a) b;
          b = add_edge EK_Failure (Some i) (Some failure) ''task_failure'' b in
      do {
        (j, b) \<leftarrow> visit_block (obj_addr body) (obj_val body) (Context (Some i) (ctx_in_state_decl ctx) False) b;
        Some (Some i, b)
      })"

definition visit_task_group :: "nat \<Rightarrow> child list \<Rightarrow> visitor" where
  "visit_task_group a entries ctx b =
     (let (i, b) = add_ast_node a NK_Task ''task:group'' Cap_Task State_Ready ctx b in
      do {
        b \<leftarrow> visit_list entries (Context (Some i) (ctx_in_state_decl ctx) False) b;
        Some (Some i, b)
      })"

definition visit_flow_bind :: "nat \<Rightarrow> child \<Rightarrow> string \<Rightarrow> visitor" where
  "visit_flow_bind a source target_name ctx b =
     do {
       (s, b) \<leftarrow> snd source (detached ctx) b;
       let (sink, b) = add_ast_node a NK_Sink (''sink:flow_bind:'' @ target_name) Cap_None State_Ready ctx b;
       Some (Some sink, add_edge EK_Flow s (Some sink) ''flow-bind'' b)
     }"

definition visit_print :: "nat \<Rightarrow> child list \<Rightarrow> visitor" where
  "visit_print a exprs ctx b =
     (let (sink, b) = add_ast_node a NK_Sink ''sink:stdout_print'' Cap_None State_Ready ctx b in
      do {
        b \<leftarrow> visit_linked (\<lambda>n. add_edge EK_Flow (Some n) (Some sink) ''print'') exprs
              (Context (Some sink) (ctx_in_state_decl ctx) False) b;
        Some (Some sink, b)
      })"

definition visit_var :: "nat \<Rightarrow> styio_ast \<Rightarrow> child var_ast \<Rightarrow> visitor" where
  "visit_var a ast v ctx b =
     (if fst (val_init v) \<noteq> NullAST then snd (val_init v) ctx b
      else (let (i, b) = add_value a ast (''var:'' @ obj_val (var_name v)) ctx b in Some (Some i, b)))"

text \<open>What a binding remembers of a value that is a task, a block or something to be closed.\<close>

definition bind_execution :: "string \<Rightarrow> nat option \<Rightarrow> builder \<Rightarrow> builder option" where
  "bind_execution nm v b =
     (case v of
        None \<Rightarrow> Some b
      | Some i \<Rightarrow>
          do {
            n \<leftarrow> node b i;
            let b = (if n_kind n = NK_Task
                     then b\<lparr>b_task_bindings := (nm, i) # b_task_bindings b, b_unordered := insert i (b_unordered b)\<rparr>
                     else b);
            let b = (if n_kind n = NK_StreamOp
                     then b\<lparr>b_block_bindings := (nm, i) # b_block_bindings b, b_unordered := insert i (b_unordered b)\<rparr>
                     else b);
            Some (if has_capability (n_caps n) Cap_Close
                  then b\<lparr>b_handle_bindings := (nm, i) # b_handle_bindings b\<rparr>
                  else b)
          })"

definition visit_bind :: "nat \<Rightarrow> string \<Rightarrow> styio_data_type \<Rightarrow> child \<Rightarrow> string \<Rightarrow> visitor" where
  "visit_bind a nm declared rhs edge_label ctx b =
     do {
       (v, b) \<leftarrow> snd rhs ctx b;
       let binding_type = (if isUndefined declared then hint b (fst rhs) else declared);
       let (binding, b) = add_ast_node a NK_Value (''binding:'' @ nm)
             (capabilities_from_type binding_type) (state_from_type binding_type) ctx b;
       let b = add_edge EK_Flow v (Some binding) edge_label b;
       let b = record_binding nm (Some binding) binding_type b;
       b \<leftarrow> bind_execution nm v b;
       Some (Some binding, b)
     }"

definition visit_flex_bind :: "nat \<Rightarrow> child var_ast object \<Rightarrow> child \<Rightarrow> visitor" where
  "visit_flex_bind a v rhs = visit_bind a (getNameAsStr v) (getDType v) rhs ''flex-bind''"

definition visit_final_bind :: "nat \<Rightarrow> child var_ast object \<Rightarrow> child \<Rightarrow> visitor" where
  "visit_final_bind a v rhs = visit_bind a (getNameAsStr v) (getDType v) rhs ''final-bind''"

definition visit_parallel :: "child list \<Rightarrow> visitor" where
  "visit_parallel rhs ctx b =
     fold (\<lambda>c r. do { (i, b) \<leftarrow> r; snd c ctx b }) rhs (Some (None, b))"

definition resource_like :: "32 word \<Rightarrow> bool" where
  "resource_like caps \<longleftrightarrow>
     has_capability caps Cap_Pull \<or> has_capability caps Cap_Push \<or> has_capability caps Cap_Close"

definition method_effect :: "nat \<Rightarrow> nat \<Rightarrow> nat \<Rightarrow> string \<Rightarrow> styio_ast \<Rightarrow> visit_context \<Rightarrow> builder \<Rightarrow> builder" where
  "method_effect a call_node receiver nm callee ctx b =
     (let builtin_method = builtin_method_kind nm;
          info = find_resource_method (b_resource_methods b) (resource_family_for_expr b callee) nm;
          consuming = (case info of
                         Some i \<Rightarrow> mi_consuming i
                       | None \<Rightarrow> styio_is_resource_destroy_method_kind builtin_method);
          exclusive = (consuming \<or> (info \<noteq> None \<and> styio_is_resource_write_method_kind builtin_method));
          b = add_edge (if exclusive then EK_Mutation else EK_Borrow) (Some call_node) (Some receiver)
                (''resource-method:'' @ nm) b;
          b = record_access (Some receiver) (ctx_owner ctx) exclusive (Some a) nm b in
      if consuming then b\<lparr>b_destroyed := insert receiver (b_destroyed b)\<rparr> else b)"

definition visit_call :: "nat \<Rightarrow> styio_ast \<Rightarrow> child \<Rightarrow> string \<Rightarrow> child list \<Rightarrow> visitor" where
  "visit_call a ast callee nm args ctx b =
     (let (i, b) = add_value a ast (''value:call:'' @ nm) ctx b in
      do {
        b \<leftarrow> (if fst callee = NullAST then Some b
              else do {
                (receiver, b) \<leftarrow> snd callee (Context (ctx_owner ctx) (ctx_in_state_decl ctx) False) b;
                case receiver of
                  None \<Rightarrow> Some b
                | Some r \<Rightarrow>
                    do {
                      n \<leftarrow> node b r;
                      Some (if resource_like (n_caps n) then method_effect a i r nm (fst callee) ctx b else b)
                    }
              });
        b \<leftarrow> visit_list args (Context (Some i) (ctx_in_state_decl ctx) False) b;
        Some (Some i, b)
      })"

text \<open>A child that is a node of its own; what is not visited below is a value.\<close>

definition visit_other :: "nat \<Rightarrow> styio_ast \<Rightarrow> child ast_class \<Rightarrow> visitor" where
  "visit_other a ast c ctx b =
     (let (i, b) = add_value a ast (''value:'' @ reprASTType (getNodeType c) []) ctx b in Some (Some i, b))"

definition visit_statement :: "nat \<Rightarrow> styio_ast \<Rightarrow> child ast_class \<Rightarrow> visitor" where
  "visit_statement a ast c =
     (case c of
        Structure (FileResourceAST f) \<Rightarrow> visit_file_resource a f
      | Handle (StdStreamAST kind th) \<Rightarrow> visit_std_stream a kind
      | Resource EmptyResourceAST \<Rightarrow> visit_empty_resource a
      | Resource (ResourceReceiverAST family) \<Rightarrow> visit_receiver a family
      | Method (ResourceMethodDefAST family m final_binding property params body) \<Rightarrow>
          visit_method_def a family m property (length params) body
      | Method (ResourceOrderAST earlier later) \<Rightarrow> visit_order earlier later
      | Decl (ResourceDeclAST slots driver) \<Rightarrow> visit_resource_decl a slots driver
      | Decl (ResourceRefAST nm selector off t) \<Rightarrow>
          visit_resource_ref a ast (case nm of None \<Rightarrow> [] | Some n \<Rightarrow> obj_val n) selector
      | Names (NameAST nm) \<Rightarrow> visit_name a ast nm
      | Handle (HandleAcquireAST v resource mode) \<Rightarrow> visit_acquire a v resource mode
      | Write (ResourceWriteAST data resource) \<Rightarrow> visit_write a data resource
      | Write (ResourceRedirectAST data resource) \<Rightarrow> visit_redirect a data resource
      | Loop (IteratorAST coll params following) \<Rightarrow> visit_iterator a coll following
      | Flow (IterSeqAST coll params following tags) \<Rightarrow> visit_iterator a coll following
      | Stream (StreamZipAST ca pa cb pb following) \<Rightarrow> visit_zip a ca cb following
      | Stream (SnapshotDeclAST nm f) \<Rightarrow> visit_snapshot a (obj_val nm) f
      | Task (InstantPullAST r t) \<Rightarrow> visit_instant_pull a r
      | StateLedger (StateDeclAST window acc_name acc_init export_var update) \<Rightarrow>
          visit_state_decl a window acc_name acc_init export_var update
      | Pulse (SeriesIntrinsicAST base op window) \<Rightarrow> visit_series a base window
      | Task (TaskBlockAST body t) \<Rightarrow> visit_task_block a body
      | Task (TaskGroupLaunchAST entries) \<Rightarrow> visit_task_group a entries
      | Flow (FlowBindAST source target fallback p d w t) \<Rightarrow> visit_flow_bind a source (getNameAsStr target)
      | BlockLevel (BlockAST blk) \<Rightarrow> visit_block a blk
      | StateLedger (PrintAST exprs) \<Rightarrow> visit_print a exprs
      | Var (Variable cls v) \<Rightarrow> visit_var a ast v
      | Bind (FlexBindAST v rhs) \<Rightarrow> visit_flex_bind a v rhs
      | Bind (FinalBindAST v rhs) \<Rightarrow> visit_final_bind a v rhs
      | Bind (ParallelAssignAST lhs rhs) \<Rightarrow> visit_parallel rhs
      | _ \<Rightarrow> visit_other a ast c)"

definition var_child :: "child var_ast object \<Rightarrow> child" where
  "var_child v =
     (let ast = Ast (obj_addr v) (Var (Variable VarAST (map_var_ast fst (obj_val v)))) in
      (ast, visit_var (obj_addr v) ast (obj_val v)))"

definition visit_expression :: "nat \<Rightarrow> styio_ast \<Rightarrow> child ast_class \<Rightarrow> visitor" where
  "visit_expression a ast c =
     (case c of
        Binary (BinOpAST t op lhs rhs) \<Rightarrow> visit_value a ast ''value:binop'' [lhs, rhs]
      | Binary (BinCompAST op lhs rhs) \<Rightarrow> visit_value a ast ''value:compare'' [lhs, rhs]
      | Selector (CondAST x) \<Rightarrow> visit_value a ast ''value:condition'' [cond_value x, cond_lhs x, cond_rhs x]
      | Call (FuncCallAST callee nm args) \<Rightarrow> visit_call a ast callee (obj_val nm) args
      | Access (AttrAST body attr) \<Rightarrow> visit_value a ast ''value:attr'' [body, attr]
      | Access (ListOpAST op l s1 s2) \<Rightarrow> visit_value a ast ''value:listop'' [l, s1, s2]
      | Collection (ListAST elements consistent t) \<Rightarrow> visit_value a ast ''value:list'' elements
      | TupleC (TupleAST elements consistent t) \<Rightarrow> visit_value a ast ''value:tuple'' elements
      | TupleC (VarTupleAST vars consistent t) \<Rightarrow> visit_value a ast ''value:tuple'' (map var_child vars)
      | Extent (SetAST elements) \<Rightarrow> visit_value a ast ''value:set'' elements
      | Collection (DictAST entries consistent t) \<Rightarrow>
          visit_value a ast ''value:dict'' (concat (map (\<lambda>e. [fst e, snd e]) entries))
      | Wave (FallbackAST p alt) \<Rightarrow> visit_value a ast ''value:fallback'' [p, alt]
      | Selector (GuardSelectorAST base x) \<Rightarrow> visit_value a ast ''value:guard'' [base, x]
      | Selector (EqProbeAST base v) \<Rightarrow> visit_value a ast ''value:eq_probe'' [base, v]
      | Wave (WaveMergeAST x t f) \<Rightarrow> visit_value a ast ''value:wave_merge'' [x, t, f]
      | Wave (WaveDispatchAST x t f) \<Rightarrow> visit_value a ast ''value:wave_dispatch'' [x, t, f]
      | _ \<Rightarrow> visit_statement a ast c)"

primrec visit :: "styio_ast \<Rightarrow> visitor" where
  "visit NullAST = (\<lambda>ctx b. Some (None, b))"
| "visit (Ast a c) = visit_expression a (Ast a c) (map_ast_class (\<lambda>x. (x, visit x)) c)"

subsection \<open>Finalizing\<close>

text \<open>Two accesses in conflict: the six conditions of the nested loop, in its order.\<close>

definition conflict :: "builder \<Rightarrow> resource_access \<Rightarrow> resource_access \<Rightarrow> bool" where
  "conflict b x y \<longleftrightarrow>
     ac_resource x = ac_resource y
     \<and> (ac_exclusive x \<or> ac_exclusive y)
     \<and> ac_owner x \<noteq> ac_owner y
     \<and> ac_owner x \<in> b_unordered b \<and> ac_owner y \<in> b_unordered b
     \<and> \<not> (happens_before b (ac_owner x) (ac_owner y) \<or> happens_before b (ac_owner y) (ac_owner x))"

definition report_conflict :: "resource_access \<Rightarrow> resource_access \<Rightarrow> builder \<Rightarrow> builder option" where
  "report_conflict x y b =
     do {
       n \<leftarrow> node b (ac_resource x);
       Some (report_error
               (''unordered exclusive resource borrow: '' @ n_label n @ '' via '' @ ac_label x @ '' and '' @ ac_label y)
               (if ac_source x \<noteq> None then ac_source x else ac_source y) b)
     }"

fun check_against :: "resource_access \<Rightarrow> resource_access list \<Rightarrow> builder \<Rightarrow> builder option" where
  "check_against x [] b = Some b"
| "check_against x (y # ys) b =
     do {
       b \<leftarrow> (if conflict b x y then report_conflict x y b else Some b);
       check_against x ys b
     }"

fun check_accesses :: "resource_access list \<Rightarrow> builder \<Rightarrow> builder option" where
  "check_accesses [] b = Some b"
| "check_accesses (x # xs) b = do { b \<leftarrow> check_against x xs b; check_accesses xs b }"

definition scope_drop_nodes :: "builder \<Rightarrow> nat list" where
  "scope_drop_nodes b =
     map n_id (filter (\<lambda>n. has_capability (n_caps n) Cap_Close \<and> n_id n \<notin> b_destroyed b)
       (rev (g_nodes (b_graph b))))"

definition drop_at_scope_exit :: "builder \<Rightarrow> builder" where
  "drop_at_scope_exit b =
     (let drops = scope_drop_nodes b in
      if drops = [] then b
      else
        let (sink, b) = graph_add_node NK_Sink ''@()'' Cap_None State_Closed None b in
        fold (\<lambda>i b. add_edge EK_Commit (Some i) (Some sink) ''scope-exit-drop-commit''
                (add_edge EK_Mutation (Some i) (Some sink) ''scope-exit-drop'' b)) drops b)"

definition close_owner_count :: "top_edge list \<Rightarrow> nat \<Rightarrow> nat" where
  "close_owner_count edges i = length (filter (\<lambda>e. ed_kind e = EK_Ownership \<and> ed_to e = i) edges)"

definition check_close_owners :: "builder \<Rightarrow> builder" where
  "check_close_owners b =
     fold (\<lambda>n r. if has_capability (n_caps n) Cap_Close \<and> close_owner_count (g_edges (b_graph b)) (n_id n) = 0
                 then report_error (''close-capable resource has no owner: '' @ n_label n) (n_source n) r
                 else r)
       (g_nodes (b_graph b)) b"

definition finalize :: "builder \<Rightarrow> builder option" where
  "finalize b =
     do {
       b \<leftarrow> check_accesses (b_accesses b) b;
       let b = drop_at_scope_exit b;
       Some (if opt_require_close_owner (b_options b) then check_close_owners b else b)
     }"

subsection \<open>Building and validating\<close>

definition build_main :: "(nat \<times> styio_ast list) option \<Rightarrow> build_options \<Rightarrow> builder option" where
  "build_main ast options =
     (let (program, b) = graph_add_node NK_Program ''program'' Cap_None State_Ready
            (map_option fst ast) (new_builder options) in
      case ast of
        None \<Rightarrow> Some (report_error ''main block is null'' None b)
      | Some (a, stmts) \<Rightarrow>
          do {
            b \<leftarrow> visit_list (map (\<lambda>s. (s, visit s)) stmts) (Context (Some program) False True) b;
            finalize b
          })"

definition build_block :: "(nat \<times> styio_ast list) option \<Rightarrow> build_options \<Rightarrow> builder option" where
  "build_block ast options =
     (let (block, b) = graph_add_node NK_StreamOp ''block'' Cap_None State_Ready
            (map_option fst ast) (new_builder options) in
      case ast of
        None \<Rightarrow> Some (report_error ''block is null'' None b)
      | Some (a, stmts) \<Rightarrow>
          do {
            b \<leftarrow> visit_list (map (\<lambda>s. (s, visit s)) stmts) (Context (Some block) False False) b;
            finalize b
          })"

text \<open>The exceptions of \<open>validate_or_throw\<close>; a run that ends normally gives \<open>Inr ()\<close>.\<close>

datatype validation_exception = StyioTypeError string | OutOfRange

definition throw_unless_ok :: "builder option \<Rightarrow> validation_exception + unit" where
  "throw_unless_ok r =
     (case r of
        None \<Rightarrow> Inl OutOfRange
      | Some b \<Rightarrow> if b_errors b = [] then Inr () else Inl (StyioTypeError (report_message (b_errors b))))"

definition validate_or_throw_main :: "(nat \<times> styio_ast list) option \<Rightarrow> string \<Rightarrow> validation_exception + unit" where
  "validate_or_throw_main ast phase =
     throw_unless_ok (build_main ast (default_options\<lparr>opt_phase := phase\<rparr>))"

definition validate_or_throw_block :: "(nat \<times> styio_ast list) option \<Rightarrow> string \<Rightarrow> validation_exception + unit" where
  "validate_or_throw_block ast phase =
     throw_unless_ok (build_block ast (default_options\<lparr>opt_phase := phase\<rparr>))"

end
