(* ===== verification/Styio_TopologyFacts.thy ===== *)
theory Styio_TopologyFacts
  imports Styio_Topology
begin

text \<open>
  The builder of the resource topology never loses its footing: whatever the tree, every index it
  stores or returns is that of a node, no call throws, and the graph and the report only grow.
  One rule per operation of the visitor (\<open>gives\<close>, \<open>goes\<close>) lets the proofs follow the code.
\<close>

subsection \<open>The invariant\<close>

abbreviation node_total :: "builder \<Rightarrow> nat" where
  "node_total b \<equiv> length (g_nodes (b_graph b))"

definition below :: "nat \<Rightarrow> nat option \<Rightarrow> bool" where
  "below n i \<longleftrightarrow> (\<forall>k. i = Some k \<longrightarrow> k < n)"

definition graph_ok :: "graph \<Rightarrow> bool" where
  "graph_ok g \<longleftrightarrow>
     (\<forall>i < length (g_nodes g). n_id (g_nodes g ! i) = i)
     \<and> (\<forall>e \<in> set (g_edges g). ed_from e < length (g_nodes g) \<and> ed_to e < length (g_nodes g))"

text \<open>Every index the builder holds is that of a node.\<close>

definition topo_inv :: "builder \<Rightarrow> bool" where
  "topo_inv b \<longleftrightarrow>
     graph_ok (b_graph b) \<and> 0 < node_total b
     \<and> (\<forall>x. below (node_total b) (map_of (b_ast_nodes b) x)) \<and> (\<forall>x. below (node_total b) (map_of (b_binding_nodes b) x))
     \<and> (\<forall>x. below (node_total b) (map_of (b_handle_bindings b) x)) \<and> (\<forall>x. below (node_total b) (map_of (b_resource_nodes b) x))
     \<and> (\<forall>x. below (node_total b) (map_of (b_state_slots b) x)) \<and> (\<forall>x. below (node_total b) (map_of (b_task_bindings b) x))
     \<and> (\<forall>x. below (node_total b) (map_of (b_block_bindings b) x))
     \<and> (\<forall>x \<in> set (b_accesses b). ac_resource x < node_total b \<and> ac_owner x < node_total b)"

text \<open>The graph and the report only grow.\<close>

definition grows :: "builder \<Rightarrow> builder \<Rightarrow> bool" where
  "grows b b' \<longleftrightarrow>
     b_options b' = b_options b
     \<and> (\<exists>ns. g_nodes (b_graph b') = g_nodes (b_graph b) @ ns)
     \<and> (\<exists>es. g_edges (b_graph b') = g_edges (b_graph b) @ es)
     \<and> (\<exists>rs. b_errors b' = b_errors b @ rs)
     \<and> (\<exists>xs. b_accesses b' = b_accesses b @ xs)
     \<and> b_destroyed b \<subseteq> b_destroyed b' \<and> b_unordered b \<subseteq> b_unordered b'"

definition built_from :: "builder \<Rightarrow> builder \<Rightarrow> bool" where
  "built_from b0 b \<longleftrightarrow> topo_inv b \<and> grows b0 b"

definition gives :: "builder \<Rightarrow> ('a \<times> builder) option \<Rightarrow> (nat \<Rightarrow> 'a \<Rightarrow> bool) \<Rightarrow> bool" where
  "gives b0 r A \<longleftrightarrow> (\<exists>x b. r = Some (x, b) \<and> built_from b0 b \<and> A (node_total b) x)"

definition goes :: "builder \<Rightarrow> builder option \<Rightarrow> bool" where
  "goes b0 r \<longleftrightarrow> (\<exists>b. r = Some b \<and> built_from b0 b)"

text \<open>A visitor returns, the builder grows, and the node it returns exists.\<close>

definition sound_visitor :: "visitor \<Rightarrow> bool" where
  "sound_visitor f \<longleftrightarrow>
     (\<forall>ctx b. topo_inv b \<longrightarrow> below (node_total b) (ctx_owner ctx) \<longrightarrow> gives b (f ctx b) below)"

named_theorems topo_facts "how the operations of the builder preserve its invariant"

lemma below_simps [simp]: "below n None" "below n (Some i) \<longleftrightarrow> i < n"
  by (simp_all add: below_def)

lemma below_mono: "below n i \<Longrightarrow> n \<le> m \<Longrightarrow> below m i"
  by (cases i) auto

lemma grows_total: "grows b b' \<Longrightarrow> node_total b \<le> node_total b'"
  by (auto simp: grows_def)

lemma grows_refl [simp]: "grows b b" by (simp add: grows_def)

lemma grows_trans [trans]: "grows b b' \<Longrightarrow> grows b' b'' \<Longrightarrow> grows b b''"
  by (auto simp: grows_def)

lemma built_fromI:
  "built_from b0 b \<Longrightarrow> (topo_inv b \<Longrightarrow> topo_inv b') \<Longrightarrow> grows b b' \<Longrightarrow> built_from b0 b'"
  unfolding built_from_def using grows_trans by blast

lemma built_from_refl: "topo_inv b \<Longrightarrow> built_from b b"
  by (simp add: built_from_def)

subsection \<open>Pure updates\<close>

lemma node_total_simps [simp]:
  "node_total (report_error m s b) = node_total b"
  "node_total (add_edge k i j l b) = node_total b"
  "node_total (record_binding nm i t b) = node_total b"
  "node_total (record_access r ow ex s l b) = node_total b"
  by (auto simp: report_error_def add_edge_def g_add_edge_def record_binding_def record_access_def
      split: option.splits)

lemma built_report_error [topo_facts]: "built_from b0 b \<Longrightarrow> built_from b0 (report_error m s b)"
  by (erule built_fromI) (auto simp: built_from_def topo_inv_def grows_def report_error_def)

lemma built_add_edge [topo_facts]:
  assumes "built_from b0 b" "below (node_total b) i" "below (node_total b) j"
  shows "built_from b0 (add_edge k i j l b)"
  using assms(1)
proof (rule built_fromI)
  show "topo_inv (add_edge k i j l b)"
    using assms by (auto simp: built_from_def topo_inv_def add_edge_def g_add_edge_def graph_ok_def split: option.splits)
  show "grows b (add_edge k i j l b)"
    by (auto simp: grows_def add_edge_def g_add_edge_def split: option.splits)
qed

lemma built_record_binding [topo_facts]:
  "built_from b0 b \<Longrightarrow> below (node_total b) i \<Longrightarrow> built_from b0 (record_binding nm i t b)"
  by (erule built_fromI) (auto simp: built_from_def topo_inv_def grows_def record_binding_def split: option.splits)

lemma built_record_access [topo_facts]:
  assumes "built_from b0 b" "below (node_total b) r" "below (node_total b) ow"
  shows "built_from b0 (record_access r ow ex s l b)"
  using assms(1)
proof (rule built_fromI)
  show "topo_inv (record_access r ow ex s l b)"
    using assms by (auto simp: built_from_def topo_inv_def record_access_def split: option.splits)
  show "grows b (record_access r ow ex s l b)"
    by (auto simp: grows_def record_access_def split: option.splits)
qed

lemma built_field_updates [topo_facts]:
  "built_from b0 b \<Longrightarrow> built_from b0 (b\<lparr>b_resource_methods := tab\<rparr>)"
  "built_from b0 b \<Longrightarrow> i < node_total b \<Longrightarrow> built_from b0 (b\<lparr>b_handle_bindings := (nm, i) # b_handle_bindings b\<rparr>)"
  "built_from b0 b \<Longrightarrow> i < node_total b \<Longrightarrow> built_from b0 (b\<lparr>b_resource_nodes := (nm, i) # b_resource_nodes b\<rparr>)"
  "built_from b0 b \<Longrightarrow> i < node_total b \<Longrightarrow> built_from b0 (b\<lparr>b_state_slots := (nm, i) # b_state_slots b\<rparr>)"
  "built_from b0 b \<Longrightarrow> i < node_total b \<Longrightarrow>
     built_from b0 (b\<lparr>b_task_bindings := (nm, i) # b_task_bindings b, b_unordered := insert i (b_unordered b)\<rparr>)"
  "built_from b0 b \<Longrightarrow> i < node_total b \<Longrightarrow>
     built_from b0 (b\<lparr>b_block_bindings := (nm, i) # b_block_bindings b, b_unordered := insert i (b_unordered b)\<rparr>)"
  "built_from b0 b \<Longrightarrow> built_from b0 (b\<lparr>b_destroyed := insert i (b_destroyed b)\<rparr>)"
  by (auto intro!: built_fromI [of b0 b] simp: topo_inv_def grows_def)

lemma built_graph_add_node:
  assumes "built_from b0 b" "graph_add_node k l c s src b = (i, b')"
  shows "built_from b0 b'" "i < node_total b'" "node_total b \<le> node_total b'" "i = node_total b"
proof -
  have eq: "i = node_total b" "g_nodes (b_graph b') = g_nodes (b_graph b) @
      [\<lparr> n_id = node_total b, n_kind = k, n_label = l, n_caps = c, n_state = s, n_source = src \<rparr>]"
    "b' = b\<lparr>b_graph := (b_graph b)\<lparr>g_nodes := g_nodes (b_graph b')\<rparr>\<rparr>"
    using assms(2) by (auto simp: graph_add_node_def g_add_node_def Let_def)
  show "i = node_total b" "i < node_total b'" "node_total b \<le> node_total b'" using eq by auto
  have inv: "topo_inv b" using assms(1) by (simp add: built_from_def)
  have "graph_ok (b_graph b')"
    using inv eq(2) by (subst eq(3)) (auto simp: topo_inv_def graph_ok_def nth_append less_Suc_eq)
  moreover have "b_ast_nodes b' = b_ast_nodes b \<and> b_binding_nodes b' = b_binding_nodes b
      \<and> b_handle_bindings b' = b_handle_bindings b \<and> b_resource_nodes b' = b_resource_nodes b
      \<and> b_state_slots b' = b_state_slots b \<and> b_task_bindings b' = b_task_bindings b
      \<and> b_block_bindings b' = b_block_bindings b \<and> b_accesses b' = b_accesses b"
    by (subst (1 2 3 4 5 6 7 8) eq(3)) simp
  ultimately have "topo_inv b'"
    using inv eq(2) by (auto simp: topo_inv_def intro: below_mono less_SucI)
  moreover have "grows b b'"
    by (subst eq(3)) (simp add: grows_def eq(2))
  ultimately show "built_from b0 b'" using assms(1) built_fromI by blast
qed

subsection \<open>Rules for the monad\<close>

lemma gives_done: "built_from b0 b \<Longrightarrow> A (node_total b) x \<Longrightarrow> gives b0 (Some (x, b)) A"
  by (auto simp: gives_def)

lemma goes_done: "built_from b0 b \<Longrightarrow> goes b0 (Some b)"
  by (simp add: goes_def)

lemma goes_bind:
  assumes "built_from b0 b" "goes b m"
    and "\<And>b'. built_from b0 b' \<Longrightarrow> node_total b \<le> node_total b' \<Longrightarrow> goes b0 (f b')"
  shows "goes b0 (Option.bind m f)"
  using assms by (auto simp: goes_def) (meson built_fromI built_from_def grows_total)

lemma gives_bind:
  assumes "built_from b0 b" "goes b m"
    and "\<And>b'. built_from b0 b' \<Longrightarrow> node_total b \<le> node_total b' \<Longrightarrow> gives b0 (f b') A"
  shows "gives b0 (Option.bind m f) A"
  using assms by (auto simp: goes_def) (meson built_fromI built_from_def grows_total)

lemma sound_visitorD:
  assumes "sound_visitor g" "built_from b0 b" "below (node_total b) (ctx_owner ctx)"
  obtains r b' where "g ctx b = Some (r, b')" "built_from b0 b'" "node_total b \<le> node_total b'"
    "below (node_total b') r"
proof -
  from assms have "gives b (g ctx b) below" by (auto simp: sound_visitor_def built_from_def)
  then obtain r b' where "g ctx b = Some (r, b')" "built_from b b'" "below (node_total b') r"
    by (auto simp: gives_def)
  then show thesis using that assms(2) by (meson built_fromI built_from_def grows_total)
qed

lemma gives_visit:
  assumes "sound_visitor g" "built_from b0 b" "below (node_total b) (ctx_owner ctx)"
    and "\<And>r b'. built_from b0 b' \<Longrightarrow> node_total b \<le> node_total b' \<Longrightarrow> below (node_total b') r
      \<Longrightarrow> gives b0 (f r b') A"
  shows "gives b0 (Option.bind (g ctx b) (\<lambda>(r, b'). f r b')) A"
proof -
  from assms(1-3) obtain r b' where "g ctx b = Some (r, b')" "built_from b0 b'" "node_total b \<le> node_total b'"
    "below (node_total b') r" by (rule sound_visitorD)
  then show ?thesis using assms(4) by simp
qed

lemma goes_visit:
  assumes "sound_visitor g" "built_from b0 b" "below (node_total b) (ctx_owner ctx)"
    and "\<And>r b'. built_from b0 b' \<Longrightarrow> node_total b \<le> node_total b' \<Longrightarrow> below (node_total b') r
      \<Longrightarrow> goes b0 (f r b')"
  shows "goes b0 (Option.bind (g ctx b) (\<lambda>(r, b'). f r b'))"
proof -
  from assms(1-3) obtain r b' where "g ctx b = Some (r, b')" "built_from b0 b'" "node_total b \<le> node_total b'"
    "below (node_total b') r" by (rule sound_visitorD)
  then show ?thesis using assms(4) by simp
qed

lemma gives_tail:
  assumes "sound_visitor g" "built_from b0 b" "below (node_total b) (ctx_owner ctx)"
  shows "gives b0 (g ctx b) below"
  using assms by (metis sound_visitorD gives_def)

lemma sound_visitorI:
  assumes "\<And>ctx b0 b. built_from b0 b \<Longrightarrow> below (node_total b) (ctx_owner ctx) \<Longrightarrow> gives b0 (f ctx b) below"
  shows "sound_visitor f"
  using assms built_from_refl by (auto simp: sound_visitor_def)

subsection \<open>Rules for new nodes\<close>

lemma gives_graph_node:
  assumes "built_from b0 b"
    and "\<And>i b'. built_from b0 b' \<Longrightarrow> node_total b \<le> node_total b' \<Longrightarrow> i < node_total b' \<Longrightarrow> gives b0 (f i b') A"
  shows "gives b0 (case graph_add_node k l c s src b of (i, b') \<Rightarrow> f i b') A"
  using assms built_graph_add_node [OF assms(1)] by (auto split: prod.split)

lemma built_add_ast_node:
  assumes "built_from b0 b" "below (node_total b) (ctx_owner ctx)" "add_ast_node a k l c s ctx b = (i, b')"
  shows "built_from b0 b'" "i < node_total b'" "node_total b \<le> node_total b'"
proof -
  have "built_from b0 b' \<and> i < node_total b' \<and> node_total b \<le> node_total b'"
  proof (cases "map_of (b_ast_nodes b) a")
    case (Some j)
    then have "below (node_total b) (Some j)" using assms(1) unfolding built_from_def topo_inv_def by metis
    then show ?thesis using assms Some by (simp add: add_ast_node_def)
  next
    case None
    obtain j b1 where j: "graph_add_node k l c s (Some a) b = (j, b1)" by (cases "graph_add_node k l c s (Some a) b")
    note b1 = built_graph_add_node [OF assms(1) j]
    let ?b2 = "b1\<lparr>b_ast_nodes := (a, j) # b_ast_nodes b1\<rparr>"
    have b2: "built_from b0 ?b2"
      using b1 by (auto intro!: built_fromI [of b0 b1] simp: topo_inv_def grows_def)
    have "below (node_total b1) (ctx_owner ctx)" using assms(2) b1 below_mono by blast
    then show ?thesis
      using assms(3) None j b1 b2 by (auto simp: add_ast_node_def Let_def intro!: topo_facts split: if_splits)
  qed
  then show "built_from b0 b'" "i < node_total b'" "node_total b \<le> node_total b'" by auto
qed

lemma gives_node:
  assumes "built_from b0 b" "below (node_total b) (ctx_owner ctx)"
    and "\<And>i b'. built_from b0 b' \<Longrightarrow> node_total b \<le> node_total b' \<Longrightarrow> i < node_total b' \<Longrightarrow> gives b0 (f i b') A"
  shows "gives b0 (case add_ast_node a k l c s ctx b of (i, b') \<Rightarrow> f i b') A"
  using assms built_add_ast_node [OF assms(1,2)] by (auto split: prod.split)

lemma gives_value:
  assumes "built_from b0 b" "below (node_total b) (ctx_owner ctx)"
    and "\<And>i b'. built_from b0 b' \<Longrightarrow> node_total b \<le> node_total b' \<Longrightarrow> i < node_total b' \<Longrightarrow> gives b0 (f i b') A"
  shows "gives b0 (case add_value a ast l ctx b of (i, b') \<Rightarrow> f i b') A"
  using assms by (auto simp: add_value_def Let_def intro!: gives_node)

lemma node_total_pos: "built_from b0 b \<Longrightarrow> i < node_total b \<Longrightarrow> \<exists>n. node b i = Some n \<and> n_id n = i"
  by (auto simp: node_def g_node_def built_from_def topo_inv_def graph_ok_def)

lemma goes_require_cap: "topo_inv b \<Longrightarrow> below (node_total b) i \<Longrightarrow> goes b (require_cap i cap msg src b)"
  using node_total_pos [OF built_from_refl]
  by (cases i) (auto simp: require_cap_def goes_def intro!: topo_facts built_from_refl, fastforce intro!: topo_facts built_from_refl)

lemma goes_own_if_close:
  "topo_inv b \<Longrightarrow> below (node_total b) i \<Longrightarrow> below (node_total b) j \<Longrightarrow> goes b (own_if_close i j b)"
  using node_total_pos [OF built_from_refl]
  by (cases i; cases j) (auto simp: own_if_close_def goes_def intro!: topo_facts built_from_refl,
      fastforce intro!: topo_facts built_from_refl)

subsection \<open>Lists of children\<close>

lemma fold_bind_None: "fold (\<lambda>c r. Option.bind r (f c)) cs None = None"
  by (induction cs) auto

lemma visit_list_simps [simp]:
  "visit_list [] ctx b = Some b"
  "visit_list (c # cs) ctx b = do { (i, b) \<leftarrow> snd c ctx b; visit_list cs ctx b }"
  by (auto simp: visit_list_def fold_bind_None split: bind_split)

lemma visit_linked_simps [simp]:
  "visit_linked link [] ctx b = Some b"
  "visit_linked link (c # cs) ctx b =
     do { (i, b) \<leftarrow> snd c ctx b; visit_linked link cs ctx (case i of None \<Rightarrow> b | Some n \<Rightarrow> link n b) }"
  by (auto simp: visit_linked_def fold_bind_None split: bind_split)

lemma goes_visit_list:
  "\<forall>c \<in> set cs. sound_visitor (snd c) \<Longrightarrow> built_from b0 b \<Longrightarrow> below (node_total b) (ctx_owner ctx)
    \<Longrightarrow> goes b0 (visit_list cs ctx b)"
proof (induction cs arbitrary: b)
  case (Cons c cs)
  show ?case
    unfolding visit_list_simps
  proof (rule goes_visit)
    fix r b' assume b': "built_from b0 b'" "node_total b \<le> node_total b'" "below (node_total b') r"
    have "below (node_total b') (ctx_owner ctx)" using Cons.prems(3) b'(2) by (rule below_mono)
    then show "goes b0 (visit_list cs ctx b')" using Cons b' by auto
  qed (use Cons.prems in auto)
qed (simp add: goes_done)

lemma goes_visit_linked:
  assumes link: "\<And>n b. built_from b0 b \<Longrightarrow> n < node_total b \<Longrightarrow> N \<le> node_total b \<Longrightarrow>
    built_from b0 (link n b) \<and> node_total b \<le> node_total (link n b)"
  shows "\<forall>c \<in> set cs. sound_visitor (snd c) \<Longrightarrow> built_from b0 b \<Longrightarrow> below (node_total b) (ctx_owner ctx)
    \<Longrightarrow> N \<le> node_total b \<Longrightarrow> goes b0 (visit_linked link cs ctx b)"
proof (induction cs arbitrary: b)
  case (Cons c cs)
  show ?case
    unfolding visit_linked_simps
  proof (rule goes_visit)
    fix r b' assume b': "built_from b0 b'" "node_total b \<le> node_total b'" "below (node_total b') r"
    let ?b = "case r of None \<Rightarrow> b' | Some n \<Rightarrow> link n b'"
    have "built_from b0 ?b \<and> node_total b' \<le> node_total ?b"
      using b' Cons.prems(4) link [of b'] by (cases r) auto
    then show "goes b0 (visit_linked link cs ctx ?b)"
      using Cons.prems b' by (intro Cons.IH) (auto intro: below_mono)
  qed (use Cons.prems in auto)
qed (simp add: goes_done)

lemma built_self: "built_from b0 b \<Longrightarrow> topo_inv b"
  by (simp add: built_from_def)

lemma gives_visit_list:
  assumes "\<forall>c \<in> set cs. sound_visitor (snd c)" "built_from b0 b" "below (node_total b) (ctx_owner ctx)"
    and "\<And>b'. built_from b0 b' \<Longrightarrow> node_total b \<le> node_total b' \<Longrightarrow> gives b0 (f b') A"
  shows "gives b0 (Option.bind (visit_list cs ctx b) f) A"
  using assms goes_visit_list [OF assms(1) built_from_refl [OF built_self [OF assms(2)]] assms(3)]
  by (auto intro: gives_bind)

lemma gives_require_cap:
  assumes "built_from b0 b" "below (node_total b) i"
    and "\<And>b'. built_from b0 b' \<Longrightarrow> node_total b \<le> node_total b' \<Longrightarrow> gives b0 (f b') A"
  shows "gives b0 (Option.bind (require_cap i cap msg src b) f) A"
  using assms goes_require_cap [OF built_self [OF assms(1)] assms(2)] by (auto intro: gives_bind)

lemma gives_own_if_close:
  assumes "built_from b0 b" "below (node_total b) i" "below (node_total b) j"
    and "\<And>b'. built_from b0 b' \<Longrightarrow> node_total b \<le> node_total b' \<Longrightarrow> gives b0 (f b') A"
  shows "gives b0 (Option.bind (own_if_close i j b) f) A"
  using assms goes_own_if_close [OF built_self [OF assms(1)] assms(2,3)] by (auto intro: gives_bind)

lemmas visitor_rules =
  gives_done gives_node gives_value gives_graph_node gives_visit gives_visit_list
  gives_require_cap gives_own_if_close topo_facts

subsection \<open>Every visitor is sound\<close>

named_theorems visitor_sound

lemma sound_file [visitor_sound]: "sound_visitor (visit_file_resource a f)"
  by (rule sound_visitorI) (auto simp: visit_file_resource_def intro!: visitor_rules)

lemma sound_std_stream [visitor_sound]: "sound_visitor (visit_std_stream a k)"
  by (rule sound_visitorI) (auto simp: visit_std_stream_def Let_def intro!: visitor_rules)

lemma sound_empty_resource [visitor_sound]: "sound_visitor (visit_empty_resource a)"
  by (rule sound_visitorI) (auto simp: visit_empty_resource_def intro!: visitor_rules)

lemma sound_receiver [visitor_sound]: "sound_visitor (visit_receiver a fam)"
  by (rule sound_visitorI) (auto simp: visit_receiver_def Let_def intro!: visitor_rules)

lemma sound_value [visitor_sound]:
  "\<forall>c \<in> set cs. sound_visitor (snd c) \<Longrightarrow> sound_visitor (visit_value a ast l cs)"
  by (rule sound_visitorI) (auto simp: visit_value_def Let_def intro!: visitor_rules)

lemma sound_method_def [visitor_sound]:
  "sound_visitor (snd body) \<Longrightarrow> sound_visitor (visit_method_def a fam nm p n body)"
  by (rule sound_visitorI) (auto simp: visit_method_def_def Let_def intro!: visitor_rules)

lemma sound_execution_node: "sound_visitor (snd p) \<Longrightarrow> sound_visitor (execution_node p)"
proof (rule sound_visitorI)
  fix ctx b0 b assume p: "sound_visitor (snd p)" and b: "built_from b0 b" "below (node_total b) (ctx_owner ctx)"
  have "below (node_total b) (named_execution_node b (fst p))"
    using b(1) by (auto simp: named_execution_node_def built_from_def topo_inv_def split: option.splits) (metis below_simps(2))+
  then show "gives b0 (execution_node p ctx b) below"
    using b p by (auto simp: execution_node_def intro!: gives_done gives_tail split: option.splits)
qed

lemma sound_order [visitor_sound]:
  assumes "sound_visitor (snd p)" "sound_visitor (snd q)"
  shows "sound_visitor (visit_order p q)"
proof (rule sound_visitorI)
  fix ctx b0 b assume "built_from b0 b" "below (node_total b) (ctx_owner ctx)"
  then show "gives b0 (visit_order p q ctx b) below"
    unfolding visit_order_def
    using assms
    by (auto intro!: gives_visit [OF sound_execution_node] gives_done topo_facts intro: below_mono)
qed

lemma sound_block [visitor_sound]:
  "\<forall>c \<in> set (blk_stmts blk). sound_visitor (snd c) \<Longrightarrow> \<forall>c \<in> set (blk_followings blk). sound_visitor (snd c)
    \<Longrightarrow> sound_visitor (visit_block a blk)"
  by (rule sound_visitorI) (auto simp: visit_block_def Let_def intro!: visitor_rules)

lemma built_decl_slot:
  assumes "built_from b0 b" "below (node_total b) (ctx_owner ctx)" "decl_slot a ctx slot (r, b) = (r', b')"
  shows "built_from b0 b' \<and> node_total b \<le> node_total b' \<and> below (node_total b') r'"
proof -
  let ?t = "styio_normalize_resource_decl_type (obj_val (snd slot))"
  obtain i b1 where i: "add_ast_node a NK_StateSlot (''resource:@'' @ obj_val (fst slot))
      (capabilities_from_type ?t) State_Declared ctx b = (i, b1)" by (metis surj_pair)
  from built_add_ast_node [OF assms(1,2) i] i assms(3) show ?thesis
    by (auto simp: decl_slot_def Let_def intro!: topo_facts)
qed

lemma built_decl_slots:
  "built_from b0 b \<Longrightarrow> below (node_total b) (ctx_owner ctx) \<Longrightarrow> below (node_total b) r
    \<Longrightarrow> fold (decl_slot a ctx) slots (r, b) = (r', b')
    \<Longrightarrow> built_from b0 b' \<and> node_total b \<le> node_total b' \<and> below (node_total b') r'"
proof (induction slots arbitrary: r b)
  case (Cons s slots)
  obtain r1 b1 where s: "decl_slot a ctx s (r, b) = (r1, b1)" by (cases "decl_slot a ctx s (r, b)")
  note 1 = built_decl_slot [OF Cons.prems(1,2) s]
  then have "below (node_total b1) (ctx_owner ctx)" using Cons.prems(2) below_mono by blast
  from Cons.IH [of b1 r1] this 1 Cons.prems(4) s show ?case by auto
qed auto

lemma gives_decl_slots:
  assumes "built_from b0 b" "below (node_total b) (ctx_owner ctx)"
    and "\<And>r b'. built_from b0 b' \<Longrightarrow> node_total b \<le> node_total b' \<Longrightarrow> below (node_total b') r \<Longrightarrow> gives b0 (f r b') A"
  shows "gives b0 (case fold (decl_slot a ctx) slots (None, b) of (r, b') \<Rightarrow> f r b') A"
  using assms(3) built_decl_slots [OF assms(1,2), of None] by (auto split: prod.split)

lemma sound_resource_decl [visitor_sound]:
  assumes "\<And>d. driver = Some d \<Longrightarrow> sound_visitor (visit_block (obj_addr d) (obj_val d))"
  shows "sound_visitor (visit_resource_decl a slots driver)"
proof (rule sound_visitorI)
  fix ctx b0 b assume b: "built_from b0 b" "below (node_total b) (ctx_owner ctx)"
  show "gives b0 (visit_resource_decl a slots driver ctx b) below"
    unfolding visit_resource_decl_def Let_def
  proof (rule gives_decl_slots)
    fix r b' assume b': "built_from b0 b'" "node_total (if ctx_top_level ctx then b
        else report_error ''resource declarations are top-level only'' (Some a) b) \<le> node_total b'"
      "below (node_total b') r"
    then have "below (node_total b') (ctx_owner ctx)" using b(2) below_mono by (auto split: if_splits)
    then show "gives b0 (case driver of None \<Rightarrow> Some (r, b') | Some d \<Rightarrow>
        Option.bind (visit_block (obj_addr d) (obj_val d)
          (Context (if r = None then ctx_owner ctx else r) (ctx_in_state_decl ctx) False) b') (\<lambda>(j, b). Some (r, b))) below"
      using b' assms by (auto intro!: gives_visit gives_done split: option.splits intro: below_mono)
  qed (use b in \<open>auto intro!: topo_facts\<close>)
qed

lemma sound_resource_ref [visitor_sound]: "sound_visitor (visit_resource_ref a ast nm sel)"
proof (rule sound_visitorI)
  fix ctx b0 b assume b: "built_from b0 b" "below (node_total b) (ctx_owner ctx)"
  then have "below (node_total b) (map_of (b_resource_nodes b) nm)" by (simp add: built_from_def topo_inv_def)
  with b show "gives b0 (visit_resource_ref a ast nm sel ctx b) below"
    by (auto simp: visit_resource_ref_def Let_def intro!: visitor_rules split: option.splits intro: below_mono)
qed

lemma sound_name [visitor_sound]: "sound_visitor (visit_name a ast nm)"
proof (rule sound_visitorI)
  fix ctx b0 b assume b: "built_from b0 b" "below (node_total b) (ctx_owner ctx)"
  then have "below (node_total b) (map_of (b_handle_bindings b) nm)" "below (node_total b) (map_of (b_state_slots b) nm)"
    "below (node_total b) (map_of (b_task_bindings b) nm)" "below (node_total b) (map_of (b_binding_nodes b) nm)"
    by (simp_all add: built_from_def topo_inv_def)
  with b show "gives b0 (visit_name a ast nm ctx b) below"
    by (auto simp: visit_name_def Let_def intro!: visitor_rules split: option.splits)
qed

lemma detached_owner [simp]: "ctx_owner (detached ctx) = None"
  by (simp add: detached_def)

lemma sound_visitorI2:
  assumes "\<And>st tp b0 b. built_from b0 b \<Longrightarrow> gives b0 (f (Context None st tp) b) below"
    and "\<And>k st tp b0 b. built_from b0 b \<Longrightarrow> k < node_total b \<Longrightarrow> gives b0 (f (Context (Some k) st tp) b) below"
  shows "sound_visitor f"
proof (rule sound_visitorI)
  fix ctx b0 b assume "built_from b0 b" "below (node_total b) (ctx_owner ctx)"
  then show "gives b0 (f ctx b) below"
    using assms by (cases ctx; cases "ctx_owner ctx") auto
qed

lemma sound_acquire [visitor_sound]:
  assumes "sound_visitor (snd r)"
  shows "sound_visitor (visit_acquire a v r m)"
  using assms
  by (intro sound_visitorI2) (auto simp: visit_acquire_def Let_def intro!: visitor_rules intro: below_mono)

lemma sound_sink_write [visitor_sound]:
  assumes "sound_visitor (snd d)" "sound_visitor (snd r)"
  shows "sound_visitor (visit_resource_sink_write a d r w)"
  using assms
  by (intro sound_visitorI2)
    (auto simp: visit_resource_sink_write_def Let_def intro!: visitor_rules intro: below_mono)

lemma sound_collect [visitor_sound]:
  assumes "sound_visitor (snd r)"
  shows "sound_visitor (visit_collect_stdin a nm r)"
  using assms
  by (intro sound_visitorI2) (auto simp: visit_collect_stdin_def Let_def intro!: visitor_rules intro: below_mono)

lemma sound_write [visitor_sound]:
  assumes "sound_visitor (snd d)" "sound_visitor (snd r)"
  shows "sound_visitor (visit_write a d r)"
  using sound_collect [OF assms(2)] sound_sink_write [OF assms]
  by (auto simp: visit_write_def sound_visitor_def split: option.splits)

lemma sound_destroy:
  assumes "sound_visitor (snd d)" "is_empty_resource (fst r)"
  shows "sound_visitor (visit_redirect a d r)"
  using assms
  by (intro sound_visitorI2)
    (auto simp: visit_redirect_def Let_def intro!: visitor_rules split: option.splits intro: below_mono)

lemma sound_redirect [visitor_sound]:
  assumes "sound_visitor (snd d)" "sound_visitor (snd r)"
  shows "sound_visitor (visit_redirect a d r)"
proof (cases "is_empty_resource (fst r)")
  case True
  with assms show ?thesis by (intro sound_destroy)
next
  case False
  have "sound_visitor (\<lambda>ctx b. visit_resource_sink_write a d r redirect_words ctx b)"
    using sound_sink_write [OF assms] by simp
  with False show ?thesis unfolding visit_redirect_def by simp
qed

unbundle bit_operations_syntax


lemma goes_draw_from:
  "topo_inv b \<Longrightarrow> op < node_total b \<Longrightarrow> below (node_total b) coll \<Longrightarrow> below (node_total b) ow
    \<Longrightarrow> goes b (draw_from a op coll ow l p b)"
proof (cases coll)
  case (Some c)
  assume a: "topo_inv b" "op < node_total b" "below (node_total b) coll" "below (node_total b) ow"
  let ?b = "record_access coll ow False (Some a) l (add_edge EK_Backpressure (Some op) coll p (add_edge EK_Flow coll (Some op) l b))"
  have "built_from b ?b"
    using a by (auto intro!: topo_facts built_from_refl)
  moreover have "goes ?b (own_if_close (Some op) coll ?b)"
    using a calculation by (intro goes_own_if_close) (auto simp: built_from_def)
  ultimately show ?thesis
    using Some by (auto simp: draw_from_def goes_def Let_def) (meson built_fromI built_from_def)
qed (simp add: draw_from_def goes_done built_from_refl)

lemma gives_draw_from:
  assumes "built_from b0 b" "op < node_total b" "below (node_total b) coll" "below (node_total b) ow"
    and "\<And>b'. built_from b0 b' \<Longrightarrow> node_total b \<le> node_total b' \<Longrightarrow> gives b0 (f b') A"
  shows "gives b0 (Option.bind (draw_from a op coll ow l p b) f) A"
  using assms goes_draw_from [OF built_self [OF assms(1)] assms(2-4)] by (auto intro: gives_bind)

lemma gives_linked:
  assumes "\<forall>c \<in> set cs. sound_visitor (snd c)" "built_from b0 b" "below (node_total b) (ctx_owner ctx)"
    and "N \<le> node_total b"
    and "\<And>b0 n b. built_from b0 b \<Longrightarrow> n < node_total b \<Longrightarrow> N \<le> node_total b \<Longrightarrow>
      built_from b0 (link n b) \<and> node_total b \<le> node_total (link n b)"
    and "\<And>b'. built_from b0 b' \<Longrightarrow> node_total b \<le> node_total b' \<Longrightarrow> gives b0 (f b') A"
  shows "gives b0 (Option.bind (visit_linked link cs ctx b) f) A"
proof -
  have "goes b (visit_linked link cs ctx b)"
    using assms by (intro goes_visit_linked [where N = N]) (auto intro: built_from_refl built_self)
  with assms show ?thesis by (auto intro: gives_bind)
qed

lemma gives_linked_out:
  assumes "\<forall>c \<in> set cs. sound_visitor (snd c)" "built_from b0 b" "op < node_total b"
    and "\<And>b'. built_from b0 b' \<Longrightarrow> node_total b \<le> node_total b' \<Longrightarrow> gives b0 (f b') A"
  shows "gives b0 (Option.bind (visit_linked (\<lambda>n. add_edge k (Some op) (Some n) l) cs (Context (Some op) st tp) b) f) A"
  using assms by (intro gives_linked [where N = "Suc op"]) (auto intro!: topo_facts)

lemma gives_linked_in:
  assumes "\<forall>c \<in> set cs. sound_visitor (snd c)" "built_from b0 b" "op < node_total b"
    and "\<And>b'. built_from b0 b' \<Longrightarrow> node_total b \<le> node_total b' \<Longrightarrow> gives b0 (f b') A"
  shows "gives b0 (Option.bind (visit_linked (\<lambda>n. add_edge k (Some n) (Some op) l) cs (Context (Some op) st tp) b) f) A"
  using assms by (intro gives_linked [where N = "Suc op"]) (auto intro!: topo_facts)

lemmas stream_rules = visitor_rules gives_draw_from gives_linked_out gives_linked_in

lemma sound_iterator [visitor_sound]:
  assumes "sound_visitor (snd c)" "\<forall>c \<in> set fs. sound_visitor (snd c)"
  shows "sound_visitor (visit_iterator a c fs)"
  using assms
  by (intro sound_visitorI2) (auto simp: visit_iterator_def Let_def intro!: stream_rules intro: below_mono)

lemma sound_zip [visitor_sound]:
  assumes "sound_visitor (snd c)" "sound_visitor (snd d)" "\<forall>c \<in> set fs. sound_visitor (snd c)"
  shows "sound_visitor (visit_zip a c d fs)"
  using assms
  by (intro sound_visitorI2) (auto simp: visit_zip_def Let_def intro!: stream_rules intro: below_mono)

lemma sound_snapshot [visitor_sound]: "sound_visitor (visit_snapshot a nm f)"
  using sound_file
  by (intro sound_visitorI2) (auto simp: visit_snapshot_def Let_def intro!: visitor_rules intro: below_mono)

lemma sound_instant_pull [visitor_sound]:
  assumes "sound_visitor (snd r)"
  shows "sound_visitor (visit_instant_pull a r)"
  using assms
  by (intro sound_visitorI2) (auto simp: visit_instant_pull_def Let_def intro!: visitor_rules intro: below_mono)

lemma sound_series [visitor_sound]:
  assumes "sound_visitor (snd x)" "sound_visitor (snd w)"
  shows "sound_visitor (visit_series a x w)"
  using assms
  by (intro sound_visitorI2)
    (auto simp: visit_series_def Let_def intro!: visitor_rules split: option.splits intro: below_mono)

lemma sound_task_block [visitor_sound]:
  assumes "sound_visitor (visit_block (obj_addr blk) (obj_val blk))"
  shows "sound_visitor (visit_task_block a blk)"
  using assms
  by (intro sound_visitorI2) (auto simp: visit_task_block_def Let_def intro!: visitor_rules intro: below_mono)

lemma sound_task_group [visitor_sound]:
  "\<forall>c \<in> set es. sound_visitor (snd c) \<Longrightarrow> sound_visitor (visit_task_group a es)"
  by (intro sound_visitorI2) (auto simp: visit_task_group_def Let_def intro!: visitor_rules)

lemma sound_flow_bind [visitor_sound]:
  assumes "sound_visitor (snd s)"
  shows "sound_visitor (visit_flow_bind a s nm)"
  using assms
  by (intro sound_visitorI2) (auto simp: visit_flow_bind_def Let_def intro!: visitor_rules intro: below_mono)

lemma sound_print [visitor_sound]:
  "\<forall>c \<in> set es. sound_visitor (snd c) \<Longrightarrow> sound_visitor (visit_print a es)"
  by (intro sound_visitorI2) (auto simp: visit_print_def Let_def intro!: stream_rules)

lemma gives_child:
  "sound_visitor (snd c) \<Longrightarrow> built_from b0 b \<Longrightarrow> below (node_total b) (ctx_owner ctx) \<Longrightarrow> gives b0 (snd c ctx b) below"
  by (rule gives_tail)

lemma sound_var [visitor_sound]:
  "sound_visitor (snd (val_init v)) \<Longrightarrow> sound_visitor (visit_var a ast v)"
  by (intro sound_visitorI2) (auto simp: visit_var_def intro!: visitor_rules gives_child)

lemma built_task_handle [topo_facts]:
  "built_from b0 b \<Longrightarrow> i < node_total b \<Longrightarrow>
     built_from b0 (b\<lparr>b_task_bindings := (nm, i) # b_task_bindings b, b_unordered := insert i (b_unordered b),
       b_handle_bindings := (nm, i) # b_handle_bindings b\<rparr>)"
  "built_from b0 b \<Longrightarrow> i < node_total b \<Longrightarrow>
     built_from b0 (b\<lparr>b_block_bindings := (nm, i) # b_block_bindings b, b_unordered := insert i (b_unordered b),
       b_handle_bindings := (nm, i) # b_handle_bindings b\<rparr>)"
  by (auto intro!: built_fromI [of b0 b] simp: topo_inv_def grows_def)

lemma gives_bind_execution:
  assumes "built_from b0 b" "below (node_total b) v"
    and "\<And>b'. built_from b0 b' \<Longrightarrow> node_total b \<le> node_total b' \<Longrightarrow> gives b0 (f b') A"
  shows "gives b0 (Option.bind (bind_execution nm v b) f) A"
proof (cases v)
  case (Some i)
  then obtain n where n: "node b i = Some n" using node_total_pos assms by fastforce
  from assms Some n show ?thesis
    by (auto simp: bind_execution_def Let_def intro!: assms(3) topo_facts)
qed (use assms in \<open>simp add: bind_execution_def\<close>)

lemma sound_bind [visitor_sound]:
  assumes "sound_visitor (snd r)"
  shows "sound_visitor (visit_bind a nm t r l)"
  using assms
  by (intro sound_visitorI2)
    (auto simp: visit_bind_def Let_def intro!: visitor_rules gives_bind_execution intro: below_mono)

lemma sound_flex_bind [visitor_sound]: "sound_visitor (snd r) \<Longrightarrow> sound_visitor (visit_flex_bind a v r)"
  by (simp add: visit_flex_bind_def sound_bind)

lemma sound_final_bind [visitor_sound]: "sound_visitor (snd r) \<Longrightarrow> sound_visitor (visit_final_bind a v r)"
  by (simp add: visit_final_bind_def sound_bind)

lemma gives_parallel:
  "\<forall>c \<in> set cs. sound_visitor (snd c) \<Longrightarrow> built_from b0 b \<Longrightarrow> below (node_total b) (ctx_owner ctx)
    \<Longrightarrow> below (node_total b) i
    \<Longrightarrow> gives b0 (fold (\<lambda>c r. do { (i, b) \<leftarrow> r; snd c ctx b }) cs (Some (i, b))) below"
proof (induction cs arbitrary: i b)
  case (Cons c cs)
  then have c: "sound_visitor (snd c)" by simp
  obtain r b' where "snd c ctx b = Some (r, b')" "built_from b0 b'" "node_total b \<le> node_total b'"
    "below (node_total b') r"
    using sound_visitorD [OF c Cons.prems(2,3)] .
  with Cons show ?case by (auto intro: below_mono)
qed (simp add: gives_done)

lemma sound_parallel [visitor_sound]:
  "\<forall>c \<in> set cs. sound_visitor (snd c) \<Longrightarrow> sound_visitor (visit_parallel cs)"
  by (rule sound_visitorI) (simp add: visit_parallel_def gives_parallel)

lemma built_state_window:
  assumes "built_from b0 b" "i < node_total b"
  shows "built_from b0 (state_window i w b)" "node_total b \<le> node_total (state_window i w b)"
proof -
  let ?b = "if int_ast_positive (obj_val w) then b
    else report_error ''state window must be a positive integer'' (Some (obj_addr w)) b"
  obtain j b1 where j: "graph_add_node NK_HiddenLedger ''hidden-ledger:window'' (Cap_StateRead OR Cap_StateWrite)
      State_Ready (Some (obj_addr w)) ?b = (j, b1)" by (metis surj_pair)
  have b: "built_from b0 ?b" "node_total ?b = node_total b" using assms by (auto intro: topo_facts)
  note n = built_graph_add_node [OF b(1) j]
  then show "built_from b0 (state_window i w b)" "node_total b \<le> node_total (state_window i w b)"
    using assms b j by (auto simp: state_window_def Let_def intro!: topo_facts split: if_splits)
qed

lemma built_option_update:
  assumes "built_from b0 b" "\<And>x b. built_from b0 b \<Longrightarrow> i < node_total b \<Longrightarrow> built_from b0 (f x b) \<and> node_total b \<le> node_total (f x b)"
    "i < node_total b"
  shows "built_from b0 (case ox of None \<Rightarrow> b | Some x \<Rightarrow> f x b) \<and> i < node_total (case ox of None \<Rightarrow> b | Some x \<Rightarrow> f x b)"
  using assms by (cases ox) (auto intro: less_le_trans)

lemma sound_state_decl [visitor_sound]:
  assumes "sound_visitor (snd init)" "sound_visitor (snd update)"
  shows "sound_visitor (visit_state_decl a w an init ev update)"
proof (rule sound_visitorI)
  fix ctx b0 b assume b: "built_from b0 b" "below (node_total b) (ctx_owner ctx)"
  show "gives b0 (visit_state_decl a w an init ev update ctx b) below"
    unfolding visit_state_decl_def Let_def
  proof (rule gives_node [OF b])
    fix i b1 assume b1: "built_from b0 b1" "i < node_total b1"
    let ?b2 = "case ev of None \<Rightarrow> b1 | Some v \<Rightarrow> b1\<lparr>b_state_slots := (getNameAsStr v, i) # b_state_slots b1\<rparr>"
    let ?b3 = "case an of None \<Rightarrow> ?b2 | Some n \<Rightarrow> ?b2\<lparr>b_state_slots := (obj_val n, i) # b_state_slots ?b2\<rparr>"
    let ?b4 = "case w of None \<Rightarrow> ?b3 | Some w \<Rightarrow> state_window i w ?b3"
    have 2: "built_from b0 ?b2 \<and> i < node_total ?b2"
      by (rule built_option_update [OF b1(1) _ b1(2)]) (intro conjI built_field_updates, simp_all)
    have 3: "built_from b0 ?b3 \<and> i < node_total ?b3"
      using 2 by (intro built_option_update conjI built_field_updates) simp_all
    have 4: "built_from b0 ?b4 \<and> i < node_total ?b4"
      using 3 by (intro built_option_update) (auto intro: topo_facts built_state_window)
    have rest: "gives b0 (Option.bind (snd update (Context (Some i) True False) b5)
        (\<lambda>(u, b). Some (Some i, add_edge EK_Mutation (Some i) u ''state-update'' b))) below"
      if "built_from b0 b5" "i < node_total b5" for b5
      using that assms by (auto intro!: visitor_rules)
    show "gives b0 (Option.bind (if fst init = NullAST then Some ?b4
          else Option.bind (snd init (Context (Some i) True False) ?b4)
                 (\<lambda>(x, b). Some (add_edge EK_Flow x (Some i) ''state-init'' b)))
        (\<lambda>b. Option.bind (snd update (Context (Some i) True False) b)
           (\<lambda>(u, b). Some (Some i, add_edge EK_Mutation (Some i) u ''state-update'' b)))) below"
    proof (cases "fst init = NullAST")
      case True
      then show ?thesis using rest 4 by simp
    next
      case False
      obtain x b5 where "snd init (Context (Some i) True False) ?b4 = Some (x, b5)" "built_from b0 b5"
          "node_total ?b4 \<le> node_total b5" "below (node_total b5) x"
        using sound_visitorD [OF assms(1), of b0 ?b4 "Context (Some i) True False"] 4 by auto
      then show ?thesis using False rest 4 by (auto intro!: rest topo_facts)
    qed
  qed
qed

lemma built_method_effect:
  assumes "built_from b0 b" "i < node_total b" "r < node_total b" "below (node_total b) (ctx_owner ctx)"
  shows "built_from b0 (method_effect a i r nm callee ctx b)"
    "node_total (method_effect a i r nm callee ctx b) = node_total b"
  using assms by (auto simp: method_effect_def Let_def intro!: topo_facts)

lemma sound_call [visitor_sound]:
  assumes "sound_visitor (snd callee)" "\<forall>c \<in> set args. sound_visitor (snd c)"
  shows "sound_visitor (visit_call a ast callee nm args)"
proof (rule sound_visitorI)
  fix ctx b0 b assume b: "built_from b0 b" "below (node_total b) (ctx_owner ctx)"
  show "gives b0 (visit_call a ast callee nm args ctx b) below"
    unfolding visit_call_def Let_def
  proof (rule gives_value [OF b])
    fix i b1 assume b1: "built_from b0 b1" "node_total b \<le> node_total b1" "i < node_total b1"
    have ow: "below (node_total b1) (ctx_owner ctx)" using b(2) b1(2) by (rule below_mono)
    let ?ctx = "Context (ctx_owner ctx) (ctx_in_state_decl ctx) False"
    let ?m = "if fst callee = NullAST then Some b1
        else do {
          (receiver, b) \<leftarrow> snd callee ?ctx b1;
          case receiver of
            None \<Rightarrow> Some b
          | Some r \<Rightarrow>
              do {
                n \<leftarrow> node b r;
                Some (if resource_like (n_caps n) then method_effect a i r nm (fst callee) ctx b else b)
              }
        }"
    have "\<exists>b2. ?m = Some b2 \<and> built_from b0 b2 \<and> i < node_total b2"
    proof (cases "fst callee = NullAST")
      case False
      obtain r b2 where b2: "snd callee ?ctx b1 = Some (r, b2)" "built_from b0 b2" "node_total b1 \<le> node_total b2"
          "below (node_total b2) r"
        using sound_visitorD [OF assms(1) b1(1), of ?ctx] ow by auto
      have ow2: "below (node_total b2) (ctx_owner ctx)" using ow b2(3) by (rule below_mono)
      show ?thesis
      proof (cases r)
        case (Some k)
        then obtain n where "node b2 k = Some n" using node_total_pos b2 by fastforce
        with Some False b1 b2 ow2 show ?thesis by (auto simp: built_method_effect)
      qed (use False b1 b2 in auto)
    qed (use b1 in auto)
    then obtain b2 where "?m = Some b2" "built_from b0 b2" "i < node_total b2" by blast
    with assms show "gives b0 (Option.bind ?m (\<lambda>b. do {
        b \<leftarrow> visit_list args (Context (Some i) (ctx_in_state_decl ctx) False) b; Some (Some i, b) })) below"
      by (auto intro!: gives_visit_list gives_done)
  qed
qed

lemma sound_other [visitor_sound]: "sound_visitor (visit_other a ast c)"
  by (rule sound_visitorI) (auto simp: visit_other_def intro!: visitor_rules)

lemma sound_var_child: "sound_visitor (snd (val_init (obj_val v))) \<Longrightarrow> sound_visitor (snd (var_child v))"
  by (simp add: var_child_def Let_def sound_var)

text \<open>All children of a class are visited soundly, so the class is.\<close>

lemmas class_splits =
  names_ast.splits scalar_ast.splits text_ast.splits block_level_ast.splits variable_ast.splits
  convert_ast.splits path_ast.splits tuple_ast.splits collection_ast.splits extent_ast.splits
  binary_ast.splits wave_ast.splits selector_ast.splits call_ast.splits access_ast.splits
  resource_ast.splits method_ast.splits decl_ast.splits bind_ast.splits structure_ast.splits
  handle_ast.splits write_ast.splits pulse_ast.splits state_ast.splits package_ast.splits
  match_ast.splits check_ast.splits forward_ast.splits chain_ast.splits function_ast.splits
  simple_func_ast.splits loop_ast.splits stream_ast.splits task_ast.splits flow_ast.splits

lemma sets_by_fields [simp]:
  "set_object ob = {obj_val ob}"
  "set_block_ast blk = set (blk_stmts blk) \<union> set (blk_followings blk)"
  "set_var_ast v = {val_init v}"
  "set_cond_ast x = {cond_value x, cond_lhs x, cond_rhs x}"
  by (cases ob, simp) (cases blk, simp, cases v, simp, cases x, auto)

lemma sound_statement:
  "\<forall>c \<in> set_ast_class cl. sound_visitor (snd c) \<Longrightarrow> sound_visitor (visit_statement a ast cl)"
  unfolding visit_statement_def
  by (cases cl) (auto intro!: visitor_sound split: class_splits)

lemma sound_dict_value:
  assumes "\<forall>e \<in> set es. sound_visitor (snd (fst e)) \<and> sound_visitor (snd (snd e))"
  shows "sound_visitor (visit_value a ast l (concat (map (\<lambda>e. [fst e, snd e]) es)))"
  by (rule sound_value) (use assms in auto)

lemma sound_expression:
  assumes "\<forall>c \<in> set_ast_class cl. sound_visitor (snd c)"
  shows "sound_visitor (visit_expression a ast cl)"
  using assms sound_statement [OF assms, of a ast]
  unfolding visit_expression_def
  by (cases cl) (auto intro!: sound_dict_value visitor_sound simp: prod_set_defs split: class_splits,
      metis sound_var_child snd_conv)

theorem sound_visit: "sound_visitor (visit ast)"
proof (induction ast)
  case NullAST
  show ?case by (rule sound_visitorI) (auto intro: gives_done)
next
  case (Ast a c)
  have "\<forall>p \<in> set_ast_class (map_ast_class (\<lambda>x. (x, visit x)) c). sound_visitor (snd p)"
    using Ast by (auto simp: ast_class.set_map)
  then show ?case by (simp add: sound_expression)
qed

end
