(* ===== verification/Styio_Accepted.thy ===== *)
theory Styio_Accepted
  imports Styio_TopologyFacts
begin

text \<open>
  What the topology guarantees of a program it accepts: accesses to one resource from blocks that
  may run in any order are ordered by explicit edges when one of them is exclusive, and everything
  that is to be closed has an owner and is dropped at the end of its scope exactly when the program
  has not destroyed it. Building never throws.
\<close>

subsection \<open>The order of executions\<close>

definition hb_rel :: "top_edge list \<Rightarrow> (nat \<times> nat) set" where
  "hb_rel es = {(ed_from e, ed_to e) |e. e \<in> set es \<and> ed_kind e = EK_HappensBefore}"

lemma hb_rel_Cons: "hb_rel (e # es) =
    (if ed_kind e = EK_HappensBefore then insert (ed_from e, ed_to e) (hb_rel es) else hb_rel es)"
  by (auto simp: hb_rel_def)

lemma hb_scan_result:
  "case hb_scan es cur after stack of
     None \<Rightarrow> (cur, after) \<in> hb_rel es
   | Some stack' \<Rightarrow> (cur, after) \<notin> hb_rel es \<and> set stack' = set stack \<union> {y. (cur, y) \<in> hb_rel es}"
proof (induction es arbitrary: stack)
  case (Cons e es)
  show ?case
    using Cons.IH [of stack] Cons.IH [of "ed_to e # stack"]
    by (auto simp: hb_rel_Cons split: option.splits)
qed (simp add: hb_rel_def)

lemma hb_loop_sound: "hb_loop es after stack seen \<Longrightarrow> \<exists>s \<in> set stack. (s, after) \<in> (hb_rel es)\<^sup>+"
proof (induction es after stack seen rule: hb_loop.induct)
  case (2 es after cur stack seen)
  note scan = hb_scan_result [where es = es and cur = cur and after = after and stack = stack]
  show ?case
  proof (cases "cur \<in> seen \<or> hb_scan es cur after stack = None")
    case True
    then show ?thesis using 2 scan by (auto split: if_splits)
  next
    case False
    then obtain stack' where s: "hb_scan es cur after stack = Some stack'" "cur \<notin> seen" by auto
    with 2 obtain t where t: "t \<in> set stack'" "(t, after) \<in> (hb_rel es)\<^sup>+" by auto
    with scan s show ?thesis by (auto intro: trancl_into_trancl2)
  qed
qed simp

lemma hb_loop_complete:
  "\<not> hb_loop es after stack seen \<Longrightarrow>
   \<forall>x \<in> seen. \<forall>y. (x, y) \<in> hb_rel es \<longrightarrow> y \<noteq> after \<and> y \<in> seen \<union> set stack \<Longrightarrow>
   \<forall>x \<in> seen \<union> set stack. (x, after) \<notin> (hb_rel es)\<^sup>+"
proof (induction es after stack seen rule: hb_loop.induct)
  case (1 es after seen)
  have "(x, y) \<in> (hb_rel es)\<^sup>+ \<Longrightarrow> x \<in> seen \<Longrightarrow> y \<in> seen \<and> y \<noteq> after" for x y
    by (induction rule: trancl_induct) (use 1 in auto)
  then show ?case by auto
next
  case (2 es after cur stack seen)
  note scan = hb_scan_result [where es = es and cur = cur and after = after and stack = stack]
  show ?case
  proof (cases "cur \<in> seen")
    case True
    with 2(1) [OF True] 2(3,4) show ?thesis by (auto simp: insert_absorb)
  next
    case False
    then obtain stack' where s: "hb_scan es cur after stack = Some stack'"
      using 2(3) by (auto split: option.splits)
    have "\<forall>x \<in> insert cur seen \<union> set stack'. (x, after) \<notin> (hb_rel es)\<^sup>+"
      using 2(2) [OF False s] 2(3,4) scan s False by auto
    then show ?thesis using scan s by auto
  qed
qed

text \<open>
  C13: The search of happens_before decides reachability along the happens-before edges.
\<close>

theorem happens_before_reachable:
  "happens_before b x y \<longleftrightarrow> (x, y) \<in> (hb_rel (g_edges (b_graph b)))\<^sup>*"
  using hb_loop_sound [of "g_edges (b_graph b)" y "[x]" "{}"]
    hb_loop_complete [of "g_edges (b_graph b)" y "[x]" "{}"]
  by (auto simp: happens_before_def rtrancl_eq_or_trancl)

subsection \<open>Conflicting accesses\<close>

lemma happens_before_graph: "b_graph b' = b_graph b \<Longrightarrow> happens_before b' = happens_before b"
  by (intro ext) (simp add: happens_before_def)

lemma conflict_cong: "b_graph b' = b_graph b \<Longrightarrow> b_unordered b' = b_unordered b \<Longrightarrow> conflict b' = conflict b"
  by (intro ext) (simp add: conflict_def happens_before_def)

lemma conflict_sym: "conflict b x y \<longleftrightarrow> conflict b y x"
  by (auto simp: conflict_def)

lemma conflict_irrefl [simp]: "\<not> conflict b x x"
  by (simp add: conflict_def)

fun pairs :: "'a list \<Rightarrow> ('a \<times> 'a) list" where
  "pairs [] = []"
| "pairs (x # xs) = map (Pair x) xs @ pairs xs"

lemma pairs_complete: "x \<in> set xs \<Longrightarrow> y \<in> set xs \<Longrightarrow> x \<noteq> y \<Longrightarrow> (x, y) \<in> set (pairs xs) \<or> (y, x) \<in> set (pairs xs)"
  by (induction xs) auto

lemma pairs_sub: "p \<in> set (pairs xs) \<Longrightarrow> fst p \<in> set xs \<and> snd p \<in> set xs"
  by (induction xs) auto

text \<open>The report of a conflict.\<close>

definition borrow_error :: "builder \<Rightarrow> resource_access \<times> resource_access \<Rightarrow> validation_error" where
  "borrow_error b p =
     (case p of (x, y) \<Rightarrow>
        \<lparr> ve_message = opt_phase (b_options b) @ '': '' @ ''unordered exclusive resource borrow: ''
            @ n_label (g_nodes (b_graph b) ! ac_resource x) @ '' via '' @ ac_label x @ '' and '' @ ac_label y,
          ve_source = (if ac_source x \<noteq> None then ac_source x else ac_source y) \<rparr>)"

definition with_errors :: "validation_error list \<Rightarrow> builder \<Rightarrow> builder" where
  "with_errors es b = b\<lparr>b_errors := b_errors b @ es\<rparr>"

lemma with_errors_simps [simp]:
  "b_graph (with_errors es b) = b_graph b" "b_unordered (with_errors es b) = b_unordered b"
  "b_options (with_errors es b) = b_options b" "b_errors (with_errors es b) = b_errors b @ es"
  "b_destroyed (with_errors es b) = b_destroyed b" "b_accesses (with_errors es b) = b_accesses b"
  "with_errors [] b = b" "with_errors es (with_errors es' b) = with_errors (es' @ es) b"
  "borrow_error (with_errors es b) = borrow_error b"
  by (simp_all add: with_errors_def borrow_error_def fun_eq_iff)

lemma conflict_with_errors [simp]: "conflict (with_errors es b) = conflict b"
  by (rule conflict_cong) simp_all

lemma check_against_eq:
  "ac_resource x < node_total b \<Longrightarrow>
   check_against x ys b = Some (with_errors (map (borrow_error b) (filter (\<lambda>(x, y). conflict b x y) (map (Pair x) ys))) b)"
proof (induction ys arbitrary: b)
  case (Cons y ys)
  have "report_conflict x y b = Some (with_errors [borrow_error b (x, y)] b)"
    using Cons.prems
    by (simp add: report_conflict_def node_def g_node_def report_error_def with_errors_def borrow_error_def)
  with Cons show ?case by simp
qed simp

lemma check_accesses_eq:
  "\<forall>x \<in> set xs. ac_resource x < node_total b \<Longrightarrow>
   check_accesses xs b = Some (with_errors (map (borrow_error b) (filter (\<lambda>(x, y). conflict b x y) (pairs xs))) b)"
proof (induction xs arbitrary: b)
  case (Cons x xs)
  then show ?case by (simp add: check_against_eq)
qed simp

subsection \<open>The end of a build\<close>

lemma fold_report_error:
  "fold (\<lambda>n r. if P n then report_error (msg n) (n_source n) r else r) ns r =
   with_errors (map (\<lambda>n. \<lparr> ve_message = opt_phase (b_options r) @ '': '' @ msg n, ve_source = n_source n \<rparr>)
     (filter P ns)) r"
  by (induction ns arbitrary: r) (simp_all add: report_error_def with_errors_def)

lemma check_close_owners_eq:
  "check_close_owners b =
     with_errors (map (\<lambda>n. \<lparr> ve_message = opt_phase (b_options b) @ '': ''
           @ ''close-capable resource has no owner: '' @ n_label n, ve_source = n_source n \<rparr>)
       (filter (\<lambda>n. has_capability (n_caps n) Cap_Close \<and> close_owner_count (g_edges (b_graph b)) (n_id n) = 0)
          (g_nodes (b_graph b)))) b"
  unfolding check_close_owners_def by (rule fold_report_error)

definition drop_edges :: "nat \<Rightarrow> nat \<Rightarrow> top_edge list" where
  "drop_edges sink i =
     [\<lparr> ed_kind = EK_Mutation, ed_from = i, ed_to = sink, ed_label = ''scope-exit-drop'' \<rparr>,
      \<lparr> ed_kind = EK_Commit, ed_from = i, ed_to = sink, ed_label = ''scope-exit-drop-commit'' \<rparr>]"

lemma drop_fold:
  "fold (\<lambda>i b. add_edge EK_Commit (Some i) (Some sink) ''scope-exit-drop-commit''
       (add_edge EK_Mutation (Some i) (Some sink) ''scope-exit-drop'' b)) is b =
   b\<lparr>b_graph := (b_graph b)\<lparr>g_edges := g_edges (b_graph b) @ concat (map (drop_edges sink) is)\<rparr>\<rparr>"
  by (induction "is" arbitrary: b) (simp_all add: add_edge_def g_add_edge_def drop_edges_def)

lemma drop_at_scope_exit_graph:
  assumes "graph_ok (b_graph b)"
  shows "\<exists>sink ns. g_nodes (b_graph (drop_at_scope_exit b)) = g_nodes (b_graph b) @ ns
      \<and> g_edges (b_graph (drop_at_scope_exit b)) = g_edges (b_graph b) @ concat (map (drop_edges sink) (scope_drop_nodes b))
      \<and> node_total b \<le> sink \<and> (scope_drop_nodes b \<noteq> [] \<longrightarrow> sink < node_total (drop_at_scope_exit b))
      \<and> (\<forall>n \<in> set ns. n_caps n = Cap_None) \<and> graph_ok (b_graph (drop_at_scope_exit b))"
proof (cases "scope_drop_nodes b = []")
  case True
  then show ?thesis using assms by (auto simp: drop_at_scope_exit_def intro!: exI [of _ "node_total b"])
next
  case False
  have ids: "\<forall>i \<in> set (scope_drop_nodes b). i < node_total b"
    using assms by (auto simp: scope_drop_nodes_def graph_ok_def in_set_conv_nth)
  define b1 where "b1 = snd (graph_add_node NK_Sink ''@()'' Cap_None State_Closed None b)"
  have b1: "graph_add_node NK_Sink ''@()'' Cap_None State_Closed None b = (node_total b, b1)"
    "g_nodes (b_graph b1) = g_nodes (b_graph b) @ [\<lparr> n_id = node_total b, n_kind = NK_Sink, n_label = ''@()'',
       n_caps = Cap_None, n_state = State_Closed, n_source = None \<rparr>]"
    "g_edges (b_graph b1) = g_edges (b_graph b)"
    by (simp_all add: b1_def graph_add_node_def g_add_node_def Let_def)
  have "drop_at_scope_exit b = b1\<lparr>b_graph := (b_graph b1)\<lparr>g_edges := g_edges (b_graph b1)
      @ concat (map (drop_edges (node_total b)) (scope_drop_nodes b))\<rparr>\<rparr>"
    using False b1(1) by (simp add: drop_at_scope_exit_def Let_def drop_fold)
  with b1 ids assms show ?thesis
    by (auto intro!: exI [of _ "node_total b"] simp: graph_ok_def nth_append less_Suc_eq drop_edges_def)
qed

lemma drop_at_scope_exit_rest [simp]:
  "b_errors (drop_at_scope_exit b) = b_errors b" "b_unordered (drop_at_scope_exit b) = b_unordered b"
  "b_options (drop_at_scope_exit b) = b_options b" "b_destroyed (drop_at_scope_exit b) = b_destroyed b"
  "b_accesses (drop_at_scope_exit b) = b_accesses b"
  by (auto simp: drop_at_scope_exit_def Let_def drop_fold graph_add_node_def g_add_node_def split: prod.splits)

text \<open>The visit of all statements of a program, and what finalizing makes of its result.\<close>

definition visit_program :: "nat \<Rightarrow> styio_ast list \<Rightarrow> build_options \<Rightarrow> builder option" where
  "visit_program a stmts options =
     (case graph_add_node NK_Program ''program'' Cap_None State_Ready (Some a) (new_builder options) of
        (program, b) \<Rightarrow> visit_list (map (\<lambda>s. (s, visit s)) stmts) (Context (Some program) False True) b)"

definition conflict_errors :: "builder \<Rightarrow> validation_error list" where
  "conflict_errors b = map (borrow_error b) (filter (\<lambda>(x, y). conflict b x y) (pairs (b_accesses b)))"

definition unowned :: "builder \<Rightarrow> top_node \<Rightarrow> bool" where
  "unowned b n \<longleftrightarrow>
     has_capability (n_caps n) Cap_Close \<and> (\<nexists>e. e \<in> set (g_edges (b_graph b)) \<and> ed_kind e = EK_Ownership \<and> ed_to e = n_id n)"

definition owner_errors :: "builder \<Rightarrow> validation_error list" where
  "owner_errors b =
     (if opt_require_close_owner (b_options b)
      then map (\<lambda>n. \<lparr> ve_message = opt_phase (b_options b) @ '': '' @ ''close-capable resource has no owner: '' @ n_label n,
                      ve_source = n_source n \<rparr>)
             (filter (unowned b) (g_nodes (b_graph b)))
      else [])"

lemma close_owner_count_0:
  "close_owner_count es i = 0 \<longleftrightarrow> (\<nexists>e. e \<in> set es \<and> ed_kind e = EK_Ownership \<and> ed_to e = i)"
  by (auto simp: close_owner_count_def filter_empty_conv)

lemma finalize_eq:
  assumes "topo_inv b"
  shows "finalize b = Some (with_errors (owner_errors (drop_at_scope_exit (with_errors (conflict_errors b) b)))
           (drop_at_scope_exit (with_errors (conflict_errors b) b)))"
proof -
  have "check_accesses (b_accesses b) b = Some (with_errors (conflict_errors b) b)"
    unfolding conflict_errors_def using assms by (intro check_accesses_eq) (auto simp: topo_inv_def)
  then show ?thesis
    by (simp add: finalize_def check_close_owners_eq owner_errors_def close_owner_count_0 unowned_def [abs_def] Let_def)
qed

lemma new_builder_inv:
  assumes "graph_add_node k l c s src (new_builder options) = (i, b)"
  shows "topo_inv b" "i < node_total b" "b_errors b = []" "b_options b = options"
  using assms by (auto simp: graph_add_node_def g_add_node_def new_builder_def topo_inv_def graph_ok_def Let_def)

lemma visit_all_inv:
  assumes "graph_add_node k l c s src (new_builder options) = (i, b)"
  obtains b1 where "visit_list (map (\<lambda>s. (s, visit s)) stmts) (Context (Some i) st tp) b = Some b1"
    "topo_inv b1" "b_options b1 = options"
proof -
  note nb = new_builder_inv [OF assms]
  have "goes b (visit_list (map (\<lambda>s. (s, visit s)) stmts) (Context (Some i) st tp) b)"
    using nb by (intro goes_visit_list) (auto simp: sound_visit built_from_refl)
  then show thesis using that nb by (auto simp: goes_def built_from_def grows_def)
qed

lemma visit_program_inv:
  obtains b1 where "visit_program a stmts options = Some b1" "topo_inv b1" "b_options b1 = options"
proof -
  obtain i b where ib: "graph_add_node NK_Program ''program'' Cap_None State_Ready (Some a) (new_builder options) = (i, b)"
    by (metis surj_pair)
  from visit_all_inv [OF ib, of stmts False True] show thesis
    using that ib unfolding visit_program_def by (metis (no_types, lifting) prod.simps(2))
qed

lemma build_main_eq:
  "build_main (Some (a, stmts)) options = Option.bind (visit_program a stmts options) finalize"
  by (simp add: build_main_def visit_program_def split: prod.split)

subsection \<open>What a build gives\<close>

lemma hb_rel_drop: "hb_rel (es @ concat (map (drop_edges sink) is)) = hb_rel es"
  by (auto simp: hb_rel_def drop_edges_def)



text \<open>
  C11: In an accepted program any two accesses to one resource, at least one of them exclusive,
  made from two different blocks or tasks that are unordered as such, are ordered by happens-before
  edges, and every node that is to be closed has an owner.
\<close>

theorem accepted_ordered:
  assumes "validate_or_throw_main (Some (a, stmts)) phase = Inr ()"
  shows "\<exists>b. build_main (Some (a, stmts)) (default_options\<lparr>opt_phase := phase\<rparr>) = Some b
    \<and> (\<forall>x \<in> set (b_accesses b). \<forall>y \<in> set (b_accesses b).
         ac_resource x = ac_resource y \<and> (ac_exclusive x \<or> ac_exclusive y) \<and> ac_owner x \<noteq> ac_owner y
         \<and> ac_owner x \<in> b_unordered b \<and> ac_owner y \<in> b_unordered b
         \<longrightarrow> (ac_owner x, ac_owner y) \<in> (hb_rel (g_edges (b_graph b)))\<^sup>*
             \<or> (ac_owner y, ac_owner x) \<in> (hb_rel (g_edges (b_graph b)))\<^sup>*)
    \<and> (\<forall>n \<in> set (g_nodes (b_graph b)). has_capability (n_caps n) Cap_Close
         \<longrightarrow> (\<exists>e \<in> set (g_edges (b_graph b)). ed_kind e = EK_Ownership \<and> ed_to e = n_id n))"
proof -
  let ?o = "default_options\<lparr>opt_phase := phase\<rparr>"
  obtain b1 where b1: "visit_program a stmts ?o = Some b1" "topo_inv b1" "b_options b1 = ?o"
    by (rule visit_program_inv)
  let ?d = "drop_at_scope_exit (with_errors (conflict_errors b1) b1)"
  define b where "b = with_errors (owner_errors ?d) ?d"
  have build: "build_main (Some (a, stmts)) ?o = Some b"
    using b1 by (simp add: build_main_eq finalize_eq b_def)
  have "b_errors b = []"
    using assms build by (auto simp: validate_or_throw_main_def throw_unless_ok_def split: if_splits)
  then have none: "conflict_errors b1 = []" "owner_errors ?d = []" by (auto simp: b_def)
  obtain sink where edges: "g_edges (b_graph b) = g_edges (b_graph b1) @ concat (map (drop_edges sink) (scope_drop_nodes b1))"
    using drop_at_scope_exit_graph [of b1] b1(2) none by (auto simp: b_def topo_inv_def)
  have b_eq: "b_accesses b = b_accesses b1" "b_unordered b = b_unordered b1"
    "hb_rel (g_edges (b_graph b)) = hb_rel (g_edges (b_graph b1))"
    by (simp_all add: b_def none) (use edges none in \<open>simp add: b_def hb_rel_drop\<close>)
  have "\<not> conflict b1 x y" if "x \<in> set (b_accesses b1)" "y \<in> set (b_accesses b1)" for x y
  proof (cases "x = y")
    case False
    with that pairs_complete [of x "b_accesses b1" y] none(1) show ?thesis
      unfolding conflict_errors_def by (auto simp: filter_empty_conv conflict_sym)
  qed simp
  then have 1: "\<forall>x \<in> set (b_accesses b). \<forall>y \<in> set (b_accesses b).
         ac_resource x = ac_resource y \<and> (ac_exclusive x \<or> ac_exclusive y) \<and> ac_owner x \<noteq> ac_owner y
         \<and> ac_owner x \<in> b_unordered b \<and> ac_owner y \<in> b_unordered b
         \<longrightarrow> (ac_owner x, ac_owner y) \<in> (hb_rel (g_edges (b_graph b)))\<^sup>*
             \<or> (ac_owner y, ac_owner x) \<in> (hb_rel (g_edges (b_graph b)))\<^sup>*"
    unfolding b_eq conflict_def happens_before_reachable by blast
  have "opt_require_close_owner (b_options ?d)" using b1(3) by (simp add: default_options_def)
  with none(2) have "\<forall>n \<in> set (g_nodes (b_graph b)). \<not> unowned ?d n"
    by (auto simp: owner_errors_def filter_empty_conv b_def)
  then have 2: "\<forall>n \<in> set (g_nodes (b_graph b)). has_capability (n_caps n) Cap_Close
         \<longrightarrow> (\<exists>e \<in> set (g_edges (b_graph b)). ed_kind e = EK_Ownership \<and> ed_to e = n_id n)"
    unfolding b_def unowned_def by auto
  from build 1 2 show ?thesis by blast
qed


subsection \<open>Programs\<close>

text \<open>
  The program of the tests: a log file, and two bodies \<open>t1\<close> and \<open>t2\<close> that each write to it; the body
  is a block or a task.
\<close>

definition name_at :: "nat \<Rightarrow> string \<Rightarrow> styio_ast" where
  "name_at a nm = Ast a (Names (NameAST nm))"

definition var_at :: "nat \<Rightarrow> string \<Rightarrow> styio_ast var_ast object" where
  "var_at a nm = Obj a (MkVar (Obj (a + 1) nm) (Obj (a + 2) undefined_type) NullAST)"

definition bind_at :: "nat \<Rightarrow> string \<Rightarrow> styio_ast \<Rightarrow> styio_ast" where
  "bind_at a nm rhs = Ast a (Bind (FinalBindAST (var_at (a + 1) nm) rhs))"

definition log_file :: styio_ast where
  "log_file = bind_at 10 ''log''
     (Ast 14 (Structure (FileResourceAST (MkFile (Ast 15 (Text (StringAST ''l.txt''))) True))))"

definition write_log :: "nat \<Rightarrow> styio_ast" where
  "write_log a = Ast a (Call (FuncCallAST (name_at (a + 1) ''log'') (Obj (a + 2) ''write'')
     [Ast (a + 3) (Text (StringAST ''a''))]))"

definition block_body :: "nat \<Rightarrow> styio_ast" where
  "block_body a = Ast a (BlockLevel (BlockAST (MkBlock [write_log (a + 1)] [])))"

definition task_body :: "nat \<Rightarrow> styio_ast" where
  "task_body a = Ast a (Task (TaskBlockAST (Obj (a + 5) (MkBlock [write_log (a + 1)] [])) undefined_type))"

definition two_writers :: "(nat \<Rightarrow> styio_ast) \<Rightarrow> styio_ast list" where
  "two_writers body = [log_file, bind_at 20 ''t1'' (body 24), bind_at 40 ''t2'' (body 44)]"

definition in_order :: "styio_ast list" where
  "in_order = two_writers block_body
     @ [Ast 60 (Method (ResourceOrderAST (name_at 61 ''t1'') (name_at 62 ''t2'')))]"

lemma in_order_facts:
  "map_option (\<lambda>b. (map (\<lambda>x. (ac_resource x, ac_owner x, ac_exclusive x)) (b_accesses b), 3 \<in> b_unordered b, 7 \<in> b_unordered b))
     (build_main (Some (0, in_order)) (default_options\<lparr>opt_phase := ''check''\<rparr>))
   = Some ([(1, 3, False), (1, 3, True), (1, 7, False), (1, 7, True)], True, True)"
  by code_simp

lemma in_order_accepted: "validate_or_throw_main (Some (0, in_order)) ''check'' = Inr ()"
  by code_simp

theorem accepted_ordered_witness:
  "\<exists>b. build_main (Some (0, in_order)) (default_options\<lparr>opt_phase := ''check''\<rparr>) = Some b
    \<and> ((3, 7) \<in> (hb_rel (g_edges (b_graph b)))\<^sup>* \<or> (7, 3) \<in> (hb_rel (g_edges (b_graph b)))\<^sup>*)"
proof -
  obtain b where b: "build_main (Some (0, in_order)) (default_options\<lparr>opt_phase := ''check''\<rparr>) = Some b"
    and ord: "\<forall>x \<in> set (b_accesses b). \<forall>y \<in> set (b_accesses b).
         ac_resource x = ac_resource y \<and> (ac_exclusive x \<or> ac_exclusive y) \<and> ac_owner x \<noteq> ac_owner y
         \<and> ac_owner x \<in> b_unordered b \<and> ac_owner y \<in> b_unordered b
         \<longrightarrow> (ac_owner x, ac_owner y) \<in> (hb_rel (g_edges (b_graph b)))\<^sup>*
             \<or> (ac_owner y, ac_owner x) \<in> (hb_rel (g_edges (b_graph b)))\<^sup>*"
    using accepted_ordered [OF in_order_accepted] by blast
  have acc: "map (\<lambda>x. (ac_resource x, ac_owner x, ac_exclusive x)) (b_accesses b)
      = [(1, 3, False), (1, 3, True), (1, 7, False), (1, 7, True)]"
    and un: "3 \<in> b_unordered b" "7 \<in> b_unordered b"
    using in_order_facts by (simp_all add: b)
  have "(1, 3, True) \<in> (\<lambda>x. (ac_resource x, ac_owner x, ac_exclusive x)) ` set (b_accesses b)"
    "(1, 7, True) \<in> (\<lambda>x. (ac_resource x, ac_owner x, ac_exclusive x)) ` set (b_accesses b)"
    using arg_cong [OF acc, of set] by (metis (no_types, lifting) list.set_intros list.set_map)+
  then obtain x y where xy: "x \<in> set (b_accesses b)" "y \<in> set (b_accesses b)"
    and v: "ac_resource x = 1" "ac_owner x = 3" "ac_exclusive x" "ac_resource y = 1" "ac_owner y = 7" by auto
  note bspec [OF bspec [OF ord xy(1)] xy(2)]
  then have "(3, 7) \<in> (hb_rel (g_edges (b_graph b)))\<^sup>* \<or> (7, 3) \<in> (hb_rel (g_edges (b_graph b)))\<^sup>*"
    by (simp add: v un)
  with b show ?thesis by blast
qed


subsection \<open>Declarations with several slots\<close>

lemma decl_slot_again:
  assumes "map_of (b_ast_nodes b) a = Some i"
  shows "\<exists>b'. decl_slot a ctx s (r, b) = (Some i, b') \<and> b_ast_nodes b' = b_ast_nodes b \<and> b_graph b' = b_graph b
    \<and> b_resource_nodes b' = (obj_val (fst s), i) # b_resource_nodes b"
  using assms by (simp add: decl_slot_def add_ast_node_def record_binding_def Let_def)

lemma decl_slots_again:
  "map_of (b_ast_nodes b) a = Some i \<Longrightarrow>
   \<exists>b'. fold (decl_slot a ctx) ss (Some i, b) = (Some i, b') \<and> b_graph b' = b_graph b
     \<and> b_resource_nodes b' = rev (map (\<lambda>s. (obj_val (fst s), i)) ss) @ b_resource_nodes b"
proof (induction ss arbitrary: b)
  case (Cons s ss)
  obtain b1 where b1: "decl_slot a ctx s (Some i, b) = (Some i, b1)" "b_ast_nodes b1 = b_ast_nodes b"
    "b_graph b1 = b_graph b" "b_resource_nodes b1 = (obj_val (fst s), i) # b_resource_nodes b"
    using decl_slot_again [OF Cons.prems, of ctx s "Some i"] by blast
  from Cons.IH [of b1] Cons.prems b1 show ?case by simp
qed simp

lemma map_of_const: "k \<in> set ks \<Longrightarrow> map_of (map (\<lambda>k. (f k, v)) ks @ rest) (f k) = Some v"
  by (induction ks) auto

text \<open>
  A declaration of several resources makes one node, with the label of the first: every declared
  name stands for that same node.
\<close>

theorem slots_share_node:
  assumes "map_of (b_ast_nodes b) a = None" "slot \<in> set (first # rest)"
  shows "\<exists>b'. visit_resource_decl a (first # rest) None ctx b = Some (Some (node_total b), b')
    \<and> node_total b' = node_total b + 1
    \<and> n_label (g_nodes (b_graph b') ! node_total b) = ''resource:@'' @ obj_val (fst first)
    \<and> map_of (b_resource_nodes b') (obj_val (fst slot)) = Some (node_total b)"
proof -
  define b0 where "b0 = (if ctx_top_level ctx then b
    else report_error ''resource declarations are top-level only'' (Some a) b)"
  have b0: "map_of (b_ast_nodes b0) a = None" "b_graph b0 = b_graph b"
    using assms(1) by (simp_all add: b0_def report_error_def)
  obtain b1 where b1: "decl_slot a ctx first (None, b0) = (Some (node_total b), b1)"
    "map_of (b_ast_nodes b1) a = Some (node_total b)" "node_total b1 = node_total b + 1"
    "n_label (g_nodes (b_graph b1) ! node_total b) = ''resource:@'' @ obj_val (fst first)"
    "b_resource_nodes b1 = (obj_val (fst first), node_total b) # b_resource_nodes b0"
    using b0 by (auto simp: decl_slot_def add_ast_node_def graph_add_node_def g_add_node_def add_edge_def
        g_add_edge_def record_binding_def Let_def split: option.splits)
  obtain b2 where b2: "fold (decl_slot a ctx) rest (Some (node_total b), b1) = (Some (node_total b), b2)"
    "b_graph b2 = b_graph b1"
    "b_resource_nodes b2 = rev (map (\<lambda>s. (obj_val (fst s), node_total b)) rest) @ b_resource_nodes b1"
    using decl_slots_again [OF b1(2)] by blast
  have "map_of (b_resource_nodes b2) (obj_val (fst slot)) = Some (node_total b)"
    using assms(2) b1(5) map_of_const [of slot "rev rest @ [first]" "\<lambda>s. obj_val (fst s)" "node_total b" "b_resource_nodes b0"]
    by (simp add: b2(3) rev_map)
  then show ?thesis
    using b1 b2 by (auto simp: visit_resource_decl_def Let_def b0_def [symmetric])
qed

theorem slots_share_node_witness:
  "\<exists>b'. visit_resource_decl 7 [(Obj 8 ''x'', Obj 9 undefined_type), (Obj 10 ''y'', Obj 11 undefined_type)] None
        (Context None False True) (new_builder default_options) = Some (Some 0, b')
    \<and> n_label (g_nodes (b_graph b') ! 0) = ''resource:@x'' \<and> map_of (b_resource_nodes b') ''y'' = Some 0"
  using slots_share_node [of "new_builder default_options" 7 "(Obj 10 ''y'', Obj 11 undefined_type)"
      "(Obj 8 ''x'', Obj 9 undefined_type)" "[(Obj 10 ''y'', Obj 11 undefined_type)]" "Context None False True"]
  by (auto simp: new_builder_def)

end
