(* ===== verification/Styio_Session.thy ===== *)
theory Styio_Session
  imports Styio_Prelude "HOL-Library.Multiset"
begin

text \<open>
  The compilation session (src/src/StyioSession): the arenas its tokens and AST nodes are allocated
  in (SessionAllocation.hpp) and the session that owns what a compilation produces and moves through
  its phases (CompilationSession.hpp). A \<open>std::size_t\<close> is a 64-bit word. A block of memory is named by
  a number that \<open>operator new\<close> takes fresh from the heap, so a pointer into it is that number with an
  offset. An object the session owns is named by a number too, and \<open>delete\<close> is recorded in a log.
\<close>

unbundle bit_operations_syntax

subsection \<open>The arena\<close>

type_synonym size_t = "64 word"
type_synonym pointer = "nat \<times> size_t"

record arena_block =
  blk_data :: nat
  blk_capacity :: size_t
  blk_used :: size_t

record session_arena =
  ar_blocks :: "arena_block list"
  ar_default_block_bytes :: size_t
  ar_bytes_used :: size_t

text \<open>The names of blocks not given out yet start at \<open>hp_next\<close>; the blocks in use are listed.\<close>

record heap =
  hp_next :: nat
  hp_live :: "nat list"

definition operator_new :: "heap \<Rightarrow> nat \<times> heap" where
  "operator_new hp = (hp_next hp, \<lparr> hp_next = Suc (hp_next hp), hp_live = hp_next hp # hp_live hp \<rparr>)"

definition operator_delete :: "nat \<Rightarrow> heap \<Rightarrow> heap" where
  "operator_delete d hp = hp \<lparr> hp_live := remove1 d (hp_live hp) \<rparr>"

text \<open>\<open>alignof(std::max_align_t)\<close> of the 64-bit targets.\<close>

definition kAlignment :: size_t where
  "kAlignment = 16"

definition round_up :: "size_t \<Rightarrow> size_t" where
  "round_up v = (v + (kAlignment - 1)) AND NOT (kAlignment - 1)"

definition new_arena :: "size_t \<Rightarrow> session_arena" where
  "new_arena default_block_bytes =
     \<lparr> ar_blocks = [], ar_default_block_bytes = round_up default_block_bytes, ar_bytes_used = 0 \<rparr>"

definition ensure_block :: "size_t \<Rightarrow> session_arena \<times> heap \<Rightarrow> session_arena \<times> heap" where
  "ensure_block span_bytes st =
     (case st of (ar, hp) \<Rightarrow>
        if ar_blocks ar \<noteq> []
           \<and> blk_capacity (last (ar_blocks ar)) - blk_used (last (ar_blocks ar)) \<ge> span_bytes
        then (ar, hp)
        else
          let capacity = round_up (if span_bytes > ar_default_block_bytes ar then span_bytes
                                   else ar_default_block_bytes ar);
              (d, hp) = operator_new hp in
          (ar \<lparr> ar_blocks := ar_blocks ar @ [\<lparr> blk_data = d, blk_capacity = capacity, blk_used = 0 \<rparr>] \<rparr>, hp))"

definition allocate_span :: "size_t \<Rightarrow> session_arena \<times> heap \<Rightarrow> pointer \<times> session_arena \<times> heap" where
  "allocate_span span_bytes st =
     (let aligned_span = round_up span_bytes;
          (ar, hp) = ensure_block aligned_span st;
          block = last (ar_blocks ar) in
      ((blk_data block, blk_used block),
       ar \<lparr> ar_blocks := butlast (ar_blocks ar) @ [block \<lparr> blk_used := blk_used block + aligned_span \<rparr>],
            ar_bytes_used := ar_bytes_used ar + aligned_span \<rparr>,
       hp))"

definition arena_release :: "session_arena \<times> heap \<Rightarrow> session_arena \<times> heap" where
  "arena_release st =
     (case st of (ar, hp) \<Rightarrow>
        (ar \<lparr> ar_blocks := [], ar_bytes_used := 0 \<rparr>,
         fold (\<lambda>b. operator_delete (blk_data b)) (ar_blocks ar) hp))"

text \<open>Move assignment: the target's blocks are released, the source keeps nothing.\<close>

definition arena_move :: "session_arena \<Rightarrow> session_arena \<times> heap \<Rightarrow> session_arena \<times> session_arena \<times> heap" where
  "arena_move this st =
     (case st of (other, hp) \<Rightarrow>
        (case arena_release (this, hp) of (this, hp) \<Rightarrow>
           (\<lparr> ar_blocks = ar_blocks other, ar_default_block_bytes = ar_default_block_bytes other,
              ar_bytes_used = ar_bytes_used other \<rparr>,
            other \<lparr> ar_blocks := [], ar_bytes_used := 0 \<rparr>, hp)))"

text \<open>A run of allocations, with the pointers it gives.\<close>

fun allocate_all :: "size_t list \<Rightarrow> session_arena \<times> heap \<Rightarrow> (pointer \<times> size_t) list \<times> session_arena \<times> heap" where
  "allocate_all [] st = ([], st)"
| "allocate_all (n # ns) st =
     (let (p, st) = allocate_span n st; (ps, st) = allocate_all ns st in ((p, round_up n) # ps, st))"

subsection \<open>Rounding\<close>

definition size_ok :: "size_t \<Rightarrow> bool" where
  "size_ok n \<longleftrightarrow> n \<le> 0xFFFFFFFFFFFFFFF0"

lemma unat_round_up:
  assumes "size_ok n"
  shows "unat (round_up n) = 16 * ((unat n + 15) div 16)"
proof -
  have le: "unat n \<le> 0xFFFFFFFFFFFFFFF0" using assms by (simp add: size_ok_def word_le_nat_alt)
  have "unat (n + 15) = unat n + 15" using le by (subst unat_add_lem [THEN iffD1]) simp_all
  moreover have "(n + 15) AND NOT 15 = ((n + 15) div 16) * (16::size_t)"
  proof -
    have "(n + 15) AND NOT (mask 4) = push_bit 4 (drop_bit 4 (n + 15))"
      by (simp add: bit_eq_iff bit_simps) (auto simp: le_less_linear)
    then show ?thesis by (simp add: mask_eq_exp_minus_1 push_bit_eq_mult drop_bit_eq_div)
  qed
  moreover have "unat (((n + 15) div 16) * (16::size_t)) = (unat (n + 15) div 16) * 16"
  proof -
    have "unat ((n + 15) div 16) * unat (16::size_t) < 2 ^ 64"
      using unsigned_less [of "n + 15", where ?'a = nat] by (simp add: unat_div)
    then show ?thesis by (subst unat_mult_lem [THEN iffD1]) (simp_all add: unat_div)
  qed
  ultimately show ?thesis by (simp add: round_up_def kAlignment_def mult.commute)
qed

lemma round_up_ge: "size_ok n \<Longrightarrow> n \<le> round_up n"
  by (simp add: word_le_nat_alt unat_round_up)

lemma round_up_dvd: "size_ok n \<Longrightarrow> 16 dvd unat (round_up n)"
  by (simp add: unat_round_up)

lemma round_up_ok: "size_ok n \<Longrightarrow> size_ok (round_up n)"
proof -
  assume n: "size_ok n"
  then have "unat n \<le> 0xFFFFFFFFFFFFFFF0" by (simp add: size_ok_def word_le_nat_alt)
  then have "(unat n + 15) div 16 \<le> 0xFFFFFFFFFFFFFFF" by linarith
  then show ?thesis using n by (simp add: size_ok_def word_le_nat_alt unat_round_up)
qed

lemma round_up_idem: "size_ok n \<Longrightarrow> round_up (round_up n) = round_up n"
  by (rule word_unat_eq_iff [THEN iffD2]) (simp add: unat_round_up round_up_ok)

subsection \<open>What the arena keeps\<close>

definition disjoint_spans :: "pointer \<times> size_t \<Rightarrow> pointer \<times> size_t \<Rightarrow> bool" where
  "disjoint_spans p q \<longleftrightarrow>
     fst (fst p) \<noteq> fst (fst q)
     \<or> unat (snd (fst p)) + unat (snd p) \<le> unat (snd (fst q))
     \<or> unat (snd (fst q)) + unat (snd q) \<le> unat (snd (fst p))"

definition span_in :: "arena_block list \<Rightarrow> pointer \<times> size_t \<Rightarrow> bool" where
  "span_in bs p \<longleftrightarrow>
     (\<exists>b\<in>set bs. blk_data b = fst (fst p) \<and> unat (snd (fst p)) + unat (snd p) \<le> unat (blk_used b))"

definition block_ok :: "arena_block \<Rightarrow> bool" where
  "block_ok b \<longleftrightarrow> blk_used b \<le> blk_capacity b \<and> 16 dvd unat (blk_used b)"

definition arena_inv :: "(pointer \<times> size_t) list \<Rightarrow> session_arena \<times> heap \<Rightarrow> bool" where
  "arena_inv ps st \<longleftrightarrow>
     (\<forall>b\<in>set (ar_blocks (fst st)). block_ok b \<and> blk_data b < hp_next (snd st) \<and> blk_data b \<in> set (hp_live (snd st)))
     \<and> distinct (map blk_data (ar_blocks (fst st)))
     \<and> size_ok (ar_default_block_bytes (fst st))
     \<and> distinct (hp_live (snd st)) \<and> (\<forall>d\<in>set (hp_live (snd st)). d < hp_next (snd st))
     \<and> (\<forall>p\<in>set ps. span_in (ar_blocks (fst st)) p \<and> 16 dvd unat (snd (fst p)))
     \<and> sorted_wrt disjoint_spans ps
     \<and> ar_bytes_used (fst st) = sum_list (map snd ps)"

lemma span_in_append: "span_in bs p \<Longrightarrow> span_in (bs @ cs) p"
  by (auto simp: span_in_def)

lemma ensure_new_block:
  assumes inv: "arena_inv ps (ar, hp)" and c: "size_ok c"
  shows "arena_inv ps
    (ar \<lparr> ar_blocks := ar_blocks ar @ [\<lparr> blk_data = hp_next hp, blk_capacity = c, blk_used = 0 \<rparr>] \<rparr>,
     \<lparr> hp_next = Suc (hp_next hp), hp_live = hp_next hp # hp_live hp \<rparr>)"
proof -
  have old: "\<forall>b\<in>set (ar_blocks ar). block_ok b \<and> blk_data b < hp_next hp \<and> blk_data b \<in> set (hp_live hp)"
    and fresh: "hp_next hp \<notin> blk_data ` set (ar_blocks ar)" "hp_next hp \<notin> set (hp_live hp)"
    using inv by (auto simp: arena_inv_def)
  show ?thesis
    using inv old fresh
    by (auto simp: arena_inv_def block_ok_def intro: span_in_append less_SucI)
qed

lemma ensure_block_spec:
  assumes inv: "arena_inv ps (ar, hp)" and n: "size_ok n"
    and e: "ensure_block n (ar, hp) = (ar', hp')"
  shows "arena_inv ps (ar', hp') \<and> ar_blocks ar' \<noteq> []
    \<and> n \<le> blk_capacity (last (ar_blocks ar')) - blk_used (last (ar_blocks ar'))"
proof (cases "ar_blocks ar \<noteq> []
    \<and> blk_capacity (last (ar_blocks ar)) - blk_used (last (ar_blocks ar)) \<ge> n")
  case True
  with e inv show ?thesis by (simp add: ensure_block_def)
next
  case False
  define w where "w = (if n > ar_default_block_bytes ar then n else ar_default_block_bytes ar)"
  have w: "size_ok w" "n \<le> w" using inv n by (auto simp: w_def arena_inv_def)
  have new: "ar' = ar \<lparr> ar_blocks := ar_blocks ar @ [\<lparr> blk_data = hp_next hp, blk_capacity = round_up w, blk_used = 0 \<rparr>] \<rparr>"
    "hp' = \<lparr> hp_next = Suc (hp_next hp), hp_live = hp_next hp # hp_live hp \<rparr>"
    using e False by (auto simp: ensure_block_def operator_new_def w_def Let_def)
  show ?thesis
    using ensure_new_block [OF inv round_up_ok [OF w(1)]] round_up_ge [OF w(1)] w(2)
    by (simp add: new)
qed

lemma room_left:
  fixes c u n :: size_t
  assumes "u \<le> c" "n \<le> c - u"
  shows "unat (u + n) = unat u + unat n" "u + n \<le> c"
proof -
  have "unat u \<le> unat c" "unat n \<le> unat c - unat u"
    using assms by (simp_all add: word_le_nat_alt unat_sub)
  moreover have "unat c < 2 ^ 64" using unsigned_less [of c, where ?'a = nat] by simp
  ultimately have "unat u + unat n < 2 ^ LENGTH(64)" by simp
  then show s: "unat (u + n) = unat u + unat n" by (rule unat_add_lem [THEN iffD1])
  show "u + n \<le> c" using \<open>unat u \<le> unat c\<close> \<open>unat n \<le> unat c - unat u\<close> by (simp add: word_le_nat_alt s)
qed

lemma allocate_span_inv:
  assumes inv: "arena_inv ps (ar, hp)" and n: "size_ok n"
    and a: "allocate_span n (ar, hp) = (p, ar', hp')"
  shows "arena_inv (ps @ [(p, round_up n)]) (ar', hp')"
proof -
  obtain ar1 hp1 where e: "ensure_block (round_up n) (ar, hp) = (ar1, hp1)"
    by (cases "ensure_block (round_up n) (ar, hp)")
  note i = ensure_block_spec [OF inv round_up_ok [OF n] e]
  define bs b where "bs = butlast (ar_blocks ar1)" and "b = last (ar_blocks ar1)"
  have split: "ar_blocks ar1 = bs @ [b]" using i by (simp add: bs_def b_def)
  have b: "block_ok b" "round_up n \<le> blk_capacity b - blk_used b"
    using i split by (auto simp: arena_inv_def)
  note room = room_left [OF _ b(2)]
  have used: "unat (blk_used b + round_up n) = unat (blk_used b) + unat (round_up n)"
    "blk_used b + round_up n \<le> blk_capacity b"
    using room b(1) by (simp_all add: block_ok_def)
  define b' where "b' = b \<lparr> blk_used := blk_used b + round_up n \<rparr>"
  have b': "block_ok b'" "blk_data b' = blk_data b"
    using used b(1) round_up_dvd [OF n] by (auto simp: block_ok_def b'_def intro: dvd_add)
  have out: "p = (blk_data b, blk_used b)" "hp' = hp1"
    "ar' = ar1 \<lparr> ar_blocks := bs @ [b'], ar_bytes_used := ar_bytes_used ar1 + round_up n \<rparr>"
    using a e by (auto simp: allocate_span_def Let_def bs_def b_def b'_def)
  have more: "span_in (bs @ [b']) q" if "span_in (bs @ [b]) q" for q
    using that used(1) by (auto simp: span_in_def b'_def)
  have apart: "disjoint_spans q (p, round_up n)" if "q \<in> set ps" for q
  proof -
    from i that split have "span_in (bs @ [b]) q" and d: "distinct (map blk_data (bs @ [b]))"
      by (auto simp: arena_inv_def)
    then show ?thesis by (fastforce simp: span_in_def disjoint_spans_def out image_iff)
  qed
  have new: "span_in (bs @ [b']) (p, round_up n)" "16 dvd unat (snd p)"
    using used(1) b(1) by (auto simp: span_in_def out b'_def block_ok_def)
  show ?thesis
    using i split b' more apart new
    by (auto simp: arena_inv_def out sorted_wrt_append)
qed

lemma allocate_all_inv:
  "arena_inv ps st \<Longrightarrow> list_all size_ok ns \<Longrightarrow> allocate_all ns st = (qs, st')
    \<Longrightarrow> arena_inv (ps @ qs) st' \<and> map snd qs = map round_up ns"
proof (induction ns arbitrary: ps st qs st')
  case (Cons n ns)
  obtain p st1 where a: "allocate_span n st = (p, st1)" by (cases "allocate_span n st")
  obtain rs st2 where r: "allocate_all ns st1 = (rs, st2)" by (cases "allocate_all ns st1")
  have "arena_inv (ps @ [(p, round_up n)]) st1"
    using allocate_span_inv [of ps "fst st" "snd st" n p "fst st1" "snd st1"] Cons.prems a by simp
  from Cons.IH [OF this _ r] Cons.prems show ?case using a r by auto
qed simp

lemma new_arena_inv:
  assumes "size_ok d"
  shows "arena_inv [] (new_arena d, \<lparr> hp_next = k, hp_live = [] \<rparr>)"
  using round_up_ok [OF assms] by (simp add: arena_inv_def new_arena_def)

text \<open>C17: However many spans are taken from a session arena, whatever their sizes: each starts at
  an aligned offset and lies inside one of the arena's blocks, none overlaps another, and
  bytes_used is the sum of their rounded sizes. Sizes within 15 bytes of the end of
  std::size_t, which rounding up would turn into 0, are excluded.\<close>

theorem arena_spans_disjoint:
  assumes "size_ok d" "list_all size_ok ns"
    and "allocate_all ns (new_arena d, \<lparr> hp_next = k, hp_live = [] \<rparr>) = (ps, ar, hp)"
  shows "(\<forall>i j. i < j \<longrightarrow> j < length ps \<longrightarrow> disjoint_spans (ps ! i) (ps ! j))
    \<and> (\<forall>i < length ns. snd (ps ! i) = round_up (ns ! i) \<and> ns ! i \<le> round_up (ns ! i))
    \<and> (\<forall>p\<in>set ps. 16 dvd unat (snd (fst p))
           \<and> (\<exists>b\<in>set (ar_blocks ar). blk_data b = fst (fst p) \<and> blk_data b \<in> set (hp_live hp)
                \<and> unat (snd (fst p)) + unat (snd p) \<le> unat (blk_capacity b)))
    \<and> ar_bytes_used ar = sum_list (map round_up ns)"
proof (intro conjI)
  have i: "arena_inv ps (ar, hp)" and m: "map snd ps = map round_up ns"
    using allocate_all_inv [OF new_arena_inv [OF assms(1)] assms(2,3)] by simp_all
  show "\<forall>i j. i < j \<longrightarrow> j < length ps \<longrightarrow> disjoint_spans (ps ! i) (ps ! j)"
    using i by (simp add: arena_inv_def sorted_wrt_iff_nth_less)
  have l: "length ps = length ns" using m by (metis length_map)
  show "\<forall>i < length ns. snd (ps ! i) = round_up (ns ! i) \<and> ns ! i \<le> round_up (ns ! i)"
    using assms(2) round_up_ge l m by (metis list_all_length nth_map)
  show "ar_bytes_used ar = sum_list (map round_up ns)" using i m by (simp add: arena_inv_def)
  show "\<forall>p\<in>set ps. 16 dvd unat (snd (fst p))
           \<and> (\<exists>b\<in>set (ar_blocks ar). blk_data b = fst (fst p) \<and> blk_data b \<in> set (hp_live hp)
                \<and> unat (snd (fst p)) + unat (snd p) \<le> unat (blk_capacity b))"
    using i by (fastforce simp: arena_inv_def span_in_def block_ok_def word_le_nat_alt)
qed

definition sample_spans :: "(pointer \<times> size_t) list \<times> session_arena \<times> heap" where
  "sample_spans = allocate_all [1, 40, 100] (new_arena 64, \<lparr> hp_next = 0, hp_live = [] \<rparr>)"

lemma sample_spans: "map fst (fst sample_spans) = [(0, 0), (0, 16), (1, 0)]"
  by (simp add: sample_spans_def new_arena_def allocate_span_def ensure_block_def operator_new_def
      round_up_def kAlignment_def)

theorem arena_spans_disjoint_witness:
  "disjoint_spans (fst sample_spans ! 0) (fst sample_spans ! 1)"
proof -
  obtain ps ar hp where s: "sample_spans = (ps, ar, hp)" by (cases sample_spans)
  have "length ps = 3" using sample_spans s by (metis fst_conv length_map length_Cons list.size(3) numeral_3_eq_3)
  then show ?thesis
    using arena_spans_disjoint [of 64 "[1, 40, 100]" 0 ps ar hp] s by (simp add: sample_spans_def size_ok_def)
qed

subsection \<open>Objects in an arena\<close>

text \<open>
  Every AST node and token starts with a header that names the arena it was taken from, or none.
  An arena is named by the session it is a member of.
\<close>

datatype arena_ref = AstArena nat | TokenArena nat

record allocation_header =
  hd_arena :: "arena_ref option"
  hd_span_bytes :: size_t

definition header_bytes :: size_t where
  "header_bytes = 16"

record thread_state =
  current_ast_arena :: "arena_ref option"
  current_token_arena :: "arena_ref option"

definition set_current_ast_arena :: "arena_ref option \<Rightarrow> thread_state \<Rightarrow> arena_ref option \<times> thread_state" where
  "set_current_ast_arena a th = (current_ast_arena th, th \<lparr> current_ast_arena := a \<rparr>)"

definition set_current_token_arena :: "arena_ref option \<Rightarrow> thread_state \<Rightarrow> arena_ref option \<times> thread_state" where
  "set_current_token_arena a th = (current_token_arena th, th \<lparr> current_token_arena := a \<rparr>)"

definition ast_arena_active :: "thread_state \<Rightarrow> bool" where
  "ast_arena_active th \<longleftrightarrow> current_ast_arena th \<noteq> None"

definition token_arena_active :: "thread_state \<Rightarrow> bool" where
  "token_arena_active th \<longleftrightarrow> current_token_arena th \<noteq> None"

text \<open>The object's pointer with its header: without an arena the object is a block of its own.\<close>

definition allocate_object :: "(arena_ref \<times> session_arena) option \<Rightarrow> size_t \<Rightarrow> heap
    \<Rightarrow> pointer \<times> allocation_header \<times> session_arena option \<times> heap" where
  "allocate_object arena object_size hp =
     (let span_bytes = header_bytes + object_size in
      case arena of
        Some (r, ar) \<Rightarrow>
          (case allocate_span span_bytes (ar, hp) of
             ((d, off), ar, hp) \<Rightarrow>
               ((d, off + header_bytes), \<lparr> hd_arena = Some r, hd_span_bytes = span_bytes \<rparr>, Some ar, hp))
      | None \<Rightarrow>
          (case operator_new hp of
             (d, hp) \<Rightarrow> ((d, header_bytes), \<lparr> hd_arena = None, hd_span_bytes = span_bytes \<rparr>, None, hp)))"

definition free_object :: "(pointer \<times> allocation_header) option \<Rightarrow> heap \<Rightarrow> heap" where
  "free_object ptr hp =
     (case ptr of
        None \<Rightarrow> hp
      | Some ((d, off), header) \<Rightarrow> if hd_arena header = None then operator_delete d hp else hp)"

lemma free_after_allocate:
  "allocate_object None n hp = (p, hdr, r, hp') \<Longrightarrow> free_object (Some (p, hdr)) hp' = hp \<lparr> hp_next := Suc (hp_next hp) \<rparr>"
  by (auto simp: allocate_object_def operator_new_def free_object_def operator_delete_def)

subsection \<open>The session\<close>

datatype compilation_phase =
    PhaseEmpty | Tokenized | Parsed | Typed | Lowered | CodegenReady | Executed | Failed

fun phase_rank :: "compilation_phase \<Rightarrow> nat" where
  "phase_rank PhaseEmpty = 0"
| "phase_rank Tokenized = 1"
| "phase_rank Parsed = 2"
| "phase_rank Typed = 3"
| "phase_rank Lowered = 4"
| "phase_rank CodegenReady = 5"
| "phase_rank Executed = 6"
| "phase_rank Failed = 7"

fun phase_name :: "compilation_phase \<Rightarrow> string" where
  "phase_name PhaseEmpty = ''Empty''"
| "phase_name Tokenized = ''Tokenized''"
| "phase_name Parsed = ''Parsed''"
| "phase_name Typed = ''Typed''"
| "phase_name Lowered = ''Lowered''"
| "phase_name CodegenReady = ''CodegenReady''"
| "phase_name Executed = ''Executed''"
| "phase_name Failed = ''Failed''"

definition can_transition :: "compilation_phase \<Rightarrow> compilation_phase \<Rightarrow> bool" where
  "can_transition current next_phase =
     (if current = next_phase then True
      else if next_phase = Failed then current \<noteq> PhaseEmpty
      else if current = Failed then False
      else phase_rank next_phase \<ge> phase_rank current)"

text \<open>What the session owns; the log holds the objects deleted so far.\<close>

record session =
  ss_tokens :: "nat list"
  ss_context :: "nat option"
  ss_ast :: "nat option"
  ss_ir :: "nat option"
  ss_ast_arena :: session_arena
  ss_token_arena :: session_arena
  ss_previous_ast_arena :: "arena_ref option"
  ss_previous_token_arena :: "arena_ref option"
  ss_phase :: compilation_phase
  ss_deleted :: "nat list"

text \<open>An operation gives the message of a \<open>std::logic_error\<close>, or none, and the session it leaves.\<close>

type_synonym outcome = "string option \<times> session"

definition delete_object :: "nat option \<Rightarrow> session \<Rightarrow> session" where
  "delete_object p s = (case p of None \<Rightarrow> s | Some i \<Rightarrow> s \<lparr> ss_deleted := ss_deleted s @ [i] \<rparr>)"

definition transition_to :: "compilation_phase \<Rightarrow> string \<Rightarrow> session \<Rightarrow> outcome" where
  "transition_to next_phase operation s =
     (if \<not> can_transition (ss_phase s) next_phase
      then (Some (''invalid compilation session transition in '' @ operation @ '': ''
                  @ phase_name (ss_phase s) @ '' -> '' @ phase_name next_phase), s)
      else (None, s \<lparr> ss_phase := next_phase \<rparr>))"

definition activate_session_arenas :: "nat \<Rightarrow> session \<times> thread_state \<Rightarrow> session \<times> thread_state" where
  "activate_session_arenas self st =
     (case st of (s, th) \<Rightarrow>
        let (prev, th) = set_current_ast_arena (Some (AstArena self)) th;
            s = s \<lparr> ss_previous_ast_arena := prev \<rparr>;
            (prev, th) = set_current_token_arena (Some (TokenArena self)) th in
        (s \<lparr> ss_previous_token_arena := prev \<rparr>, th))"

definition deactivate_session_arenas :: "session \<times> thread_state \<Rightarrow> session \<times> thread_state" where
  "deactivate_session_arenas st =
     (case st of (s, th) \<Rightarrow>
        let th = snd (set_current_ast_arena (ss_previous_ast_arena s) th);
            th = snd (set_current_token_arena (ss_previous_token_arena s) th) in
        (s \<lparr> ss_previous_ast_arena := None, ss_previous_token_arena := None \<rparr>, th))"

definition clear_tokens :: "session \<Rightarrow> session" where
  "clear_tokens s = s \<lparr> ss_deleted := ss_deleted s @ ss_tokens s, ss_tokens := [] \<rparr>"

definition empty_session :: session where
  "empty_session =
     \<lparr> ss_tokens = [], ss_context = None, ss_ast = None, ss_ir = None,
       ss_ast_arena = new_arena (256 * 1024), ss_token_arena = new_arena (64 * 1024),
       ss_previous_ast_arena = None, ss_previous_token_arena = None, ss_phase = PhaseEmpty, ss_deleted = [] \<rparr>"

definition construct_session :: "nat \<Rightarrow> thread_state \<Rightarrow> session \<times> thread_state" where
  "construct_session self th = activate_session_arenas self (empty_session, th)"

definition reset :: "session \<times> heap \<Rightarrow> session \<times> heap" where
  "reset st =
     (case st of (s, hp) \<Rightarrow>
        let s = (delete_object (ss_ir s) s) \<lparr> ss_ir := None \<rparr>;
            s = (delete_object (ss_context s) s) \<lparr> ss_context := None \<rparr>;
            s = (delete_object (ss_ast s) s) \<lparr> ss_ast := None \<rparr>;
            s = clear_tokens s;
            (a, hp) = arena_release (ss_ast_arena s, hp);
            (t, hp) = arena_release (ss_token_arena s, hp) in
        (s \<lparr> ss_ast_arena := a, ss_token_arena := t, ss_phase := PhaseEmpty \<rparr>, hp))"

definition destruct_session :: "session \<times> heap \<times> thread_state \<Rightarrow> session \<times> heap \<times> thread_state" where
  "destruct_session st =
     (case st of (s, hp, th) \<Rightarrow>
        let (s, hp) = reset (s, hp); (s, th) = deactivate_session_arenas (s, th) in (s, hp, th))"

definition adopt_tokens :: "nat list \<Rightarrow> session \<Rightarrow> outcome" where
  "adopt_tokens ts s =
     (if ss_phase s \<noteq> PhaseEmpty then (Some ''adopt_tokens requires an empty compilation session'', s)
      else transition_to Tokenized ''adopt_tokens'' ((clear_tokens s) \<lparr> ss_tokens := ts \<rparr>))"

definition attach_context :: "nat option \<Rightarrow> session \<Rightarrow> outcome" where
  "attach_context ctx s =
     (if ss_phase s \<noteq> Tokenized then (Some ''attach_context requires a tokenized compilation session'', s)
      else (None, (delete_object (ss_context s) s) \<lparr> ss_context := ctx \<rparr>))"

definition attach_ast :: "nat option \<Rightarrow> session \<Rightarrow> outcome" where
  "attach_ast ast s =
     (if ss_phase s \<noteq> Tokenized then (Some ''attach_ast requires a tokenized compilation session'', s)
      else
        let s = (if ss_ast s \<noteq> None \<and> ss_ast s \<noteq> ast then delete_object (ss_ast s) s else s) in
        transition_to Parsed ''attach_ast'' (s \<lparr> ss_ast := ast \<rparr>))"

definition mark_type_checked :: "session \<Rightarrow> outcome" where
  "mark_type_checked s =
     (if ss_phase s \<noteq> Parsed then (Some ''mark_type_checked requires a parsed compilation session'', s)
      else transition_to Typed ''mark_type_checked'' s)"

definition attach_ir :: "nat option \<Rightarrow> session \<Rightarrow> outcome" where
  "attach_ir ir s =
     (if ss_phase s \<noteq> Typed then (Some ''attach_ir requires a type-checked compilation session'', s)
      else transition_to Lowered ''attach_ir'' ((delete_object (ss_ir s) s) \<lparr> ss_ir := ir \<rparr>))"

definition mark_codegen_ready :: "session \<Rightarrow> outcome" where
  "mark_codegen_ready s =
     (if ss_phase s \<noteq> Lowered then (Some ''mark_codegen_ready requires a lowered compilation session'', s)
      else transition_to CodegenReady ''mark_codegen_ready'' s)"

definition mark_executed :: "session \<Rightarrow> outcome" where
  "mark_executed s =
     (if ss_phase s \<noteq> CodegenReady then (Some ''mark_executed requires a codegen-ready compilation session'', s)
      else transition_to Executed ''mark_executed'' s)"

definition mark_failed :: "session \<Rightarrow> outcome" where
  "mark_failed s = (if ss_phase s \<noteq> PhaseEmpty then transition_to Failed ''mark_failed'' s else (None, s))"

lemmas session_ops = adopt_tokens_def attach_context_def attach_ast_def mark_type_checked_def
  attach_ir_def mark_codegen_ready_def mark_executed_def mark_failed_def

subsection \<open>Reachable sessions\<close>

text \<open>
  A client's call, with the objects it hands over. A run keeps the phases passed since the session
  was last empty and all objects handed over; every object is handed over once. A call that throws
  leaves what it was given with the client.
\<close>

datatype session_call =
    Adopt_tokens "nat list" | Attach_context "nat option" | Attach_ast "nat option" | Mark_type_checked
  | Attach_ir "nat option" | Mark_codegen_ready | Mark_executed | Mark_failed

fun call :: "session_call \<Rightarrow> session \<Rightarrow> outcome" where
  "call (Adopt_tokens ts) s = adopt_tokens ts s"
| "call (Attach_context c) s = attach_context c s"
| "call (Attach_ast a) s = attach_ast a s"
| "call Mark_type_checked s = mark_type_checked s"
| "call (Attach_ir i) s = attach_ir i s"
| "call Mark_codegen_ready s = mark_codegen_ready s"
| "call Mark_executed s = mark_executed s"
| "call Mark_failed s = mark_failed s"

fun handed_over :: "session_call \<Rightarrow> nat list" where
  "handed_over (Adopt_tokens ts) = ts"
| "handed_over (Attach_context c) = (case c of None \<Rightarrow> [] | Some i \<Rightarrow> [i])"
| "handed_over (Attach_ast a) = (case a of None \<Rightarrow> [] | Some i \<Rightarrow> [i])"
| "handed_over (Attach_ir i) = (case i of None \<Rightarrow> [] | Some j \<Rightarrow> [j])"
| "handed_over _ = []"

inductive session_run :: "session \<Rightarrow> compilation_phase list \<Rightarrow> nat list \<Rightarrow> bool" where
  Start: "session_run (fst (construct_session self th)) [PhaseEmpty] []"
| Refused: "session_run s ph given \<Longrightarrow> call c s = (Some msg, s') \<Longrightarrow> session_run s' ph given"
| Done: "session_run s ph given \<Longrightarrow> call c s = (None, s') \<Longrightarrow> distinct (handed_over c)
    \<Longrightarrow> set (handed_over c) \<inter> set given = {}
    \<Longrightarrow> session_run s' (if ss_phase s' = ss_phase s then ph else ph @ [ss_phase s']) (given @ handed_over c)"
| Reset: "session_run s ph given \<Longrightarrow> session_run (fst (reset (s, hp))) [PhaseEmpty] given"

definition pipeline :: "compilation_phase list" where
  "pipeline = [PhaseEmpty, Tokenized, Parsed, Typed, Lowered, CodegenReady, Executed]"

definition owned :: "session \<Rightarrow> nat list" where
  "owned s = ss_tokens s @ (case ss_context s of None \<Rightarrow> [] | Some i \<Rightarrow> [i])
     @ (case ss_ast s of None \<Rightarrow> [] | Some i \<Rightarrow> [i]) @ (case ss_ir s of None \<Rightarrow> [] | Some i \<Rightarrow> [i])"

definition phases_ok :: "compilation_phase \<Rightarrow> compilation_phase list \<Rightarrow> bool" where
  "phases_ok p ph \<longleftrightarrow>
     (if p = Failed then (\<exists>n. 2 \<le> n \<and> n \<le> 7 \<and> ph = take n pipeline @ [Failed])
      else ph = take (Suc (phase_rank p)) pipeline)"

definition session_inv :: "session \<Rightarrow> compilation_phase list \<Rightarrow> nat list \<Rightarrow> bool" where
  "session_inv s ph given \<longleftrightarrow>
     mset given = mset (owned s) + mset (ss_deleted s) \<and> distinct given
     \<and> phases_ok (ss_phase s) ph
     \<and> (ss_phase s = PhaseEmpty \<longrightarrow> owned s = [])
     \<and> (ss_phase s = Tokenized \<longrightarrow> ss_ast s = None)
     \<and> (ss_phase s \<in> {Tokenized, Parsed, Typed} \<longrightarrow> ss_ir s = None)"

lemma transition_to_simps:
  "transition_to p m s = (None, s') \<longleftrightarrow> can_transition (ss_phase s) p \<and> s' = s \<lparr> ss_phase := p \<rparr>"
  "transition_to p m s = (Some e, s') \<Longrightarrow> s' = s"
  by (auto simp: transition_to_def split: if_splits)

lemma delete_object_simps [simp]:
  "mset (ss_deleted (delete_object p s)) = mset (ss_deleted s) + mset (case p of None \<Rightarrow> [] | Some i \<Rightarrow> [i])"
  "ss_tokens (delete_object p s) = ss_tokens s" "ss_context (delete_object p s) = ss_context s"
  "ss_ast (delete_object p s) = ss_ast s" "ss_ir (delete_object p s) = ss_ir s"
  "ss_phase (delete_object p s) = ss_phase s"
  by (auto simp: delete_object_def split: option.splits)

lemma refused_unchanged: "call c s = (Some msg, s') \<Longrightarrow> s' = s"
  by (cases c) (auto simp: session_ops clear_tokens_def transition_to_def can_transition_def split: if_splits)

lemma phases_next:
  assumes "phases_ok p ph" "p \<noteq> Failed" "phase_rank q = Suc (phase_rank p)" "q \<noteq> Failed"
  shows "phases_ok q (ph @ [q])"
  using assms by (cases p; cases q) (simp_all add: phases_ok_def pipeline_def)

lemma phases_failed:
  assumes "phases_ok p ph" "p \<noteq> Failed" "p \<noteq> PhaseEmpty"
  shows "phases_ok Failed (ph @ [Failed])"
proof -
  have "2 \<le> Suc (phase_rank p)" "Suc (phase_rank p) \<le> 7" using assms(2,3) by (cases p; simp)+
  with assms show ?thesis
    by (simp add: phases_ok_def) (intro exI [of _ "Suc (phase_rank p)"], simp)
qed

lemma call_inv:
  assumes inv: "session_inv s ph given" and c: "call c s = (None, s')"
    and fresh: "distinct (handed_over c)" "set (handed_over c) \<inter> set given = {}"
  shows "session_inv s' (if ss_phase s' = ss_phase s then ph else ph @ [ss_phase s']) (given @ handed_over c)"
proof -
  have d: "distinct (given @ handed_over c)" using inv fresh by (auto simp: session_inv_def)
  note [simp] = session_inv_def owned_def clear_tokens_def transition_to_simps(1)
  show ?thesis
  proof (cases c)
    case (Adopt_tokens ts)
    with inv c d show ?thesis
      by (auto simp: session_ops split: if_splits option.splits intro: phases_next)
  next
    case (Attach_context x)
    with inv c d show ?thesis by (auto simp: session_ops split: if_splits)
  next
    case (Attach_ast x)
    with inv c d show ?thesis by (auto simp: session_ops split: if_splits intro: phases_next)
  next
    case (Attach_ir x)
    with inv c d show ?thesis by (auto simp: session_ops split: if_splits intro: phases_next)
  next
    case Mark_failed
    with inv c d show ?thesis by (auto simp: session_ops split: if_splits intro: phases_failed)
  qed (use inv c in \<open>auto simp: session_ops split: if_splits intro: phases_next\<close>)
qed

lemma reset_simps:
  "ss_phase (fst (reset (s, hp))) = PhaseEmpty"
  "owned (fst (reset (s, hp))) = []"
  "mset (ss_deleted (fst (reset (s, hp)))) = mset (ss_deleted s) + mset (owned s)"
  by (auto simp: reset_def arena_release_def owned_def clear_tokens_def Let_def ac_simps)

lemma session_run_inv: "session_run s ph given \<Longrightarrow> session_inv s ph given"
proof (induction rule: session_run.induct)
  case (Start self th)
  then show ?case
    by (simp add: session_inv_def construct_session_def activate_session_arenas_def empty_session_def
        set_current_ast_arena_def set_current_token_arena_def owned_def phases_ok_def pipeline_def)
next
  case (Refused s ph given c msg s')
  then show ?case using refused_unchanged by blast
next
  case (Done s ph given c s')
  show ?case by (rule call_inv [OF Done.IH Done.hyps(2-4)])
next
  case (Reset s ph given hp)
  then show ?case by (simp add: session_inv_def reset_simps phases_ok_def pipeline_def ac_simps)
qed


text \<open>
  \<open>attach_ast\<close> tests for the tree it already has; \<open>attach_context\<close> does not, and keeps a
  context it has just deleted when it is given the same one again.
\<close>

lemma attach_context_again:
  assumes "ss_phase s = Tokenized" "ss_context s = Some c" "attach_context (Some c) s = (e, s')"
  shows "e = None \<and> ss_context s' = Some c \<and> c \<in> set (ss_deleted s')"
  using assms by (auto simp: attach_context_def delete_object_def)

definition sample_session :: session where
  "sample_session = snd (attach_ast (Some 7) (snd (adopt_tokens [3, 4] empty_session)))"

lemma sample_session_run: "session_run sample_session [PhaseEmpty, Tokenized, Parsed] [3, 4, 7]"
proof -
  have 0: "session_run empty_session [PhaseEmpty] []"
    using session_run.Start [of 0 "\<lparr> current_ast_arena = None, current_token_arena = None \<rparr>"]
    by (simp add: construct_session_def activate_session_arenas_def set_current_ast_arena_def
        set_current_token_arena_def empty_session_def)
  have 1: "session_run (snd (adopt_tokens [3, 4] empty_session)) [PhaseEmpty, Tokenized] [3, 4]"
    using session_run.Done [OF 0, of "Adopt_tokens [3, 4]"]
    by (simp add: adopt_tokens_def transition_to_def can_transition_def empty_session_def clear_tokens_def)
  show ?thesis
    using session_run.Done [OF 1, of "Attach_ast (Some 7)"]
    by (simp add: sample_session_def adopt_tokens_def attach_ast_def transition_to_def can_transition_def
        empty_session_def clear_tokens_def)
qed


end
