(* ===== verification/Styio_Documents.thy ===== *)
theory Styio_Documents
  imports Styio_Prelude "HOL-Library.AList"
begin

text \<open>
  The editor's view of source files (src/src/StyioIDE/Common.cpp, VFS.cpp): text buffers with the
  translation between byte offsets and line positions, paths and \<open>file:\<close> URIs, and the virtual
  file system that keeps open documents and applies the edits a client sends. Document, snapshot and
  file numbers are unbounded. The file system's contents are a parameter, the function that reads a
  file; \<open>std::filesystem::path::lexically_normal\<close> is written out for POSIX paths.
\<close>

subsection \<open>Positions and ranges\<close>

record position =
  pos_line :: nat
  pos_character :: nat

record text_range =
  rg_start :: nat
  rg_end :: nat

definition range_contains :: "text_range \<Rightarrow> nat \<Rightarrow> bool" where
  "range_contains r offset \<longleftrightarrow> rg_start r \<le> offset \<and> offset \<le> rg_end r"

definition range_length :: "text_range \<Rightarrow> nat" where
  "range_length r = (if rg_end r \<ge> rg_start r then rg_end r - rg_start r else 0)"

record text_edit =
  te_range :: text_range
  te_replacement :: string

record document_delta =
  dd_is_full_sync :: bool
  dd_requires_full_resync :: bool
  dd_full_text :: string
  dd_edits :: "text_edit list"
  dd_resync_reason :: string

datatype position_kind =
    TopLevel | StmtStart | Expr | Type | Pattern | MemberAccess | ImportPath | CallArg | AttrName

datatype symbol_kind = SymVariable | SymFunction | SymParameter | SymBuiltin

datatype completion_item_kind =
    CkVariable | CkFunction | CkType | CkKeyword | CkSnippet | CkProperty | CkModule

datatype completion_source = CsLocal | CsImported | CsBuiltin | CsKeyword | CsSnippet

fun position_kind_to_string :: "position_kind \<Rightarrow> string" where
  "position_kind_to_string TopLevel = ''TopLevel''"
| "position_kind_to_string StmtStart = ''StmtStart''"
| "position_kind_to_string Expr = ''Expr''"
| "position_kind_to_string Type = ''Type''"
| "position_kind_to_string Pattern = ''Pattern''"
| "position_kind_to_string MemberAccess = ''MemberAccess''"
| "position_kind_to_string ImportPath = ''ImportPath''"
| "position_kind_to_string CallArg = ''CallArg''"
| "position_kind_to_string AttrName = ''AttrName''"

fun symbol_kind_to_string :: "symbol_kind \<Rightarrow> string" where
  "symbol_kind_to_string SymVariable = ''variable''"
| "symbol_kind_to_string SymFunction = ''function''"
| "symbol_kind_to_string SymParameter = ''parameter''"
| "symbol_kind_to_string SymBuiltin = ''builtin''"

fun completion_item_kind_to_string :: "completion_item_kind \<Rightarrow> string" where
  "completion_item_kind_to_string CkVariable = ''variable''"
| "completion_item_kind_to_string CkFunction = ''function''"
| "completion_item_kind_to_string CkType = ''type''"
| "completion_item_kind_to_string CkKeyword = ''keyword''"
| "completion_item_kind_to_string CkSnippet = ''snippet''"
| "completion_item_kind_to_string CkProperty = ''property''"
| "completion_item_kind_to_string CkModule = ''module''"

fun completion_source_to_string :: "completion_source \<Rightarrow> string" where
  "completion_source_to_string CsLocal = ''local''"
| "completion_source_to_string CsImported = ''imported''"
| "completion_source_to_string CsBuiltin = ''builtin''"
| "completion_source_to_string CsKeyword = ''keyword''"
| "completion_source_to_string CsSnippet = ''snippet''"

subsection \<open>Text buffers\<close>

record text_buffer =
  tb_text :: string
  tb_line_starts :: "nat list"

definition newline :: char where "newline = CHR 0x0A"

text \<open>\<open>TextBuffer()\<close> has no line starts at all; every other constructor computes them.\<close>

definition default_buffer :: text_buffer where
  "default_buffer = \<lparr> tb_text = [], tb_line_starts = [] \<rparr>"

definition rebuild_line_starts :: "string \<Rightarrow> nat list" where
  "rebuild_line_starts text = 0 # map Suc (filter (\<lambda>i. text ! i = newline) [0..<length text])"

definition TextBuffer :: "string \<Rightarrow> text_buffer" where
  "TextBuffer text = \<lparr> tb_text = text, tb_line_starts = rebuild_line_starts text \<rparr>"

definition reset_buffer :: "string \<Rightarrow> text_buffer \<Rightarrow> text_buffer" where
  "reset_buffer text b = b \<lparr> tb_text := text, tb_line_starts := rebuild_line_starts text \<rparr>"

text \<open>\<open>std::upper_bound\<close> on an ascending range: how many elements are not above the value.\<close>

definition upper_bound :: "nat list \<Rightarrow> nat \<Rightarrow> nat" where
  "upper_bound xs v = length (takeWhile (\<lambda>x. x \<le> v) xs)"

definition position_at :: "text_buffer \<Rightarrow> nat \<Rightarrow> position" where
  "position_at b offset =
     (if tb_line_starts b = [] then \<lparr> pos_line = 0, pos_character = 0 \<rparr>
      else
        let offset = (if offset > length (tb_text b) then length (tb_text b) else offset);
            it = upper_bound (tb_line_starts b) offset;
            line = (if it = 0 then 0 else it - 1) in
        \<lparr> pos_line = line, pos_character = offset - tb_line_starts b ! line \<rparr>)"

definition offset_at :: "text_buffer \<Rightarrow> position \<Rightarrow> nat" where
  "offset_at b p =
     (if tb_line_starts b = [] then 0
      else
        let starts = tb_line_starts b;
            line = min (pos_line p) (length starts - 1);
            line_start = starts ! line;
            next_line_start = (if line + 1 < length starts then starts ! (line + 1) else length (tb_text b));
            line_len = (if next_line_start \<ge> line_start then next_line_start - line_start else 0) in
        line_start + min (pos_character p) line_len)"

fun line_seps_loop :: "string \<Rightarrow> nat \<Rightarrow> nat \<Rightarrow> (nat \<times> nat) list \<Rightarrow> (nat \<times> nat) list \<times> nat \<times> nat" where
  "line_seps_loop [] line_start line_len seps = (seps, line_start, line_len)"
| "line_seps_loop (ch # cs) line_start line_len seps =
     (if ch = newline then line_seps_loop cs (line_start + (line_len + 1)) 0 (seps @ [(line_start, line_len)])
      else line_seps_loop cs line_start (line_len + 1) seps)"

definition build_line_seps :: "text_buffer \<Rightarrow> (nat \<times> nat) list" where
  "build_line_seps b =
     (case line_seps_loop (tb_text b) 0 0 [] of
        (seps, line_start, line_len) \<Rightarrow>
          if tb_text b \<noteq> [] \<and> last (tb_text b) \<noteq> newline then seps @ [(line_start, line_len)] else seps)"

subsection \<open>Lines and offsets\<close>

lemma upper_bound_append:
  "list_all (\<lambda>x. x \<le> v) xs \<Longrightarrow> list_all (\<lambda>x. \<not> x \<le> v) ys \<Longrightarrow> upper_bound (xs @ ys) v = length xs"
proof -
  assume "list_all (\<lambda>x. x \<le> v) xs" "list_all (\<lambda>x. \<not> x \<le> v) ys"
  then have "takeWhile (\<lambda>x. x \<le> v) (xs @ ys) = xs"
    by (cases ys) (auto simp: list_all_iff takeWhile_append2)
  then show ?thesis by (simp add: upper_bound_def)
qed

lemma line_starts_split:
  assumes "v \<le> length text"
  shows "rebuild_line_starts text =
      (0 # map Suc (filter (\<lambda>i. text ! i = newline) [0..<v]))
      @ map Suc (filter (\<lambda>i. text ! i = newline) [v..<length text])"
proof -
  have "[0..<length text] = [0..<v] @ [v..<length text]"
    using assms upt_add_eq_append [of 0 v "length text - v"] by simp
  then show ?thesis by (simp add: rebuild_line_starts_def)
qed

definition newlines_before :: "string \<Rightarrow> nat \<Rightarrow> nat list" where
  "newlines_before text v = filter (\<lambda>i. text ! i = newline) [0..<v]"

lemma upper_bound_line_starts:
  assumes "v \<le> length text"
  shows "upper_bound (rebuild_line_starts text) v = Suc (length (newlines_before text v))"
  unfolding line_starts_split [OF assms]
  by (subst upper_bound_append) (auto simp: list_all_iff newlines_before_def)

lemma line_start_nth:
  assumes "v \<le> length text"
  shows "rebuild_line_starts text ! length (newlines_before text v)
    = (if newlines_before text v = [] then 0 else Suc (last (newlines_before text v)))"
  unfolding line_starts_split [OF assms]
  by (cases "newlines_before text v" rule: rev_cases) (simp_all add: newlines_before_def [symmetric] nth_append)

lemma line_start_le:
  assumes "v \<le> length text"
  shows "rebuild_line_starts text ! length (newlines_before text v) \<le> v"
proof (cases "newlines_before text v = []")
  case False
  then have "last (newlines_before text v) \<in> set (newlines_before text v)" by simp
  then show ?thesis using line_start_nth [OF assms] False by (simp add: newlines_before_def)
qed (simp add: rebuild_line_starts_def)

lemma next_line_start:
  assumes "v \<le> length text" "Suc (length (newlines_before text v)) < length (rebuild_line_starts text)"
  shows "v < rebuild_line_starts text ! Suc (length (newlines_before text v))"
proof -
  let ?r = "map Suc (filter (\<lambda>i. text ! i = newline) [v..<length text])"
  have "?r \<noteq> []" using assms(2) unfolding line_starts_split [OF assms(1)] by (auto simp: newlines_before_def)
  then have "rebuild_line_starts text ! Suc (length (newlines_before text v)) \<in> set ?r"
    unfolding line_starts_split [OF assms(1)]
    by (cases ?r) (simp_all add: nth_append newlines_before_def)
  then show ?thesis by auto
qed

lemma length_newlines: "v \<le> length text \<Longrightarrow> length (newlines_before text v) = count_list (take v text) newline"
proof (induction v)
  case (Suc v)
  then show ?case by (simp add: newlines_before_def take_Suc_conv_app_nth)
qed (simp add: newlines_before_def)

lemma no_newline_since:
  assumes "v \<le> length text" "rebuild_line_starts text ! length (newlines_before text v) \<le> i" "i < v"
  shows "text ! i \<noteq> newline"
proof
  assume "text ! i = newline"
  with assms(3) have i: "i \<in> set (newlines_before text v)" by (simp add: newlines_before_def)
  moreover have "sorted (newlines_before text v)" by (simp add: newlines_before_def sorted_wrt_filter)
  ultimately have "i \<le> last (newlines_before text v)"
    by (cases "newlines_before text v" rule: rev_cases) (auto simp: sorted_append)
  with assms(2) line_start_nth [OF assms(1)] i show False by (auto split: if_splits)
qed

text \<open>C23: Every offset of a text is found again from its line and character, offsets past the
  end being cut off there. The line is the number of line feeds before the offset, the line's start is not after it
  and no line feed lies between them.\<close>

theorem positions_roundtrip:
  "offset_at (TextBuffer text) (position_at (TextBuffer text) v) = min v (length text)
    \<and> pos_line (position_at (TextBuffer text) v) = count_list (take v text) newline
    \<and> newline \<notin> set (drop (min v (length text) - pos_character (position_at (TextBuffer text) v))
         (take (min v (length text)) text))"
proof -
  define o' where "o' = min v (length text)"
  have le: "o' \<le> length text" by (simp add: o'_def)
  have ne: "rebuild_line_starts text \<noteq> []" by (simp add: rebuild_line_starts_def)
  let ?l = "length (newlines_before text o')"
  have p: "position_at (TextBuffer text) v = \<lparr> pos_line = ?l, pos_character = o' - rebuild_line_starts text ! ?l \<rparr>"
    using ne upper_bound_line_starts [OF le]
    by (auto simp: position_at_def TextBuffer_def Let_def o'_def min_def split: if_splits)
  have l: "?l < length (rebuild_line_starts text)"
    unfolding line_starts_split [OF le] by (simp add: newlines_before_def)
  note start = line_start_le [OF le]
  have "offset_at (TextBuffer text) \<lparr> pos_line = ?l, pos_character = o' - rebuild_line_starts text ! ?l \<rparr> = o'"
    using l start le next_line_start [OF le] ne
    by (auto simp: offset_at_def TextBuffer_def Let_def min_def)
  then have "offset_at (TextBuffer text) (position_at (TextBuffer text) v) = o'" by (simp only: p)
  moreover have "take v text = take o' text" by (simp add: o'_def min_def)
  moreover have "newline \<notin> set (drop (o' - pos_character (position_at (TextBuffer text) v)) (take o' text))"
  proof
    assume "newline \<in> set (drop (o' - pos_character (position_at (TextBuffer text) v)) (take o' text))"
    then obtain j where "j < length (drop (o' - pos_character (position_at (TextBuffer text) v)) (take o' text))"
      and n: "drop (o' - pos_character (position_at (TextBuffer text) v)) (take o' text) ! j = newline"
      unfolding in_set_conv_nth by blast
    then have j: "o' - pos_character (position_at (TextBuffer text) v) + j < o'" using le by simp
    with n le have "text ! (o' - pos_character (position_at (TextBuffer text) v) + j) = newline" by simp
    moreover have "rebuild_line_starts text ! ?l \<le> o' - pos_character (position_at (TextBuffer text) v) + j"
      using start by (simp add: p)
    ultimately show False using no_newline_since [OF le _ j] by blast
  qed
  ultimately show ?thesis
    using length_newlines [OF le] by (simp add: o'_def [symmetric] p)
qed

subsection \<open>Paths and URIs\<close>

text \<open>The names of a path, what the separators leave; the last is empty if the path ends with one.\<close>

fun split_path :: "string \<Rightarrow> string list" where
  "split_path [] = [[]]"
| "split_path (c # cs) =
     (case split_path cs of
        [] \<Rightarrow> []
      | w # ws \<Rightarrow> if c = CHR ''/'' then [] # w # ws else (c # w) # ws)"

definition dot :: string where "dot = ''.''"
definition dot_dot :: string where "dot_dot = ''..''"

definition push_name :: "bool \<Rightarrow> string \<Rightarrow> string list \<Rightarrow> string list" where
  "push_name absolute w stack =
     (if w = [] \<or> w = dot then stack
      else if w = dot_dot then
        (if stack \<noteq> [] \<and> last stack \<noteq> dot_dot then butlast stack
         else if absolute then stack else stack @ [w])
      else stack @ [w])"

fun join_path :: "string list \<Rightarrow> string" where
  "join_path [] = []"
| "join_path [w] = w"
| "join_path (w # ws) = w @ ''/'' @ join_path ws"

definition lexically_normal :: "string \<Rightarrow> string" where
  "lexically_normal path =
     (if path = [] then []
      else
        let absolute = (hd path = CHR ''/'');
            names = split_path path;
            stack = fold (push_name absolute) names [];
            trailing = (last names \<in> {[], dot, dot_dot} \<and> stack \<noteq> [] \<and> last stack \<noteq> dot_dot);
            result = (if absolute then ''/'' else []) @ join_path stack @ (if trailing then ''/'' else []) in
        if result = [] then dot else result)"

definition from_hex :: "char \<Rightarrow> nat option" where
  "from_hex ch =
     (if isdigit ch then Some (ch_code ch - 48)
      else if 97 \<le> ch_code ch \<and> ch_code ch \<le> 102 then Some (10 + (ch_code ch - 97))
      else if 65 \<le> ch_code ch \<and> ch_code ch \<le> 70 then Some (10 + (ch_code ch - 65))
      else None)"

definition decode_plain :: "char \<Rightarrow> char" where
  "decode_plain c = (if c = CHR ''+'' then CHR '' '' else c)"

fun percent_decode :: "string \<Rightarrow> string" where
  "percent_decode [] = []"
| "percent_decode [c] = [decode_plain c]"
| "percent_decode [c, d] = [decode_plain c, decode_plain d]"
| "percent_decode (c # hi # lo # rest) =
     (if c = CHR ''%'' \<and> from_hex hi \<noteq> None \<and> from_hex lo \<noteq> None
      then char_of (16 * the (from_hex hi) + the (from_hex lo)) # percent_decode rest
      else decode_plain c # percent_decode (hi # lo # rest))"

definition hex_digit :: "nat \<Rightarrow> char" where
  "hex_digit n = ''0123456789ABCDEF'' ! n"

definition percent_encode_char :: "char \<Rightarrow> string" where
  "percent_encode_char ch =
     (if isalnum ch \<or> ch \<in> {CHR ''/'', CHR ''.'', CHR ''-'', CHR ''_'', CHR ''~''} then [ch]
      else [CHR ''%'', hex_digit (ch_code ch div 16), hex_digit (ch_code ch mod 16)])"

definition percent_encode :: "string \<Rightarrow> string" where
  "percent_encode input = concat (map percent_encode_char input)"

definition path_from_uri :: "string \<Rightarrow> string" where
  "path_from_uri uri =
     (if \<not> starts_with uri ''file://'' then uri
      else
        let decoded = percent_decode (drop 7 uri) in
        if decoded \<noteq> [] \<and> hd decoded \<noteq> CHR ''/'' then CHR ''/'' # decoded else decoded)"

definition uri_from_path :: "string \<Rightarrow> string" where
  "uri_from_path path =
     (let normalized = lexically_normal path;
          normalized = (if normalized = [] \<or> hd normalized \<noteq> CHR ''/'' then ''/'' @ normalized else normalized) in
      ''file://'' @ percent_encode normalized)"

subsection \<open>Encoding and normal forms\<close>

lemma from_hex_digit: "n < 16 \<Longrightarrow> from_hex (hex_digit n) = Some n"
proof -
  assume "n < 16"
  moreover have "list_all (\<lambda>n. from_hex (hex_digit n) = Some n) [0..<16]" by code_simp
  ultimately show ?thesis by (simp add: list_all_iff)
qed

lemma decode_literal:
  assumes "c \<noteq> CHR ''%''" "c \<noteq> CHR ''+''"
  shows "percent_decode (c # cs) = c # percent_decode cs"
proof (cases cs)
  case (Cons d ds)
  then show ?thesis using assms by (cases ds) (simp_all add: decode_plain_def)
qed (use assms in \<open>simp add: decode_plain_def\<close>)

lemma decode_encoded_char: "percent_decode (percent_encode_char c @ cs) = c # percent_decode cs"
proof (cases "isalnum c \<or> c \<in> {CHR ''/'', CHR ''.'', CHR ''-'', CHR ''_'', CHR ''~''}")
  case True
  then have "c \<noteq> CHR ''%''" "c \<noteq> CHR ''+''" by (auto simp: ctype_defs ch_code_def)
  with True show ?thesis by (simp add: percent_encode_char_def decode_literal)
next
  case False
  have "ch_code c div 16 < 16" using ch_code_less [of c] by linarith
  with False show ?thesis by (simp add: percent_encode_char_def from_hex_digit)
qed

lemma percent_decode_encode: "percent_decode (percent_encode s) = s"
  by (induction s) (simp_all add: percent_encode_def decode_encoded_char)

definition name_ok :: "string \<Rightarrow> bool" where
  "name_ok w \<longleftrightarrow> w \<noteq> [] \<and> w \<noteq> dot \<and> w \<noteq> dot_dot \<and> CHR ''/'' \<notin> set w"

definition stack_ok :: "bool \<Rightarrow> string list \<Rightarrow> bool" where
  "stack_ok absolute st \<longleftrightarrow>
     (\<exists>n ws. st = replicate n dot_dot @ ws \<and> list_all name_ok ws \<and> (absolute \<longrightarrow> n = 0))"

lemma split_path_nonempty [simp]: "split_path s \<noteq> []"
  by (induction s) (auto split: list.splits)

lemma split_path_names: "w \<in> set (split_path s) \<Longrightarrow> CHR ''/'' \<notin> set w"
proof (induction s arbitrary: w)
  case (Cons c cs)
  then show ?case by (cases "split_path cs") (auto split: if_splits)
qed simp

lemma push_name_ok:
  assumes "stack_ok a st" "CHR ''/'' \<notin> set w"
  shows "stack_ok a (push_name a w st)"
proof -
  obtain n ws where st: "st = replicate n dot_dot @ ws" "list_all name_ok ws" "a \<longrightarrow> n = 0"
    using assms(1) by (auto simp: stack_ok_def)
  consider "w = [] \<or> w = dot" | "w = dot_dot" "ws = []" | v vs where "w = dot_dot" "ws = vs @ [v]" | "name_ok w"
    using assms(2) by (cases ws rule: rev_cases) (auto simp: name_ok_def)
  then show ?thesis
  proof cases
    case 1
    then show ?thesis using assms(1) by (simp add: push_name_def)
  next
    case 2
    then have "push_name a w st = (if a then st else replicate (Suc n) dot_dot)"
      using st by (cases n) (auto simp: push_name_def dot_def dot_dot_def replicate_append_same)
    moreover have "stack_ok False (replicate (Suc n) dot_dot)"
      unfolding stack_ok_def by (intro exI [of _ "Suc n"] exI [of _ "[]"]) simp
    ultimately show ?thesis using assms(1) by (cases a) simp_all
  next
    case 3
    then have "push_name a w st = replicate n dot_dot @ vs"
      using st by (auto simp: push_name_def name_ok_def dot_def dot_dot_def butlast_append)
    then show ?thesis using st 3 by (auto simp: stack_ok_def)
  next
    case 4
    then have "push_name a w st = replicate n dot_dot @ (ws @ [w])" using st by (auto simp: push_name_def name_ok_def)
    then show ?thesis using st 4 by (auto simp: stack_ok_def simp del: append_assoc intro!: exI [of _ "ws @ [w]"])
  qed
qed

lemma fold_push_ok:
  "stack_ok a st \<Longrightarrow> list_all (\<lambda>w. CHR ''/'' \<notin> set w) ws \<Longrightarrow> stack_ok a (fold (push_name a) ws st)"
  by (induction ws arbitrary: st) (auto simp: push_name_ok)

lemma push_again: "stack_ok a (st @ [w]) \<Longrightarrow> push_name a w st = st @ [w]"
proof -
  assume "stack_ok a (st @ [w])"
  then obtain n ws where s: "st @ [w] = replicate n dot_dot @ ws" "list_all name_ok ws" "a \<longrightarrow> n = 0"
    by (auto simp: stack_ok_def)
  show ?thesis
  proof (cases ws rule: rev_cases)
    case Nil
    with s obtain m where "n = Suc m" by (cases n) auto
    with s Nil have "w = dot_dot" "st = replicate m dot_dot" "\<not> a"
      by (auto simp: replicate_append_same [symmetric])
    then show ?thesis by (cases m) (auto simp: push_name_def dot_def dot_dot_def)
  next
    case (snoc vs v)
    with s show ?thesis by (auto simp: push_name_def name_ok_def)
  qed
qed

lemma stack_ok_prefix: "stack_ok a (st @ [w]) \<Longrightarrow> stack_ok a st"
proof -
  assume "stack_ok a (st @ [w])"
  then obtain n ws where s: "st @ [w] = replicate n dot_dot @ ws" "list_all name_ok ws" "a \<longrightarrow> n = 0"
    by (auto simp: stack_ok_def)
  show ?thesis
  proof (cases ws rule: rev_cases)
    case Nil
    with s obtain m where "n = Suc m" by (cases n) auto
    with s Nil have "st = replicate m dot_dot" "\<not> a" by (auto simp: replicate_append_same [symmetric])
    then show ?thesis by (auto simp: stack_ok_def intro!: exI [of _ "[]"])
  next
    case (snoc vs v)
    with s show ?thesis by (auto simp: stack_ok_def)
  qed
qed

lemma fold_push_again: "stack_ok a st \<Longrightarrow> fold (push_name a) st [] = st"
proof (induction st rule: rev_induct)
  case (snoc w st)
  then show ?case using stack_ok_prefix push_again by simp
qed simp

lemma split_path_slash: "CHR ''/'' \<notin> set w \<Longrightarrow> split_path (w @ CHR ''/'' # s) = w # split_path s"
  by (induction w) (auto split: list.splits)

lemma split_path_name: "CHR ''/'' \<notin> set w \<Longrightarrow> split_path w = [w]"
  by (induction w) auto

lemma split_join:
  "list_all (\<lambda>w. CHR ''/'' \<notin> set w) ws \<Longrightarrow> ws \<noteq> [] \<Longrightarrow> split_path (join_path ws) = ws"
  by (induction ws rule: join_path.induct) (simp_all add: split_path_name split_path_slash)

lemma split_join_slash:
  "list_all (\<lambda>w. CHR ''/'' \<notin> set w) ws \<Longrightarrow> ws \<noteq> [] \<Longrightarrow> split_path (join_path ws @ ''/'') = ws @ [[]]"
  by (induction ws rule: join_path.induct) (simp_all add: split_path_slash)

definition render_path :: "bool \<Rightarrow> string list \<Rightarrow> bool \<Rightarrow> string" where
  "render_path absolute stack trailing =
     (let result = (if absolute then ''/'' else []) @ join_path stack @ (if trailing then ''/'' else []) in
      if result = [] then dot else result)"

lemma lexically_normal_eq:
  assumes "path \<noteq> []" "(hd path = CHR ''/'') = a" "fold (push_name a) (split_path path) [] = st"
    "(last (split_path path) \<in> {[], dot, dot_dot} \<and> st \<noteq> [] \<and> last st \<noteq> dot_dot) = tr"
  shows "lexically_normal path = render_path a st tr"
  unfolding assms(2-4) [symmetric] using assms(1)
  by (simp only: lexically_normal_def render_path_def Let_def if_False)

lemma lexically_normal_render:
  assumes "path \<noteq> []"
  obtains st tr where "lexically_normal path = render_path (hd path = CHR ''/'') st tr"
    "stack_ok (hd path = CHR ''/'') st" "tr \<longrightarrow> st \<noteq> [] \<and> last st \<noteq> dot_dot"
proof (rule that)
  let ?a = "hd path = CHR ''/''"
  let ?st = "fold (push_name ?a) (split_path path) []"
  let ?tr = "last (split_path path) \<in> {[], dot, dot_dot} \<and> ?st \<noteq> [] \<and> last ?st \<noteq> dot_dot"
  show "lexically_normal path = render_path ?a ?st ?tr"
    by (rule lexically_normal_eq [OF assms refl refl refl])
  have "stack_ok ?a []" by (simp add: stack_ok_def)
  then show "stack_ok ?a ?st"
    by (rule fold_push_ok) (auto simp: list_all_iff dest: split_path_names)
qed simp

lemma stack_ok_names: "stack_ok a st \<Longrightarrow> w \<in> set st \<Longrightarrow> w \<noteq> [] \<and> CHR ''/'' \<notin> set w"
proof -
  assume "stack_ok a st" "w \<in> set st"
  then obtain n ws where "st = replicate n dot_dot @ ws" "list_all name_ok ws" by (auto simp: stack_ok_def)
  with \<open>w \<in> set st\<close> have "w = dot_dot \<or> name_ok w" by (auto simp: list_all_iff split: if_splits)
  then show ?thesis by (auto simp: name_ok_def dot_dot_def)
qed

lemma stack_ok_last:
  assumes "stack_ok a st" "st \<noteq> []" "last st \<noteq> dot_dot"
  shows "last st \<notin> {[], dot, dot_dot}"
proof -
  obtain n ws where s: "st = replicate n dot_dot @ ws" "list_all name_ok ws" using assms(1) by (auto simp: stack_ok_def)
  have "ws \<noteq> []"
  proof
    assume "ws = []"
    with s assms(2) have "n \<noteq> 0" "st = replicate n dot_dot" by auto
    with assms(3) show False by simp
  qed
  with s show ?thesis by (cases ws rule: rev_cases) (auto simp: name_ok_def)
qed

lemma join_path_hd: "stack_ok a st \<Longrightarrow> st \<noteq> [] \<Longrightarrow> join_path st \<noteq> [] \<and> hd (join_path st) \<noteq> CHR ''/''"
  using stack_ok_names [of a st "hd st"] by (cases st rule: join_path.cases) (auto simp: neq_Nil_conv)

lemma normal_render:
  assumes ok: "stack_ok a st" and tr: "tr \<longrightarrow> st \<noteq> [] \<and> last st \<noteq> dot_dot"
  shows "lexically_normal (render_path a st tr) = render_path a st tr"
proof (cases "st = []")
  case True
  with tr show ?thesis by (simp add: lexically_normal_def render_path_def push_name_def dot_def dot_dot_def)
next
  case False
  let ?r = "render_path a st tr"
  note hd = join_path_hd [OF ok False]
  have r: "?r = (if a then ''/'' else []) @ join_path st @ (if tr then ''/'' else [])" "?r \<noteq> []"
    using hd by (simp_all add: render_path_def Let_def)
  have a: "(hd ?r = CHR ''/'') = a" using hd r by simp
  have noslash: "list_all (\<lambda>w. CHR ''/'' \<notin> set w) st" using stack_ok_names [OF ok] by (auto simp: list_all_iff)
  have names: "split_path ?r = (if a then [[]] else []) @ st @ (if tr then [[]] else [])"
    using False r split_path_slash [of "[]"] split_join [OF noslash] split_join_slash [OF noslash] by simp
  have fold: "fold (push_name a) (split_path ?r) [] = st"
    using fold_push_again [OF ok] names by (cases a) (simp_all add: push_name_def)
  have "(last (split_path ?r) \<in> {[], dot, dot_dot} \<and> st \<noteq> [] \<and> last st \<noteq> dot_dot) = tr"
    using names False tr stack_ok_last [OF ok False] by auto
  then show ?thesis by (rule lexically_normal_eq [OF r(2) a fold])
qed

lemma lexically_normal_idem: "lexically_normal (lexically_normal path) = lexically_normal path"
proof (cases "path = []")
  case False
  then obtain st tr where "lexically_normal path = render_path (hd path = CHR ''/'') st tr"
    "stack_ok (hd path = CHR ''/'') st" "tr \<longrightarrow> st \<noteq> [] \<and> last st \<noteq> dot_dot"
    by (rule lexically_normal_render)
  then show ?thesis using normal_render by simp
qed (simp add: lexically_normal_def)

lemma lexically_normal_rooted:
  "path \<noteq> [] \<Longrightarrow> hd path = CHR ''/'' \<Longrightarrow> lexically_normal path \<noteq> [] \<and> hd (lexically_normal path) = CHR ''/''"
  by (auto simp: lexically_normal_def Let_def)

text \<open>C24: Bringing a path to normal form twice is bringing it there once. The URI of a rooted path gives
  back the path's normal form, whatever bytes it has, and is the URI of that form.\<close>

theorem uri_roundtrip:
  "lexically_normal (lexically_normal path) = lexically_normal path
    \<and> path_from_uri (uri_from_path (CHR ''/'' # path)) = lexically_normal (CHR ''/'' # path)
    \<and> uri_from_path (path_from_uri (uri_from_path (CHR ''/'' # path))) = uri_from_path (CHR ''/'' # path)"
proof -
  note n = lexically_normal_rooted [of "CHR ''/'' # path"]
  have u: "uri_from_path (CHR ''/'' # path) = ''file://'' @ percent_encode (lexically_normal (CHR ''/'' # path))"
    using n by (simp add: uri_from_path_def Let_def)
  have p: "path_from_uri (''file://'' @ s) = (let d = percent_decode s in if d \<noteq> [] \<and> hd d \<noteq> CHR ''/'' then CHR ''/'' # d else d)" for s
    by (simp add: path_from_uri_def starts_with_def Let_def)
  have r: "path_from_uri (uri_from_path (CHR ''/'' # path)) = lexically_normal (CHR ''/'' # path)"
    using n by (simp only: u p) (simp add: percent_decode_encode Let_def)
  moreover have "uri_from_path (lexically_normal (CHR ''/'' # path)) = uri_from_path (CHR ''/'' # path)"
    by (simp add: uri_from_path_def lexically_normal_idem)
  ultimately show ?thesis by (simp add: lexically_normal_idem)
qed

text \<open>A plus sign in a URI of another program's making names a file with a space.\<close>

lemma plus_in_uri: "path_from_uri ''file:///a+b.styio'' = ''/a b.styio''"
  by (simp add: path_from_uri_def starts_with_def decode_plain_def)

subsection \<open>The virtual file system\<close>

record document_state =
  ds_file_id :: nat
  ds_snapshot_id :: nat
  ds_version :: int
  ds_is_open :: bool
  ds_path :: string
  ds_buffer :: text_buffer
  ds_from_full_sync :: bool
  ds_needs_full_resync :: bool
  ds_applied_edits :: "text_edit list"
  ds_resync_reason :: string

record document_snapshot =
  sn_file_id :: nat
  sn_snapshot_id :: nat
  sn_path :: string
  sn_version :: int
  sn_buffer :: text_buffer
  sn_is_open :: bool
  sn_from_full_sync :: bool
  sn_needs_full_resync :: bool
  sn_applied_edits :: "text_edit list"
  sn_resync_reason :: string

record document_update_result =
  ur_snapshot :: document_snapshot
  ur_applied_incremental :: bool
  ur_used_full_sync :: bool
  ur_needs_full_resync :: bool
  ur_message :: string

record vfs =
  vf_next_file_id :: nat
  vf_next_snapshot_id :: nat
  vf_documents :: "(string \<times> document_state) list"

definition new_vfs :: vfs where
  "new_vfs = \<lparr> vf_next_file_id = 1, vf_next_snapshot_id = 1, vf_documents = [] \<rparr>"

definition normalize_path :: "string \<Rightarrow> string" where
  "normalize_path path = (if path = [] then path else lexically_normal path)"

definition new_document :: "nat \<Rightarrow> string \<Rightarrow> document_state" where
  "new_document file_id path =
     \<lparr> ds_file_id = file_id, ds_snapshot_id = 0, ds_version = 0, ds_is_open = False, ds_path = path,
       ds_buffer = default_buffer, ds_from_full_sync = False, ds_needs_full_resync = False,
       ds_applied_edits = [], ds_resync_reason = [] \<rparr>"

text \<open>The document under a path, made when it is not there; a document is named by its key.\<close>

definition ensure_document :: "string \<Rightarrow> vfs \<Rightarrow> document_state \<times> vfs" where
  "ensure_document path v =
     (let normalized = normalize_path path in
      case map_of (vf_documents v) normalized of
        Some st \<Rightarrow> (st, v)
      | None \<Rightarrow>
          let st = new_document (vf_next_file_id v) normalized in
          (st, v \<lparr> vf_next_file_id := vf_next_file_id v + 1,
                   vf_documents := AList.update normalized st (vf_documents v) \<rparr>))"

definition store_document :: "string \<Rightarrow> document_state \<Rightarrow> vfs \<Rightarrow> vfs" where
  "store_document path st v = v \<lparr> vf_documents := AList.update (normalize_path path) st (vf_documents v) \<rparr>"

definition make_snapshot :: "document_state \<Rightarrow> document_snapshot" where
  "make_snapshot st =
     \<lparr> sn_file_id = ds_file_id st, sn_snapshot_id = ds_snapshot_id st, sn_path = ds_path st,
       sn_version = ds_version st, sn_buffer = ds_buffer st, sn_is_open = ds_is_open st,
       sn_from_full_sync = ds_from_full_sync st, sn_needs_full_resync = ds_needs_full_resync st,
       sn_applied_edits = ds_applied_edits st, sn_resync_reason = ds_resync_reason st \<rparr>"

text \<open>\<open>state.snapshot_id = next_snapshot_id_++\<close> with the fields every update sets.\<close>

definition next_snapshot :: "vfs \<Rightarrow> nat \<times> vfs" where
  "next_snapshot v = (vf_next_snapshot_id v, v \<lparr> vf_next_snapshot_id := vf_next_snapshot_id v + 1 \<rparr>)"

definition open_document :: "string \<Rightarrow> string \<Rightarrow> int \<Rightarrow> vfs \<Rightarrow> document_snapshot \<times> vfs" where
  "open_document path text version v =
     (let (st, v) = ensure_document path v;
          (snapshot_id, v) = next_snapshot v;
          st = st \<lparr> ds_snapshot_id := snapshot_id, ds_version := version, ds_is_open := True,
                    ds_from_full_sync := True, ds_needs_full_resync := False, ds_applied_edits := [],
                    ds_resync_reason := [], ds_buffer := reset_buffer text (ds_buffer st) \<rparr> in
      (make_snapshot st, store_document path st v))"

definition update_text :: "string \<Rightarrow> string \<Rightarrow> int \<Rightarrow> vfs \<Rightarrow> document_snapshot \<times> vfs" where
  "update_text path text version v = open_document path text version v"

definition needs_resync :: "string \<Rightarrow> string \<Rightarrow> int \<Rightarrow> document_state \<Rightarrow> vfs \<Rightarrow> document_update_result \<times> vfs" where
  "needs_resync path reason version st v =
     (let (snapshot_id, v) = next_snapshot v;
          st = st \<lparr> ds_snapshot_id := snapshot_id, ds_version := version, ds_is_open := True,
                    ds_from_full_sync := False, ds_needs_full_resync := True, ds_applied_edits := [],
                    ds_resync_reason := reason \<rparr> in
      (\<lparr> ur_snapshot = make_snapshot st, ur_applied_incremental = False, ur_used_full_sync = False,
         ur_needs_full_resync = True, ur_message = reason \<rparr>, store_document path st v))"

definition replace_range :: "text_range \<Rightarrow> string \<Rightarrow> string \<Rightarrow> string" where
  "replace_range r replacement s = take (rg_start r) s @ replacement @ drop (rg_start r + range_length r) s"

text \<open>The edits in their order, each on the text the ones before it leave; \<open>None\<close> at a bad range.\<close>

fun apply_edits :: "text_edit list \<Rightarrow> string \<Rightarrow> string option" where
  "apply_edits [] working_text = Some working_text"
| "apply_edits (e # es) working_text =
     (if rg_start (te_range e) > rg_end (te_range e) \<or> rg_end (te_range e) > length working_text then None
      else apply_edits es (replace_range (te_range e) (te_replacement e) working_text))"

definition bad_range :: string where "bad_range = ''invalid incremental edit range''"

definition update_delta :: "string \<Rightarrow> document_delta \<Rightarrow> int \<Rightarrow> vfs \<Rightarrow> document_update_result \<times> vfs" where
  "update_delta path delta version v =
     (let (st, v) = ensure_document path v in
      if dd_requires_full_resync delta then
        needs_resync path (if dd_resync_reason delta = [] then bad_range else dd_resync_reason delta) version st v
      else if dd_is_full_sync delta then
        let (snapshot, v) = update_text path (dd_full_text delta) version v in
        (\<lparr> ur_snapshot = snapshot, ur_applied_incremental = False, ur_used_full_sync = True,
           ur_needs_full_resync = False, ur_message = [] \<rparr>, v)
      else
        case apply_edits (dd_edits delta) (tb_text (ds_buffer st)) of
          None \<Rightarrow> needs_resync path bad_range version st v
        | Some working_text \<Rightarrow>
            let (snapshot_id, v) = next_snapshot v;
                st = st \<lparr> ds_snapshot_id := snapshot_id, ds_version := version, ds_is_open := True,
                          ds_from_full_sync := False, ds_needs_full_resync := False,
                          ds_applied_edits := dd_edits delta, ds_resync_reason := [],
                          ds_buffer := reset_buffer working_text (ds_buffer st) \<rparr> in
            (\<lparr> ur_snapshot = make_snapshot st, ur_applied_incremental = True, ur_used_full_sync = False,
               ur_needs_full_resync = False, ur_message = [] \<rparr>, store_document path st v))"

definition close_document :: "string \<Rightarrow> vfs \<Rightarrow> vfs" where
  "close_document path v =
     (case map_of (vf_documents v) (normalize_path path) of
        None \<Rightarrow> v
      | Some st \<Rightarrow> store_document path (st \<lparr> ds_is_open := False \<rparr>) v)"

text \<open>\<open>disk\<close> gives the contents of a file, nothing when it cannot be opened.\<close>

definition snapshot_for :: "(string \<Rightarrow> string) \<Rightarrow> string \<Rightarrow> vfs \<Rightarrow> document_snapshot \<times> vfs" where
  "snapshot_for disk path v =
     (let (st, v) = ensure_document path v in
      if \<not> ds_is_open st \<and> tb_text (ds_buffer st) \<noteq> disk (ds_path st) then
        let (snapshot_id, v) = next_snapshot v;
            st = st \<lparr> ds_buffer := reset_buffer (disk (ds_path st)) (ds_buffer st), ds_snapshot_id := snapshot_id,
                      ds_from_full_sync := True, ds_needs_full_resync := False, ds_applied_edits := [],
                      ds_resync_reason := [] \<rparr> in
        (make_snapshot st, store_document path st v)
      else (make_snapshot st, v))"

definition open_paths :: "vfs \<Rightarrow> string list" where
  "open_paths v = map fst (filter (\<lambda>d. ds_is_open (snd d)) (vf_documents v))"

subsection \<open>What a client sees\<close>

text \<open>The text a path has, before a document is made for it none.\<close>

definition document_text :: "vfs \<Rightarrow> string \<Rightarrow> string option" where
  "document_text v path = map_option (\<lambda>st. tb_text (ds_buffer st)) (map_of (vf_documents v) (normalize_path path))"

definition text_or_empty :: "vfs \<Rightarrow> string \<Rightarrow> string" where
  "text_or_empty v path = (case document_text v path of None \<Rightarrow> [] | Some t \<Rightarrow> t)"

definition incremental :: "text_edit list \<Rightarrow> document_delta" where
  "incremental es =
     \<lparr> dd_is_full_sync = False, dd_requires_full_resync = False, dd_full_text = [], dd_edits = es,
       dd_resync_reason = [] \<rparr>"

lemma ensure_document_spec:
  assumes "ensure_document path v = (st, v')"
  shows "map_of (vf_documents v') = (map_of (vf_documents v))(normalize_path path \<mapsto> st)"
    "tb_text (ds_buffer st) = text_or_empty v path" "vf_next_snapshot_id v' = vf_next_snapshot_id v"
  using assms
  by (auto simp: ensure_document_def text_or_empty_def document_text_def new_document_def default_buffer_def
      Let_def update_conv' fun_upd_idem split: option.splits)

lemmas vfs_ops = open_document_def update_text_def update_delta_def needs_resync_def next_snapshot_def
  store_document_def


subsection \<open>Reachable file systems\<close>

inductive vfs_run :: "vfs \<Rightarrow> bool" where
  Start: "vfs_run new_vfs"
| Open: "vfs_run v \<Longrightarrow> vfs_run (snd (open_document path text version v))"
| Update: "vfs_run v \<Longrightarrow> vfs_run (snd (update_text path text version v))"
| Delta: "vfs_run v \<Longrightarrow> vfs_run (snd (update_delta path delta version v))"
| Close: "vfs_run v \<Longrightarrow> vfs_run (close_document path v)"
| Snapshot: "vfs_run v \<Longrightarrow> vfs_run (snd (snapshot_for disk path v))"

definition document_ok :: "vfs \<Rightarrow> string \<Rightarrow> document_state \<Rightarrow> bool" where
  "document_ok v k st \<longleftrightarrow>
     normalize_path k = k \<and> ds_path st = k \<and> 0 < ds_file_id st \<and> ds_file_id st < vf_next_file_id v
     \<and> ds_snapshot_id st < vf_next_snapshot_id v
     \<and> (ds_buffer st = default_buffer \<or> ds_buffer st = TextBuffer (tb_text (ds_buffer st)))"

definition vfs_inv :: "vfs \<Rightarrow> bool" where
  "vfs_inv v \<longleftrightarrow>
     distinct (map fst (vf_documents v)) \<and> 0 < vf_next_file_id v \<and> 0 < vf_next_snapshot_id v
     \<and> (\<forall>k st. map_of (vf_documents v) k = Some st \<longrightarrow> document_ok v k st)
     \<and> (\<forall>k l st tt. map_of (vf_documents v) k = Some st \<longrightarrow> map_of (vf_documents v) l = Some tt
          \<longrightarrow> ds_file_id st = ds_file_id tt \<longrightarrow> k = l)"

lemma normalize_path_idem [simp]: "normalize_path (normalize_path path) = normalize_path path"
  by (simp add: normalize_path_def lexically_normal_idem)

lemma ensure_document_inv:
  assumes inv: "vfs_inv v" and e: "ensure_document path v = (st, v')"
  shows "vfs_inv v' \<and> map_of (vf_documents v') (normalize_path path) = Some st"
proof (cases "map_of (vf_documents v) (normalize_path path)")
  case (Some s)
  with e inv show ?thesis by (simp add: ensure_document_def)
next
  case None
  with e have st: "st = new_document (vf_next_file_id v) (normalize_path path)"
    and v': "v' = v \<lparr> vf_next_file_id := vf_next_file_id v + 1,
                    vf_documents := AList.update (normalize_path path) st (vf_documents v) \<rparr>"
    by (auto simp: ensure_document_def Let_def)
  have old: "ds_file_id t < vf_next_file_id v" if "map_of (vf_documents v) k = Some t" for k t
    using inv that by (auto simp: vfs_inv_def document_ok_def)
  have ne: "ds_file_id t \<noteq> vf_next_file_id v" "vf_next_file_id v \<noteq> ds_file_id t"
    if "(k, t) \<in> set (vf_documents v)" for k t
    using old [of k t] that inv by (auto simp: vfs_inv_def)
  show ?thesis
    using inv None
    by (auto simp: vfs_inv_def v' st document_ok_def new_document_def update_conv' distinct_update
        intro: less_SucI dest: ne split: if_splits)
qed

lemma document_ok_store [simp]: "document_ok (store_document path st v) = document_ok v"
  by (intro ext) (simp add: document_ok_def store_document_def)

lemma store_document_inv:
  assumes "vfs_inv v" "map_of (vf_documents v) (normalize_path path) = Some st"
    "ds_file_id st' = ds_file_id st" "ds_path st' = ds_path st" "ds_snapshot_id st' < vf_next_snapshot_id v"
    "ds_buffer st' = ds_buffer st \<or> ds_buffer st' = TextBuffer (tb_text (ds_buffer st'))"
  shows "vfs_inv (store_document path st' v)"
proof -
  have "document_ok v (normalize_path path) st" using assms(1,2) by (simp add: vfs_inv_def)
  with assms(3-6) have ok: "document_ok v (normalize_path path) st'" unfolding document_ok_def by metis
  have docs: "map_of (vf_documents (store_document path st' v)) = (map_of (vf_documents v))(normalize_path path \<mapsto> st')"
    by (simp add: store_document_def update_conv')
  have rest: "distinct (map fst (vf_documents (store_document path st' v)))"
    "vf_next_file_id (store_document path st' v) = vf_next_file_id v"
    "vf_next_snapshot_id (store_document path st' v) = vf_next_snapshot_id v"
    using assms(1) by (simp_all add: store_document_def vfs_inv_def distinct_update)
  show ?thesis
    using assms(1,2,3) ok unfolding vfs_inv_def docs rest(2,3) document_ok_store
    by (auto simp: rest(1) simp del: map_of_eq_Some_iff split: if_splits)
qed

lemma next_snapshot_inv: "vfs_inv v \<Longrightarrow> vfs_inv (v \<lparr> vf_next_snapshot_id := Suc (vf_next_snapshot_id v) \<rparr>)"
  by (auto simp: vfs_inv_def document_ok_def intro: less_SucI)

lemma store_next_inv:
  assumes "vfs_inv v" "map_of (vf_documents v) (normalize_path path) = Some st"
    "ds_file_id st' = ds_file_id st" "ds_path st' = ds_path st" "ds_snapshot_id st' = vf_next_snapshot_id v"
    "ds_buffer st' = ds_buffer st \<or> ds_buffer st' = TextBuffer (tb_text (ds_buffer st'))"
  shows "vfs_inv (store_document path st' (v \<lparr> vf_next_snapshot_id := Suc (vf_next_snapshot_id v) \<rparr>))"
  using store_document_inv [OF next_snapshot_inv [OF assms(1)]] assms by simp

lemma open_document_inv: "vfs_inv v \<Longrightarrow> vfs_inv (snd (open_document path text version v))"
proof -
  assume inv: "vfs_inv v"
  obtain st v1 where e: "ensure_document path v = (st, v1)" by (cases "ensure_document path v")
  note i = ensure_document_inv [OF inv e]
  show ?thesis
    using i by (simp add: open_document_def next_snapshot_def e Let_def) (rule store_next_inv, auto simp: reset_buffer_def TextBuffer_def)
qed

lemma update_delta_inv: "vfs_inv v \<Longrightarrow> vfs_inv (snd (update_delta path delta version v))"
proof -
  assume inv: "vfs_inv v"
  obtain st v1 where e: "ensure_document path v = (st, v1)" by (cases "ensure_document path v")
  note i = ensure_document_inv [OF inv e]
  have r: "vfs_inv (snd (needs_resync path reason version st v1))" for reason
    using i by (simp add: needs_resync_def next_snapshot_def Let_def) (rule store_next_inv, auto)
  have u: "vfs_inv (snd (update_text path t version v1))" for t
    using i open_document_inv by (simp add: update_text_def)
  show ?thesis
  proof (cases "dd_requires_full_resync delta \<or> dd_is_full_sync delta")
    case True
    then show ?thesis using r u by (auto simp: update_delta_def e case_prod_unfold Let_def)
  next
    case False
    show ?thesis
    proof (cases "apply_edits (dd_edits delta) (tb_text (ds_buffer st))")
      case None
      with False r show ?thesis by (simp add: update_delta_def e)
    next
      case (Some t)
      with False i show ?thesis
        by (simp add: update_delta_def e next_snapshot_def Let_def)
          (rule store_next_inv, auto simp: reset_buffer_def TextBuffer_def)
    qed
  qed
qed

lemma close_document_inv: "vfs_inv v \<Longrightarrow> vfs_inv (close_document path v)"
proof -
  assume inv: "vfs_inv v"
  show ?thesis
  proof (cases "map_of (vf_documents v) (normalize_path path)")
    case (Some st)
    with inv show ?thesis
      by (simp add: close_document_def) (rule store_document_inv, auto simp: vfs_inv_def document_ok_def)
  qed (simp add: close_document_def inv)
qed

lemma snapshot_for_inv: "vfs_inv v \<Longrightarrow> vfs_inv (snd (snapshot_for disk path v))"
proof -
  assume inv: "vfs_inv v"
  obtain st v1 where e: "ensure_document path v = (st, v1)" by (cases "ensure_document path v")
  note i = ensure_document_inv [OF inv e]
  show ?thesis
    using i by (auto simp: snapshot_for_def next_snapshot_def e reset_buffer_def TextBuffer_def Let_def intro!: store_next_inv)
qed

lemma new_vfs_inv: "vfs_inv new_vfs"
  by (simp add: vfs_inv_def new_vfs_def)

lemma vfs_run_inv: "vfs_run v \<Longrightarrow> vfs_inv v"
  by (induction rule: vfs_run.induct)
    (simp_all add: open_document_inv update_delta_inv close_document_inv snapshot_for_inv update_text_def
      new_vfs_inv)


definition sample_vfs :: vfs where
  "sample_vfs = snd (open_document ''/a/./b'' ''x'' 1 new_vfs)"

lemma sample_vfs_run: "vfs_run sample_vfs"
  unfolding sample_vfs_def by (intro vfs_run.Open vfs_run.Start)


end
