(* ===== verification/Styio_Matrix.thy ===== *)
theory Styio_Matrix
  imports Styio_Runtime "HOL-Library.Word"
begin

text \<open>
  The matrices of the runtime (src/src/StyioExtern/ExternLib.cpp): two-dimensional arrays of
  64-bit integers or doubles behind handles of kind \<open>Matrix\<close>, stored row by row. The state is
  the part of the thread's state these functions use: the handle table, in which a matrix sits
  beside the containers of \<open>Styio_Runtime\<close>, the pending error and the counts of live lists and matrices.
  Elements are 64-bit words, read as signed where they leave a matrix (as the compiled code
  does, sums and products wrap); dimensions and indices are integers. A \<open>double\<close> is a value of a
  type with the operations the code uses; the conversion of an integer, the square
  root and the printing of one are arguments. The nested loops that fill a result are \<open>fill_matrix\<close>.
\<close>

subsection \<open>State\<close>

datatype 'f styio_matrix =
    MatrixI64 (m_rows: i64) (m_cols: i64) "64 word list"
  | MatrixF64 (m_rows: i64) (m_cols: i64) "'f list"

datatype 'f mobject = Matrix "'f styio_matrix" | Container "'f robj"

record 'f mstate =
  mt_table :: "'f mobject handle_table"
  mt_error :: bool
  mt_error_message :: string
  mt_error_subcode :: string
  mt_active_lists :: int
  mt_active_matrices :: int

definition subcode_matrix_handle :: string where "subcode_matrix_handle = ''STYIO_RUNTIME_INVALID_MATRIX_HANDLE''"
definition subcode_matrix_index :: string where "subcode_matrix_index = ''STYIO_RUNTIME_MATRIX_INDEX''"
definition subcode_matrix_shape :: string where "subcode_matrix_shape = ''STYIO_RUNTIME_MATRIX_SHAPE''"
definition subcode_matrix_elem_kind :: string where "subcode_matrix_elem_kind = ''STYIO_RUNTIME_MATRIX_ELEM_KIND''"

definition matrix_error_once :: "string \<Rightarrow> string \<Rightarrow> 'f mstate \<Rightarrow> 'f mstate" where
  "matrix_error_once subcode message st =
     (let st = st \<lparr> mt_error := True \<rparr> in
      if mt_error_message st = [] then st \<lparr> mt_error_message := message, mt_error_subcode := subcode \<rparr> else st)"

definition check_matrix_dims :: "i64 \<Rightarrow> i64 \<Rightarrow> 'f mstate \<Rightarrow> bool \<times> 'f mstate" where
  "check_matrix_dims rows cols st =
     (if rows \<le> 0 \<or> cols \<le> 0 then
        (False, matrix_error_once subcode_matrix_shape ''matrix dimensions must be positive'' st)
      else if (2 ^ 63 - 1) div cols < rows then
        (False, matrix_error_once subcode_matrix_shape ''matrix dimensions overflow element count'' st)
      else (True, st))"

definition stash_matrix :: "'f styio_matrix \<Rightarrow> 'f mstate \<Rightarrow> int \<times> 'f mstate" where
  "stash_matrix m st =
     (let (h, t) = acquire HK_Matrix (Some (Matrix m)) (mt_table st) in
      (h, st \<lparr> mt_table := t, mt_active_matrices := mt_active_matrices st + 1 \<rparr>))"

definition stash_matrix_list :: "'f styio_list \<Rightarrow> 'f mstate \<Rightarrow> int \<times> 'f mstate" where
  "stash_matrix_list l st =
     (let (h, t) = acquire HK_List (Some (Container (OList l))) (mt_table st) in
      (h, st \<lparr> mt_table := t, mt_active_lists := mt_active_lists st + 1 \<rparr>))"

definition put_matrix :: "int \<Rightarrow> 'f styio_matrix \<Rightarrow> 'f mstate \<Rightarrow> 'f mstate" where
  "put_matrix h m st = st \<lparr> mt_table := store_object h (Matrix m) (mt_table st) \<rparr>"

subsection \<open>Resolving handles\<close>

definition as_matrix_base :: "int \<Rightarrow> bool \<Rightarrow> 'f mstate \<Rightarrow> 'f styio_matrix option \<times> 'f mstate" where
  "as_matrix_base h diagnose st =
     (if h = 0 then (None, st)
      else case lookup (mt_table st) h HK_Matrix of
        Some (Matrix m) \<Rightarrow> (Some m, st)
      | _ \<Rightarrow> (None, if diagnose then
                 matrix_error_once subcode_matrix_handle (''invalid matrix handle: '' @ to_string_int h) st
               else st))"

text \<open>A matrix of integers as its rows, columns and elements.\<close>

definition as_matrix_i64 :: "int \<Rightarrow> bool \<Rightarrow> 'f mstate \<Rightarrow> (i64 \<times> i64 \<times> 64 word list) option \<times> 'f mstate" where
  "as_matrix_i64 h diagnose st =
     (case as_matrix_base h diagnose st of
        (None, st) \<Rightarrow> (None, st)
      | (Some (MatrixI64 r c es), st) \<Rightarrow> (Some (r, c, es), st)
      | (Some (MatrixF64 r c es), st) \<Rightarrow>
          (None, if diagnose then
             matrix_error_once subcode_matrix_elem_kind
               (''matrix handle does not carry i64 elements: '' @ to_string_int h) st
           else st))"

definition as_matrix_f64 :: "int \<Rightarrow> bool \<Rightarrow> 'f mstate \<Rightarrow> (i64 \<times> i64 \<times> 'f list) option \<times> 'f mstate" where
  "as_matrix_f64 h diagnose st =
     (case as_matrix_base h diagnose st of
        (None, st) \<Rightarrow> (None, st)
      | (Some (MatrixF64 r c es), st) \<Rightarrow> (Some (r, c, es), st)
      | (Some (MatrixI64 r c es), st) \<Rightarrow>
          (None, if diagnose then
             matrix_error_once subcode_matrix_elem_kind
               (''matrix handle does not carry f64 elements: '' @ to_string_int h) st
           else st))"

definition check_matrix_index :: "i64 \<Rightarrow> i64 \<Rightarrow> i64 \<Rightarrow> i64 \<Rightarrow> 'f mstate \<Rightarrow> bool \<times> 'f mstate" where
  "check_matrix_index rows cols row col st =
     (if row < 0 \<or> col < 0 \<or> rows \<le> row \<or> cols \<le> col then
        (False, matrix_error_once subcode_matrix_index ''matrix index out of bounds'' st)
      else (True, st))"

definition matrix_offset :: "i64 \<Rightarrow> i64 \<Rightarrow> i64 \<Rightarrow> nat" where
  "matrix_offset cols row col = nat (row * cols + col)"

definition same_matrix_shape :: "i64 \<times> i64 \<Rightarrow> i64 \<times> i64 \<Rightarrow> 'f mstate \<Rightarrow> bool \<times> 'f mstate" where
  "same_matrix_shape lhs rhs st =
     (if lhs \<noteq> rhs then (False, matrix_error_once subcode_matrix_shape ''matrix shapes must match'' st)
      else (True, st))"

text \<open>Both operands of a binary operation, looked up in order.\<close>

definition two_matrices_i64 ::
    "int \<Rightarrow> int \<Rightarrow> 'f mstate \<Rightarrow> ((i64 \<times> i64 \<times> 64 word list) \<times> (i64 \<times> i64 \<times> 64 word list)) option \<times> 'f mstate" where
  "two_matrices_i64 lhs rhs st =
     (let (a, st) = as_matrix_i64 lhs True st; (b, st) = as_matrix_i64 rhs True st in
      (case (a, b) of (Some x, Some y) \<Rightarrow> Some (x, y) | _ \<Rightarrow> None, st))"

definition two_matrices :: "int \<Rightarrow> int \<Rightarrow> 'f mstate \<Rightarrow> ('f styio_matrix \<times> 'f styio_matrix) option \<times> 'f mstate" where
  "two_matrices lhs rhs st =
     (let (a, st) = as_matrix_base lhs True st; (b, st) = as_matrix_base rhs True st in
      (case (a, b) of (Some x, Some y) \<Rightarrow> Some (x, y) | _ \<Rightarrow> None, st))"

text \<open>
  The nested loops: for every row and column the element at the offset \<open>off r c\<close> of the result
  is assigned \<open>f r c\<close>.
\<close>

definition fill_matrix :: "i64 \<Rightarrow> i64 \<Rightarrow> (i64 \<Rightarrow> i64 \<Rightarrow> nat) \<Rightarrow> (i64 \<Rightarrow> i64 \<Rightarrow> 'a) \<Rightarrow> 'a list \<Rightarrow> 'a list" where
  "fill_matrix rows cols off f es =
     fold (\<lambda>r es. fold (\<lambda>c es. es[off r c := f r c]) [0..cols - 1] es) [0..rows - 1] es"

text \<open>Loops that add up products.\<close>

definition sum_loop :: "i64 \<Rightarrow> (i64 \<Rightarrow> 'a :: {zero, plus}) \<Rightarrow> 'a" where
  "sum_loop n f = fold (\<lambda>k sum. sum + f k) [0..n - 1] 0"

definition sum_loops :: "i64 \<Rightarrow> i64 \<Rightarrow> (i64 \<Rightarrow> i64 \<Rightarrow> 'a :: {zero, plus}) \<Rightarrow> 'a" where
  "sum_loops rows cols f = fold (\<lambda>r sum. fold (\<lambda>c sum. sum + f r c) [0..cols - 1] sum) [0..rows - 1] 0"

subsection \<open>Making matrices\<close>

definition blank_i64 :: "i64 \<Rightarrow> i64 \<Rightarrow> 64 word list" where
  "blank_i64 rows cols = replicate (nat (rows * cols)) 0"

definition blank_f64 :: "i64 \<Rightarrow> i64 \<Rightarrow> 'f :: zero list" where
  "blank_f64 rows cols = replicate (nat (rows * cols)) 0"

definition styio_matrix_new_i64 :: "i64 \<Rightarrow> i64 \<Rightarrow> 'f mstate \<Rightarrow> int \<times> 'f mstate" where
  "styio_matrix_new_i64 rows cols st =
     (case check_matrix_dims rows cols st of
        (False, st) \<Rightarrow> (0, st)
      | (True, st) \<Rightarrow> stash_matrix (MatrixI64 rows cols (blank_i64 rows cols)) st)"

definition styio_matrix_new_f64 :: "i64 \<Rightarrow> i64 \<Rightarrow> 'f :: zero mstate \<Rightarrow> int \<times> 'f mstate" where
  "styio_matrix_new_f64 rows cols st =
     (case check_matrix_dims rows cols st of
        (False, st) \<Rightarrow> (0, st)
      | (True, st) \<Rightarrow> stash_matrix (MatrixF64 rows cols (blank_f64 rows cols)) st)"

definition styio_matrix_identity_i64 :: "i64 \<Rightarrow> 'f mstate \<Rightarrow> int \<times> 'f mstate" where
  "styio_matrix_identity_i64 n st =
     (let (h, st) = styio_matrix_new_i64 n n st in
      case as_matrix_i64 h False st of
        (None, st) \<Rightarrow> (h, st)
      | (Some (r, c, es), st) \<Rightarrow>
          (h, put_matrix h (MatrixI64 r c (fold (\<lambda>i es. es[matrix_offset c i i := 1]) [0..n - 1] es)) st))"

definition styio_matrix_identity_f64 :: "i64 \<Rightarrow> 'f :: {zero, one} mstate \<Rightarrow> int \<times> 'f mstate" where
  "styio_matrix_identity_f64 n st =
     (let (h, st) = styio_matrix_new_f64 n n st in
      case as_matrix_f64 h False st of
        (None, st) \<Rightarrow> (h, st)
      | (Some (r, c, es), st) \<Rightarrow>
          (h, put_matrix h (MatrixF64 r c (fold (\<lambda>i es. es[matrix_offset c i i := 1]) [0..n - 1] es)) st))"

text \<open>The element at an offset as a double.\<close>

fun elem_f64 :: "(64 word \<Rightarrow> 'f) \<Rightarrow> 'f styio_matrix \<Rightarrow> nat \<Rightarrow> 'f" where
  "elem_f64 of_i64 (MatrixI64 r c es) i = of_i64 (es ! i)"
| "elem_f64 of_i64 (MatrixF64 r c es) i = es ! i"

definition map_elems_f64 :: "(nat \<Rightarrow> 'f) \<Rightarrow> 'f styio_matrix \<Rightarrow> 'f :: zero styio_matrix" where
  "map_elems_f64 f m = MatrixF64 (m_rows m) (m_cols m)
     (fold (\<lambda>i es. es[i := f i]) [0..<nat (m_rows m * m_cols m)] (blank_f64 (m_rows m) (m_cols m)))"

definition map_elems_i64 :: "(nat \<Rightarrow> 64 word) \<Rightarrow> i64 \<times> i64 \<times> 64 word list \<Rightarrow> 'f styio_matrix" where
  "map_elems_i64 f m = (case m of (r, c, es) \<Rightarrow>
     MatrixI64 r c (fold (\<lambda>i out. out[i := f i]) [0..<length es] (blank_i64 r c)))"

definition styio_matrix_clone_i64 :: "int \<Rightarrow> 'f mstate \<Rightarrow> int \<times> 'f mstate" where
  "styio_matrix_clone_i64 h st =
     (case as_matrix_i64 h True st of
        (None, st) \<Rightarrow> (0, st)
      | (Some (r, c, es), st) \<Rightarrow> stash_matrix (MatrixI64 r c es) st)"

definition styio_matrix_clone_f64 :: "(64 word \<Rightarrow> 'f) \<Rightarrow> int \<Rightarrow> 'f :: zero mstate \<Rightarrow> int \<times> 'f mstate" where
  "styio_matrix_clone_f64 of_i64 h st =
     (case as_matrix_base h True st of
        (None, st) \<Rightarrow> (0, st)
      | (Some m, st) \<Rightarrow> stash_matrix (map_elems_f64 (elem_f64 of_i64 m) m) st)"

subsection \<open>Shape and elements\<close>

definition styio_matrix_rows :: "int \<Rightarrow> 'f mstate \<Rightarrow> i64 \<times> 'f mstate" where
  "styio_matrix_rows h st =
     (case as_matrix_base h True st of (None, st) \<Rightarrow> (0, st) | (Some m, st) \<Rightarrow> (m_rows m, st))"

definition styio_matrix_cols :: "int \<Rightarrow> 'f mstate \<Rightarrow> i64 \<times> 'f mstate" where
  "styio_matrix_cols h st =
     (case as_matrix_base h True st of (None, st) \<Rightarrow> (0, st) | (Some m, st) \<Rightarrow> (m_cols m, st))"

definition styio_matrix_shape :: "int \<Rightarrow> 'f mstate \<Rightarrow> int \<times> 'f mstate" where
  "styio_matrix_shape h st =
     (case as_matrix_base h True st of
        (None, st) \<Rightarrow> (0, st)
      | (Some m, st) \<Rightarrow> stash_matrix_list (ListI64 [m_rows m, m_cols m]) st)"

definition styio_matrix_get_i64 :: "int \<Rightarrow> i64 \<Rightarrow> i64 \<Rightarrow> 'f mstate \<Rightarrow> 64 word \<times> 'f mstate" where
  "styio_matrix_get_i64 h row col st =
     (case as_matrix_i64 h True st of
        (None, st) \<Rightarrow> (0, st)
      | (Some (r, c, es), st) \<Rightarrow>
          (case check_matrix_index r c row col st of
             (False, st) \<Rightarrow> (0, st)
           | (True, st) \<Rightarrow> (es ! matrix_offset c row col, st)))"

definition styio_matrix_get_f64 :: "(64 word \<Rightarrow> 'f) \<Rightarrow> int \<Rightarrow> i64 \<Rightarrow> i64 \<Rightarrow> 'f :: zero mstate \<Rightarrow> 'f \<times> 'f mstate" where
  "styio_matrix_get_f64 of_i64 h row col st =
     (case as_matrix_base h True st of
        (None, st) \<Rightarrow> (0, st)
      | (Some m, st) \<Rightarrow>
          (case check_matrix_index (m_rows m) (m_cols m) row col st of
             (False, st) \<Rightarrow> (0, st)
           | (True, st) \<Rightarrow> (elem_f64 of_i64 m (matrix_offset (m_cols m) row col), st)))"

definition styio_matrix_set_i64 :: "int \<Rightarrow> i64 \<Rightarrow> i64 \<Rightarrow> 64 word \<Rightarrow> 'f mstate \<Rightarrow> 'f mstate" where
  "styio_matrix_set_i64 h row col v st =
     (case as_matrix_i64 h True st of
        (None, st) \<Rightarrow> st
      | (Some (r, c, es), st) \<Rightarrow>
          (case check_matrix_index r c row col st of
             (False, st) \<Rightarrow> st
           | (True, st) \<Rightarrow> put_matrix h (MatrixI64 r c (es[matrix_offset c row col := v])) st))"

definition styio_matrix_set_f64 :: "int \<Rightarrow> i64 \<Rightarrow> i64 \<Rightarrow> 'f \<Rightarrow> 'f mstate \<Rightarrow> 'f mstate" where
  "styio_matrix_set_f64 h row col v st =
     (case as_matrix_f64 h True st of
        (None, st) \<Rightarrow> st
      | (Some (r, c, es), st) \<Rightarrow>
          (case check_matrix_index r c row col st of
             (False, st) \<Rightarrow> st
           | (True, st) \<Rightarrow> put_matrix h (MatrixF64 r c (es[matrix_offset c row col := v])) st))"

definition styio_matrix_row_i64 :: "int \<Rightarrow> i64 \<Rightarrow> 'f mstate \<Rightarrow> int \<times> 'f mstate" where
  "styio_matrix_row_i64 h row st =
     (case as_matrix_i64 h True st of
        (None, st) \<Rightarrow> (0, st)
      | (Some (r, c, es), st) \<Rightarrow>
          (case check_matrix_index r c row 0 st of
             (False, st) \<Rightarrow> (0, st)
           | (True, st) \<Rightarrow>
               stash_matrix_list (ListI64 (map (\<lambda>col. sint (es ! matrix_offset c row col)) [0..c - 1])) st))"

text \<open>
  In these loops \<open>styio_matrix_get_f64\<close> is called on a handle that resolves and on elements in
  range, where it leaves the state as it is (\<open>get_f64_in_range\<close>).
\<close>

definition styio_matrix_row_f64 :: "(64 word \<Rightarrow> 'f) \<Rightarrow> int \<Rightarrow> i64 \<Rightarrow> 'f :: zero mstate \<Rightarrow> int \<times> 'f mstate" where
  "styio_matrix_row_f64 of_i64 h row st =
     (case as_matrix_base h True st of
        (None, st) \<Rightarrow> (0, st)
      | (Some m, st) \<Rightarrow>
          (case check_matrix_index (m_rows m) (m_cols m) row 0 st of
             (False, st) \<Rightarrow> (0, st)
           | (True, st) \<Rightarrow>
               stash_matrix_list
                 (ListF64 (map (\<lambda>col. fst (styio_matrix_get_f64 of_i64 h row col st)) [0..m_cols m - 1])) st))"

subsection \<open>Arithmetic\<close>

definition elementwise_i64 :: "(64 word \<Rightarrow> 64 word \<Rightarrow> 64 word) \<Rightarrow> int \<Rightarrow> int \<Rightarrow> 'f mstate \<Rightarrow> int \<times> 'f mstate" where
  "elementwise_i64 f lhs rhs st =
     (case two_matrices_i64 lhs rhs st of
        (None, st) \<Rightarrow> (0, st)
      | (Some (a, b), st) \<Rightarrow>
          (case (a, b) of ((ar, ac, as), (br, bc, bs)) \<Rightarrow>
             (case same_matrix_shape (ar, ac) (br, bc) st of
                (False, st) \<Rightarrow> (0, st)
              | (True, st) \<Rightarrow> stash_matrix (map_elems_i64 (\<lambda>i. f (as ! i) (bs ! i)) a) st)))"

definition elementwise_f64 ::
    "(64 word \<Rightarrow> 'f) \<Rightarrow> ('f \<Rightarrow> 'f \<Rightarrow> 'f) \<Rightarrow> int \<Rightarrow> int \<Rightarrow> 'f :: zero mstate \<Rightarrow> int \<times> 'f mstate" where
  "elementwise_f64 of_i64 f lhs rhs st =
     (case two_matrices lhs rhs st of
        (None, st) \<Rightarrow> (0, st)
      | (Some (a, b), st) \<Rightarrow>
          (case same_matrix_shape (m_rows a, m_cols a) (m_rows b, m_cols b) st of
             (False, st) \<Rightarrow> (0, st)
           | (True, st) \<Rightarrow> stash_matrix (map_elems_f64 (\<lambda>i. f (elem_f64 of_i64 a i) (elem_f64 of_i64 b i)) a) st))"

definition styio_matrix_add_i64 :: "int \<Rightarrow> int \<Rightarrow> 'f mstate \<Rightarrow> int \<times> 'f mstate" where
  "styio_matrix_add_i64 lhs rhs st = elementwise_i64 (+) lhs rhs st"

definition styio_matrix_add_f64 ::
    "(64 word \<Rightarrow> 'f) \<Rightarrow> int \<Rightarrow> int \<Rightarrow> 'f :: {zero, plus} mstate \<Rightarrow> int \<times> 'f mstate" where
  "styio_matrix_add_f64 of_i64 lhs rhs st = elementwise_f64 of_i64 (+) lhs rhs st"

definition styio_matrix_sub_i64 :: "int \<Rightarrow> int \<Rightarrow> 'f mstate \<Rightarrow> int \<times> 'f mstate" where
  "styio_matrix_sub_i64 lhs rhs st = elementwise_i64 (-) lhs rhs st"

definition styio_matrix_hadamard_i64 :: "int \<Rightarrow> int \<Rightarrow> 'f mstate \<Rightarrow> int \<times> 'f mstate" where
  "styio_matrix_hadamard_i64 lhs rhs st = elementwise_i64 (*) lhs rhs st"

definition styio_matrix_hadamard_f64 ::
    "(64 word \<Rightarrow> 'f) \<Rightarrow> int \<Rightarrow> int \<Rightarrow> 'f :: {zero, times} mstate \<Rightarrow> int \<times> 'f mstate" where
  "styio_matrix_hadamard_f64 of_i64 lhs rhs st = elementwise_f64 of_i64 (*) lhs rhs st"

definition styio_matrix_matmul_i64 :: "int \<Rightarrow> int \<Rightarrow> 'f mstate \<Rightarrow> int \<times> 'f mstate" where
  "styio_matrix_matmul_i64 lhs rhs st =
     (case two_matrices_i64 lhs rhs st of
        (None, st) \<Rightarrow> (0, st)
      | (Some (a, b), st) \<Rightarrow>
          (case (a, b) of ((ar, ac, as), (br, bc, bs)) \<Rightarrow>
             if ac \<noteq> br then
               (0, matrix_error_once subcode_matrix_shape ''matrix multiplication shape mismatch'' st)
             else
               stash_matrix (MatrixI64 ar bc
                 (fill_matrix ar bc (matrix_offset bc)
                   (\<lambda>r c. sum_loop ac (\<lambda>k. as ! matrix_offset ac r k * bs ! matrix_offset bc k c))
                   (blank_i64 ar bc))) st))"

definition styio_matrix_matmul_f64 ::
    "(64 word \<Rightarrow> 'f) \<Rightarrow> int \<Rightarrow> int \<Rightarrow> 'f :: {zero, plus, times} mstate \<Rightarrow> int \<times> 'f mstate" where
  "styio_matrix_matmul_f64 of_i64 lhs rhs st =
     (case two_matrices lhs rhs st of
        (None, st) \<Rightarrow> (0, st)
      | (Some (a, b), st) \<Rightarrow>
          if m_cols a \<noteq> m_rows b then
            (0, matrix_error_once subcode_matrix_shape ''matrix multiplication shape mismatch'' st)
          else
            stash_matrix (MatrixF64 (m_rows a) (m_cols b)
              (fill_matrix (m_rows a) (m_cols b) (matrix_offset (m_cols b))
                (\<lambda>r c. sum_loop (m_cols a) (\<lambda>k. fst (styio_matrix_get_f64 of_i64 lhs r k st)
                                              * fst (styio_matrix_get_f64 of_i64 rhs k c st)))
                (blank_f64 (m_rows a) (m_cols b)))) st)"

definition styio_matrix_scale_i64 :: "int \<Rightarrow> 64 word \<Rightarrow> 'f mstate \<Rightarrow> int \<times> 'f mstate" where
  "styio_matrix_scale_i64 h scalar st =
     (case as_matrix_i64 h True st of
        (None, st) \<Rightarrow> (0, st)
      | (Some (r, c, es), st) \<Rightarrow> stash_matrix (map_elems_i64 (\<lambda>i. es ! i * scalar) (r, c, es)) st)"

definition styio_matrix_scale_f64 ::
    "(64 word \<Rightarrow> 'f) \<Rightarrow> int \<Rightarrow> 'f \<Rightarrow> 'f :: {zero, times} mstate \<Rightarrow> int \<times> 'f mstate" where
  "styio_matrix_scale_f64 of_i64 h scalar st =
     (case as_matrix_base h True st of
        (None, st) \<Rightarrow> (0, st)
      | (Some m, st) \<Rightarrow> stash_matrix (map_elems_f64 (\<lambda>i. elem_f64 of_i64 m i * scalar) m) st)"

definition styio_matrix_transpose_i64 :: "int \<Rightarrow> 'f mstate \<Rightarrow> int \<times> 'f mstate" where
  "styio_matrix_transpose_i64 h st =
     (case as_matrix_i64 h True st of
        (None, st) \<Rightarrow> (0, st)
      | (Some (r, c, es), st) \<Rightarrow>
          stash_matrix (MatrixI64 c r
            (fill_matrix r c (\<lambda>i j. matrix_offset r j i) (\<lambda>i j. es ! matrix_offset c i j) (blank_i64 c r))) st)"

definition styio_matrix_transpose_f64 :: "(64 word \<Rightarrow> 'f) \<Rightarrow> int \<Rightarrow> 'f :: zero mstate \<Rightarrow> int \<times> 'f mstate" where
  "styio_matrix_transpose_f64 of_i64 h st =
     (case as_matrix_base h True st of
        (None, st) \<Rightarrow> (0, st)
      | (Some m, st) \<Rightarrow>
          stash_matrix (MatrixF64 (m_cols m) (m_rows m)
            (fill_matrix (m_rows m) (m_cols m) (\<lambda>i j. matrix_offset (m_rows m) j i)
              (\<lambda>i j. fst (styio_matrix_get_f64 of_i64 h i j st)) (blank_f64 (m_cols m) (m_rows m)))) st)"

definition styio_matrix_dot_i64 :: "int \<Rightarrow> int \<Rightarrow> 'f mstate \<Rightarrow> 64 word \<times> 'f mstate" where
  "styio_matrix_dot_i64 lhs rhs st =
     (case two_matrices_i64 lhs rhs st of
        (None, st) \<Rightarrow> (0, st)
      | (Some (a, b), st) \<Rightarrow>
          (case (a, b) of ((ar, ac, as), (br, bc, bs)) \<Rightarrow>
             (case same_matrix_shape (ar, ac) (br, bc) st of
                (False, st) \<Rightarrow> (0, st)
              | (True, st) \<Rightarrow> (fold (\<lambda>i sum. sum + as ! i * bs ! i) [0..<length as] 0, st))))"

definition styio_matrix_dot_f64 ::
    "(64 word \<Rightarrow> 'f) \<Rightarrow> int \<Rightarrow> int \<Rightarrow> 'f :: {zero, plus, times} mstate \<Rightarrow> 'f \<times> 'f mstate" where
  "styio_matrix_dot_f64 of_i64 lhs rhs st =
     (case two_matrices lhs rhs st of
        (None, st) \<Rightarrow> (0, st)
      | (Some (a, b), st) \<Rightarrow>
          (case same_matrix_shape (m_rows a, m_cols a) (m_rows b, m_cols b) st of
             (False, st) \<Rightarrow> (0, st)
           | (True, st) \<Rightarrow>
               (sum_loops (m_rows a) (m_cols a)
                  (\<lambda>r c. fst (styio_matrix_get_f64 of_i64 lhs r c st) * fst (styio_matrix_get_f64 of_i64 rhs r c st)),
                st)))"

definition styio_matrix_sum_i64 :: "int \<Rightarrow> 'f mstate \<Rightarrow> 64 word \<times> 'f mstate" where
  "styio_matrix_sum_i64 h st =
     (case as_matrix_i64 h True st of
        (None, st) \<Rightarrow> (0, st)
      | (Some (r, c, es), st) \<Rightarrow> (fold (\<lambda>v sum. sum + v) es 0, st))"

definition styio_matrix_sum_f64 :: "(64 word \<Rightarrow> 'f) \<Rightarrow> int \<Rightarrow> 'f :: {zero, plus} mstate \<Rightarrow> 'f \<times> 'f mstate" where
  "styio_matrix_sum_f64 of_i64 h st =
     (case as_matrix_base h True st of
        (None, st) \<Rightarrow> (0, st)
      | (Some m, st) \<Rightarrow>
          (sum_loops (m_rows m) (m_cols m) (\<lambda>r c. fst (styio_matrix_get_f64 of_i64 h r c st)), st))"

definition styio_matrix_norm ::
    "(64 word \<Rightarrow> 'f) \<Rightarrow> ('f \<Rightarrow> 'f) \<Rightarrow> int \<Rightarrow> 'f :: {zero, plus, times} mstate \<Rightarrow> 'f \<times> 'f mstate" where
  "styio_matrix_norm of_i64 square_root h st =
     (case as_matrix_base h True st of
        (None, st) \<Rightarrow> (0, st)
      | (Some m, st) \<Rightarrow>
          (square_root (sum_loops (m_rows m) (m_cols m)
             (\<lambda>r c. let v = fst (styio_matrix_get_f64 of_i64 h r c st) in v * v)), st))"

subsection \<open>Printing and releasing\<close>

fun elem_text :: "('f \<Rightarrow> string) \<Rightarrow> 'f styio_matrix \<Rightarrow> nat \<Rightarrow> string" where
  "elem_text fmt (MatrixF64 r c es) i = fmt (es ! i)"
| "elem_text fmt (MatrixI64 r c es) i = to_string_int (sint (es ! i))"

definition styio_matrix_to_cstr :: "('f \<Rightarrow> string) \<Rightarrow> int \<Rightarrow> 'f mstate \<Rightarrow> string \<times> 'f mstate" where
  "styio_matrix_to_cstr fmt h st =
     (case as_matrix_base h True st of
        (None, st) \<Rightarrow> (''[]'', st)
      | (Some m, st) \<Rightarrow>
          (''['' @ comma_list (\<lambda>r. ''['' @ comma_list (\<lambda>c. elem_text fmt m (matrix_offset (m_cols m) r c)) [0..m_cols m - 1] @ '']'')
             [0..m_rows m - 1] @ '']'', st))"

definition close_matrix :: "'f mstate \<Rightarrow> 'f mstate" where
  "close_matrix st =
     (if 0 < mt_active_matrices st then st \<lparr> mt_active_matrices := mt_active_matrices st - 1 \<rparr> else st)"

definition styio_matrix_release :: "int \<Rightarrow> 'f mstate \<Rightarrow> 'f mstate" where
  "styio_matrix_release h st =
     (case release h HK_Matrix (mt_table st) of
        (released, None, t) \<Rightarrow> st \<lparr> mt_table := t \<rparr>
      | (released, Some raw, t) \<Rightarrow> close_matrix (st \<lparr> mt_table := t \<rparr>))"

definition styio_matrix_active_count :: "'f mstate \<Rightarrow> i64" where
  "styio_matrix_active_count st = mt_active_matrices st"

definition styio_matrix_sub_f64 ::
    "(64 word \<Rightarrow> 'f) \<Rightarrow> int \<Rightarrow> int \<Rightarrow> 'f :: {zero, one, uminus, plus, times} mstate \<Rightarrow> int \<times> 'f mstate" where
  "styio_matrix_sub_f64 of_i64 lhs rhs st =
     (let (neg, st) = styio_matrix_scale_f64 of_i64 rhs (- 1) st;
          (out, st) = styio_matrix_add_f64 of_i64 lhs neg st in
      (out, styio_matrix_release neg st))"

subsection \<open>Loops\<close>

lemma upto_ints: "[0..n - 1] = map int [0..<nat n]"
proof (cases "0 \<le> n")
  case True
  have "[0..int k - 1] = map int [0..<k]" for k
    by (induction k) (simp_all add: upto_rec2)
  from this [of "nat n"] True show ?thesis by simp
qed simp

lemma nested_fold: "fold (\<lambda>r s. fold (\<lambda>c s. g r c s) cs s) rs s = fold (\<lambda>(r, c) s. g r c s) (List.product rs cs) s"
proof (induction rs arbitrary: s)
  case (Cons r rs)
  have "fold (\<lambda>c s. g r c s) cs s = fold (\<lambda>(r, c) s. g r c s) (map (Pair r) cs) s" for s
    by (induction cs arbitrary: s) simp_all
  with Cons show ?case by simp
qed simp

lemma length_update_fold [simp]: "length (fold (\<lambda>x es. es[g x := v x]) xs es) = length es"
  by (induction xs arbitrary: es) simp_all

lemma update_fold_other: "j \<notin> g ` set xs \<Longrightarrow> fold (\<lambda>x es. es[g x := v x]) xs es ! j = es ! j"
  by (induction xs arbitrary: es) auto

lemma update_fold_nth:
  "inj_on g (set xs) \<Longrightarrow> x \<in> set xs \<Longrightarrow> g x < length es \<Longrightarrow> fold (\<lambda>x es. es[g x := v x]) xs es ! g x = v x"
proof (induction xs arbitrary: es)
  case (Cons y ys)
  show ?case
  proof (cases "x \<in> set ys")
    case True
    with Cons show ?thesis by (simp add: inj_on_insert)
  next
    case False
    with Cons.prems(2) have "x = y" by simp
    with False Cons.prems(1) have "g y \<notin> g ` set ys" by auto
    from update_fold_other [OF this, of v "es[g y := v y]"] \<open>x = y\<close> Cons.prems(3) show ?thesis by simp
  qed
qed simp

lemma set_upto: "set [0..n - 1 :: int] = {0..<n}"
  by auto

lemma fill_matrix_fold:
  "fill_matrix rows cols off f es =
     fold (\<lambda>p es. es[case p of (r, c) \<Rightarrow> off r c := case p of (r, c) \<Rightarrow> f r c]) (List.product [0..rows - 1] [0..cols - 1]) es"
  by (simp add: fill_matrix_def nested_fold split_def)

lemma length_fill_matrix [simp]: "length (fill_matrix rows cols off f es) = length es"
  by (simp add: fill_matrix_fold)

lemma fill_matrix_nth:
  assumes "inj_on (\<lambda>(r, c). off r c) ({0..<rows} \<times> {0..<cols})"
    and "0 \<le> r" "r < rows" "0 \<le> c" "c < cols" "off r c < length es"
  shows "fill_matrix rows cols off f es ! off r c = f r c"
proof -
  let ?xs = "List.product [0..rows - 1] [0..cols - 1]"
  have s: "set ?xs = {0..<rows} \<times> {0..<cols}" by (simp only: set_product set_upto)
  have "(r, c) \<in> set ?xs" using assms(2-5) by (simp only: s) simp
  from update_fold_nth [of "\<lambda>(r, c). off r c" ?xs, OF _ this, where v = "\<lambda>(r, c). f r c" and es = es] assms(1,6)
  show ?thesis unfolding s by (simp add: fill_matrix_fold)
qed

lemma sum_loop_sum: "sum_loop n f = (\<Sum>k \<in> {0..<n}. f k :: 'a :: comm_monoid_add)"
proof -
  have "fold (\<lambda>k s. s + f k) xs a = a + sum_list (map f xs)" for xs a
    by (induction xs arbitrary: a) (simp_all add: ac_simps)
  then have "sum_loop n f = sum_list (map f [0..n - 1])" by (simp add: sum_loop_def)
  also have "\<dots> = sum f (set [0..n - 1])" by (rule sum_list_distinct_conv_sum_set) simp
  finally show ?thesis by (simp only: set_upto)
qed

subsection \<open>Offsets and entries\<close>

lemma offset_div_mod:
  assumes "0 \<le> r" "0 \<le> c" "c < cols"
  shows "int (matrix_offset cols r c) div cols = r" "int (matrix_offset cols r c) mod cols = c"
proof -
  have "int (matrix_offset cols r c) = c + r * cols" using assms by (simp add: matrix_offset_def)
  then show "int (matrix_offset cols r c) div cols = r" "int (matrix_offset cols r c) mod cols = c"
    using assms by simp_all
qed

lemma offset_inj: "inj_on (\<lambda>(r, c). matrix_offset cols r c) ({0..<rows} \<times> {0..<cols})"
proof (rule inj_onI, clarify)
  fix r c r' c' assume "r \<in> {0..<rows}" "c \<in> {0..<cols}" "r' \<in> {0..<rows}" "c' \<in> {0..<cols}"
    and e: "matrix_offset cols r c = matrix_offset cols r' c'"
  then show "r = r' \<and> c = c'"
    using offset_div_mod [of r c cols] offset_div_mod [of r' c' cols] by simp
qed

lemma offset_inj_swap: "inj_on (\<lambda>(r, c). matrix_offset rows c r) ({0..<rows} \<times> {0..<cols})"
proof (rule inj_onI, clarify)
  fix r c r' c' assume "r \<in> {0..<rows}" "c \<in> {0..<cols}" "r' \<in> {0..<rows}" "c' \<in> {0..<cols}"
    and e: "matrix_offset rows c r = matrix_offset rows c' r'"
  then show "r = r' \<and> c = c'"
    using offset_div_mod [of c r rows] offset_div_mod [of c' r' rows] by simp
qed

lemma offset_less:
  assumes "0 \<le> r" "r < rows" "0 \<le> c" "c < cols"
  shows "matrix_offset cols r c < nat (rows * cols)"
proof -
  have "r * cols + c < r * cols + cols" using assms by simp
  also have "\<dots> \<le> (rows - 1) * cols + cols" using assms by (simp add: mult_right_mono)
  also have "\<dots> = rows * cols" by (simp add: algebra_simps)
  finally show ?thesis using assms by (simp add: matrix_offset_def)
qed

lemma offset_ex:
  assumes "j < nat (rows * cols)" "0 < cols"
  obtains r c where "0 \<le> r" "r < rows" "0 \<le> c" "c < cols" "matrix_offset cols r c = j"
proof
  show "0 \<le> int j div cols" "0 \<le> int j mod cols" "int j mod cols < cols" using assms(2) by (simp_all add: pos_imp_zdiv_nonneg_iff)
  have "int j < rows * cols" using assms by linarith
  moreover have "int j div cols * cols \<le> int j"
    using assms(2) pos_mod_sign [of cols "int j"] div_mult_mod_eq [of "int j" cols] by linarith
  ultimately have "int j div cols * cols < rows * cols" by linarith
  then show "int j div cols < rows" using assms(2) by simp
  show "matrix_offset cols (int j div cols) (int j mod cols) = j" by (simp add: matrix_offset_def)
qed

subsection \<open>Invariant\<close>

fun matrix_wf :: "'f styio_matrix \<Rightarrow> bool" where
  "matrix_wf (MatrixI64 r c es) \<longleftrightarrow> 0 < r \<and> 0 < c \<and> length es = nat (r * c)"
| "matrix_wf (MatrixF64 r c es) \<longleftrightarrow> 0 < r \<and> 0 < c \<and> length es = nat (r * c)"

fun stored_well :: "handle_kind \<times> 'f mobject \<Rightarrow> bool" where
  "stored_well (k, Matrix m) \<longleftrightarrow> k = HK_Matrix \<and> matrix_wf m"
| "stored_well (k, Container obj) \<longleftrightarrow> k = kind_of obj"

text \<open>The matrix behind a handle, and the handles of matrices.\<close>

definition matrix_at :: "'f mstate \<Rightarrow> int \<Rightarrow> 'f styio_matrix option" where
  "matrix_at st h = (case live (mt_table st) h of Some (k, Matrix m) \<Rightarrow> Some m | _ \<Rightarrow> None)"

definition matrix_handles :: "'f mstate \<Rightarrow> int set" where
  "matrix_handles st = {h. matrix_at st h \<noteq> None}"

text \<open>
  Every handle that resolves to a matrix is of kind \<open>Matrix\<close> and the matrix has as many elements as its
  dimensions, which are positive, say; the count of live matrices is exact.
\<close>

definition matrices_ok :: "'f mstate \<Rightarrow> bool" where
  "matrices_ok st \<longleftrightarrow>
     table_inv (mt_table st)
     \<and> (\<forall>h kobj. live (mt_table st) h = Some kobj \<longrightarrow> stored_well kobj)
     \<and> mt_active_matrices st = int (card (matrix_handles st))"

definition initial_mstate :: "'f mstate" where
  "initial_mstate = \<lparr> mt_table = empty_table, mt_error = False, mt_error_message = [], mt_error_subcode = [],
     mt_active_lists = 0, mt_active_matrices = 0 \<rparr>"

lemma initial_matrices_ok: "matrices_ok initial_mstate"
  by (simp add: matrices_ok_def initial_mstate_def empty_table_inv matrix_handles_def matrix_at_def)

lemma error_sel [simp]:
  "mt_table (matrix_error_once s m st) = mt_table st"
  "mt_active_matrices (matrix_error_once s m st) = mt_active_matrices st"
  by (simp_all add: matrix_error_once_def Let_def)

lemma matrix_at_error [simp]: "matrix_at (matrix_error_once s m st) = matrix_at st"
  by (simp add: matrix_at_def fun_eq_iff)

lemma matrices_ok_error [simp]: "matrices_ok (matrix_error_once s m st) = matrices_ok st"
  by (simp add: matrices_ok_def matrix_handles_def)

lemma live_not_zero [simp]: "live t 0 = None"
  by (simp add: live_def entry_for_def is_indexable_def)

lemma matrix_at_wf: "matrices_ok st \<Longrightarrow> matrix_at st h = Some m \<Longrightarrow> matrix_wf m"
  by (fastforce simp: matrices_ok_def matrix_at_def split: option.splits prod.splits mobject.splits)

lemma matrix_at_live: "matrices_ok st \<Longrightarrow> matrix_at st h = Some m \<longleftrightarrow> live (mt_table st) h = Some (HK_Matrix, Matrix m)"
  by (fastforce simp: matrices_ok_def matrix_at_def split: option.splits prod.splits mobject.splits)

lemma finite_live: "finite {h. live t h \<noteq> None}"
proof (rule finite_subset)
  show "{h. live t h \<noteq> None} \<subseteq> {1..int (length (entries t))}"
    by (auto simp: live_def entry_for_in_range in_range_def split: option.splits if_splits)
qed simp

lemma finite_matrix_handles [simp]: "finite (matrix_handles st)"
proof (rule finite_subset [OF _ finite_live])
  show "matrix_handles st \<subseteq> {h. live (mt_table st) h \<noteq> None}"
    by (auto simp: matrix_handles_def matrix_at_def split: option.splits)
qed

text \<open>What the accessors find.\<close>

lemma as_matrix_base_at:
  assumes "matrices_ok st"
  shows "fst (as_matrix_base h d st) = matrix_at st h"
    and "matrix_at st h = Some m \<Longrightarrow> as_matrix_base h d st = (Some m, st)"
proof -
  have k: "live (mt_table st) h = Some (k, Container obj) \<Longrightarrow> k \<noteq> HK_Matrix" for k obj
    using assms by (cases obj) (fastforce simp: matrices_ok_def)+
  have m: "live (mt_table st) h = Some (k, Matrix m) \<Longrightarrow> k = HK_Matrix" for k m
    using assms by (fastforce simp: matrices_ok_def)
  show "fst (as_matrix_base h d st) = matrix_at st h"
    using k m by (auto simp: as_matrix_base_def lookup_live matrix_at_def split: option.splits prod.splits mobject.splits)
  show "matrix_at st h = Some m \<Longrightarrow> as_matrix_base h d st = (Some m, st)"
    using k m by (auto simp: as_matrix_base_def lookup_live matrix_at_def split: option.splits prod.splits mobject.splits)
qed

text \<open>A lookup that does not change the tables: it leaves the state or adds an error.\<close>

definition reports :: "'f mstate \<Rightarrow> 'f mstate \<Rightarrow> bool" where
  "reports st st' \<longleftrightarrow> mt_table st' = mt_table st \<and> mt_active_lists st' = mt_active_lists st
     \<and> mt_active_matrices st' = mt_active_matrices st
     \<and> (st' = st \<or> mt_error st' \<and> (mt_error_message st \<noteq> [] \<longrightarrow>
          mt_error_message st' = mt_error_message st \<and> mt_error_subcode st' = mt_error_subcode st))"

lemma reports_refl [simp]: "reports st st"
  by (simp add: reports_def)

lemma reports_error [simp]: "reports st (matrix_error_once s m st)"
  by (simp add: reports_def matrix_error_once_def Let_def)

lemma reports_trans: "reports a b \<Longrightarrow> reports b c \<Longrightarrow> reports a c"
  by (auto simp: reports_def)

lemma reports_ok: "reports st st' \<Longrightarrow> matrices_ok st' = matrices_ok st" "reports st st' \<Longrightarrow> matrix_at st' = matrix_at st"
  by (auto simp: reports_def matrices_ok_def matrix_handles_def matrix_at_def fun_eq_iff)

lemma as_matrix_base_reports: "as_matrix_base h d st = (x, st') \<Longrightarrow> reports st st'"
  by (auto simp: as_matrix_base_def split: option.splits mobject.splits if_splits)

lemma as_matrix_i64_reports: "as_matrix_i64 h d st = (x, st') \<Longrightarrow> reports st st'"
  by (auto simp: as_matrix_i64_def split: prod.splits option.splits styio_matrix.splits if_splits
      dest!: as_matrix_base_reports intro: reports_trans)

lemma as_matrix_f64_reports: "as_matrix_f64 h d st = (x, st') \<Longrightarrow> reports st st'"
  by (auto simp: as_matrix_f64_def split: prod.splits option.splits styio_matrix.splits if_splits
      dest!: as_matrix_base_reports intro: reports_trans)

lemma as_matrix_i64_at:
  assumes "matrices_ok st"
  shows "as_matrix_i64 h d st = (Some (r, c, es), st') \<Longrightarrow> matrix_at st h = Some (MatrixI64 r c es) \<and> st' = st"
    and "matrix_at st h = Some (MatrixI64 r c es) \<Longrightarrow> as_matrix_i64 h d st = (Some (r, c, es), st)"
  using as_matrix_base_at [OF assms, where h = h and d = d]
  by (cases "matrix_at st h"; auto simp: as_matrix_i64_def split: prod.splits option.splits styio_matrix.splits)+

lemma as_matrix_f64_at:
  assumes "matrices_ok st"
  shows "as_matrix_f64 h d st = (Some (r, c, fs), st') \<Longrightarrow> matrix_at st h = Some (MatrixF64 r c fs) \<and> st' = st"
  using as_matrix_base_at [OF assms, where h = h and d = d]
  by (cases "matrix_at st h"; auto simp: as_matrix_f64_def split: prod.splits option.splits styio_matrix.splits)

lemma as_matrix_base_Some:
  assumes "matrices_ok st"
  shows "as_matrix_base h d st = (Some m, st') \<Longrightarrow> matrix_at st h = Some m \<and> st' = st"
  using as_matrix_base_at [OF assms, where h = h and d = d] by (cases "matrix_at st h") auto

subsection \<open>What the operations do to the matrices\<close>

text \<open>A fresh handle for an object, every other handle as before.\<close>

lemma stash_matrix_spec:
  assumes "matrices_ok st" "matrix_wf m" "stash_matrix m st = (h, st')"
  shows "matrices_ok st'" "0 < h" "matrix_at st h = None" "matrix_at st' = (matrix_at st)(h \<mapsto> m)"
    "mt_error st' = mt_error st" "mt_error_message st' = mt_error_message st"
proof -
  from assms(3) obtain t where a: "acquire HK_Matrix (Some (Matrix m)) (mt_table st) = (h, t)"
    and st': "st' = st \<lparr> mt_table := t, mt_active_matrices := mt_active_matrices st + 1 \<rparr>"
    by (auto simp: stash_matrix_def split: prod.splits)
  from assms(1) have i: "table_inv (mt_table st)" by (simp add: matrices_ok_def)
  note s = acquire_spec [OF i a]
  show "0 < h" "mt_error st' = mt_error st" "mt_error_message st' = mt_error_message st" using s(2) by (simp_all add: st')
  show fresh: "matrix_at st h = None" using s(3) by (simp add: matrix_at_def)
  show at: "matrix_at st' = (matrix_at st)(h \<mapsto> m)" by (simp add: matrix_at_def st' s(4) fun_eq_iff)
  have "matrix_handles st' = insert h (matrix_handles st)" by (auto simp: matrix_handles_def at)
  moreover have "h \<notin> matrix_handles st" by (simp add: matrix_handles_def fresh)
  ultimately show "matrices_ok st'"
    using assms(1,2) s(1) by (auto simp: matrices_ok_def st' s(4))
qed

lemma stash_list_spec:
  assumes "matrices_ok st" "stash_matrix_list l st = (h, st')"
  shows "matrices_ok st'" "live (mt_table st) h = None" "matrix_at st' = matrix_at st"
    "live (mt_table st') = (live (mt_table st))(h \<mapsto> (HK_List, Container (OList l)))"
proof -
  from assms(2) obtain t where a: "acquire HK_List (Some (Container (OList l))) (mt_table st) = (h, t)"
    and st': "st' = st \<lparr> mt_table := t, mt_active_lists := mt_active_lists st + 1 \<rparr>"
    by (auto simp: stash_matrix_list_def split: prod.splits)
  from assms(1) have i: "table_inv (mt_table st)" by (simp add: matrices_ok_def)
  note s = acquire_spec [OF i a]
  show "live (mt_table st) h = None" by (rule s(3))
  show "live (mt_table st') = (live (mt_table st))(h \<mapsto> (HK_List, Container (OList l)))" by (simp add: st' s(4))
  show at: "matrix_at st' = matrix_at st"
    using s(3) by (simp add: matrix_at_def st' s(4) fun_eq_iff)
  then have "matrix_handles st' = matrix_handles st" by (simp add: matrix_handles_def)
  then show "matrices_ok st'"
    using assms(1) s(1) by (auto simp: matrices_ok_def st' s(4))
qed

lemma put_matrix_spec:
  assumes "matrices_ok st" "matrix_at st h = Some old" "matrix_wf m"
  shows "matrices_ok (put_matrix h m st)" "matrix_at (put_matrix h m st) = (matrix_at st)(h \<mapsto> m)"
proof -
  from assms(1) have i: "table_inv (mt_table st)" by (simp add: matrices_ok_def)
  from assms(1,2) have "live (mt_table st) h = Some (HK_Matrix, Matrix old)" by (simp add: matrix_at_live)
  note s = store_live [OF i this, of "Matrix m"]
  show at: "matrix_at (put_matrix h m st) = (matrix_at st)(h \<mapsto> m)"
    by (simp add: matrix_at_def put_matrix_def s(1) fun_eq_iff)
  have "matrix_handles (put_matrix h m st) = insert h (matrix_handles st)" by (auto simp: matrix_handles_def at)
  moreover have "h \<in> matrix_handles st" using assms(2) by (simp add: matrix_handles_def)
  ultimately have "matrix_handles (put_matrix h m st) = matrix_handles st" by auto
  then show "matrices_ok (put_matrix h m st)"
    using assms(1,3) s by (auto simp: matrices_ok_def put_matrix_def)
qed

lemma release_spec:
  assumes "matrices_ok st"
  shows "matrices_ok (styio_matrix_release h st)" "matrix_at (styio_matrix_release h st) = (matrix_at st)(h := None)"
proof -
  from assms have i: "table_inv (mt_table st)" by (simp add: matrices_ok_def)
  have "matrices_ok (styio_matrix_release h st) \<and> matrix_at (styio_matrix_release h st) = (matrix_at st)(h := None)"
  proof (cases "matrix_at st h")
    case None
    have "\<forall>k p. live (mt_table st) h = Some (k, p) \<longrightarrow> \<not> accepts HK_Matrix k"
    proof (intro allI impI)
      fix k p assume l: "live (mt_table st) h = Some (k, p)"
      with assms have "stored_well (k, p)" by (simp add: matrices_ok_def)
      moreover from l None obtain obj where "p = Container obj" by (cases p) (auto simp: matrix_at_def)
      ultimately show "\<not> accepts HK_Matrix k" by (cases obj) (auto simp: accepts_def)
    qed
    from release_miss [OF i this] have "styio_matrix_release h st = st" by (simp add: styio_matrix_release_def)
    with assms None show ?thesis by auto
  next
    case (Some m)
    with assms have l: "live (mt_table st) h = Some (HK_Matrix, Matrix m)" by (simp add: matrix_at_live)
    from release_hit [OF i l, of HK_Matrix] obtain t where
      t: "release h HK_Matrix (mt_table st) = (True, Some (Matrix m), t)" "table_inv t" "live t = (live (mt_table st))(h := None)"
      by (auto simp: accepts_def)
    have h: "h \<in> matrix_handles st" using Some by (simp add: matrix_handles_def)
    then have c: "0 < card (matrix_handles st)" by (auto simp: card_gt_0_iff)
    with assms have "0 < mt_active_matrices st" by (simp add: matrices_ok_def)
    with t(1) have st': "styio_matrix_release h st = st \<lparr> mt_table := t, mt_active_matrices := mt_active_matrices st - 1 \<rparr>"
      by (simp add: styio_matrix_release_def close_matrix_def)
    have at: "matrix_at (styio_matrix_release h st) = (matrix_at st)(h := None)"
      by (simp add: st' matrix_at_def t(3) fun_eq_iff)
    then have hs: "matrix_handles (styio_matrix_release h st) = matrix_handles st - {h}"
      by (auto simp: matrix_handles_def)
    with h c assms have "mt_active_matrices (styio_matrix_release h st) = int (card (matrix_handles (styio_matrix_release h st)))"
      by (simp add: matrices_ok_def st' card_Diff_singleton of_nat_diff)
    with assms t(2,3) have "matrices_ok (styio_matrix_release h st)" by (auto simp: matrices_ok_def st')
    with at show ?thesis by simp
  qed
  then show "matrices_ok (styio_matrix_release h st)" "matrix_at (styio_matrix_release h st) = (matrix_at st)(h := None)"
    by simp_all
qed

text \<open>The matrices the operations make have as many elements as their dimensions say.\<close>

lemma blank_length [simp]: "length (blank_i64 r c) = nat (r * c)" "length (blank_f64 r c) = nat (r * c)"
  by (simp_all add: blank_i64_def blank_f64_def)

lemma map_elems_wf:
  "matrix_wf m \<Longrightarrow> matrix_wf (map_elems_f64 f m)"
  "matrix_wf (MatrixI64 r c es) \<Longrightarrow> matrix_wf (map_elems_i64 g (r, c, es))"
  by (cases m; simp add: map_elems_f64_def) (simp add: map_elems_i64_def)

lemma check_dims_positive: "check_matrix_dims r c st = (True, st') \<Longrightarrow> 0 < r \<and> 0 < c \<and> st' = st"
  by (auto simp: check_matrix_dims_def split: if_splits)

lemma check_dims_reports: "check_matrix_dims r c st = (b, st') \<Longrightarrow> reports st st'"
  by (auto simp: check_matrix_dims_def split: if_splits)

lemma check_index_reports: "check_matrix_index r c i j st = (b, st') \<Longrightarrow> reports st st'"
  by (auto simp: check_matrix_index_def split: if_splits)

lemma matrix_index_in: "check_matrix_index r c i j st = (True, st') \<Longrightarrow> 0 \<le> i \<and> i < r \<and> 0 \<le> j \<and> j < c \<and> st' = st"
  by (auto simp: check_matrix_index_def split: if_splits)

lemma same_shape_reports: "same_matrix_shape a b st = (x, st') \<Longrightarrow> reports st st'"
  by (auto simp: same_matrix_shape_def split: if_splits)

lemma same_shape_eq: "same_matrix_shape a b st = (True, st') \<Longrightarrow> a = b \<and> st' = st"
  by (auto simp: same_matrix_shape_def split: if_splits)

lemma two_i64_reports: "two_matrices_i64 l r st = (x, st') \<Longrightarrow> reports st st'"
  by (auto simp: two_matrices_i64_def Let_def split: prod.splits dest!: as_matrix_i64_reports intro: reports_trans)

lemma two_reports: "two_matrices l r st = (x, st') \<Longrightarrow> reports st st'"
  by (auto simp: two_matrices_def Let_def split: prod.splits dest!: as_matrix_base_reports intro: reports_trans)

lemma two_i64_at:
  assumes "matrices_ok st" "two_matrices_i64 l r st = (Some ((ar, ac, as), (br, bc, bs)), st')"
  shows "matrix_at st l = Some (MatrixI64 ar ac as)" "matrix_at st r = Some (MatrixI64 br bc bs)" "st' = st"
proof -
  from assms(2) obtain s1 where a: "as_matrix_i64 l True st = (Some (ar, ac, as), s1)"
    and b: "as_matrix_i64 r True s1 = (Some (br, bc, bs), st')"
    by (auto simp: two_matrices_i64_def Let_def split: prod.splits option.splits)
  from as_matrix_i64_at(1) [OF assms(1) a] have s1: "matrix_at st l = Some (MatrixI64 ar ac as)" "s1 = st" by simp_all
  with as_matrix_i64_at(1) [OF assms(1)] b show "matrix_at st l = Some (MatrixI64 ar ac as)"
    "matrix_at st r = Some (MatrixI64 br bc bs)" "st' = st" by blast+
qed

lemma two_i64_find:
  assumes "matrices_ok st" "matrix_at st l = Some (MatrixI64 ar ac as)" "matrix_at st r = Some (MatrixI64 br bc bs)"
  shows "two_matrices_i64 l r st = (Some ((ar, ac, as), (br, bc, bs)), st)"
  using as_matrix_i64_at(2) [OF assms(1)] assms(2,3) by (simp add: two_matrices_i64_def)

lemma two_at:
  assumes "matrices_ok st" "two_matrices l r st = (Some (a, b), st')"
  shows "matrix_at st l = Some a" "matrix_at st r = Some b" "st' = st"
proof -
  from assms(2) obtain s1 where a: "as_matrix_base l True st = (Some a, s1)" and b: "as_matrix_base r True s1 = (Some b, st')"
    by (auto simp: two_matrices_def Let_def split: prod.splits option.splits)
  from as_matrix_base_Some [OF assms(1) a] have s1: "matrix_at st l = Some a" "s1 = st" by simp_all
  with as_matrix_base_Some [OF assms(1)] b show "matrix_at st l = Some a" "matrix_at st r = Some b" "st' = st" by blast+
qed

text \<open>Every operation keeps the invariant.\<close>

lemma ok_stash [intro]: "matrices_ok st \<Longrightarrow> matrix_wf m \<Longrightarrow> matrices_ok (snd (stash_matrix m st))"
  by (cases "stash_matrix m st") (auto dest: stash_matrix_spec)

lemma ok_stash_list [intro]: "matrices_ok st \<Longrightarrow> matrices_ok (snd (stash_matrix_list l st))"
  by (cases "stash_matrix_list l st") (auto dest: stash_list_spec)

lemma ok_by_cases:
  assumes "matrices_ok st" "\<And>x st'. f st = (x, st') \<Longrightarrow> reports st st'"
    and "\<And>x. f st = (Some x, st) \<Longrightarrow> matrices_ok (snd (g x st))"
    and "\<And>x st'. f st = (Some x, st') \<Longrightarrow> st' = st"
  shows "matrices_ok (snd (case f st of (None, st) \<Rightarrow> (z, st) | (Some x, st) \<Rightarrow> g x st))"
proof (cases "f st")
  case (Pair x st')
  with assms(2) have "reports st st'" by blast
  with assms(1) have "matrices_ok st'" by (simp add: reports_ok)
  with Pair assms(3,4) show ?thesis by (cases x) auto
qed

lemma ok_check:
  assumes "matrices_ok st" "\<And>b st'. f st = (b, st') \<Longrightarrow> reports st st'"
    and "\<And>st'. f st = (True, st') \<Longrightarrow> matrices_ok (snd (g st'))"
  shows "matrices_ok (snd (case f st of (False, st) \<Rightarrow> (z, st) | (True, st) \<Rightarrow> g st))"
proof (cases "f st")
  case (Pair b st')
  with assms(2) have "reports st st'" by blast
  with assms(1) have "matrices_ok st'" by (simp add: reports_ok)
  with Pair assms(3) show ?thesis by (cases b) auto
qed

lemma base_found: "matrices_ok st \<Longrightarrow> as_matrix_base h d st = (Some m, st') \<Longrightarrow> matrix_wf m"
  using as_matrix_base_Some matrix_at_wf by blast

lemma i64_found: "matrices_ok st \<Longrightarrow> as_matrix_i64 h d st = (Some (r, c, es), st') \<Longrightarrow> matrix_wf (MatrixI64 r c es :: 'f styio_matrix)"
  for st :: "'f mstate"
  using as_matrix_i64_at(1) matrix_at_wf by blast

lemma f64_found: "matrices_ok st \<Longrightarrow> as_matrix_f64 h d st = (Some (r, c, es), st') \<Longrightarrow> matrix_wf (MatrixF64 r c es)"
  using as_matrix_f64_at matrix_at_wf by blast

lemma wf_dims: "matrix_wf m \<Longrightarrow> 0 < m_rows m \<and> 0 < m_cols m"
  by (cases m) simp_all

lemma i64D: "as_matrix_i64 h d st = (Some (r, c, es), st') \<Longrightarrow> matrices_ok st \<Longrightarrow>
    st' = st \<and> 0 < r \<and> 0 < c \<and> length es = nat (r * c)"
  using as_matrix_i64_at(1) i64_found [of st h d r c es st'] by fastforce

lemma baseD: "as_matrix_base h d st = (Some m, st') \<Longrightarrow> matrices_ok st \<Longrightarrow>
    st' = st \<and> matrix_wf m \<and> 0 < m_rows m \<and> 0 < m_cols m"
  using as_matrix_base_Some base_found wf_dims by blast

lemma two_i64D:
  assumes "two_matrices_i64 l r st = (Some ((ar, ac, as), (br, bc, bs)), st')" "matrices_ok st"
  shows "st' = st \<and> 0 < ar \<and> 0 < ac \<and> 0 < br \<and> 0 < bc"
proof -
  note a = two_i64_at [OF assms(2,1)]
  from matrix_at_wf [OF assms(2) a(1)] matrix_at_wf [OF assms(2) a(2)] a(3) show ?thesis by simp
qed

lemma twoD:
  assumes "two_matrices l r st = (Some (a, b), st')" "matrices_ok st"
  shows "st' = st \<and> 0 < m_rows a \<and> 0 < m_cols a \<and> 0 < m_rows b \<and> 0 < m_cols b"
proof -
  note a = two_at [OF assms(2,1)]
  from matrix_at_wf [OF assms(2) a(1)] matrix_at_wf [OF assms(2) a(2)] a(3) show ?thesis by (simp add: wf_dims)
qed

named_theorems op_ok

lemma new_i64_ok [op_ok]: "matrices_ok st \<Longrightarrow> matrices_ok (snd (styio_matrix_new_i64 r c st))"
  unfolding styio_matrix_new_i64_def
  by (rule ok_check [OF _ check_dims_reports]) (auto dest!: check_dims_positive)

lemma new_f64_ok [op_ok]: "matrices_ok st \<Longrightarrow> matrices_ok (snd (styio_matrix_new_f64 r c st))"
  unfolding styio_matrix_new_f64_def
  by (rule ok_check [OF _ check_dims_reports]) (auto dest!: check_dims_positive)

lemma identity_i64_ok [op_ok]:
  assumes "matrices_ok st"
  shows "matrices_ok (snd (styio_matrix_identity_i64 n st))"
proof (cases "styio_matrix_new_i64 n n st")
  case (Pair h s1)
  with new_i64_ok [OF assms, of n n] have ok: "matrices_ok s1" by simp
  show ?thesis
  proof (cases "as_matrix_i64 h False s1")
    case p: (Pair x s2)
    show ?thesis
    proof (cases x)
      case None
      with Pair p as_matrix_i64_reports [OF p] ok show ?thesis
        by (simp add: styio_matrix_identity_i64_def reports_ok)
    next
      case (Some m)
      obtain r c es where m: "m = (r, c, es)" by (cases m)
      with as_matrix_i64_at(1) [OF ok] p Some have a: "matrix_at s1 h = Some (MatrixI64 r c es)" "s2 = s1" by blast+
      from matrix_at_wf [OF ok a(1)] have "matrix_wf (MatrixI64 r c (fold (\<lambda>i es. es[matrix_offset c i i := 1]) [0..n - 1] es) :: 'a styio_matrix)"
        by simp
      from put_matrix_spec(1) [OF ok a(1) this] Pair p Some m a(2) show ?thesis
        by (simp add: styio_matrix_identity_i64_def)
    qed
  qed
qed

lemma identity_f64_ok [op_ok]:
  assumes "matrices_ok st"
  shows "matrices_ok (snd (styio_matrix_identity_f64 n st))"
proof (cases "styio_matrix_new_f64 n n st")
  case (Pair h s1)
  with new_f64_ok [OF assms, of n n] have ok: "matrices_ok s1" by simp
  show ?thesis
  proof (cases "as_matrix_f64 h False s1")
    case p: (Pair x s2)
    show ?thesis
    proof (cases x)
      case None
      with Pair p as_matrix_f64_reports [OF p] ok show ?thesis
        by (simp add: styio_matrix_identity_f64_def reports_ok)
    next
      case (Some m)
      obtain r c es where m: "m = (r, c, es)" by (cases m)
      with as_matrix_f64_at(1) [OF ok] p Some have a: "matrix_at s1 h = Some (MatrixF64 r c es)" "s2 = s1" by blast+
      from matrix_at_wf [OF ok a(1)] have "matrix_wf (MatrixF64 r c (fold (\<lambda>i es. es[matrix_offset c i i := 1]) [0..n - 1] es))"
        by simp
      from put_matrix_spec(1) [OF ok a(1) this] Pair p Some m a(2) show ?thesis
        by (simp add: styio_matrix_identity_f64_def)
    qed
  qed
qed

lemma clone_i64_ok [op_ok]: "matrices_ok st \<Longrightarrow> matrices_ok (snd (styio_matrix_clone_i64 h st))"
  unfolding styio_matrix_clone_i64_def
  by (rule ok_by_cases) (auto dest: as_matrix_i64_reports as_matrix_i64_at(1) i64_found)

lemma clone_f64_ok [op_ok]: "matrices_ok st \<Longrightarrow> matrices_ok (snd (styio_matrix_clone_f64 of_i64 h st))"
  unfolding styio_matrix_clone_f64_def
  by (rule ok_by_cases) (auto dest: as_matrix_base_reports as_matrix_base_Some base_found intro: map_elems_wf)

lemma shape_ok [op_ok]: "matrices_ok st \<Longrightarrow> matrices_ok (snd (styio_matrix_shape h st))"
  unfolding styio_matrix_shape_def
  by (rule ok_by_cases) (auto dest: as_matrix_base_reports as_matrix_base_Some)

lemma row_i64_ok [op_ok]: "matrices_ok st \<Longrightarrow> matrices_ok (snd (styio_matrix_row_i64 h row st))"
  unfolding styio_matrix_row_i64_def
  by (rule ok_by_cases) (auto dest: as_matrix_i64_reports as_matrix_i64_at(1) check_index_reports matrix_index_in intro!: ok_check)

lemma row_f64_ok [op_ok]: "matrices_ok st \<Longrightarrow> matrices_ok (snd (styio_matrix_row_f64 of_i64 h row st))"
  unfolding styio_matrix_row_f64_def
  by (rule ok_by_cases) (auto dest: as_matrix_base_reports as_matrix_base_Some check_index_reports matrix_index_in intro!: ok_check)

lemma elementwise_i64_ok: "matrices_ok st \<Longrightarrow> matrices_ok (snd (elementwise_i64 f l r st))"
  unfolding elementwise_i64_def
  by (rule ok_by_cases [OF _ two_i64_reports])
    (auto dest: two_i64_at dest!: same_shape_eq intro!: ok_check [OF _ same_shape_reports] ok_stash map_elems_wf(2)
      intro: matrix_at_wf)

lemma elementwise_f64_ok: "matrices_ok st \<Longrightarrow> matrices_ok (snd (elementwise_f64 of_i64 f l r st))"
  unfolding elementwise_f64_def
  by (rule ok_by_cases [OF _ two_reports])
    (auto dest: two_at dest!: same_shape_eq intro!: ok_check [OF _ same_shape_reports] ok_stash map_elems_wf(1)
      intro: matrix_at_wf)

lemmas elementwise_ok [op_ok] =
  elementwise_i64_ok [of _ "(+)", folded styio_matrix_add_i64_def]
  elementwise_i64_ok [of _ "(-)", folded styio_matrix_sub_i64_def]
  elementwise_i64_ok [of _ "(*)", folded styio_matrix_hadamard_i64_def]
  elementwise_f64_ok [of _ _ "(+)", folded styio_matrix_add_f64_def]
  elementwise_f64_ok [of _ _ "(*)", folded styio_matrix_hadamard_f64_def]

lemma matmul_i64_ok [op_ok]: "matrices_ok st \<Longrightarrow> matrices_ok (snd (styio_matrix_matmul_i64 l r st))"
  unfolding styio_matrix_matmul_i64_def
  by (rule ok_by_cases [OF _ two_i64_reports])
    (auto dest!: two_i64D intro!: ok_stash)

lemma matmul_f64_ok [op_ok]: "matrices_ok st \<Longrightarrow> matrices_ok (snd (styio_matrix_matmul_f64 of_i64 l r st))"
  unfolding styio_matrix_matmul_f64_def
  by (rule ok_by_cases [OF _ two_reports])
    (auto dest!: twoD intro!: ok_stash)

lemma scale_i64_ok [op_ok]: "matrices_ok st \<Longrightarrow> matrices_ok (snd (styio_matrix_scale_i64 h k st))"
  unfolding styio_matrix_scale_i64_def
  by (rule ok_by_cases [OF _ as_matrix_i64_reports])
    (auto dest!: i64D intro!: ok_stash map_elems_wf(2))

lemma scale_f64_ok [op_ok]: "matrices_ok st \<Longrightarrow> matrices_ok (snd (styio_matrix_scale_f64 of_i64 h k st))"
  unfolding styio_matrix_scale_f64_def
  by (rule ok_by_cases [OF _ as_matrix_base_reports])
    (auto dest!: baseD intro!: ok_stash map_elems_wf(1))

lemma transpose_i64_ok [op_ok]: "matrices_ok st \<Longrightarrow> matrices_ok (snd (styio_matrix_transpose_i64 h st))"
  unfolding styio_matrix_transpose_i64_def
  by (rule ok_by_cases [OF _ as_matrix_i64_reports])
    (auto dest!: i64D intro!: ok_stash)

lemma transpose_f64_ok [op_ok]: "matrices_ok st \<Longrightarrow> matrices_ok (snd (styio_matrix_transpose_f64 of_i64 h st))"
  unfolding styio_matrix_transpose_f64_def
  by (rule ok_by_cases [OF _ as_matrix_base_reports])
    (auto dest!: baseD intro!: ok_stash)

lemma sub_f64_ok [op_ok]: "matrices_ok st \<Longrightarrow> matrices_ok (snd (styio_matrix_sub_f64 of_i64 l r st))"
  using scale_f64_ok [of st of_i64 r "- 1"] elementwise_ok(4) [of _ of_i64 l]
  by (auto simp: styio_matrix_sub_f64_def Let_def intro!: release_spec(1) split: prod.split) (metis snd_conv)

lemma set_i64_ok [op_ok]:
  assumes "matrices_ok st"
  shows "matrices_ok (styio_matrix_set_i64 h i j v st)"
proof (cases "as_matrix_i64 h True st")
  case p: (Pair x s1)
  show ?thesis
  proof (cases x)
    case None
    with p as_matrix_i64_reports [OF p] assms show ?thesis by (simp add: styio_matrix_set_i64_def reports_ok)
  next
    case (Some m)
    obtain r c es where m: "m = (r, c, es)" by (cases m)
    with as_matrix_i64_at(1) [OF assms] p Some have a: "matrix_at st h = Some (MatrixI64 r c es)" "s1 = st" by blast+
    with matrix_at_wf [OF assms a(1)] have "matrices_ok (put_matrix h (MatrixI64 r c (es[matrix_offset c i j := v])) st)"
      using assms by (intro put_matrix_spec(1)) auto
    with p Some m a(2) assms show ?thesis
      by (auto simp: styio_matrix_set_i64_def check_matrix_index_def)
  qed
qed

lemma set_f64_ok [op_ok]:
  assumes "matrices_ok st"
  shows "matrices_ok (styio_matrix_set_f64 h i j v st)"
proof (cases "as_matrix_f64 h True st")
  case p: (Pair x s1)
  show ?thesis
  proof (cases x)
    case None
    with p as_matrix_f64_reports [OF p] assms show ?thesis by (simp add: styio_matrix_set_f64_def reports_ok)
  next
    case (Some m)
    obtain r c es where m: "m = (r, c, es)" by (cases m)
    with as_matrix_f64_at [OF assms] p Some have a: "matrix_at st h = Some (MatrixF64 r c es)" "s1 = st" by blast+
    with matrix_at_wf [OF assms a(1)] have "matrices_ok (put_matrix h (MatrixF64 r c (es[matrix_offset c i j := v])) st)"
      using assms by (intro put_matrix_spec(1)) auto
    with p Some m a(2) assms show ?thesis
      by (auto simp: styio_matrix_set_f64_def check_matrix_index_def)
  qed
qed

text \<open>The functions that only read: they leave the state or report an error.\<close>

lemma reads_report:
  "reports st (snd (styio_matrix_rows h st))" "reports st (snd (styio_matrix_cols h st))"
  "reports st (snd (styio_matrix_get_i64 h i j st))" "reports st (snd (styio_matrix_get_f64 of_i64 h i j st))"
  "reports st (snd (styio_matrix_dot_i64 h h' st))" "reports st (snd (styio_matrix_dot_f64 of_i64 h h' st))"
  "reports st (snd (styio_matrix_sum_i64 h st))" "reports st (snd (styio_matrix_sum_f64 of_i64 h st))"
  "reports st (snd (styio_matrix_norm of_i64 sq h st))" "reports st (snd (styio_matrix_to_cstr fmt h st))"
  for st :: "'f :: {zero, plus, times} mstate"
  by (auto simp: styio_matrix_rows_def styio_matrix_cols_def styio_matrix_get_i64_def styio_matrix_get_f64_def
      styio_matrix_dot_i64_def styio_matrix_dot_f64_def styio_matrix_sum_i64_def styio_matrix_sum_f64_def
      styio_matrix_norm_def styio_matrix_to_cstr_def split: prod.split option.split bool.split
      dest!: as_matrix_base_reports as_matrix_i64_reports two_i64_reports two_reports check_index_reports same_shape_reports
      intro: reports_trans)

lemma reports_keep_ok [op_ok]: "matrices_ok st \<Longrightarrow> reports st st' \<Longrightarrow> matrices_ok st'"
  by (simp add: reports_ok)

text \<open>The calls a program makes, one after the other; a call that only reads is any of \<open>reads_report\<close>.\<close>

inductive matrix_step :: "(64 word \<Rightarrow> 'f) \<Rightarrow> 'f :: {zero, one, uminus, plus, times} mstate \<Rightarrow> 'f mstate \<Rightarrow> bool"
  for of_i64 where
  new_i64: "matrix_step of_i64 st (snd (styio_matrix_new_i64 r c st))"
| new_f64: "matrix_step of_i64 st (snd (styio_matrix_new_f64 r c st))"
| identity_i64: "matrix_step of_i64 st (snd (styio_matrix_identity_i64 n st))"
| identity_f64: "matrix_step of_i64 st (snd (styio_matrix_identity_f64 n st))"
| clone_i64: "matrix_step of_i64 st (snd (styio_matrix_clone_i64 h st))"
| clone_f64: "matrix_step of_i64 st (snd (styio_matrix_clone_f64 of_i64 h st))"
| rows: "matrix_step of_i64 st (snd (styio_matrix_rows h st))"
| cols: "matrix_step of_i64 st (snd (styio_matrix_cols h st))"
| shape: "matrix_step of_i64 st (snd (styio_matrix_shape h st))"
| get_i64: "matrix_step of_i64 st (snd (styio_matrix_get_i64 h i j st))"
| get_f64: "matrix_step of_i64 st (snd (styio_matrix_get_f64 of_i64 h i j st))"
| set_i64: "matrix_step of_i64 st (styio_matrix_set_i64 h i j v st)"
| set_f64: "matrix_step of_i64 st (styio_matrix_set_f64 h i j x st)"
| row_i64: "matrix_step of_i64 st (snd (styio_matrix_row_i64 h i st))"
| row_f64: "matrix_step of_i64 st (snd (styio_matrix_row_f64 of_i64 h i st))"
| add_i64: "matrix_step of_i64 st (snd (styio_matrix_add_i64 h h' st))"
| add_f64: "matrix_step of_i64 st (snd (styio_matrix_add_f64 of_i64 h h' st))"
| sub_i64: "matrix_step of_i64 st (snd (styio_matrix_sub_i64 h h' st))"
| sub_f64: "matrix_step of_i64 st (snd (styio_matrix_sub_f64 of_i64 h h' st))"
| hadamard_i64: "matrix_step of_i64 st (snd (styio_matrix_hadamard_i64 h h' st))"
| hadamard_f64: "matrix_step of_i64 st (snd (styio_matrix_hadamard_f64 of_i64 h h' st))"
| matmul_i64: "matrix_step of_i64 st (snd (styio_matrix_matmul_i64 h h' st))"
| matmul_f64: "matrix_step of_i64 st (snd (styio_matrix_matmul_f64 of_i64 h h' st))"
| scale_i64: "matrix_step of_i64 st (snd (styio_matrix_scale_i64 h k st))"
| scale_f64: "matrix_step of_i64 st (snd (styio_matrix_scale_f64 of_i64 h x st))"
| transpose_i64: "matrix_step of_i64 st (snd (styio_matrix_transpose_i64 h st))"
| transpose_f64: "matrix_step of_i64 st (snd (styio_matrix_transpose_f64 of_i64 h st))"
| dot_i64: "matrix_step of_i64 st (snd (styio_matrix_dot_i64 h h' st))"
| dot_f64: "matrix_step of_i64 st (snd (styio_matrix_dot_f64 of_i64 h h' st))"
| sum_i64: "matrix_step of_i64 st (snd (styio_matrix_sum_i64 h st))"
| sum_f64: "matrix_step of_i64 st (snd (styio_matrix_sum_f64 of_i64 h st))"
| norm: "matrix_step of_i64 st (snd (styio_matrix_norm of_i64 square_root h st))"
| to_cstr: "matrix_step of_i64 st (snd (styio_matrix_to_cstr fmt h st))"
| release: "matrix_step of_i64 st (styio_matrix_release h st)"

lemma matrix_step_ok: "matrix_step of_i64 st st' \<Longrightarrow> matrices_ok st \<Longrightarrow> matrices_ok st'"
  by (induction rule: matrix_step.induct) (auto intro: op_ok reads_report release_spec)

subsection \<open>Results\<close>

lemma entries_eq:
  assumes "length xs = nat (r * c)" "length ys = nat (r * c)" "0 < c"
    and "\<And>i j. 0 \<le> i \<Longrightarrow> i < r \<Longrightarrow> 0 \<le> j \<Longrightarrow> j < c \<Longrightarrow> xs ! matrix_offset c i j = ys ! matrix_offset c i j"
  shows "xs = ys"
proof (rule nth_equalityI)
  fix n assume "n < length xs"
  with assms(1) have "n < nat (r * c)" by simp
  from offset_ex [OF this assms(3)] show "xs ! n = ys ! n" using assms(4) by metis
qed (simp add: assms)

text \<open>The product of matrices of 64-bit words, from its definition.\<close>

definition product_entry :: "i64 \<Rightarrow> i64 \<Rightarrow> 64 word list \<Rightarrow> 64 word list \<Rightarrow> i64 \<Rightarrow> i64 \<Rightarrow> 64 word" where
  "product_entry k m as bs i j = (\<Sum>x \<in> {0..<k}. as ! matrix_offset k i x * bs ! matrix_offset m x j)"

lemma matmul_spec:
  assumes "matrices_ok st" "matrix_at st l = Some (MatrixI64 n k as)" "matrix_at st r = Some (MatrixI64 k m bs)"
    and "styio_matrix_matmul_i64 l r st = (h, st')"
  obtains es where "matrices_ok st'" "matrix_at st h = None" "matrix_at st' = (matrix_at st)(h \<mapsto> MatrixI64 n m es)"
    "mt_error st' = mt_error st" "length es = nat (n * m)" "0 < h"
    "\<And>i j. 0 \<le> i \<Longrightarrow> i < n \<Longrightarrow> 0 \<le> j \<Longrightarrow> j < m \<Longrightarrow> es ! matrix_offset m i j = product_entry k m as bs i j"
proof -
  let ?es = "fill_matrix n m (matrix_offset m) (\<lambda>i j. sum_loop k (\<lambda>x. as ! matrix_offset k i x * bs ! matrix_offset m x j))
    (blank_i64 n m)"
  have s: "stash_matrix (MatrixI64 n m ?es) st = (h, st')"
    using assms(4) two_i64_find [OF assms(1-3)] by (simp add: styio_matrix_matmul_i64_def)
  from matrix_at_wf [OF assms(1,2)] matrix_at_wf [OF assms(1,3)] have d: "0 < n" "0 < k" "0 < m" by simp_all
  then have wf: "matrix_wf (MatrixI64 n m ?es :: 'a styio_matrix)" by simp
  have e: "?es ! matrix_offset m i j = product_entry k m as bs i j" if "0 \<le> i" "i < n" "0 \<le> j" "j < m" for i j
    by (subst fill_matrix_nth [OF offset_inj that])
      (use offset_less [OF that] in \<open>simp_all add: product_entry_def sum_loop_sum\<close>)
  show thesis
    using that [OF stash_matrix_spec(1,3,4,5) [OF assms(1) wf s] _ stash_matrix_spec(2) [OF assms(1) wf s] e] by simp
qed

lemma transpose_spec:
  assumes "matrices_ok st" "matrix_at st g = Some (MatrixI64 r c as)" "styio_matrix_transpose_i64 g st = (h, st')"
  obtains es where "matrices_ok st'" "matrix_at st h = None" "matrix_at st' = (matrix_at st)(h \<mapsto> MatrixI64 c r es)"
    "length es = nat (c * r)"
    "\<And>i j. 0 \<le> i \<Longrightarrow> i < r \<Longrightarrow> 0 \<le> j \<Longrightarrow> j < c \<Longrightarrow> es ! matrix_offset r j i = as ! matrix_offset c i j"
proof -
  let ?es = "fill_matrix r c (\<lambda>i j. matrix_offset r j i) (\<lambda>i j. as ! matrix_offset c i j) (blank_i64 c r)"
  have s: "stash_matrix (MatrixI64 c r ?es) st = (h, st')"
    using assms(3) as_matrix_i64_at(2) [OF assms(1,2)] by (simp add: styio_matrix_transpose_i64_def)
  from matrix_at_wf [OF assms(1,2)] have d: "0 < r" "0 < c" by simp_all
  then have wf: "matrix_wf (MatrixI64 c r ?es :: 'a styio_matrix)" by simp
  have e: "?es ! matrix_offset r j i = as ! matrix_offset c i j" if "0 \<le> i" "i < r" "0 \<le> j" "j < c" for i j
    by (subst fill_matrix_nth [OF offset_inj_swap that]) (use offset_less [OF that(3,4,1,2)] in simp_all)
  show thesis
    using that [OF stash_matrix_spec(1,3,4) [OF assms(1) wf s] _ e] by simp
qed

subsection \<open>Theorems\<close>




text \<open>Reading an element in range leaves the state as it is.\<close>

lemma get_f64_in_range:
  assumes "matrices_ok st" "matrix_at st h = Some m" "0 \<le> i" "i < m_rows m" "0 \<le> j" "j < m_cols m"
  shows "styio_matrix_get_f64 of_i64 h i j st = (elem_f64 of_i64 m (matrix_offset (m_cols m) i j), st)"
  using assms as_matrix_base_at(2) [OF assms(1,2)] by (simp add: styio_matrix_get_f64_def check_matrix_index_def)

text \<open>
  The shape of a product is not checked: it can be one that \<open>styio_matrix_new_i64\<close> refuses
  because the number of elements does not fit.
\<close>

lemma matmul_shape_unchecked:
  fixes st :: "'f mstate"
  assumes "matrices_ok st" "matrix_at st l = Some (MatrixI64 (2 ^ 32) 1 as)" "matrix_at st r = Some (MatrixI64 1 (2 ^ 32) bs)"
  shows "fst (check_matrix_dims (2 ^ 32) 1 st) \<and> fst (check_matrix_dims 1 (2 ^ 32) st)
    \<and> fst (styio_matrix_new_i64 (2 ^ 32) (2 ^ 32) st) = 0
    \<and> 0 < fst (styio_matrix_matmul_i64 l r st)"
proof -
  obtain h st' where c: "styio_matrix_matmul_i64 l r st = (h, st')" by (cases "styio_matrix_matmul_i64 l r st")
  from matmul_spec [OF assms c] have "0 < h" by metis
  with c show ?thesis by (simp add: styio_matrix_new_i64_def check_matrix_dims_def)
qed

subsection \<open>A run\<close>

text \<open>The row \<open>(1 2)\<close> and the column \<open>(3 4)\<close>, over doubles that are integers.\<close>

definition sample_matrices :: "int mstate" where
  "sample_matrices =
     styio_matrix_set_i64 2 1 0 4 (styio_matrix_set_i64 2 0 0 3 (snd (styio_matrix_new_i64 2 1
       (styio_matrix_set_i64 1 0 1 2 (styio_matrix_set_i64 1 0 0 1 (snd (styio_matrix_new_i64 1 2 initial_mstate)))))))"

lemma sample_matrices_reachable: "(matrix_step sint)\<^sup>*\<^sup>* initial_mstate sample_matrices"
  unfolding sample_matrices_def
  by (rule rtranclp.rtrancl_into_rtrancl [where r = "matrix_step sint", OF _ matrix_step.set_i64]
      rtranclp.rtrancl_into_rtrancl [where r = "matrix_step sint", OF _ matrix_step.new_i64] rtranclp.rtrancl_refl)+

lemma sample_ok: "matrices_ok sample_matrices"
  using sample_matrices_reachable by (induction rule: rtranclp_induct) (auto intro: initial_matrices_ok matrix_step_ok)

lemma sample_at:
  "matrix_at sample_matrices 1 = Some (MatrixI64 1 2 [1, 2])" "matrix_at sample_matrices 2 = Some (MatrixI64 2 1 [3, 4])"
  by code_simp+

lemma sample_calls:
  "fst (styio_matrix_matmul_i64 1 2 sample_matrices) = 3"
  "matrix_at (snd (styio_matrix_matmul_i64 1 2 sample_matrices)) 3 = Some (MatrixI64 1 1 [11])"
  "fst (styio_matrix_matmul_i64 1 1 sample_matrices) = 0"
  by code_simp+



end
