(* ===== verification/Styio_Native.thy ===== *)
theory Styio_Native
  imports Styio_DataType "HOL-Library.Monad_Syntax"
begin

text \<open>
  The reading of function prototypes in \<open>@extern\<close> blocks and the text helpers around it
  (src/src/StyioNative/NativeInterop.cpp): comments are blanked, the bodies of functions hidden, and what is left
  before each semicolon or brace is tried as a prototype. \<open>StyioTypeError\<close> is a left value with
  its message. Running the C compiler, loading the result and the caches on disk are left out.
\<close>

subsection \<open>Text\<close>

definition trim_copy :: "string \<Rightarrow> string" where
  "trim_copy text = rev (dropWhile isspace (rev (dropWhile isspace text)))"

definition lower_copy :: "string \<Rightarrow> string" where
  "lower_copy text = map tolower text"

fun collapse_loop :: "bool \<Rightarrow> string \<Rightarrow> string" where
  "collapse_loop last_space [] = []"
| "collapse_loop last_space (ch # rest) =
     (if isspace ch then (if last_space then [] else '' '') @ collapse_loop True rest
      else ch # collapse_loop False rest)"

definition collapse_ws_copy :: "string \<Rightarrow> string" where
  "collapse_ws_copy text = trim_copy (collapse_loop False text)"

definition is_ident_start :: "char \<Rightarrow> bool" where
  "is_ident_start ch \<longleftrightarrow> isalpha ch \<or> ch = CHR ''_''"

definition is_ident_continue :: "char \<Rightarrow> bool" where
  "is_ident_continue ch \<longleftrightarrow> isalnum ch \<or> ch = CHR ''_''"

definition shell_quote :: "string \<Rightarrow> string" where
  "shell_quote v =
     [CHR 0x27] @ concat (map (\<lambda>ch. if ch = CHR 0x27 then [CHR 0x27, CHR 0x5C, CHR 0x27, CHR 0x27] else [ch]) v)
     @ [CHR 0x27]"

definition is_exported_name :: "string \<Rightarrow> string set \<Rightarrow> bool" where
  "is_exported_name nm exports \<longleftrightarrow> exports = {} \<or> nm \<in> exports"

definition normalize_abi :: "string \<Rightarrow> string + string" where
  "normalize_abi abi =
     (let abi = lower_copy (trim_copy abi) in
      if abi = ''c'' then Inr ''c''
      else if abi = ''c++'' then Inr ''c++''
      else Inl (''unsupported @extern ABI `'' @ abi @ ''`''))"

definition source_extension_for_abi :: "string \<Rightarrow> string" where
  "source_extension_for_abi abi = (if abi = ''c++'' then ''.cpp'' else ''.c'')"

subsection \<open>Blanking comments and bodies\<close>

datatype signature_mode = SM_Normal | SM_LineComment | SM_BlockComment | SM_StringLit | SM_CharLit

definition next_char :: "string \<Rightarrow> char" where
  "next_char rest = (case rest of [] \<Rightarrow> CHR 0x00 | c # cs \<Rightarrow> c)"

text \<open>The mode and flag after a character inside a literal that ends at \<open>quote\<close>.\<close>

definition literal_step :: "signature_mode \<Rightarrow> char \<Rightarrow> bool \<Rightarrow> char \<Rightarrow> signature_mode \<times> bool" where
  "literal_step mode quote escaped ch =
     (if escaped then (mode, False)
      else if ch = CHR 0x5C then (mode, True)
      else if ch = quote then (SM_Normal, False)
      else (mode, False))"

fun strip_comments :: "signature_mode \<Rightarrow> bool \<Rightarrow> string \<Rightarrow> string" where
  "strip_comments mode escaped [] = []"
| "strip_comments SM_Normal escaped (ch # rest) =
     (if ch = CHR ''/'' \<and> next_char rest = CHR ''/'' then CHR '' '' # strip_comments SM_LineComment escaped (tl rest)
      else if ch = CHR ''/'' \<and> next_char rest = CHR ''*'' then CHR '' '' # strip_comments SM_BlockComment escaped (tl rest)
      else ch # strip_comments
             (if ch = CHR 0x22 then SM_StringLit else if ch = CHR 0x27 then SM_CharLit else SM_Normal) escaped rest)"
| "strip_comments SM_LineComment escaped (ch # rest) =
     (if ch = CHR 0x0A then CHR 0x0A # strip_comments SM_Normal escaped rest
      else strip_comments SM_LineComment escaped rest)"
| "strip_comments SM_BlockComment escaped (ch # rest) =
     (if ch = CHR ''*'' \<and> next_char rest = CHR ''/'' then CHR '' '' # strip_comments SM_Normal escaped (tl rest)
      else if ch = CHR 0x0A then CHR 0x0A # strip_comments SM_BlockComment escaped rest
      else strip_comments SM_BlockComment escaped rest)"
| "strip_comments SM_StringLit escaped (ch # rest) =
     (let (m, e) = literal_step SM_StringLit CHR 0x22 escaped ch in ch # strip_comments m e rest)"
| "strip_comments SM_CharLit escaped (ch # rest) =
     (let (m, e) = literal_step SM_CharLit CHR 0x27 escaped ch in ch # strip_comments m e rest)"

definition strip_comments_for_signatures :: "string \<Rightarrow> string" where
  "strip_comments_for_signatures body = strip_comments SM_Normal False body"

definition push_visible :: "nat \<Rightarrow> char \<Rightarrow> char" where
  "push_visible brace_depth ch =
     (if brace_depth = 0 \<or> ch = CHR 0x0A \<or> ch = CHR 0x0D then ch else CHR '' '')"

fun top_level_loop :: "signature_mode \<Rightarrow> bool \<Rightarrow> nat \<Rightarrow> string \<Rightarrow> string" where
  "top_level_loop mode escaped depth [] = []"
| "top_level_loop mode escaped depth (ch # rest) =
     (case mode of
        SM_StringLit \<Rightarrow>
          (let (m, e) = literal_step SM_StringLit CHR 0x22 escaped ch in push_visible depth ch # top_level_loop m e depth rest)
      | SM_CharLit \<Rightarrow>
          (let (m, e) = literal_step SM_CharLit CHR 0x27 escaped ch in push_visible depth ch # top_level_loop m e depth rest)
      | _ \<Rightarrow>
          if ch = CHR 0x22 then push_visible depth ch # top_level_loop SM_StringLit False depth rest
          else if ch = CHR 0x27 then push_visible depth ch # top_level_loop SM_CharLit False depth rest
          else if ch = CHR ''{'' then (if depth = 0 then ch else CHR '' '') # top_level_loop mode escaped (depth + 1) rest
          else if ch = CHR ''}'' then
            (let depth = depth - 1 in (if depth = 0 then ch else CHR '' '') # top_level_loop mode escaped depth rest)
          else push_visible depth ch # top_level_loop mode escaped depth rest)"

definition top_level_signature_text :: "string \<Rightarrow> string" where
  "top_level_signature_text body = top_level_loop SM_Normal False 0 body"

subsection \<open>C types\<close>

datatype ctype_kind = CT_Void | CT_Bool | CT_I8 | CT_I16 | CT_I32 | CT_I64 | CT_F32 | CT_F64 | CT_Pointer

record ctype =
  ct_kind :: ctype_kind
  ct_unsigned :: bool
  ct_spelling :: string

record function_param =
  fp_name :: string
  fp_type :: ctype

record function_signature =
  fs_name :: string
  fs_return :: ctype
  fs_params :: "function_param list"
  fs_variadic :: bool

lemma trim_copy_length: "length (trim_copy s) \<le> length s"
  unfolding trim_copy_def
  by (metis (no_types) length_dropWhile_le length_rev le_trans)

function drop_qualifier :: "string \<Rightarrow> string \<Rightarrow> string" where
  "drop_qualifier q s =
     (if q \<noteq> [] \<and> starts_with s q then drop_qualifier q (trim_copy (drop (length q) s)) else s)"
  by pat_completeness auto
termination
proof (relation "measure (\<lambda>(q, s). length s)")
  fix q s :: string assume a: "q \<noteq> [] \<and> starts_with s q"
  then have "0 < length q" "take (length q) s = q" by (auto simp: starts_with_def cmp_at_def substr_def)
  then have "0 < length q" and "length (take (length q) s) = length q" by simp_all
  then have "0 < length q" "length q \<le> length s" by auto
  moreover have "length (trim_copy (drop (length q) s)) \<le> length s - length q"
    using trim_copy_length [of "drop (length q) s"] by simp
  ultimately have "length (trim_copy (drop (length q) s)) < length s" by linarith
  then show "((q, trim_copy (drop (length q) s)), q, s) \<in> measure (\<lambda>(q, s). length s)" by simp
qed simp

declare drop_qualifier.simps [simp del]

definition drop_marker :: "string \<Rightarrow> string \<Rightarrow> string" where
  "drop_marker marker t = (if starts_with t marker then trim_copy (drop (length marker) t) else t)"

definition extern_marker :: string where
  "extern_marker = ''extern '' @ [CHR 0x22, CHR ''C'', CHR 0x22]"

definition scalar_ctype_kind :: "string \<Rightarrow> ctype_kind option" where
  "scalar_ctype_kind normalized =
     (if normalized = ''void'' then Some CT_Void
      else if normalized \<in> {''bool'', ''_bool''} then Some CT_Bool
      else if normalized \<in> {''char'', ''int8_t'', ''uint8_t''} then Some CT_I8
      else if normalized \<in> {''short'', ''short int'', ''int16_t'', ''uint16_t''} then Some CT_I16
      else if normalized \<in> {''int'', ''int32_t'', ''uint32_t''} then Some CT_I32
      else if normalized \<in> {''long'', ''long int'', ''long long'', ''long long int'', ''int64_t'', ''uint64_t'',
          ''size_t'', ''ssize_t''} then Some CT_I64
      else if normalized = ''float'' then Some CT_F32
      else if normalized = ''double'' then Some CT_F64
      else None)"

definition parse_c_type :: "string \<Rightarrow> ctype option" where
  "parse_c_type raw =
     (let t = collapse_ws_copy raw in
      if t = [] then None
      else
        let t = fold drop_marker [extern_marker, ''static'', ''inline'', ''__attribute__''] t;
            pointer = CHR ''*'' \<in> set t;
            normalized = map (\<lambda>ch. if ch = CHR ''*'' \<or> ch = CHR ''&'' then CHR '' '' else ch) t;
            normalized = lower_copy (collapse_ws_copy normalized);
            normalized = fold drop_qualifier [''const '', ''volatile '', ''restrict '', ''signed ''] normalized;
            is_unsigned = starts_with normalized ''unsigned '';
            normalized = (if is_unsigned then trim_copy (drop 9 normalized) else normalized);
            type = \<lambda>kind. \<lparr> ct_kind = kind, ct_unsigned = is_unsigned, ct_spelling = t \<rparr>
        in if pointer then Some (type CT_Pointer) else map_option type (scalar_ctype_kind normalized))"

definition styio_data_type_for_c_type :: "ctype \<Rightarrow> styio_data_type" where
  "styio_data_type_for_c_type t =
     (case ct_kind t of
        CT_Void \<Rightarrow> scalar_type DT_Undefined ''undefined'' 0
      | CT_Bool \<Rightarrow> scalar_type DT_Bool ''bool'' 1
      | CT_F32 \<Rightarrow> scalar_type DT_Float ''f64'' 64
      | CT_F64 \<Rightarrow> scalar_type DT_Float ''f64'' 64
      | CT_Pointer \<Rightarrow> scalar_type DT_String ''string'' 0
      | _ \<Rightarrow> scalar_type DT_Integer ''i64'' 64)"

subsection \<open>Parameters\<close>

text \<open>The identifier a text ends with, possibly empty, and what comes in front of it.\<close>

definition trailing_ident :: "string \<Rightarrow> string \<times> string" where
  "trailing_ident s =
     (let n = length (takeWhile is_ident_continue (rev s)) in (take (length s - n) s, drop (length s - n) s))"

definition rstrip :: "string \<Rightarrow> string" where
  "rstrip s = rev (dropWhile isspace (rev s))"

definition starts_ident :: "string \<Rightarrow> bool" where
  "starts_ident nm \<longleftrightarrow> nm \<noteq> [] \<and> is_ident_start (hd nm)"

text \<open>The type and the name of a parameter, the name possibly empty.\<close>

definition split_param :: "string \<Rightarrow> string \<times> string" where
  "split_param raw =
     (let (front, nm) = trailing_ident (rstrip raw); maybe_type = trim_copy front in
      if starts_ident nm \<and> maybe_type \<noteq> [] then (maybe_type, nm) else (raw, []))"

definition last_blank :: "string \<Rightarrow> nat option" where
  "last_blank s =
     (case filter (\<lambda>i. s ! i \<in> {CHR '' '', CHR 0x09, CHR 0x0D, CHR 0x0A}) [0..<length s] of
        [] \<Rightarrow> None
      | idxs \<Rightarrow> Some (last idxs))"

definition parse_param :: "string \<Rightarrow> nat \<Rightarrow> string + function_param" where
  "parse_param raw index =
     (let raw = trim_copy raw in
      if raw = [] then Inl ''empty native parameter in @extern block''
      else if raw = ''...'' then Inl ''variadic native functions are not supported in @extern blocks''
      else
        let (type_text, nm) = split_param raw in
        if type_text = [] then Inl (''cannot parse native parameter `'' @ raw @ ''`'')
        else
          let nm = (if CHR ''*'' \<in> set type_text \<and> nm = [] then ''arg'' @ to_string_nat index else nm);
              (type_text, nm) =
                (if nm = [] then
                   case last_blank type_text of
                     Some i \<Rightarrow> (trim_copy (take i type_text), trim_copy (drop (i + 1) type_text))
                   | None \<Rightarrow> (type_text, nm)
                 else (type_text, nm));
              nm = (if nm = [] then ''arg'' @ to_string_nat index else nm)
          in case parse_c_type type_text of
               None \<Rightarrow> Inl (''unsupported native parameter type `'' @ type_text @ ''`'')
             | Some t \<Rightarrow>
                 if ct_kind t = CT_Void then Inl (''native parameter `'' @ nm @ ''` cannot have type void'')
                 else Inr \<lparr> fp_name = nm, fp_type = t \<rparr>)"

fun params_loop :: "string \<Rightarrow> nat \<Rightarrow> string \<Rightarrow> function_param list \<Rightarrow> string + function_param list" where
  "params_loop [] depth current params =
     (if trim_copy current \<noteq> [] then
        (case parse_param current (length params) of Inl e \<Rightarrow> Inl e | Inr p \<Rightarrow> Inr (params @ [p]))
      else Inr params)"
| "params_loop (ch # rest) depth current params =
     (let depth = (if ch = CHR ''('' then depth + 1 else if ch = CHR '')'' \<and> 0 < depth then depth - 1 else depth) in
      if ch = CHR '','' \<and> depth = 0 then
        (case parse_param current (length params) of
           Inl e \<Rightarrow> Inl e
         | Inr p \<Rightarrow> params_loop rest depth [] (params @ [p]))
      else params_loop rest depth (current @ [ch]) params)"

definition parse_params :: "string \<Rightarrow> string + function_param list" where
  "parse_params raw_params =
     (let trimmed = trim_copy raw_params in
      if trimmed = [] \<or> trimmed = ''void'' then Inr [] else params_loop trimmed 0 [] [])"

subsection \<open>Prototypes\<close>

text \<open>The parenthesis that opens the one at \<open>close\<close>: the loop walks down from there.\<close>

fun open_paren_loop :: "string \<Rightarrow> nat \<Rightarrow> int \<Rightarrow> nat option" where
  "open_paren_loop text 0 depth = None"
| "open_paren_loop text (Suc pos) depth =
     (if text ! pos = CHR '')'' then open_paren_loop text pos (depth + 1)
      else if text ! pos = CHR ''('' then
        (if depth - 1 = 0 then Some pos else open_paren_loop text pos (depth - 1))
      else open_paren_loop text pos depth)"

definition find_matching_open_paren :: "string \<Rightarrow> nat \<Rightarrow> nat option" where
  "find_matching_open_paren text close = open_paren_loop text (close + 1) 0"

definition last_index :: "(char \<Rightarrow> bool) \<Rightarrow> string \<Rightarrow> nat option" where
  "last_index P s = (case filter (\<lambda>i. P (s ! i)) [0..<length s] of [] \<Rightarrow> None | idxs \<Rightarrow> Some (last idxs))"

definition is_boundary :: "char \<Rightarrow> bool" where
  "is_boundary ch \<longleftrightarrow> ch \<in> {CHR '';'', CHR 0x0A, CHR 0x0D, CHR ''}''}"

text \<open>The last steps of \<open>parse_function_signature_candidate\<close>, once no boundary precedes the name.\<close>

definition build_signature :: "string \<Rightarrow> string \<Rightarrow> string \<Rightarrow> string + function_signature option" where
  "build_signature raw_ret nm raw_params =
     (if lower_copy nm \<in> {''if'', ''for'', ''while'', ''switch''} then Inr None
      else case parse_c_type raw_ret of
        None \<Rightarrow> Inl (''unsupported native return type `'' @ raw_ret @ ''` for `'' @ nm @ ''`'')
      | Some ret \<Rightarrow>
          (case parse_params raw_params of
             Inl e \<Rightarrow> Inl e
           | Inr ps \<Rightarrow> Inr (Some \<lparr> fs_name = nm, fs_return = ret, fs_params = ps, fs_variadic = False \<rparr>)))"

text \<open>The closing and opening parentheses of a candidate, if it ends with a parameter list.\<close>

definition parens_of :: "string \<Rightarrow> (nat \<times> nat) option" where
  "parens_of raw =
     (case last_index (\<lambda>c. c = CHR '')'') raw of
        None \<Rightarrow> None
      | Some close \<Rightarrow>
          if \<not> list_all isspace (drop (close + 1) raw) then None
          else map_option (\<lambda>opn. (opn, close)) (find_matching_open_paren raw close))"

lemma last_index_less: "last_index P s = Some i \<Longrightarrow> i < length s"
proof -
  assume "last_index P s = Some i"
  then have "i = last (filter (\<lambda>i. P (s ! i)) [0..<length s])" "filter (\<lambda>i. P (s ! i)) [0..<length s] \<noteq> []"
    by (auto simp: last_index_def split: list.splits)
  then have "i \<in> set (filter (\<lambda>i. P (s ! i)) [0..<length s])" using last_in_set by metis
  then show ?thesis by simp
qed

function parse_function_signature_candidate :: "string \<Rightarrow> string + function_signature option" where
  "parse_function_signature_candidate raw0 =
     (let raw = trim_copy raw0 in
      case parens_of raw of
        None \<Rightarrow> Inr None
      | Some (opn, close) \<Rightarrow>
          (let (front, nm) = trailing_ident (rstrip (take opn raw)) in
           if \<not> starts_ident nm then Inr None
           else (case last_index is_boundary front of
                   Some b \<Rightarrow> parse_function_signature_candidate (drop (b + 1) raw)
                 | None \<Rightarrow> build_signature (trim_copy front) nm (take (close - opn - 1) (drop (opn + 1) raw)))))"
  by pat_completeness auto
termination
proof (relation "measure length")
  fix raw0 raw :: string and p opn close q front nm and b :: nat
  assume r: "raw = trim_copy raw0" and p: "parens_of raw = Some p" "(opn, close) = p"
    and q: "q = trailing_ident (rstrip (take opn raw))" "(front, nm) = q" and b: "last_index is_boundary front = Some b"
  have "length front \<le> length (rstrip (take opn raw))"
    using q by (auto simp: trailing_ident_def Let_def)
  also have "\<dots> \<le> length (take opn raw)"
    using length_dropWhile_le [of isspace "rev (take opn raw)"] by (simp add: rstrip_def)
  also have "\<dots> \<le> length raw" by simp
  finally have "b < length raw" using last_index_less [OF b] by simp
  moreover have "length raw \<le> length raw0" by (simp add: r trim_copy_length)
  ultimately show "(drop (b + 1) raw, raw0) \<in> measure length" by simp
qed simp

declare parse_function_signature_candidate.simps [simp del]

fun signatures_loop :: "string \<Rightarrow> string \<Rightarrow> function_signature list \<Rightarrow> string + function_signature list" where
  "signatures_loop [] candidate functions = Inr functions"
| "signatures_loop (ch # rest) candidate functions =
     (if ch = CHR '';'' \<or> ch = CHR ''{'' then
        (case parse_function_signature_candidate candidate of
           Inl e \<Rightarrow> Inl e
         | Inr None \<Rightarrow> signatures_loop rest [] functions
         | Inr (Some sig) \<Rightarrow> signatures_loop rest [] (functions @ [sig]))
      else if ch = CHR ''}'' then signatures_loop rest [] functions
      else signatures_loop rest (candidate @ [ch]) functions)"

definition parse_function_signatures :: "string \<Rightarrow> string + function_signature list" where
  "parse_function_signatures body =
     signatures_loop (top_level_signature_text (strip_comments_for_signatures body)) [] []"

end
