(* ===== verification/Styio_SemaTypes.thy ===== *)
theory Styio_SemaTypes
  imports Styio_Topology Styio_Native
begin

text \<open>
  Semantic analysis (src/src/StyioSema/SemaContext.hpp, TypeInfer.cpp): the state of the analysis, the rules on
  types and \<open>infer_expr_type\<close>, which gives an expression a type. The nodes are not changed in place: types the
  visitors set are kept in a table by the address of the object that holds them, which every
  reading of a node's type consults. A result is a value, an exception, \<open>Crash\<close> where the code would
  follow a null pointer, or \<open>Stuck\<close> where the fuel for the recursion ran out. Dispatch on the
  node type is dispatch on the class.
\<close>

subsection \<open>Results\<close>

datatype sema_error = Type_Error string | Syntax_Error string | Range_Error

datatype 'a sres = Stuck | Crash | Throw sema_error | Val 'a

fun chain :: "'a sres \<Rightarrow> ('a \<Rightarrow> 'b sres) \<Rightarrow> 'b sres" where
  "chain Stuck f = Stuck"
| "chain Crash f = Crash"
| "chain (Throw e) f = Throw e"
| "chain (Val x) f = f x"

definition type_error :: "string \<Rightarrow> 'a sres" where
  "type_error msg = Throw (Type_Error msg)"

definition check :: "bool \<Rightarrow> string \<Rightarrow> 'a sres \<Rightarrow> 'a sres" where
  "check ok msg r = (if ok then r else type_error msg)"

text \<open>A loop whose body is an operation on the state.\<close>

fun for_each :: "('a \<Rightarrow> 's \<Rightarrow> 's sres) \<Rightarrow> 'a list \<Rightarrow> 's \<Rightarrow> 's sres" where
  "for_each f [] s = Val s"
| "for_each f (x # xs) s = chain (f x s) (for_each f xs)"

text \<open>A loop that collects results.\<close>

fun map_each :: "('a \<Rightarrow> 'b sres) \<Rightarrow> 'a list \<Rightarrow> 'b list sres" where
  "map_each f [] = Val []"
| "map_each f (x # xs) = chain (f x) (\<lambda>y. chain (map_each f xs) (\<lambda>ys. Val (y # ys)))"

subsection \<open>State\<close>

datatype binding_value_kind =
    BV_Unknown | BV_Bool | BV_I64 | BV_F64 | BV_String | BV_ListHandle | BV_DictHandle | BV_MatrixHandle | BV_TaskHandle

record binding_info =
  bi_final_slot :: bool
  bi_dynamic_slot :: bool
  bi_resource_value :: bool
  bi_value_kind :: binding_value_kind
  bi_declared_type :: styio_data_type

record method_info =
  me_final_binding :: bool
  me_consuming :: bool
  me_property :: bool
  me_param_count :: nat

record native_function_type =
  nf_return :: styio_data_type
  nf_args :: "styio_data_type list"

record sema =
  func_defs :: "string \<Rightarrow> styio_ast option"
  local_types :: "string \<Rightarrow> styio_data_type option"
  native_defs :: "string \<Rightarrow> native_function_type option"
  snapshot_names :: "string set"
  fixed_names :: "string set"
  bindings :: "string \<Rightarrow> binding_info option"
  method_defs :: "string \<Rightarrow> string \<Rightarrow> method_info option"
  resource_types :: "string \<Rightarrow> styio_data_type option"
  collect_writes :: "nat \<Rightarrow> styio_data_type option"
  collect_acquires :: "nat \<Rightarrow> styio_data_type option"
  consumed_tasks :: "string set"
  consumed_resources :: "string set"
  owned_resources :: "string set"
  task_outer_stack :: "string set list"
  active_receiver :: string
  node_types :: "nat \<Rightarrow> styio_data_type option"
  consistent_nodes :: "nat set"

definition default_binding :: binding_info where
  "default_binding = \<lparr> bi_final_slot = False, bi_dynamic_slot = False, bi_resource_value = False,
     bi_value_kind = BV_Unknown, bi_declared_type = undefined_type \<rparr>"

definition sema_find_method :: "string \<Rightarrow> string \<Rightarrow> sema \<Rightarrow> method_info option" where
  "sema_find_method family m s = method_defs s family m"

definition put_local :: "string \<Rightarrow> styio_data_type \<Rightarrow> sema \<Rightarrow> sema" where
  "put_local nm t s = s\<lparr>local_types := (local_types s)(nm \<mapsto> t)\<rparr>"

definition put_binding :: "string \<Rightarrow> binding_info \<Rightarrow> sema \<Rightarrow> sema" where
  "put_binding nm info s = s\<lparr>bindings := (bindings s)(nm \<mapsto> info)\<rparr>"

text \<open>The type held at an address, and setting it.\<close>

definition type_at :: "sema \<Rightarrow> nat \<Rightarrow> styio_data_type \<Rightarrow> styio_data_type" where
  "type_at s a t = (case node_types s a of Some u \<Rightarrow> u | None \<Rightarrow> t)"

definition held_type :: "sema \<Rightarrow> type_ast \<Rightarrow> styio_data_type" where
  "held_type s t = type_at s (obj_addr t) (obj_val t)"

definition set_type :: "nat \<Rightarrow> styio_data_type \<Rightarrow> sema \<Rightarrow> sema" where
  "set_type a t s = s\<lparr>node_types := (node_types s)(a \<mapsto> t)\<rparr>"

definition var_data_type :: "sema \<Rightarrow> 'p var_ast object \<Rightarrow> styio_data_type" where
  "var_data_type s v = held_type s (var_type (obj_val v))"

definition set_var_type :: "'p var_ast object \<Rightarrow> styio_data_type \<Rightarrow> sema \<Rightarrow> sema" where
  "set_var_type v t s = set_type (obj_addr (var_type (obj_val v))) t s"

text \<open>\<open>getDataType\<close> of a node in the current state.\<close>

definition node_data_type :: "sema \<Rightarrow> styio_ast \<Rightarrow> styio_data_type" where
  "node_data_type s ast =
     (case ast of
        NullAST \<Rightarrow> undefined_type
      | Ast a c \<Rightarrow>
          (case c of
             Names (TypeAST t) \<Rightarrow> type_at s a t
           | TupleC (TupleAST es b t) \<Rightarrow> held_type s t
           | Collection (ListAST es b t) \<Rightarrow> held_type s t
           | Collection (DictAST es b t) \<Rightarrow> held_type s t
           | Extent (SizeOfAST v t) \<Rightarrow> held_type s t
           | Decl (ResourceRefAST nm sel off t) \<Rightarrow> type_at s a t
           | Task (TaskBlockAST body t) \<Rightarrow> task_block_data_type (type_at s a t)
           | Flow (FlowBindAST src tgt fb p d w t) \<Rightarrow> type_at s a t
           | _ \<Rightarrow> class_data_type c))"

subsection \<open>Rules on types\<close>

definition bool_type :: styio_data_type where "bool_type = scalar_type DT_Bool ''bool'' 1"
definition f64_type :: styio_data_type where "f64_type = scalar_type DT_Float ''f64'' 64"
definition string_type :: styio_data_type where "string_type = scalar_type DT_String ''string'' 0"

definition type_is_numeric_family :: "styio_data_type \<Rightarrow> bool" where
  "type_is_numeric_family t \<longleftrightarrow> styio_value_family_for_type t \<in> {VF_Integer, VF_Float}"

definition merge_matrix_elem_types :: "styio_data_type \<Rightarrow> styio_data_type \<Rightarrow> styio_data_type sres" where
  "merge_matrix_elem_types current next =
     (if isUndefined current then Val next
      else if isUndefined next then Val current
      else if \<not> type_is_numeric_family current \<or> \<not> type_is_numeric_family next
        then type_error ''matrix elements must be numeric scalar values''
      else if type_equals current next then Val current
      else if dt_option current = DT_Float \<or> dt_option next = DT_Float then Val f64_type
      else Val i64_type)"

definition is_matrix_intrinsic_name :: "string \<Rightarrow> bool" where
  "is_matrix_intrinsic_name nm \<longleftrightarrow>
     nm \<in> {''mat_zeros'', ''mat_zeros_i64'', ''mat_identity'', ''mat_identity_i64'', ''mat_shape'', ''mat_rows'',
       ''mat_cols'', ''mat_get'', ''mat_set'', ''mat_clone'', ''mat_add'', ''mat_sub'', ''mat_scale'', ''mat_hadamard'',
       ''matmul'', ''transpose'', ''dot'', ''mat_sum'', ''norm''}"

definition static_i64_literal :: "styio_ast \<Rightarrow> int option" where
  "static_i64_literal ast =
     (case as_int ast of
        None \<Rightarrow> None
      | Some i \<Rightarrow>
          (case strtoll (int_value (obj_val i)) of
             Some (v, erange, n) \<Rightarrow> if erange then None else Some v
           | None \<Rightarrow> None))"

definition matrix_elem_type :: "styio_data_type \<Rightarrow> styio_data_type" where
  "matrix_elem_type t = styio_data_type_from_name (styio_matrix_elem_type_name t)"

definition merge_numeric_elem_type :: "styio_data_type \<Rightarrow> styio_data_type \<Rightarrow> styio_data_type sres" where
  "merge_numeric_elem_type lhs rhs =
     (if \<not> type_is_numeric_family lhs \<or> \<not> type_is_numeric_family rhs
        then type_error ''matrix operations require numeric scalar element types''
      else if dt_option lhs = DT_Float \<or> dt_option rhs = DT_Float then Val f64_type
      else Val i64_type)"

definition require_matrix_arg :: "string \<Rightarrow> styio_data_type \<Rightarrow> 'a sres \<Rightarrow> 'a sres" where
  "require_matrix_arg nm t =
     check (styio_is_matrix_type t) (''matrix intrinsic `'' @ nm @ ''` requires matrix argument(s)'')"

definition require_integer_arg :: "string \<Rightarrow> styio_data_type \<Rightarrow> 'a sres \<Rightarrow> 'a sres" where
  "require_integer_arg nm t =
     check (dt_option t = DT_Integer) (''matrix intrinsic `'' @ nm @ ''` requires integer dimension/index argument(s)'')"

definition require_same_matrix_shape :: "styio_data_type \<Rightarrow> styio_data_type \<Rightarrow> 'a sres \<Rightarrow> 'a sres" where
  "require_same_matrix_shape lhs rhs =
     (let lr = styio_matrix_row_count lhs; lc = styio_matrix_col_count lhs;
          rr = styio_matrix_row_count rhs; rc = styio_matrix_col_count rhs
      in check (\<not> (lr \<noteq> 0 \<and> lc \<noteq> 0 \<and> rr \<noteq> 0 \<and> rc \<noteq> 0 \<and> (lr \<noteq> rr \<or> lc \<noteq> rc))) ''matrix shapes must match'')"

definition require_matmul_compatible :: "styio_data_type \<Rightarrow> styio_data_type \<Rightarrow> 'a sres \<Rightarrow> 'a sres" where
  "require_matmul_compatible lhs rhs =
     (let lc = styio_matrix_col_count lhs; rr = styio_matrix_row_count rhs
      in check (\<not> (lc \<noteq> 0 \<and> rr \<noteq> 0 \<and> lc \<noteq> rr)) ''matrix multiplication requires lhs columns to equal rhs rows'')"

definition matrix_binary_result :: "styio_data_type \<Rightarrow> styio_data_type \<Rightarrow> styio_op_type \<Rightarrow> styio_data_type sres" where
  "matrix_binary_result lhs rhs opn =
     (let lhs_matrix = styio_is_matrix_type lhs; rhs_matrix = styio_is_matrix_type rhs in
      if \<not> lhs_matrix \<and> \<not> rhs_matrix then Val undefined_type
      else if opn = OP_Binary_Mul \<and> lhs_matrix \<noteq> rhs_matrix then
        (let matrix_type = (if lhs_matrix then lhs else rhs); scalar = (if lhs_matrix then rhs else lhs) in
         check (type_is_numeric_family scalar) ''matrix scalar multiplication requires a numeric scalar''
           (chain (merge_numeric_elem_type (matrix_elem_type matrix_type) scalar)
             (\<lambda>elem. Val (styio_make_matrix_type (dt_name elem) (styio_matrix_row_count matrix_type)
                           (styio_matrix_col_count matrix_type)))))
      else
        check (lhs_matrix \<and> rhs_matrix) ''matrix addition/subtraction require matrix operands''
          (chain (merge_numeric_elem_type (matrix_elem_type lhs) (matrix_elem_type rhs))
            (\<lambda>elem.
               if opn = OP_Binary_Add \<or> opn = OP_Binary_Sub then
                 require_same_matrix_shape lhs rhs
                   (Val (styio_make_matrix_type (dt_name elem) (styio_matrix_row_count lhs) (styio_matrix_col_count lhs)))
               else if opn = OP_Binary_Mul then
                 require_matmul_compatible lhs rhs
                   (Val (styio_make_matrix_type (dt_name elem) (styio_matrix_row_count lhs) (styio_matrix_col_count rhs)))
               else type_error ''unsupported matrix operator'')))"

definition merge_cond_flow_branch_type :: "styio_data_type \<Rightarrow> styio_data_type \<Rightarrow> styio_data_type \<Rightarrow> styio_data_type" where
  "merge_cond_flow_branch_type then_type else_type saved_type =
     (if isUndefined then_type \<and> isUndefined else_type
        then (if isUndefined saved_type then undefined_type else saved_type)
      else if isUndefined then_type then else_type
      else if isUndefined else_type then then_type
      else if type_equals then_type else_type then then_type
      else if type_is_numeric_family then_type \<and> type_is_numeric_family else_type then getMaxType then_type else_type
      else if \<not> isUndefined saved_type
           \<and> (type_equals then_type saved_type \<or> type_is_numeric_family then_type)
           \<and> (type_equals else_type saved_type \<or> type_is_numeric_family else_type)
           \<and> type_is_numeric_family saved_type
        then getMaxType (getMaxType saved_type then_type) else_type
      else undefined_type)"

definition merge_dict_value_types :: "styio_data_type \<Rightarrow> styio_data_type \<Rightarrow> styio_data_type sres" where
  "merge_dict_value_types current next =
     (if isUndefined current then Val next
      else if isUndefined next then Val current
      else if type_equals current next then Val current
      else if styio_value_family_for_type current = VF_Integer \<and> styio_value_family_for_type next = VF_Integer
        then Val i64_type
      else if type_is_numeric_family current \<and> type_is_numeric_family next then Val f64_type
      else type_error ''dict values must use one consistent runtime scalar/string family in this slice'')"

definition container_value_assignable :: "styio_data_type \<Rightarrow> styio_data_type \<Rightarrow> bool" where
  "container_value_assignable target actual =
     (if isUndefined actual then True
      else let target_family = styio_value_family_for_type target; actual_family = styio_value_family_for_type actual in
        if target_family = VF_Float then actual_family \<in> {VF_Float, VF_Integer}
        else if target_family = VF_Integer then actual_family = VF_Integer
        else target_family = actual_family)"

definition func_param_accepts_arg :: "styio_data_type \<Rightarrow> styio_data_type \<Rightarrow> bool" where
  "func_param_accepts_arg param_type arg_type =
     (if isUndefined param_type \<or> isUndefined arg_type then True
      else if type_equals param_type arg_type then True
      else let param_family = styio_value_family_for_type param_type; arg_family = styio_value_family_for_type arg_type in
        if param_family \<in> {VF_Integer, VF_Float} \<and> arg_family \<in> {VF_Integer, VF_Float} then True
        else if param_family \<in> {VF_Integer, VF_Float} \<and> arg_family = VF_String then True
        else param_family = arg_family)"

definition type_is_string :: "styio_data_type \<Rightarrow> bool" where
  "type_is_string t \<longleftrightarrow> dt_option t = DT_String"

definition type_is_intish :: "styio_data_type \<Rightarrow> bool" where
  "type_is_intish t \<longleftrightarrow> dt_option t = DT_Integer \<or> dt_option t = DT_Float"

definition type_is_bool :: "styio_data_type \<Rightarrow> bool" where
  "type_is_bool t \<longleftrightarrow> styio_value_family_for_type t = VF_Bool"

definition type_is_text_serializable_iterable :: "styio_data_type \<Rightarrow> bool" where
  "type_is_text_serializable_iterable t =
     (if styio_is_list_type t then
        styio_type_supports_runtime_list_elem (styio_data_type_from_name (styio_type_item_type_name t))
      else if styio_is_dict_type t then
        styio_dict_key_type_name t = ''string''
        \<and> styio_type_supports_runtime_dict_value (styio_data_type_from_name (styio_dict_value_type_name t))
      else if dt_handle_family t = HF_Range then styio_value_family_is_runtime_scalar (styio_type_item_value_family t)
      else False)"

definition resource_family_for_type :: "styio_data_type \<Rightarrow> string" where
  "resource_family_for_type t =
     (if dt_handle_family t = HF_File then ''file''
      else if dt_handle_family t = HF_Stream \<and> dt_has_std_stream_kind t
        then family_of_stream_code (dt_std_stream_kind t)
      else if styio_is_topology_resource_type t then ''resource''
      else [])"

definition binding_value_kind_for_type :: "styio_data_type \<Rightarrow> binding_value_kind" where
  "binding_value_kind_for_type t =
     (case styio_value_family_for_type t of
        VF_ListHandle \<Rightarrow> BV_ListHandle
      | VF_DictHandle \<Rightarrow> BV_DictHandle
      | VF_MatrixHandle \<Rightarrow> BV_MatrixHandle
      | VF_TaskHandle \<Rightarrow> BV_TaskHandle
      | VF_String \<Rightarrow> BV_String
      | VF_Float \<Rightarrow> BV_F64
      | VF_Bool \<Rightarrow> BV_Bool
      | VF_Integer \<Rightarrow> BV_I64
      | _ \<Rightarrow> BV_Unknown)"

definition task_result_type_from_task_type :: "styio_data_type \<Rightarrow> styio_data_type" where
  "task_result_type_from_task_type t =
     (if dt_handle_family t \<noteq> HF_Task then undefined_type
      else let result_name = styio_task_result_type_name t in
        if result_name = ''unit'' then i64_type else styio_data_type_from_name result_name)"

subsection \<open>Types of expressions\<close>

text \<open>
  Each helper of \<open>infer_expr_type\<close> is given the recursive call as \<open>rec\<close>.
\<close>

type_synonym inferer = "styio_ast \<Rightarrow> styio_data_type sres"

definition or_i64 :: "styio_data_type \<Rightarrow> styio_data_type" where
  "or_i64 t = (if isUndefined t then i64_type else t)"

fun list_elem_loop :: "inferer \<Rightarrow> styio_data_type \<Rightarrow> styio_ast list \<Rightarrow> styio_data_type sres" where
  "list_elem_loop rec elem [] = Val elem"
| "list_elem_loop rec elem (e # es) =
     chain (rec e)
       (\<lambda>t. if isUndefined t then list_elem_loop rec elem es
            else if \<not> type_equals t elem then Val i64_type
            else list_elem_loop rec elem es)"

definition infer_list_literal_type :: "inferer \<Rightarrow> styio_ast list \<Rightarrow> styio_data_type sres" where
  "infer_list_literal_type rec els =
     (case els of
        [] \<Rightarrow> Val (styio_make_list_type ''i64'')
      | e # es \<Rightarrow>
          chain (rec e)
            (\<lambda>t. chain (list_elem_loop rec (or_i64 t) es) (\<lambda>elem. Val (styio_make_list_type (dt_name elem)))))"

definition as_list :: "styio_ast \<Rightarrow> styio_ast list option" where
  "as_list ast = (case ast of Ast a (Collection (ListAST es b t)) \<Rightarrow> Some es | _ \<Rightarrow> None)"

fun matrix_cells :: "inferer \<Rightarrow> styio_data_type \<Rightarrow> styio_ast list \<Rightarrow> styio_data_type sres" where
  "matrix_cells rec elem [] = Val elem"
| "matrix_cells rec elem (cell # cells) =
     chain (rec cell) (\<lambda>t. chain (merge_matrix_elem_types elem (or_i64 t)) (\<lambda>elem. matrix_cells rec elem cells))"

text \<open>The rows from the second on must have the length of the first, \<open>None\<close> before it is known.\<close>

fun matrix_rows_loop :: "inferer \<Rightarrow> nat option \<Rightarrow> styio_data_type \<Rightarrow> styio_ast list \<Rightarrow> (styio_data_type \<times> nat) sres" where
  "matrix_rows_loop rec cols elem [] = Val (elem, case cols of None \<Rightarrow> 0 | Some n \<Rightarrow> n)"
| "matrix_rows_loop rec cols elem (row # rows) =
     (case as_list row of
        None \<Rightarrow> type_error ''matrix rows must be list literals''
      | Some cells \<Rightarrow>
          check (cells \<noteq> []) ''matrix rows must not be empty''
            (check (case cols of None \<Rightarrow> True | Some n \<Rightarrow> length cells = n) ''matrix rows must have consistent length''
              (chain (matrix_cells rec elem cells)
                (\<lambda>elem. matrix_rows_loop rec (Some (length cells)) elem rows))))"

record matrix_literal_info =
  ml_elem :: styio_data_type
  ml_rows :: nat
  ml_cols :: nat

definition infer_matrix_literal_info :: "inferer \<Rightarrow> styio_ast \<Rightarrow> matrix_literal_info sres" where
  "infer_matrix_literal_info rec expr =
     (case as_list expr of
        None \<Rightarrow> type_error ''matrix binding requires a nested list literal''
      | Some rows \<Rightarrow>
          check (rows \<noteq> []) ''matrix literal requires at least one row''
            (chain (matrix_rows_loop rec None undefined_type rows)
              (\<lambda>(elem, cols). Val \<lparr> ml_elem = or_i64 elem, ml_rows = length rows, ml_cols = cols \<rparr>)))"

definition static_extent :: "styio_ast \<Rightarrow> nat" where
  "static_extent arg = (case static_i64_literal arg of Some v \<Rightarrow> if 0 < v then nat v else 0 | None \<Rightarrow> 0)"

definition matrix_like :: "styio_data_type \<Rightarrow> styio_data_type \<Rightarrow> styio_data_type" where
  "matrix_like elem m = styio_make_matrix_type (dt_name elem) (styio_matrix_row_count m) (styio_matrix_col_count m)"

text \<open>The types of the matrix functions, given the types of their arguments: how many there must be, and the result.\<close>

definition intrinsic_arity :: "string \<Rightarrow> nat" where
  "intrinsic_arity nm =
     (if nm \<in> {''mat_zeros'', ''mat_zeros_i64'', ''mat_add'', ''mat_sub'', ''mat_hadamard'', ''mat_scale'', ''matmul'', ''dot''}
        then 2
      else if nm = ''mat_get'' then 3
      else if nm = ''mat_set'' then 4
      else 1)"

definition make_intrinsic_type :: "string \<Rightarrow> styio_ast list \<Rightarrow> styio_data_type list \<Rightarrow> styio_data_type sres" where
  "make_intrinsic_type nm args ts =
     (if nm = ''mat_zeros'' \<or> nm = ''mat_zeros_i64'' then
        require_integer_arg nm (ts ! 0) (require_integer_arg nm (ts ! 1)
          (Val (styio_make_matrix_type (if nm = ''mat_zeros_i64'' then ''i64'' else ''f64'')
                 (static_extent (args ! 0)) (static_extent (args ! 1)))))
      else
        require_integer_arg nm (ts ! 0)
          (Val (styio_make_matrix_type (if nm = ''mat_identity_i64'' then ''i64'' else ''f64'')
                 (static_extent (args ! 0)) (static_extent (args ! 0)))))"

definition unary_intrinsic_type :: "string \<Rightarrow> styio_data_type \<Rightarrow> styio_data_type" where
  "unary_intrinsic_type nm m =
     (if nm = ''mat_rows'' \<or> nm = ''mat_cols'' then i64_type
      else if nm = ''mat_shape'' then styio_make_list_type ''i64''
      else if nm = ''transpose'' then
        styio_make_matrix_type (styio_matrix_elem_type_name m) (styio_matrix_col_count m) (styio_matrix_row_count m)
      else if nm = ''mat_clone'' then m
      else if nm = ''mat_sum'' then matrix_elem_type m
      else f64_type)"

definition element_intrinsic_type :: "string \<Rightarrow> styio_data_type list \<Rightarrow> styio_data_type sres" where
  "element_intrinsic_type nm ts =
     require_matrix_arg nm (ts ! 0) (require_integer_arg nm (ts ! 1) (require_integer_arg nm (ts ! 2)
       (if nm = ''mat_get'' then Val (matrix_elem_type (ts ! 0))
        else check (container_value_assignable (matrix_elem_type (ts ! 0)) (ts ! 3))
               ''mat_set value does not match matrix element type'' (Val i64_type))))"

definition binary_intrinsic_type :: "string \<Rightarrow> styio_data_type \<Rightarrow> styio_data_type \<Rightarrow> styio_data_type sres" where
  "binary_intrinsic_type nm l r =
     require_matrix_arg nm l
       (if nm = ''mat_scale'' then
          check (type_is_numeric_family r) ''mat_scale requires a numeric scalar''
            (chain (merge_numeric_elem_type (matrix_elem_type l) r) (\<lambda>elem. Val (matrix_like elem l)))
        else
          require_matrix_arg nm r
            (if nm = ''matmul'' then
               require_matmul_compatible l r
                 (chain (merge_numeric_elem_type (matrix_elem_type l) (matrix_elem_type r))
                   (\<lambda>elem. Val (styio_make_matrix_type (dt_name elem) (styio_matrix_row_count l) (styio_matrix_col_count r))))
             else
               require_same_matrix_shape l r
                 (chain (merge_numeric_elem_type (matrix_elem_type l) (matrix_elem_type r))
                   (\<lambda>elem. Val (if nm = ''dot'' then elem else matrix_like elem l)))))"

definition intrinsic_type :: "string \<Rightarrow> styio_ast list \<Rightarrow> styio_data_type list \<Rightarrow> styio_data_type sres" where
  "intrinsic_type nm args ts =
     check (length ts = intrinsic_arity nm)
       (''matrix intrinsic `'' @ nm @ ''` expects '' @ to_string_nat (intrinsic_arity nm) @ '' argument(s), got ''
          @ to_string_nat (length ts))
       (if nm \<in> {''mat_zeros'', ''mat_zeros_i64'', ''mat_identity'', ''mat_identity_i64''} then make_intrinsic_type nm args ts
        else if nm \<in> {''mat_get'', ''mat_set''} then element_intrinsic_type nm ts
        else if intrinsic_arity nm = 2 then binary_intrinsic_type nm (ts ! 0) (ts ! 1)
        else require_matrix_arg nm (ts ! 0) (Val (unary_intrinsic_type nm (ts ! 0))))"

definition infer_matrix_intrinsic_type :: "inferer \<Rightarrow> styio_ast \<Rightarrow> string \<Rightarrow> styio_ast list \<Rightarrow> styio_data_type sres" where
  "infer_matrix_intrinsic_type rec callee nm args =
     (if callee \<noteq> NullAST \<or> \<not> is_matrix_intrinsic_name nm then Val undefined_type
      else chain (map_each rec args) (intrinsic_type nm args))"

definition infer_predefined_list_operation_type :: "inferer \<Rightarrow> styio_ast \<Rightarrow> string \<Rightarrow> styio_data_type sres" where
  "infer_predefined_list_operation_type rec callee nm =
     (if callee = NullAST \<or> \<not> styio_is_predefined_list_operation_name nm then Val undefined_type
      else chain (rec callee) (\<lambda>t. Val (if styio_is_list_type t then i64_type else undefined_type)))"

definition infer_predefined_string_operation_type :: "inferer \<Rightarrow> styio_ast \<Rightarrow> string \<Rightarrow> styio_data_type sres" where
  "infer_predefined_string_operation_type rec callee nm =
     (if callee = NullAST \<or> \<not> styio_is_predefined_string_operation_name nm then Val undefined_type
      else chain (rec callee)
             (\<lambda>t. Val (if dt_option t = DT_String then styio_make_list_type ''string'' else undefined_type)))"

definition declared_return :: "sema \<Rightarrow> type_ast option + type_ast list object option \<Rightarrow> styio_data_type" where
  "declared_return s r = (case r of Inl (Some t) \<Rightarrow> held_type s t | _ \<Rightarrow> undefined_type)"

definition func_ret_type_of_def :: "inferer \<Rightarrow> sema \<Rightarrow> styio_ast \<Rightarrow> styio_data_type sres" where
  "func_ret_type_of_def rec s def =
     (case def of
        Ast a (Function (FunctionAST nm u ps r body)) \<Rightarrow>
          if \<not> isUndefined (declared_return s r) then Val (declared_return s r) else rec body
      | Ast a (SimpleFunc (SimpleFuncAST nm u ps r body)) \<Rightarrow>
          if \<not> isUndefined (declared_return s r) then Val (declared_return s r) else rec body
      | _ \<Rightarrow> Val undefined_type)"

fun dict_values_loop :: "inferer \<Rightarrow> styio_data_type \<Rightarrow> styio_ast list \<Rightarrow> styio_data_type sres" where
  "dict_values_loop rec value [] = Val value"
| "dict_values_loop rec value (v # vs) =
     chain (rec v)
       (\<lambda>t. if isUndefined t then dict_values_loop rec value vs
            else check (styio_type_supports_runtime_dict_value t)
                   ''dict values must have a runtime scalar or string type in this slice''
                   (chain (merge_dict_value_types value t) (\<lambda>value. dict_values_loop rec value vs)))"

definition infer_dict_literal_type :: "inferer \<Rightarrow> (styio_ast \<times> styio_ast) list \<Rightarrow> styio_data_type sres" where
  "infer_dict_literal_type rec entries =
     (case entries of
        [] \<Rightarrow> Val (styio_make_dict_type ''string'' ''i64'')
      | (k, v) # rest \<Rightarrow>
          chain (for_each (\<lambda>e u. chain (rec (fst e))
                   (\<lambda>t. check (dt_option t = DT_String) ''dict keys must have type string in this slice'' (Val u)))
                 entries ())
            (\<lambda>u. chain (rec v)
              (\<lambda>t. check (styio_type_supports_runtime_dict_value (or_i64 t))
                     ''dict values must have a runtime scalar or string type in this slice''
                     (chain (dict_values_loop rec (or_i64 t) (map snd rest))
                       (\<lambda>value. Val (styio_make_dict_type ''string'' (dt_name value)))))))"

definition infer_attr_type :: "inferer \<Rightarrow> sema \<Rightarrow> styio_ast \<Rightarrow> styio_ast \<Rightarrow> styio_data_type sres" where
  "infer_attr_type rec s body attr =
     (case as_name attr of
        None \<Rightarrow> Val undefined_type
      | Some nm \<Rightarrow>
          chain (rec body)
            (\<lambda>base.
               if nm = ''keys'' \<and> styio_is_dict_type base then Val (styio_make_list_type (styio_dict_key_type_name base))
               else if nm = ''values'' \<and> styio_is_dict_type base
                 then Val (styio_make_list_type (styio_dict_value_type_name base))
               else (case sema_find_method (resource_family_for_type base) nm s of
                       Some m \<Rightarrow>
                         Val (if me_property m \<and> styio_is_resource_property_method_kind (builtin_method_kind nm)
                              then string_type else i64_type)
                     | None \<Rightarrow> Val i64_type)))"

definition infer_access_type :: "inferer \<Rightarrow> styio_node_type \<Rightarrow> styio_ast \<Rightarrow> styio_data_type sres" where
  "infer_access_type rec opn l =
     (if opn = In_List_Op NT_Access_By_Index then
        chain (rec l) (\<lambda>base. Val (if styio_type_is_indexable base
                                    then styio_data_type_from_name (styio_type_item_type_name base) else undefined_type))
      else if opn = In_List_Op NT_Access_By_Name then
        chain (rec l) (\<lambda>base. Val (if styio_is_dict_type base
                                    then styio_data_type_from_name (styio_dict_value_type_name base) else undefined_type))
      else Val undefined_type)"

definition infer_call_type :: "inferer \<Rightarrow> sema \<Rightarrow> styio_ast \<Rightarrow> string \<Rightarrow> styio_ast list \<Rightarrow> styio_data_type sres" where
  "infer_call_type rec s callee nm args =
     chain (infer_predefined_list_operation_type rec callee nm)
       (\<lambda>t. if \<not> isUndefined t then Val t
            else chain (infer_predefined_string_operation_type rec callee nm)
       (\<lambda>t. if \<not> isUndefined t then Val t
            else chain (infer_matrix_intrinsic_type rec callee nm args)
       (\<lambda>t. if \<not> isUndefined t then Val t
            else (case func_defs s nm of
                    Some def \<Rightarrow> func_ret_type_of_def rec s def
                  | None \<Rightarrow>
                      (case native_defs s nm of
                         Some f \<Rightarrow> Val (nf_return f)
                       | None \<Rightarrow> Val undefined_type)))))"

definition infer_class_type :: "inferer \<Rightarrow> sema \<Rightarrow> styio_ast \<Rightarrow> styio_ast ast_class \<Rightarrow> styio_data_type sres" where
  "infer_class_type rec s ast c =
     (case c of
        Scalar (BoolAST b) \<Rightarrow> Val bool_type
      | Selector (CondAST x) \<Rightarrow> Val bool_type
      | Binary (BinCompAST cmp l r) \<Rightarrow> Val bool_type
      | Text (StringAST str) \<Rightarrow> Val string_type
      | Convert (FmtStrAST fs es) \<Rightarrow> Val string_type
      | Collection (ListAST els b t) \<Rightarrow> infer_list_literal_type rec els
      | Collection (DictAST entries b t) \<Rightarrow> infer_dict_literal_type rec entries
      | Access (AttrAST body attr) \<Rightarrow> infer_attr_type rec s body attr
      | Access (ListOpAST opn l s1 s2) \<Rightarrow> infer_access_type rec opn l
      | Binary (BinOpAST t opn l r) \<Rightarrow> Val (if isUndefined (held_type s t) then undefined_type else held_type s t)
      | Wave (WaveMergeAST cond t f) \<Rightarrow>
          chain (rec t) (\<lambda>t. chain (rec f) (\<lambda>f. Val (merge_cond_flow_branch_type t f undefined_type)))
      | Names (NameAST nm) \<Rightarrow>
          (case local_types s nm of Some t \<Rightarrow> Val t | None \<Rightarrow> Val (node_data_type s ast))
      | Call (FuncCallAST callee nm args) \<Rightarrow> infer_call_type rec s callee (obj_val nm) args
      | _ \<Rightarrow> Val (node_data_type s ast))"

fun infer_expr :: "nat \<Rightarrow> sema \<Rightarrow> inferer" where
  "infer_expr 0 s expr = Stuck"
| "infer_expr (Suc n) s NullAST = Val undefined_type"
| "infer_expr (Suc n) s (Ast a c) = infer_class_type (infer_expr n s) s (Ast a c) c"

subsection \<open>Resources and operators\<close>

definition collection_elem_type :: "(sema \<Rightarrow> inferer) \<Rightarrow> sema \<Rightarrow> styio_ast \<Rightarrow> styio_data_type sres" where
  "collection_elem_type ie s coll =
     chain (ie s coll)
       (\<lambda>t. if styio_type_is_iterable t then Val (styio_data_type_from_name (styio_type_item_type_name t))
            else (case as_list coll of
                    Some els \<Rightarrow>
                      chain (infer_list_literal_type (ie s) els)
                        (\<lambda>t. Val (styio_data_type_from_name (styio_type_item_type_name t)))
                  | None \<Rightarrow> Val i64_type))"

definition resource_family_for :: "(sema \<Rightarrow> inferer) \<Rightarrow> sema \<Rightarrow> styio_ast \<Rightarrow> string sres" where
  "resource_family_for ie s expr =
     (if expr = NullAST then Val []
      else if is_file_resource expr then Val ''file''
      else case as_std_stream expr of
             Some k \<Rightarrow> Val (styio_std_stream_family_name k)
           | None \<Rightarrow>
               (case as_receiver expr of
                  Some family \<Rightarrow> Val family
                | None \<Rightarrow>
                    if is_resource_ref expr then Val ''resource''
                    else (case Option.bind (as_name expr) (local_types s) of
                            Some t \<Rightarrow> Val (resource_family_for_type t)
                          | None \<Rightarrow> chain (ie s expr) (\<lambda>t. Val (resource_family_for_type t)))))"

definition consumes_receiver_class :: "sema \<Rightarrow> string \<Rightarrow> (styio_ast \<times> bool) ast_class \<Rightarrow> bool" where
  "consumes_receiver_class s family c =
     (case c of
        Write (ResourceRedirectAST data resource) \<Rightarrow>
          as_receiver (fst data) = Some family \<and> is_empty_resource (fst resource) \<or> snd data \<or> snd resource
      | Write (ResourceWriteAST data resource) \<Rightarrow> snd data \<or> snd resource
      | BlockLevel (BlockAST blk) \<Rightarrow> list_ex snd (blk_stmts blk) \<or> list_ex snd (blk_followings blk)
      | Call (FuncCallAST callee nm args) \<Rightarrow>
          as_receiver (fst callee) = Some family
            \<and> (case sema_find_method family (obj_val nm) s of Some m \<Rightarrow> me_consuming m | None \<Rightarrow> False)
          \<or> snd callee \<or> list_ex snd args
      | Binary (BinOpAST t opn l r) \<Rightarrow> snd l \<or> snd r
      | Access (AttrAST body attr) \<Rightarrow> snd body \<or> snd attr
      | _ \<Rightarrow> False)"

primrec body_consumes_receiver :: "sema \<Rightarrow> string \<Rightarrow> styio_ast \<Rightarrow> bool" where
  "body_consumes_receiver s family NullAST = False"
| "body_consumes_receiver s family (Ast a c) =
     consumes_receiver_class s family (map_ast_class (\<lambda>x. (x, body_consumes_receiver s family x)) c)"

text \<open>A hint is absent where the type is undefined.\<close>

definition hint_holds :: "(styio_data_type \<Rightarrow> bool) \<Rightarrow> styio_data_type \<Rightarrow> bool" where
  "hint_holds P t \<longleftrightarrow> \<not> isUndefined t \<and> P t"

definition concat_string_add :: "styio_data_type \<Rightarrow> styio_data_type \<Rightarrow> bool" where
  "concat_string_add l r \<longleftrightarrow>
     (let ls = hint_holds type_is_string l; rs = hint_holds type_is_string r;
          li = hint_holds type_is_intish l; ri = hint_holds type_is_intish r
      in (ls \<or> rs) \<and> (ls \<and> rs \<or> ls \<and> ri \<or> rs \<and> li))"

definition numeric_string_coercion :: "styio_data_type \<Rightarrow> styio_data_type \<Rightarrow> styio_data_type option" where
  "numeric_string_coercion l r =
     (let lhs_string = type_is_string l; rhs_string = type_is_string r;
          lhs_numeric = type_is_intish l; rhs_numeric = type_is_intish r
      in if \<not> lhs_string \<and> \<not> rhs_string then None
         else if \<not> lhs_numeric \<and> \<not> rhs_numeric \<and> \<not> (lhs_string \<and> rhs_string) then None
         else Some (if isFloat l \<or> isFloat r then f64_type else i64_type))"

definition is_arithmetic :: "styio_op_type \<Rightarrow> bool" where
  "is_arithmetic opn \<longleftrightarrow>
     opn \<in> {OP_Binary_Add, OP_Binary_Sub, OP_Binary_Mul, OP_Binary_Div, OP_Binary_Mod, OP_Binary_Pow}"

definition is_self_assign :: "styio_op_type \<Rightarrow> bool" where
  "is_self_assign opn \<longleftrightarrow>
     opn \<in> {OP_Self_Add_Assign, OP_Self_Sub_Assign, OP_Self_Mul_Assign, OP_Self_Div_Assign, OP_Self_Mod_Assign}"

text \<open>
  The nested switch of \<open>typeInfer(BinOpAST*)\<close>: the type an operand of one of the four kinds
  contributes. A bound name counts on the left, and on the right where the left operand is one.
\<close>

fun as_binop :: "styio_ast \<Rightarrow> type_ast option" where
  "as_binop (Ast a (Binary (BinOpAST t opn l r))) = Some t"
| "as_binop ast = None"

definition literal_operand :: "sema \<Rightarrow> styio_ast \<Rightarrow> styio_data_type option" where
  "literal_operand s ast =
     (case ast of
        Ast a (Scalar (IntAST i)) \<Rightarrow> Some (node_data_type s ast)
      | Ast a (Text (FloatAST str t)) \<Rightarrow> Some (node_data_type s ast)
      | _ \<Rightarrow> None)"

definition binop_operand :: "sema \<Rightarrow> styio_ast \<Rightarrow> styio_data_type option" where
  "binop_operand s ast = map_option (held_type s) (as_binop ast)"

definition is_float_node :: "styio_ast \<Rightarrow> bool" where
  "is_float_node ast = (case ast of Ast a (Text (FloatAST str t)) \<Rightarrow> True | _ \<Rightarrow> False)"

definition name_operand :: "sema \<Rightarrow> styio_ast \<Rightarrow> styio_data_type option" where
  "name_operand s ast = Option.bind (as_name ast) (local_types s)"

definition operand_types :: "sema \<Rightarrow> styio_ast \<Rightarrow> styio_ast \<Rightarrow> (styio_data_type \<times> styio_data_type) option" where
  "operand_types s lhs rhs =
     (case literal_operand s lhs of
        Some l \<Rightarrow>
          (case literal_operand s rhs of
             Some r \<Rightarrow> Some (l, r)
           | None \<Rightarrow> if is_float_node lhs then None else map_option (Pair l) (binop_operand s rhs))
      | None \<Rightarrow>
          (case binop_operand s lhs of
             Some l \<Rightarrow>
               (case literal_operand s rhs of
                  Some r \<Rightarrow> Some (l, r)
                | None \<Rightarrow> map_option (Pair l) (binop_operand s rhs))
           | None \<Rightarrow>
               (case name_operand s lhs of
                  Some l \<Rightarrow>
                    (case literal_operand s rhs of
                       Some r \<Rightarrow> Some (l, r)
                     | None \<Rightarrow>
                         (case binop_operand s rhs of
                            Some r \<Rightarrow> Some (l, r)
                          | None \<Rightarrow> map_option (Pair l) (name_operand s rhs)))
                | None \<Rightarrow> None)))"

end
