(* ===== verification/Styio_Sema.thy ===== *)
theory Styio_Sema
  imports Styio_SemaTypes
begin

text \<open>
  The visitors of semantic analysis (src/src/StyioSema/TypeInfer.cpp): \<open>typeInfer\<close> of each node class, and the
  visit of a program, which ends with the validation of its resource topology. A program's functions are not
  visited: a function's body is read when a call needs the type it returns.
\<close>

subsection \<open>Bindings\<close>

text \<open>
  The visitors. \<open>ti\<close> is \<open>typeInfer\<close> on a child and \<open>ie\<close> is \<open>infer_expr_type\<close> in a given state.
\<close>

type_synonym sema_visitor = "sema \<Rightarrow> sema sres"

definition resource_bound :: "sema \<Rightarrow> string \<Rightarrow> bool" where
  "resource_bound s nm \<longleftrightarrow> (case bindings s nm of Some b \<Rightarrow> bi_resource_value b | None \<Rightarrow> False)"

definition whole_resource_ref :: "styio_ast \<Rightarrow> string option" where
  "whole_resource_ref ast =
     (case ast of
        Ast a (Decl (ResourceRefAST nm sel off t)) \<Rightarrow>
          if sel = Whole then Some (case nm of None \<Rightarrow> [] | Some n \<Rightarrow> obj_val n) else None
      | _ \<Rightarrow> None)"

text \<open>Copying a resource with \<open>=\<close> or \<open>:=\<close> is refused; \<open>hint\<close> is the operator and the advice of the message.\<close>

definition reject_whole_copy :: "string \<Rightarrow> styio_ast \<Rightarrow> 'a sres \<Rightarrow> 'a sres" where
  "reject_whole_copy opn expr r =
     (case whole_resource_ref expr of
        Some nm \<Rightarrow> type_error (''resource `'' @ nm @ ''` cannot be copied with `'' @ opn @ ''`; use `<<` to clone it'')
      | None \<Rightarrow> r)"

definition reject_named_copy :: "string \<Rightarrow> sema \<Rightarrow> styio_ast \<Rightarrow> 'a sres \<Rightarrow> 'a sres" where
  "reject_named_copy opn s expr r =
     (case as_name expr of
        Some nm \<Rightarrow>
          check (\<not> resource_bound s nm)
            (''resource `'' @ nm @ ''` cannot be copied with `'' @ opn @ ''`; use `<-` or `<<` to clone it'') r
      | None \<Rightarrow> r)"

definition is_dict_literal :: "styio_ast \<Rightarrow> bool" where
  "is_dict_literal ast = (case ast of Ast a (Collection (DictAST es b t)) \<Rightarrow> True | _ \<Rightarrow> False)"

definition is_task_block :: "styio_ast \<Rightarrow> bool" where
  "is_task_block ast = (case ast of Ast a (Task (TaskBlockAST b t)) \<Rightarrow> True | _ \<Rightarrow> False)"

definition direct_resource :: "styio_ast \<Rightarrow> bool" where
  "direct_resource ast \<longleftrightarrow> is_file_resource ast \<or> as_std_stream ast \<noteq> None \<or> as_receiver ast \<noteq> None"

text \<open>Typing a binding whose type is a matrix: a literal gives the shape, otherwise the value's type must fit.\<close>

definition bind_matrix_type ::
    "(sema \<Rightarrow> inferer) \<Rightarrow> 'p var_ast object \<Rightarrow> styio_ast \<Rightarrow> styio_data_type \<Rightarrow> sema \<Rightarrow> (styio_data_type \<times> sema) sres" where
  "bind_matrix_type ie v expr vt s =
     (if \<not> styio_is_matrix_type vt then Val (vt, s)
      else
        (case expr of
           Ast a (Collection (ListAST els b t)) \<Rightarrow>
             chain (infer_matrix_literal_info (ie s) expr)
               (\<lambda>m. let vt = styio_make_matrix_type (dt_name (ml_elem m)) (ml_rows m) (ml_cols m)
                    in Val (vt, set_var_type v vt (set_type (obj_addr t) vt s)))
         | _ \<Rightarrow>
             chain (ie s expr)
               (\<lambda>rhs_type.
                  require_matrix_arg ''matrix binding'' rhs_type
                    (if styio_matrix_row_count vt = 0 \<and> styio_matrix_col_count vt = 0
                     then Val (rhs_type, set_var_type v rhs_type s)
                     else require_same_matrix_shape vt rhs_type (Val (vt, set_var_type v vt s))))))"

text \<open>The type a variable without one takes from its value.\<close>

definition value_type_hint :: "sema \<Rightarrow> styio_ast \<Rightarrow> styio_data_type option" where
  "value_type_hint s expr =
     (case expr of
        Ast a (Scalar (IntAST i)) \<Rightarrow> Some (node_data_type s expr)
      | Ast a (Text (FloatAST str t)) \<Rightarrow> Some (node_data_type s expr)
      | Ast a (Binary (BinOpAST t opn l r)) \<Rightarrow> Some (held_type s t)
      | Ast a (Scalar (BoolAST b)) \<Rightarrow> Some bool_type
      | Ast a (Selector (CondAST x)) \<Rightarrow> Some bool_type
      | Ast a (Binary (BinCompAST cmp l r)) \<Rightarrow> Some bool_type
      | Ast a (Text (StringAST str)) \<Rightarrow> Some string_type
      | Ast a (TupleC (TupleAST es b t)) \<Rightarrow> Some (node_data_type s expr)
      | _ \<Rightarrow> None)"

definition expr_value_kind :: "(sema \<Rightarrow> inferer) \<Rightarrow> sema \<Rightarrow> styio_ast \<Rightarrow> binding_value_kind sres" where
  "expr_value_kind ie s expr =
     (if as_list expr \<noteq> None then Val BV_ListHandle
      else if is_dict_literal expr then Val BV_DictHandle
      else case Option.bind (as_name expr) (bindings s) of
             Some b \<Rightarrow> Val (bi_value_kind b)
           | None \<Rightarrow>
               chain (ie s expr)
                 (\<lambda>ty. Val (case expr of
                        Ast a (Scalar (BoolAST b)) \<Rightarrow> BV_Bool
                      | Ast a (Selector (CondAST x)) \<Rightarrow> BV_Bool
                      | Ast a (Binary (BinCompAST cmp l r)) \<Rightarrow> BV_Bool
                      | Ast a (Scalar (IntAST i)) \<Rightarrow> BV_I64
                      | Ast a (Text (FloatAST str t)) \<Rightarrow> BV_F64
                      | Ast a (Text (StringAST str)) \<Rightarrow> BV_String
                      | _ \<Rightarrow> binding_value_kind_for_type ty)))"

definition is_handle_kind :: "binding_value_kind \<Rightarrow> bool" where
  "is_handle_kind k \<longleftrightarrow> k \<in> {BV_ListHandle, BV_DictHandle, BV_MatrixHandle, BV_TaskHandle}"

definition own_resource :: "string \<Rightarrow> bool \<Rightarrow> sema \<Rightarrow> sema" where
  "own_resource nm is_resource s = (if is_resource then s\<lparr>owned_resources := insert nm (owned_resources s)\<rparr> else s)"

text \<open>The tables after a flexible binding of \<open>nm\<close> to a value of the given type and kind.\<close>

definition record_flex_bind :: "string \<Rightarrow> styio_data_type \<Rightarrow> binding_value_kind \<Rightarrow> sema \<Rightarrow> sema" where
  "record_flex_bind nm concrete kind s =
     (let prev = (case bindings s nm of Some b \<Rightarrow> b | None \<Rightarrow> default_binding);
          dynamic = bi_dynamic_slot prev \<or> is_handle_kind kind;
          external = dt_handle_family concrete = HF_File \<or> dt_handle_family concrete = HF_Stream
                     \<or> styio_is_topology_resource_type concrete;
          resource = is_handle_kind kind \<or> external;
          info = \<lparr> bi_final_slot = False, bi_dynamic_slot = dynamic, bi_resource_value = resource, bi_value_kind = kind,
                   bi_declared_type = (if dynamic \<and> \<not> external then undefined_type else concrete) \<rparr>
      in own_resource nm resource (put_binding nm info (put_local nm concrete s)))"

definition infer_flex_bind ::
    "(styio_ast \<Rightarrow> sema_visitor) \<Rightarrow> (sema \<Rightarrow> inferer) \<Rightarrow> 'p var_ast object \<Rightarrow> styio_ast \<Rightarrow> sema_visitor" where
  "infer_flex_bind ti ie v expr s =
     (let nm = getNameAsStr v; declared = var_data_type s v in
      if nm \<in> fixed_names s then
        Throw (Syntax_Error (''variable `'' @ nm @ ''` was defined with `:=` (fixed assignment); ''
          @ ''cannot reassign with `=` (flex bind). Use a different name.''))
      else
        let s = (case as_binop expr of
                   Some t \<Rightarrow> if \<not> isUndefined declared \<and> \<not> styio_is_matrix_type declared
                             then set_type (obj_addr t) declared s else s
                 | None \<Rightarrow> s)
        in chain (ti expr s)
          (\<lambda>s. chain (bind_matrix_type ie v expr declared s)
          (\<lambda>(vt, s).
             let s = (if isUndefined vt then
                        (case value_type_hint s expr of Some t \<Rightarrow> set_var_type v t s | None \<Rightarrow> s)
                      else s)
             in reject_whole_copy ''='' expr (reject_named_copy ''='' s expr
               (chain (ie s expr)
                 (\<lambda>rhs.
                    check (direct_resource expr \<or> dt_handle_family rhs \<noteq> HF_File \<and> dt_handle_family rhs \<noteq> HF_Stream)
                      ''resource handles must be bound with `<-`; use `<- @...` for files and standard streams''
                      (check (\<not> is_empty_resource expr)
                         ''@() is a destroy sink and cannot be bound as a resource value''
                         (chain (expr_value_kind ie s expr)
                           (\<lambda>kind.
                              let concrete = (if isUndefined vt then rhs else vt);
                                  kind = (if is_task_block expr then BV_TaskHandle else kind);
                                  kind = (if styio_is_matrix_type concrete then BV_MatrixHandle else kind)
                              in Val (record_flex_bind nm concrete kind s))))))))))"

text \<open>Whether a final binding holds a resource, and the kind of its value.\<close>

definition final_is_resource :: "styio_ast \<Rightarrow> binding_value_kind \<Rightarrow> styio_data_type \<Rightarrow> binding_info option \<Rightarrow> bool" where
  "final_is_resource expr rhs_kind vt rhs_info \<longleftrightarrow>
     is_dict_literal expr \<or> direct_resource expr \<or> is_handle_kind rhs_kind
     \<or> styio_type_is_resource_handle vt \<or> styio_is_topology_resource_type vt
     \<or> (case rhs_info of Some b \<Rightarrow> is_handle_kind (bi_value_kind b) | None \<Rightarrow> False)"

definition final_value_kind ::
    "styio_ast \<Rightarrow> bool \<Rightarrow> binding_value_kind \<Rightarrow> styio_data_type \<Rightarrow> binding_info option \<Rightarrow> binding_value_kind" where
  "final_value_kind expr resource rhs_kind vt rhs_info =
     (if is_dict_literal expr then BV_DictHandle
      else if resource then
        (if styio_is_matrix_type vt then BV_MatrixHandle
         else case rhs_info of Some b \<Rightarrow> bi_value_kind b | None \<Rightarrow> rhs_kind)
      else if dt_option vt = DT_String then BV_String
      else if dt_option vt = DT_Float then BV_F64
      else if dt_option vt = DT_Bool then BV_Bool
      else if dt_option vt = DT_Integer then BV_I64
      else BV_Unknown)"

definition record_final_bind :: "(sema \<Rightarrow> inferer) \<Rightarrow> string \<Rightarrow> styio_ast \<Rightarrow> styio_data_type \<Rightarrow> sema_visitor" where
  "record_final_bind ie nm expr vt s =
     (let s = (put_local nm vt s)\<lparr>fixed_names := insert nm (fixed_names s)\<rparr>;
          rhs_info = Option.bind (as_name expr) (bindings s)
      in chain (ie s expr)
        (\<lambda>t. let rhs_kind = (if is_task_block expr then BV_TaskHandle else binding_value_kind_for_type t);
                 resource = final_is_resource expr rhs_kind vt rhs_info;
                 info = \<lparr> bi_final_slot = True, bi_dynamic_slot = resource, bi_resource_value = resource,
                          bi_value_kind = final_value_kind expr resource rhs_kind vt rhs_info, bi_declared_type = vt \<rparr>
             in Val (own_resource nm resource (put_binding nm info s))))"

definition infer_final_bind ::
    "(styio_ast \<Rightarrow> sema_visitor) \<Rightarrow> (sema \<Rightarrow> inferer) \<Rightarrow> 'p var_ast object \<Rightarrow> styio_ast \<Rightarrow> sema_visitor" where
  "infer_final_bind ti ie v expr s =
     reject_whole_copy '':='' expr (reject_named_copy '':='' s expr
       (chain (ti expr s)
         (\<lambda>s. chain (if isUndefined (var_data_type s v) then chain (ie s expr) (\<lambda>t. Val (t, set_var_type v t s))
                     else Val (var_data_type s v, s))
         (\<lambda>(vt, s). chain (bind_matrix_type ie v expr vt s)
         (\<lambda>(vt, s). chain (case as_binop expr of
                             Some t \<Rightarrow> if styio_is_matrix_type vt then Val s else ti expr (set_type (obj_addr t) vt s)
                           | None \<Rightarrow> Val s)
         (record_final_bind ie (getNameAsStr v) expr vt))))))"

text \<open>One target of a parallel assignment with its value.\<close>

definition final_slot :: "sema \<Rightarrow> string \<Rightarrow> bool" where
  "final_slot s nm \<longleftrightarrow>
     (case bindings s nm of Some b \<Rightarrow> bi_final_slot b | None \<Rightarrow> False) \<or> nm \<in> fixed_names s"

definition assign_name :: "string \<Rightarrow> styio_ast \<Rightarrow> sema_visitor" where
  "assign_name nm rhs s =
     check (\<not> final_slot s nm) (''parallel assignment cannot rebind final slot `'' @ nm @ ''`'')
       (Val (case bindings s nm of
               Some b \<Rightarrow>
                 if bi_dynamic_slot b then
                   (case Option.bind (as_name rhs) (bindings s) of
                      Some r \<Rightarrow> put_binding nm (b\<lparr>bi_value_kind := bi_value_kind r, bi_resource_value := bi_resource_value r\<rparr>)
                                  (put_local nm (bi_declared_type r) s)
                    | None \<Rightarrow> s)
                 else s
             | None \<Rightarrow> s))"

definition assign_element :: "(sema \<Rightarrow> inferer) \<Rightarrow> styio_ast \<Rightarrow> styio_ast \<Rightarrow> sema_visitor" where
  "assign_element ie base rhs s =
     chain (ie s base)
       (\<lambda>base_type. chain (ie s rhs)
       (\<lambda>rhs_type.
          if styio_is_dict_type base_type then
            (let target = styio_data_type_from_name (styio_dict_value_type_name base_type) in
             check (container_value_assignable target rhs_type)
               (''indexed assignment RHS does not match dict value type `'' @ dt_name target @ ''`'') (Val s))
          else
            check (styio_is_list_type base_type)
              ''indexed assignment in this slice supports dict[string,T] or list[T] targets only''
              (let elem = styio_data_type_from_name (styio_type_item_type_name base_type) in
               check (styio_type_supports_runtime_list_elem elem)
                 ''indexed assignment in this slice supports runtime list element families only''
                 (check (container_value_assignable elem rhs_type)
                    (''indexed assignment RHS does not match list element type `'' @ dt_name elem @ ''`'') (Val s)))))"

definition assign_target ::
    "(styio_ast \<Rightarrow> sema_visitor) \<Rightarrow> (sema \<Rightarrow> inferer) \<Rightarrow> styio_ast \<times> styio_ast \<Rightarrow> sema_visitor" where
  "assign_target ti ie pair s =
     (let (lhs, rhs) = pair in
      case as_name lhs of
        Some nm \<Rightarrow> assign_name nm rhs s
      | None \<Rightarrow>
          (case lhs of
             Ast a (Access (ListOpAST opn base slot1 slot2)) \<Rightarrow>
               if opn = In_List_Op NT_Access_By_Index
               then chain (ti lhs s) (assign_element ie base rhs)
               else type_error ''parallel assignment targets must be names or indexed list elements''
           | _ \<Rightarrow> type_error ''parallel assignment targets must be names or indexed list elements''))"

definition infer_parallel_assign ::
    "(styio_ast \<Rightarrow> sema_visitor) \<Rightarrow> (sema \<Rightarrow> inferer) \<Rightarrow> styio_ast list \<Rightarrow> styio_ast list \<Rightarrow> sema_visitor" where
  "infer_parallel_assign ti ie lhs rhs s =
     check (length lhs = length rhs) ''parallel assignment requires the same number of LHS and RHS expressions''
       (chain (for_each (\<lambda>r s. reject_named_copy ''='' s r (ti r s)) rhs s) (for_each (assign_target ti ie) (zip lhs rhs)))"

subsection \<open>Values\<close>

definition infer_name :: "string \<Rightarrow> sema_visitor" where
  "infer_name nm s =
     check (nm \<notin> consumed_resources s) (''use-after-destroy: resource `'' @ nm @ ''` was already destroyed'') (Val s)"

text \<open>The elements of a tuple are compared only where the first has no type.\<close>

definition infer_tuple :: "nat \<Rightarrow> styio_ast list \<Rightarrow> type_ast \<Rightarrow> sema_visitor" where
  "infer_tuple a els t s =
     (case els of
        [] \<Rightarrow> Crash
      | NullAST # es \<Rightarrow> Crash
      | e # es \<Rightarrow>
          (let aggregated = node_data_type s e in
           if isUndefined aggregated \<and> NullAST \<in> set es then Crash
           else if isUndefined aggregated \<and> \<not> list_all (\<lambda>x. type_equals (node_data_type s x) aggregated) es then Val s
           else Val (set_type (obj_addr t) aggregated s\<lparr>consistent_nodes := insert a (consistent_nodes s)\<rparr>)))"

definition infer_list ::
    "(styio_ast \<Rightarrow> sema_visitor) \<Rightarrow> (sema \<Rightarrow> inferer) \<Rightarrow> nat \<Rightarrow> styio_ast list \<Rightarrow> type_ast \<Rightarrow> sema_visitor" where
  "infer_list ti ie a els t s =
     chain (for_each ti els s)
       (\<lambda>s. chain (infer_list_literal_type (ie s) els)
         (\<lambda>ty. Val (set_type (obj_addr t) ty s\<lparr>consistent_nodes := insert a (consistent_nodes s)\<rparr>)))"

definition infer_dict ::
    "(styio_ast \<Rightarrow> sema_visitor) \<Rightarrow> (sema \<Rightarrow> inferer) \<Rightarrow> nat \<Rightarrow> (styio_ast \<times> styio_ast) list \<Rightarrow> type_ast \<Rightarrow> sema_visitor" where
  "infer_dict ti ie a entries t s =
     chain (for_each (\<lambda>(k, v) s. chain (ti k s) (ti v)) entries s)
       (\<lambda>s. chain (infer_dict_literal_type (ie s) entries)
         (\<lambda>ty. Val (set_type (obj_addr t) ty s\<lparr>consistent_nodes := insert a (consistent_nodes s)\<rparr>)))"

definition infer_size_of ::
    "(styio_ast \<Rightarrow> sema_visitor) \<Rightarrow> (sema \<Rightarrow> inferer) \<Rightarrow> styio_ast \<Rightarrow> type_ast \<Rightarrow> sema_visitor" where
  "infer_size_of ti ie v t s =
     check (v \<noteq> NullAST) ''size-of expects an expression''
       (chain (ti v s)
         (\<lambda>s. chain (ie s v)
           (\<lambda>ty. check (styio_is_list_type ty \<or> styio_is_dict_type ty) ''size-of expects a list or dict value''
                   (Val (set_type (obj_addr t) i64_type s)))))"

definition unless_null :: "(styio_ast \<Rightarrow> sema_visitor) \<Rightarrow> styio_ast \<Rightarrow> sema_visitor" where
  "unless_null ti x s = (if x = NullAST then Val s else ti x s)"

definition infer_list_op ::
    "(styio_ast \<Rightarrow> sema_visitor) \<Rightarrow> (sema \<Rightarrow> inferer) \<Rightarrow> styio_node_type \<Rightarrow> styio_ast \<Rightarrow> styio_ast \<Rightarrow> styio_ast \<Rightarrow> sema_visitor" where
  "infer_list_op ti ie opn l slot1 slot2 s =
     chain (ti l s)
       (\<lambda>s. chain (unless_null ti slot1 s)
       (\<lambda>s. chain (unless_null ti slot2 s)
       (\<lambda>s. chain (ie s l)
       (\<lambda>list_type.
          if opn = In_List_Op NT_Access_By_Name then
            check (styio_is_dict_type list_type) ''name-based access requires a dict value'' (Val s)
          else if opn \<noteq> In_List_Op NT_Access_By_Index then Val s
          else
            check (styio_type_is_indexable list_type) ''indexed access requires an indexable value''
              (chain (ie s slot1)
                (\<lambda>slot_type.
                   if styio_is_dict_type list_type
                   then check (dt_option slot_type = DT_String) ''dict index must have type string'' (Val s)
                   else check (dt_option slot_type = DT_Integer) ''list index must have integer type'' (Val s)))))))"

definition infer_cond :: "(styio_ast \<Rightarrow> sema_visitor) \<Rightarrow> styio_ast cond_ast \<Rightarrow> sema_visitor" where
  "infer_cond ti x s =
     chain (unless_null ti (cond_value x) s)
       (\<lambda>s. chain (unless_null ti (cond_lhs x) s) (unless_null ti (cond_rhs x)))"

text \<open>
  A binary operation. One without a type takes it from its operands; one with a type hands it to the operands
  that are operations themselves, which are visited again.
\<close>

definition infer_self_assign ::
    "(styio_ast \<Rightarrow> sema_visitor) \<Rightarrow> type_ast \<Rightarrow> styio_ast \<Rightarrow> styio_ast \<Rightarrow> sema_visitor" where
  "infer_self_assign ti t lhs rhs s =
     chain (ti rhs s)
       (\<lambda>s. Val (set_type (obj_addr t)
               (case as_name lhs of
                  None \<Rightarrow> undefined_type
                | Some nm \<Rightarrow> (case local_types s nm of Some ty \<Rightarrow> ty | None \<Rightarrow> i64_type)) s))"

text \<open>The type the visit sets, none where it leaves the operation without one.\<close>

definition arithmetic_type ::
    "sema \<Rightarrow> styio_op_type \<Rightarrow> styio_ast \<Rightarrow> styio_ast \<Rightarrow> styio_data_type \<Rightarrow> styio_data_type \<Rightarrow> styio_data_type option" where
  "arithmetic_type s opn lhs rhs lhs_type rhs_type =
     (if \<not> is_arithmetic opn then None
      else let hinted = map_option (\<lambda>(l, r). getMaxType l r) (operand_types s lhs rhs) in
        if (case hinted of Some t \<Rightarrow> isUndefined t | None \<Rightarrow> True)
           \<and> type_is_numeric_family lhs_type \<and> type_is_numeric_family rhs_type
        then Some (getMaxType lhs_type rhs_type) else hinted)"

definition binop_type ::
    "sema \<Rightarrow> styio_op_type \<Rightarrow> styio_ast \<Rightarrow> styio_ast \<Rightarrow> styio_data_type \<Rightarrow> styio_data_type \<Rightarrow> styio_data_type option sres" where
  "binop_type s opn lhs rhs lhs_type rhs_type =
     (if styio_is_matrix_type lhs_type \<or> styio_is_matrix_type rhs_type then
        check (opn \<in> {OP_Binary_Add, OP_Binary_Sub, OP_Binary_Mul}) ''unsupported matrix operator''
          (chain (matrix_binary_result lhs_type rhs_type opn) (\<lambda>t. Val (Some t)))
      else if opn = OP_Binary_Add \<and> concat_string_add lhs_type rhs_type then Val (Some string_type)
      else case (if is_arithmetic opn then numeric_string_coercion lhs_type rhs_type else None) of
             Some t \<Rightarrow> Val (Some t)
           | None \<Rightarrow> Val (arithmetic_type s opn lhs rhs lhs_type rhs_type))"

definition hand_type :: "(styio_ast \<Rightarrow> sema_visitor) \<Rightarrow> type_ast \<Rightarrow> styio_ast \<Rightarrow> sema_visitor" where
  "hand_type ti t x s =
     (case as_binop x of Some u \<Rightarrow> ti x (set_type (obj_addr u) (held_type s t) s) | None \<Rightarrow> Val s)"

definition infer_bin_op ::
    "(styio_ast \<Rightarrow> sema_visitor) \<Rightarrow> (sema \<Rightarrow> inferer) \<Rightarrow> type_ast \<Rightarrow> styio_op_type \<Rightarrow> styio_ast \<Rightarrow> styio_ast \<Rightarrow> sema_visitor" where
  "infer_bin_op ti ie t opn lhs rhs s =
     (if lhs = NullAST \<or> rhs = NullAST then
        chain (unless_null ti lhs s)
          (\<lambda>s. chain (unless_null ti rhs s) (\<lambda>s. Val (set_type (obj_addr t) undefined_type s)))
      else if is_self_assign opn then infer_self_assign ti t lhs rhs s
      else if isUndefined (held_type s t) then
        chain (ti lhs s)
          (\<lambda>s. chain (ti rhs s)
          (\<lambda>s. chain (ie s lhs)
          (\<lambda>lhs_type. chain (ie s rhs)
          (\<lambda>rhs_type. chain (binop_type s opn lhs rhs lhs_type rhs_type)
          (\<lambda>ty. Val (case ty of Some ty \<Rightarrow> set_type (obj_addr t) ty s | None \<Rightarrow> s))))))
      else chain (hand_type ti t lhs s) (hand_type ti t rhs))"

subsection \<open>Resources\<close>

definition is_stdin_type :: "styio_data_type \<Rightarrow> bool" where
  "is_stdin_type t \<longleftrightarrow>
     dt_handle_family t = HF_Stream \<and> dt_has_std_stream_kind t \<and> dt_std_stream_kind t = std_stream_kind_code SK_Stdin"

text \<open>Pulling a task into a variable: \<open>x <- task\<close>.\<close>

definition target_declared :: "sema \<Rightarrow> string \<Rightarrow> bool" where
  "target_declared s nm \<longleftrightarrow> local_types s nm \<noteq> None \<or> bindings s nm \<noteq> None"

definition target_type :: "sema \<Rightarrow> string \<Rightarrow> styio_data_type" where
  "target_type s nm =
     (case local_types s nm of
        Some t \<Rightarrow> t
      | None \<Rightarrow> (case bindings s nm of Some b \<Rightarrow> bi_declared_type b | None \<Rightarrow> undefined_type))"

definition pull_task :: "string \<Rightarrow> string \<Rightarrow> styio_data_type \<Rightarrow> sema_visitor" where
  "pull_task nm task source_type s =
     check (target_declared s nm) (''task pull target `'' @ nm @ ''` must be declared before use'')
       (check (nm \<notin> fixed_names s) (''task pull target `'' @ nm @ ''` is final and cannot be reassigned'')
       (check (task \<notin> consumed_tasks s) (''task `'' @ task @ ''` was already pulled'')
       (let result = task_result_type_from_task_type source_type; target = target_type s nm in
        check (isUndefined target \<or> container_value_assignable target result)
          (''task pull target `'' @ nm @ ''` expects '' @ dt_name target @ '', got '' @ dt_name result)
          (Val (s\<lparr>consumed_tasks := insert task (consumed_tasks s)\<rparr>)))))"

definition bind_acquired :: "bool \<Rightarrow> string \<Rightarrow> binding_info \<Rightarrow> sema \<Rightarrow> sema" where
  "bind_acquired flex nm info s =
     own_resource nm (bi_resource_value info)
       (put_binding nm info (if flex then s else s\<lparr>fixed_names := insert nm (fixed_names s)\<rparr>))"

text \<open>Cloning the resource a name is bound to; standard input cloned into a variable is collected into a list.\<close>

definition source_binding_type :: "sema \<Rightarrow> string \<Rightarrow> styio_data_type" where
  "source_binding_type s src =
     (let declared = (case bindings s src of Some b \<Rightarrow> bi_declared_type b | None \<Rightarrow> undefined_type)
      in if isUndefined declared then (case local_types s src of Some t \<Rightarrow> t | None \<Rightarrow> declared) else declared)"

definition acquire_clone :: "nat \<Rightarrow> 'p var_ast object \<Rightarrow> bool \<Rightarrow> string \<Rightarrow> sema_visitor" where
  "acquire_clone a v flex src s =
     (let nm = getNameAsStr v; source_type = source_binding_type s src in
      if flex \<and> \<not> isUndefined source_type \<and> is_stdin_type source_type then
        (let collected = styio_make_list_type ''string'';
             info = \<lparr> bi_final_slot = False, bi_dynamic_slot = True, bi_resource_value = True,
                      bi_value_kind = BV_ListHandle, bi_declared_type = undefined_type \<rparr>;
             s = put_local nm collected s
         in Val (bind_acquired flex nm info (s\<lparr>collect_acquires := (collect_acquires s)(a \<mapsto> collected)\<rparr>)))
      else
        (case bindings s src of
           Some b \<Rightarrow>
             check (bi_resource_value b \<and> styio_type_is_cloneable source_type)
               (''resource clone source `'' @ src @ ''` is not a cloneable resource'')
               (let info = \<lparr> bi_final_slot = \<not> flex, bi_dynamic_slot = flex, bi_resource_value = bi_resource_value b,
                             bi_value_kind = bi_value_kind b, bi_declared_type = source_type \<rparr>;
                    s = put_local nm source_type s
                in Val (bind_acquired flex nm info (if flex then s else set_var_type v source_type s)))
         | None \<Rightarrow> type_error (''resource clone source `'' @ src @ ''` is not a cloneable resource'')))"

definition acquire_open :: "'p var_ast object \<Rightarrow> bool \<Rightarrow> styio_data_type \<Rightarrow> sema_visitor" where
  "acquire_open v flex declared s =
     check (\<not> isUndefined declared) ''handle acquire needs a typed resource source''
       (let nm = getNameAsStr v;
            info = \<lparr> bi_final_slot = \<not> flex, bi_dynamic_slot = flex,
                     bi_resource_value = styio_type_is_resource_handle declared,
                     bi_value_kind = BV_I64, bi_declared_type = declared \<rparr>;
            s = put_local nm declared s
        in Val (bind_acquired flex nm info (if flex then s else set_var_type v declared s)))"

definition acquire_resource ::
    "(styio_ast \<Rightarrow> sema_visitor) \<Rightarrow> (sema \<Rightarrow> inferer) \<Rightarrow> nat \<Rightarrow> 'p var_ast object \<Rightarrow> styio_ast \<Rightarrow> bool \<Rightarrow> sema_visitor" where
  "acquire_resource ti ie a v resource flex s =
     (let nm = getNameAsStr v in
      check (flex \<or> local_types s nm = None) (''final resource bind cannot redefine `'' @ nm @ ''`'')
        (check (\<not> flex \<or> nm \<notin> fixed_names s) (''resource clone cannot rebind final slot `'' @ nm @ ''`'')
           (chain (ti resource s)
             (\<lambda>s. chain (ie s resource)
               (\<lambda>declared. case as_name resource of
                              Some src \<Rightarrow> acquire_clone a v flex src s
                            | None \<Rightarrow> acquire_open v flex declared s)))))"

definition infer_handle_acquire ::
    "(styio_ast \<Rightarrow> sema_visitor) \<Rightarrow> (sema \<Rightarrow> inferer) \<Rightarrow> nat \<Rightarrow> 'p var_ast object \<Rightarrow> styio_ast \<Rightarrow> bind_mode \<Rightarrow> sema_visitor" where
  "infer_handle_acquire ti ie a v resource mode s =
     (case as_name resource of
        Some task \<Rightarrow>
          chain (ie s resource)
            (\<lambda>source_type.
               if dt_handle_family source_type = HF_Task then pull_task (getNameAsStr v) task source_type s
               else acquire_resource ti ie a v resource (mode = Mode_Flex) s)
      | None \<Rightarrow> acquire_resource ti ie a v resource (mode = Mode_Flex) s)"

definition collect_write_target :: "sema \<Rightarrow> styio_ast \<Rightarrow> styio_data_type \<Rightarrow> string option" where
  "collect_write_target s data resource_type =
     (case as_name data of
        Some nm \<Rightarrow> if \<not> target_declared s nm \<and> is_stdin_type resource_type then Some nm else None
      | None \<Rightarrow> None)"

definition infer_resource_write ::
    "(styio_ast \<Rightarrow> sema_visitor) \<Rightarrow> (sema \<Rightarrow> inferer) \<Rightarrow> nat \<Rightarrow> styio_ast \<Rightarrow> styio_ast \<Rightarrow> sema_visitor" where
  "infer_resource_write ti ie a data resource s =
     chain (ti resource s)
       (\<lambda>s. check (\<not> is_empty_resource resource) ''@() is a destroy sink; use `resource -> @()` to destroy''
         (chain (ie s resource)
           (\<lambda>resource_type.
              case collect_write_target s data resource_type of
                Some nm \<Rightarrow>
                  (let info = \<lparr> bi_final_slot = False, bi_dynamic_slot = True, bi_resource_value = True,
                                bi_value_kind = BV_ListHandle, bi_declared_type = undefined_type \<rparr>;
                       collected = styio_make_list_type ''string'';
                       s = put_binding nm info (put_local nm collected s)
                   in Val (s\<lparr>collect_writes := (collect_writes s)(a \<mapsto> collected)\<rparr>))
              | None \<Rightarrow>
                  chain (ti data s)
                    (\<lambda>s. check (styio_type_is_writable resource_type) ''write target must be a writable resource''
                      (case as_std_stream resource of
                         Some kind \<Rightarrow>
                           if kind = SK_Stdin then Val s
                           else chain (ie s data)
                             (\<lambda>data_type. check (type_is_text_serializable_iterable data_type)
                                (''terminal/standard-stream `>>` requires an iterable text-serializable value; ''
                                 @ ''use `-> @stdout` or `-> [>_]` for scalar text'') (Val s))
                       | None \<Rightarrow> Val s)))))"

text \<open>Destroying the resource a name is bound to.\<close>

definition outer_resource :: "sema \<Rightarrow> string \<Rightarrow> bool" where
  "outer_resource s nm \<longleftrightarrow> (case task_outer_stack s of [] \<Rightarrow> False | names # ts \<Rightarrow> nm \<in> names)"

definition consume_resource :: "string \<Rightarrow> sema_visitor" where
  "consume_resource nm s =
     check (\<not> outer_resource s nm) (''task cannot consume outer resource `'' @ nm @ ''`'')
       (check (nm \<notin> consumed_resources s) (''double destroy: resource `'' @ nm @ ''` was already destroyed'')
          (Val (s\<lparr>consumed_resources := insert nm (consumed_resources s)\<rparr>)))"

definition infer_resource_redirect ::
    "(styio_ast \<Rightarrow> sema_visitor) \<Rightarrow> (sema \<Rightarrow> inferer) \<Rightarrow> styio_ast \<Rightarrow> styio_ast \<Rightarrow> sema_visitor" where
  "infer_resource_redirect ti ie data resource s =
     chain (ti data s)
       (\<lambda>s. chain (ti resource s)
       (\<lambda>s.
          if is_empty_resource resource then
            (case as_name data of
               Some nm \<Rightarrow> check (resource_bound s nm) ''@() destroy source must be a resource'' (consume_resource nm s)
             | None \<Rightarrow>
                 chain (ie s data)
                   (\<lambda>t. check (is_file_resource data \<or> as_receiver data \<noteq> None \<or> is_resource_ref data
                                 \<or> styio_type_is_resource_handle t \<or> styio_is_topology_resource_type t)
                          ''@() destroy source must be a resource'' (Val s)))
          else chain (ie s resource)
                 (\<lambda>t. check (styio_type_is_writable t) ''redirect target must be a writable resource'' (Val s))))"

definition infer_receiver :: "string \<Rightarrow> sema_visitor" where
  "infer_receiver family s =
     check (active_receiver s = [] \<or> family = active_receiver s)
       (''resource receiver @'' @ family @ '' is not the active receiver @'' @ active_receiver s) (Val s)"

definition define_method :: "string \<Rightarrow> string \<Rightarrow> method_info \<Rightarrow> sema \<Rightarrow> sema" where
  "define_method family m info s =
     s\<lparr>method_defs := (method_defs s)(family := (method_defs s family)(m \<mapsto> info))\<rparr>"

definition infer_method_def ::
    "(styio_ast \<Rightarrow> sema_visitor) \<Rightarrow> string \<Rightarrow> string \<Rightarrow> bool \<Rightarrow> bool \<Rightarrow> nat \<Rightarrow> styio_ast \<Rightarrow> sema_visitor" where
  "infer_method_def ti family m is_final is_property params body s =
     check (case method_defs s family m of Some info \<Rightarrow> \<not> me_final_binding info | None \<Rightarrow> True)
       (''resource method @'' @ family @ ''::'' @ m @ '' is final and cannot be overridden'')
       (let info = \<lparr> me_final_binding = is_final,
                     me_consuming = (\<not> is_property \<and> body_consumes_receiver s family body),
                     me_property = is_property, me_param_count = params \<rparr>;
            saved = active_receiver s;
            s = (define_method family m info s)\<lparr>active_receiver := family\<rparr>
        in chain (unless_null ti body s) (\<lambda>s. Val (s\<lparr>active_receiver := saved\<rparr>)))"

definition declare_resource :: "name_ast \<times> type_ast \<Rightarrow> sema_visitor" where
  "declare_resource slot s =
     (let nm = obj_val (fst slot); declared = styio_normalize_resource_decl_type (held_type s (snd slot)) in
      check (resource_types s nm = None) (''resource `'' @ nm @ ''` is already declared'')
        (Val (s\<lparr>resource_types := (resource_types s)(nm \<mapsto> declared)\<rparr>)))"

definition infer_block :: "(styio_ast \<Rightarrow> sema_visitor) \<Rightarrow> styio_ast list \<Rightarrow> sema_visitor" where
  "infer_block ti =
     for_each (\<lambda>st s. case st of
        Ast a (Decl (ResourceDeclAST slots d)) \<Rightarrow> type_error ''resource declarations are top-level only''
      | _ \<Rightarrow> ti st s)"

definition infer_resource_decl ::
    "(styio_ast \<Rightarrow> sema_visitor) \<Rightarrow> (name_ast \<times> type_ast) list \<Rightarrow> styio_ast block_ast object option \<Rightarrow> sema_visitor" where
  "infer_resource_decl ti slots driver s =
     chain (for_each declare_resource slots s)
       (\<lambda>s. case driver of Some b \<Rightarrow> infer_block ti (blk_stmts (obj_val b)) s | None \<Rightarrow> Val s)"

definition infer_resource_ref :: "nat \<Rightarrow> string \<Rightarrow> resource_selector_kind \<Rightarrow> sema_visitor" where
  "infer_resource_ref a nm sel s =
     (case resource_types s nm of
        None \<Rightarrow> type_error (''unknown resource `'' @ nm @ ''`'')
      | Some t \<Rightarrow>
          if sel = Whole then Val (set_type a t s)
          else
            check (styio_type_is_readable t) (''resource `'' @ nm @ ''` does not have read capability'')
              (check (styio_type_is_indexable t) (''resource `'' @ nm @ ''` is not indexable'')
              (check (\<not> (sel = SnapshotAll \<and> dt_resource_shape t = RS_Scalar))
                 (''resource `'' @ nm @ ''` does not support snapshot selection'')
                 (Val (set_type a (styio_topology_resource_value_type t) s)))))"

subsection \<open>Calls\<close>

text \<open>The arguments are visited and typed in turn.\<close>

fun infer_args ::
    "(styio_ast \<Rightarrow> sema_visitor) \<Rightarrow> (sema \<Rightarrow> inferer) \<Rightarrow> styio_ast list \<Rightarrow> sema \<Rightarrow> (styio_data_type list \<times> sema) sres" where
  "infer_args ti ie [] s = Val ([], s)"
| "infer_args ti ie (x # xs) s =
     chain (ti x s)
       (\<lambda>s. chain (ie s x)
       (\<lambda>t. chain (infer_args ti ie xs s) (\<lambda>(ts, s). Val (t # ts, s))))"

definition list_method_arguments ::
    "(sema \<Rightarrow> inferer) \<Rightarrow> styio_builtin_method_kind \<Rightarrow> styio_data_type \<Rightarrow> styio_ast list \<Rightarrow> sema_visitor" where
  "list_method_arguments ie kind elem args s =
     (if kind = BM_ListPush then
        check (length args = 1) ''list.push(value) requires exactly one argument''
          (chain (ie s (args ! 0))
            (\<lambda>t. check (container_value_assignable elem t)
                   (''list.push(value) expects `'' @ dt_name elem @ ''`, got `'' @ dt_name t @ ''`'') (Val s)))
      else if kind = BM_ListInsert then
        check (length args = 2) ''list.insert(index, value) requires exactly two arguments''
          (chain (ie s (args ! 0))
            (\<lambda>i. check (dt_option i = DT_Integer) ''list.insert(index, value) requires an integer index''
              (chain (ie s (args ! 1))
                (\<lambda>t. check (container_value_assignable elem t)
                       (''list.insert(index, value) expects `'' @ dt_name elem @ ''`, got `'' @ dt_name t @ ''`'')
                       (Val s)))))
      else check (args = []) ''list.pop() does not take arguments'' (Val s))"

definition infer_list_method ::
    "(styio_ast \<Rightarrow> sema_visitor) \<Rightarrow> (sema \<Rightarrow> inferer) \<Rightarrow> styio_ast \<Rightarrow> string \<Rightarrow> styio_ast list \<Rightarrow> sema_visitor" where
  "infer_list_method ti ie callee nm args s =
     chain (for_each ti args s)
       (\<lambda>s. chain (ie s callee)
         (\<lambda>t. check (styio_is_list_type t)
                (''predefined list operation `'' @ nm @ ''` requires a list[T] receiver'')
                (let elem = styio_data_type_from_name (styio_type_item_type_name t) in
                 check (styio_type_supports_runtime_list_elem elem)
                   (''predefined list operation `'' @ nm @ ''` requires a runtime list element family'')
                   (list_method_arguments ie (builtin_method_kind nm) elem args s))))"

definition infer_string_method ::
    "(styio_ast \<Rightarrow> sema_visitor) \<Rightarrow> (sema \<Rightarrow> inferer) \<Rightarrow> styio_ast \<Rightarrow> styio_ast list \<Rightarrow> sema_visitor" where
  "infer_string_method ti ie callee args s =
     chain (for_each ti args s)
       (\<lambda>s. chain (ie s callee)
         (\<lambda>t. check (dt_option t = DT_String) ''string.lines() requires a string receiver''
                (check (args = []) ''string.lines() does not take arguments'' (Val s))))"

definition infer_resource_method ::
    "(styio_ast \<Rightarrow> sema_visitor) \<Rightarrow> (sema \<Rightarrow> inferer) \<Rightarrow> string \<Rightarrow> styio_ast \<Rightarrow> string \<Rightarrow> styio_ast list \<Rightarrow> sema_visitor" where
  "infer_resource_method ti ie family callee nm args s =
     chain (infer_args ti ie args s)
       (\<lambda>(ts, s).
          case method_defs s family nm of
            None \<Rightarrow> type_error (''resource method cannot be resolved: @'' @ family @ ''::'' @ nm)
          | Some m \<Rightarrow>
              check (\<not> me_property m) (''resource property @'' @ family @ ''::'' @ nm @ '' is not callable'')
                (check (length ts = me_param_count m)
                   (''resource method @'' @ family @ ''::'' @ nm @ '' expects '' @ to_string_nat (me_param_count m)
                      @ '' argument(s), got '' @ to_string_nat (length ts))
                   (if me_consuming m
                    then (case as_name callee of Some receiver \<Rightarrow> consume_resource receiver s | None \<Rightarrow> Val s)
                    else Val s)))"

definition arity_check :: "string \<Rightarrow> nat \<Rightarrow> nat \<Rightarrow> 'a sres \<Rightarrow> 'a sres" where
  "arity_check nm expected got =
     check (got = expected)
       (''function `'' @ nm @ ''` expects '' @ to_string_nat expected @ '' argument(s), got '' @ to_string_nat got)"

definition native_argument :: "nat \<times> styio_data_type \<times> styio_data_type \<Rightarrow> sema_visitor" where
  "native_argument arg s =
     (let (i, expected, got) = arg in
      check (func_param_accepts_arg expected got)
        (''function argument type mismatch for native parameter '' @ to_string_nat i @ '': expected ''
           @ dt_name expected @ '', got '' @ dt_name got) (Val s))"

text \<open>A parameter without a type takes the type of the argument.\<close>

definition function_argument :: "styio_ast var_ast object \<times> styio_data_type \<Rightarrow> sema_visitor" where
  "function_argument arg s =
     (let (p, got) = arg; declared = var_data_type s p in
      if isUndefined declared then Val (set_var_type p got s)
      else check (func_param_accepts_arg declared got)
             (''function argument type mismatch for parameter '' @ [CHR 0x27] @ getNameAsStr p @ [CHR 0x27]
                @ '': expected '' @ dt_name declared @ '', got '' @ dt_name got) (Val s))"

definition params_of_func_def :: "styio_ast \<Rightarrow> styio_ast var_ast object list" where
  "params_of_func_def def =
     (case def of
        Ast a (Function (FunctionAST nm u ps r body)) \<Rightarrow> ps
      | Ast a (SimpleFunc (SimpleFuncAST nm u ps r body)) \<Rightarrow> ps
      | _ \<Rightarrow> [])"

definition infer_function_call ::
    "(styio_ast \<Rightarrow> sema_visitor) \<Rightarrow> (sema \<Rightarrow> inferer) \<Rightarrow> string \<Rightarrow> styio_ast list \<Rightarrow> sema_visitor" where
  "infer_function_call ti ie nm args s =
     (let def = func_defs s nm in
      chain (infer_args ti ie args s)
        (\<lambda>(ts, s).
           case def of
             Some f \<Rightarrow>
               (let ps = params_of_func_def f in
                arity_check nm (length ps) (length ts) (for_each function_argument (zip ps ts) s))
           | None \<Rightarrow>
               (case native_defs s nm of
                  None \<Rightarrow> type_error (''unknown function `'' @ nm @ ''`'')
                | Some f \<Rightarrow>
                    arity_check nm (length (nf_args f)) (length ts)
                      (for_each native_argument (zip [0 ..< length ts] (zip (nf_args f) ts)) s))))"

definition infer_plain_call ::
    "(styio_ast \<Rightarrow> sema_visitor) \<Rightarrow> (sema \<Rightarrow> inferer) \<Rightarrow> styio_ast \<Rightarrow> string \<Rightarrow> styio_ast list \<Rightarrow> sema_visitor" where
  "infer_plain_call ti ie callee nm args s =
     check (\<not> (callee \<noteq> NullAST \<and> nm = CallableApplyName))
       (''one-shot continuation resume `<|` requires continuation lowering; ''
        @ ''captured continuations must be resumed or discontinued exactly once'')
       (if callee = NullAST \<and> is_matrix_intrinsic_name nm then
          chain (for_each ti args s)
            (\<lambda>s. chain (infer_matrix_intrinsic_type (ie s) callee nm args) (\<lambda>t. Val s))
        else infer_function_call ti ie nm args s)"

definition infer_func_call ::
    "(styio_ast \<Rightarrow> sema_visitor) \<Rightarrow> (sema \<Rightarrow> inferer) \<Rightarrow> styio_ast \<Rightarrow> string \<Rightarrow> styio_ast list \<Rightarrow> sema_visitor" where
  "infer_func_call ti ie callee nm args s =
     chain (unless_null ti callee s)
       (\<lambda>s.
          if callee = NullAST then infer_plain_call ti ie callee nm args s
          else if styio_is_predefined_list_operation_kind (builtin_method_kind nm) then infer_list_method ti ie callee nm args s
          else if styio_is_predefined_string_operation_kind (builtin_method_kind nm) then infer_string_method ti ie callee args s
          else chain (resource_family_for ie s callee)
                 (\<lambda>family. if family \<noteq> [] then infer_resource_method ti ie family callee nm args s
                            else infer_plain_call ti ie callee nm args s))"

definition infer_attr :: "(styio_ast \<Rightarrow> sema_visitor) \<Rightarrow> (sema \<Rightarrow> inferer) \<Rightarrow> styio_ast \<Rightarrow> styio_ast \<Rightarrow> sema_visitor" where
  "infer_attr ti ie body attr s =
     chain (ti body s)
       (\<lambda>s. case as_name attr of
          None \<Rightarrow> type_error ''attribute access requires a simple name''
        | Some nm \<Rightarrow>
            chain (ie s body)
              (\<lambda>t.
                 if nm = ''length'' \<or> nm = ''size'' then
                   check (styio_type_is_sized t) ''.length/.size require a sized value'' (Val s)
                 else if (nm = ''keys'' \<or> nm = ''values'') \<and> styio_is_dict_type t then Val s
                 else chain (resource_family_for ie s body)
                   (\<lambda>family.
                      if family = [] then type_error ''only .length, .size, .keys, and .values are supported''
                      else check (case sema_find_method family nm s of Some m \<Rightarrow> me_property m | None \<Rightarrow> False)
                             (''resource method cannot be resolved: @'' @ family @ ''::'' @ nm) (Val s))))"

subsection \<open>Branches, loops and tasks\<close>

text \<open>What a branch or a loop body binds is forgotten after it.\<close>

definition restore_bindings :: "sema \<Rightarrow> sema \<Rightarrow> sema" where
  "restore_bindings saved s =
     s\<lparr>local_types := local_types saved, fixed_names := fixed_names saved, bindings := bindings saved\<rparr>"

definition merge_binding :: "binding_info \<Rightarrow> binding_info \<Rightarrow> binding_info" where
  "merge_binding b1 b2 =
     (if bi_value_kind b1 \<noteq> bi_value_kind b2 \<or> bi_resource_value b1 \<noteq> bi_resource_value b2
      then b1\<lparr>bi_dynamic_slot := True, bi_resource_value := False, bi_value_kind := BV_Unknown,
              bi_declared_type := undefined_type\<rparr>
      else b1)"

definition or_undefined :: "styio_data_type option \<Rightarrow> styio_data_type" where
  "or_undefined t = (case t of Some t \<Rightarrow> t | None \<Rightarrow> undefined_type)"

text \<open>The names bound in both branches, on the tables from before them.\<close>

definition merge_branches :: "sema \<Rightarrow> sema \<Rightarrow> sema \<Rightarrow> sema \<Rightarrow> sema" where
  "merge_branches saved s_then s_else s =
     (restore_bindings saved s)\<lparr>
        bindings := (\<lambda>nm. case (bindings s_then nm, bindings s_else nm) of
                        (Some b1, Some b2) \<Rightarrow> Some (merge_binding b1 b2)
                      | _ \<Rightarrow> bindings saved nm),
        local_types := (\<lambda>nm. case (bindings s_then nm, bindings s_else nm) of
                        (Some b1, Some b2) \<Rightarrow>
                          Some (merge_cond_flow_branch_type (or_undefined (local_types s_then nm))
                                  (or_undefined (local_types s_else nm)) (or_undefined (local_types saved nm)))
                      | _ \<Rightarrow> local_types saved nm)\<rparr>"

definition infer_cond_flow :: "(styio_ast \<Rightarrow> sema_visitor) \<Rightarrow> styio_ast cond_flow_ast \<Rightarrow> sema_visitor" where
  "infer_cond_flow ti f s =
     chain (infer_cond ti (obj_val (flow_cond f)) s)
       (\<lambda>saved. chain (ti (flow_then f) saved)
         (\<lambda>s_then.
            if flow_else f = NullAST then Val (restore_bindings saved s_then)
            else chain (ti (flow_else f) (restore_bindings saved s_then))
                   (\<lambda>s_else. Val (merge_branches saved s_then s_else s_else))))"

definition bind_parameter :: "'p var_ast object list \<Rightarrow> styio_data_type \<Rightarrow> sema \<Rightarrow> sema" where
  "bind_parameter ps t s = (case ps of [] \<Rightarrow> s | p # qs \<Rightarrow> put_local (getNameAsStr p) t s)"

definition infer_iterator ::
    "(styio_ast \<Rightarrow> sema_visitor) \<Rightarrow> (sema \<Rightarrow> inferer) \<Rightarrow> styio_ast \<Rightarrow> 'p var_ast object list \<Rightarrow> styio_ast list \<Rightarrow> sema_visitor" where
  "infer_iterator ti ie coll ps body saved =
     chain (ti coll saved)
       (\<lambda>s. chain (ie s coll)
       (\<lambda>t. check (styio_type_is_iterable t) ''iteration requires an iterable value''
         (chain (collection_elem_type ie s coll)
           (\<lambda>elem. chain (for_each ti body (bind_parameter ps elem s))
             (\<lambda>s. Val (restore_bindings saved s))))))"

definition infer_stream_zip ::
    "(styio_ast \<Rightarrow> sema_visitor) \<Rightarrow> (sema \<Rightarrow> inferer) \<Rightarrow> styio_ast \<Rightarrow> 'p var_ast object list \<Rightarrow> styio_ast
       \<Rightarrow> 'p var_ast object list \<Rightarrow> styio_ast list \<Rightarrow> sema_visitor" where
  "infer_stream_zip ti ie coll_a ps_a coll_b ps_b body saved =
     chain (ti coll_a saved)
       (\<lambda>s. chain (ti coll_b s)
       (\<lambda>s. chain (ie s coll_a)
       (\<lambda>ta. chain (ie s coll_b)
       (\<lambda>tb. check (styio_type_is_iterable ta \<and> styio_type_is_iterable tb) ''zip requires iterable inputs on both sides''
         (chain (collection_elem_type ie s coll_a)
           (\<lambda>ea. chain (collection_elem_type ie s coll_b)
           (\<lambda>eb. chain (for_each ti body (bind_parameter ps_b eb (bind_parameter ps_a ea s)))
             (\<lambda>s. Val (restore_bindings saved s)))))))))"

definition infer_infinite_loop ::
    "(styio_ast \<Rightarrow> sema_visitor) \<Rightarrow> (sema \<Rightarrow> inferer) \<Rightarrow> styio_ast \<Rightarrow> styio_ast list \<Rightarrow> sema_visitor" where
  "infer_infinite_loop ti ie guard body s =
     chain (if guard = NullAST then Val s
            else chain (ti guard s)
                   (\<lambda>s. chain (ie s guard)
                     (\<lambda>t. check (type_is_bool t) ''conditional loop guard must have bool type'' (Val s))))
       (infer_block ti body)"

definition infer_snapshot_decl :: "(styio_ast \<Rightarrow> sema_visitor) \<Rightarrow> string \<Rightarrow> styio_ast \<Rightarrow> sema_visitor" where
  "infer_snapshot_decl ti nm path s =
     ti path (put_local nm i64_type (s\<lparr>snapshot_names := insert nm (snapshot_names s)\<rparr>))"

definition styio_stdin_list_elem_type_supported :: "string \<Rightarrow> bool" where
  "styio_stdin_list_elem_type_supported t \<longleftrightarrow>
     t \<in> {''i64'', ''i32'', ''int'', ''long'', ''f64'', ''f32'', ''float'', ''double'', ''string'', ''str''}"

definition infer_instant_pull :: "(styio_ast \<Rightarrow> sema_visitor) \<Rightarrow> styio_ast \<Rightarrow> styio_data_type \<Rightarrow> sema_visitor" where
  "infer_instant_pull ti resource result s =
     chain (ti resource s)
       (\<lambda>s. if styio_is_list_type result then
              check (styio_stdin_list_elem_type_supported (styio_type_item_type_name result))
                ''typed stdin list pull supports list[i64], list[f64], or list[string]'' (Val s)
            else
              check (dt_option result \<in> {DT_Integer, DT_Float, DT_String})
                ''typed stdin pull supports i64, f64, string, or list[T] targets'' (Val s))"

text \<open>
  The result of a task block: that of the last return statement or nested block. An expression that
  is returned is visited here, since the visit of a return statement does nothing. A statement comes
  with the result of the nested block it may be.
\<close>

type_synonym block_typer = "sema \<Rightarrow> (styio_data_type \<times> sema) sres"

fun block_result_loop ::
    "(styio_ast \<Rightarrow> sema_visitor) \<Rightarrow> (sema \<Rightarrow> inferer) \<Rightarrow> (styio_ast \<times> block_typer) list \<Rightarrow> styio_data_type \<Rightarrow> block_typer" where
  "block_result_loop ti ie [] result s = Val (or_i64 result, s)"
| "block_result_loop ti ie ((st, nested) # sts) result s =
     (case st of
        Ast a (BlockLevel (ReturnAST e)) \<Rightarrow>
          chain (unless_null ti e s) (\<lambda>s. chain (ie s e) (\<lambda>t. block_result_loop ti ie sts t s))
      | Ast a (BlockLevel (BlockAST blk)) \<Rightarrow>
          chain (nested s) (\<lambda>(t, s). block_result_loop ti ie sts (if isUndefined t then result else t) s)
      | _ \<Rightarrow> block_result_loop ti ie sts result s)"

definition block_result_class ::
    "(styio_ast \<Rightarrow> sema_visitor) \<Rightarrow> (sema \<Rightarrow> inferer) \<Rightarrow> (styio_ast \<times> block_typer) ast_class \<Rightarrow> block_typer" where
  "block_result_class ti ie c s =
     (case c of
        BlockLevel (BlockAST blk) \<Rightarrow> block_result_loop ti ie (blk_stmts blk) undefined_type s
      | _ \<Rightarrow> Val (i64_type, s))"

primrec infer_task_block_result_type :: "(styio_ast \<Rightarrow> sema_visitor) \<Rightarrow> (sema \<Rightarrow> inferer) \<Rightarrow> styio_ast \<Rightarrow> block_typer" where
  "infer_task_block_result_type ti ie NullAST = (\<lambda>s. Val (i64_type, s))"
| "infer_task_block_result_type ti ie (Ast a c) =
     block_result_class ti ie (map_ast_class (\<lambda>x. (x, infer_task_block_result_type ti ie x)) c)"

definition leave_task :: "sema \<Rightarrow> sema \<Rightarrow> sema" where
  "leave_task saved s =
     (restore_bindings saved s)\<lparr>
        task_outer_stack := tl (task_outer_stack s), consumed_tasks := consumed_tasks saved,
        consumed_resources := consumed_resources saved, owned_resources := owned_resources saved\<rparr>"

definition infer_task_block ::
    "(styio_ast \<Rightarrow> sema_visitor) \<Rightarrow> (sema \<Rightarrow> inferer) \<Rightarrow> nat \<Rightarrow> styio_ast list \<Rightarrow> sema_visitor" where
  "infer_task_block ti ie a body saved =
     chain (infer_block ti body (saved\<lparr>task_outer_stack := owned_resources saved # task_outer_stack saved\<rparr>))
       (\<lambda>s. chain (block_result_loop ti ie (map (\<lambda>x. (x, infer_task_block_result_type ti ie x)) body) undefined_type s)
         (\<lambda>(t, s). Val (leave_task saved (set_type a t s))))"

subsection \<open>Flow binds\<close>

definition flow_source_type ::
    "bool \<Rightarrow> styio_ast \<Rightarrow> styio_data_type \<Rightarrow> sema \<Rightarrow> (styio_data_type \<times> sema) sres" where
  "flow_source_type await source t s =
     check (\<not> await \<or> dt_handle_family t = HF_Task) ''await source for `?|` must be a task/future handle''
       (if dt_handle_family t \<noteq> HF_Task then Val (t, s)
        else
          (case as_name source of
             Some task \<Rightarrow>
               check (task \<notin> consumed_tasks s) (''task `'' @ task @ ''` was already pulled'')
                 (Val (task_result_type_from_task_type t, s\<lparr>consumed_tasks := insert task (consumed_tasks s)\<rparr>))
           | None \<Rightarrow> Val (task_result_type_from_task_type t, s)))"

definition declare_target :: "string \<Rightarrow> styio_data_type \<Rightarrow> sema \<Rightarrow> sema" where
  "declare_target nm t s =
     put_binding nm \<lparr> bi_final_slot = False, bi_dynamic_slot = False, bi_resource_value = False,
       bi_value_kind = binding_value_kind_for_type t, bi_declared_type = t \<rparr> (put_local nm t s)"

definition flow_target_check :: "sema \<Rightarrow> string \<Rightarrow> bool \<Rightarrow> 'a sres \<Rightarrow> 'a sres" where
  "flow_target_check s nm declares r =
     check (\<not> (declares \<and> target_declared s nm)) (''await target `'' @ nm @ ''` is already declared'')
       (check (declares \<or> target_declared s nm) (''flow bind target `'' @ nm @ ''` must be declared before use'')
       (check (declares \<or> nm \<notin> fixed_names s) (''flow bind target `'' @ nm @ ''` is final and cannot be reassigned'') r))"

definition flow_finish ::
    "(sema \<Rightarrow> inferer) \<Rightarrow> nat \<Rightarrow> 'p var_ast object \<Rightarrow> styio_ast \<Rightarrow> bool \<Rightarrow> styio_data_type \<Rightarrow> sema_visitor" where
  "flow_finish ie a v fallback declares result s =
     (let nm = getNameAsStr v;
          target = (if declares then var_data_type s v else target_type s nm);
          s = (if isUndefined target then set_var_type v result s else s);
          target = (if isUndefined target then result else target)
      in check (isUndefined target \<or> container_value_assignable target result)
           (''flow bind target `'' @ nm @ ''` expects '' @ dt_name target @ '', got '' @ dt_name result)
           (chain (if fallback = NullAST then Val s
                   else chain (ie s fallback)
                     (\<lambda>t. check (isUndefined target \<or> container_value_assignable target t)
                        (''await fallback for `'' @ nm @ ''` expects '' @ dt_name target @ '', got '' @ dt_name t) (Val s)))
             (\<lambda>s. let final = (if isUndefined target then result else target);
                      s = set_type a final s
                  in Val (if declares then declare_target nm final s else s))))"

definition infer_flow_bind ::
    "(styio_ast \<Rightarrow> sema_visitor) \<Rightarrow> (sema \<Rightarrow> inferer) \<Rightarrow> nat \<Rightarrow> styio_ast \<Rightarrow> 'p var_ast object \<Rightarrow> styio_ast
       \<Rightarrow> bool \<Rightarrow> bool \<Rightarrow> sema_visitor" where
  "infer_flow_bind ti ie a source v fallback declares await s =
     (if source = NullAST then
        (if fallback \<noteq> NullAST then type_error ''bare continuation freeze `?| ->` does not accept fallback''
         else type_error (''bare continuation freeze `?| ->` requires continuation lowering; ''
                @ ''captured continuations must be resumed or discontinued exactly once''))
      else
        chain (ti source s)
          (\<lambda>s. chain (unless_null ti fallback s)
          (\<lambda>s. flow_target_check s (getNameAsStr v) declares
            (chain (ie s source)
              (\<lambda>t. chain (flow_source_type await source t s)
                (\<lambda>(result, s). flow_finish ie a v fallback declares result s))))))"

subsection \<open>The program\<close>

text \<open>
  The tables as a program starts with them: only the methods of the builtin resources are defined. Types
  set on nodes stay.
\<close>

definition builtin_method_defs :: "string \<Rightarrow> string \<Rightarrow> method_info option" where
  "builtin_method_defs family m =
     map_option
       (\<lambda>spec. \<lparr> me_final_binding = spec_final_binding spec, me_consuming = spec_consuming spec,
                 me_property = spec_property spec, me_param_count = spec_param_count spec \<rparr>)
       (find (\<lambda>spec. spec_family spec = family \<and> spec_method spec = m) styio_builtin_resource_methods_latest)"

definition start_program :: "sema \<Rightarrow> sema" where
  "start_program s =
     \<lparr> func_defs = Map.empty, local_types = Map.empty, native_defs = Map.empty, snapshot_names = {}, fixed_names = {},
       bindings = Map.empty, method_defs = builtin_method_defs, resource_types = Map.empty,
       collect_writes = Map.empty, collect_acquires = Map.empty, consumed_tasks = {}, consumed_resources = {},
       owned_resources = {}, task_outer_stack = [], active_receiver = [],
       node_types = node_types s, consistent_nodes = consistent_nodes s \<rparr>"

definition exported_symbols :: "styio_ast list \<Rightarrow> string list" where
  "exported_symbols stmts =
     concat (map (\<lambda>st. case st of Ast a (Package (ExportDeclAST symbols)) \<Rightarrow> symbols | _ \<Rightarrow> []) stmts)"

definition define_function :: "name_ast option \<Rightarrow> styio_ast \<Rightarrow> sema_visitor" where
  "define_function nm ast s =
     (case nm of
        None \<Rightarrow> Crash
      | Some nm \<Rightarrow> Val (s\<lparr>func_defs := (func_defs s)(obj_val nm \<mapsto> ast)\<rparr>))"

definition native_type :: "function_signature \<Rightarrow> native_function_type" where
  "native_type sg =
     \<lparr> nf_return = styio_data_type_for_c_type (fs_return sg),
       nf_args = map (\<lambda>p. styio_data_type_for_c_type (fp_type p)) (fs_params sg) \<rparr>"

definition define_native :: "string list \<Rightarrow> function_signature \<Rightarrow> sema \<Rightarrow> sema" where
  "define_native exported sg s =
     (if exported \<noteq> [] \<and> fs_name sg \<notin> set exported then s
      else s\<lparr>native_defs := (native_defs s)(fs_name sg \<mapsto> native_type sg)\<rparr>)"

definition define_extern :: "string list \<Rightarrow> string \<Rightarrow> sema_visitor" where
  "define_extern exported body s =
     (case parse_function_signatures body of
        Inl e \<Rightarrow> type_error e
      | Inr sgs \<Rightarrow> Val (fold (define_native exported) sgs s))"

text \<open>The first pass over the statements: functions, native functions and resource methods.\<close>

definition is_method_def :: "styio_ast \<Rightarrow> bool" where
  "is_method_def ast = (case ast of Ast a (Method (ResourceMethodDefAST fam m fb pr ps b)) \<Rightarrow> True | _ \<Rightarrow> False)"

definition declare_statement :: "(styio_ast \<Rightarrow> sema_visitor) \<Rightarrow> string list \<Rightarrow> styio_ast \<Rightarrow> sema_visitor" where
  "declare_statement ti exported st s =
     (case st of
        Ast a (Function (FunctionAST nm u ps r body)) \<Rightarrow> define_function nm st s
      | Ast a (SimpleFunc (SimpleFuncAST nm u ps r body)) \<Rightarrow> define_function nm st s
      | Ast a (Package (ExternBlockAST abi body)) \<Rightarrow> define_extern exported body s
      | _ \<Rightarrow> if is_method_def st then ti st s else Val s)"

text \<open>The tree with the types the visitors set, which the topology validation reads.\<close>

definition commit_type :: "sema \<Rightarrow> type_ast \<Rightarrow> type_ast" where
  "commit_type s t = Obj (obj_addr t) (held_type s t)"

definition commit_var :: "sema \<Rightarrow> 'p var_ast object \<Rightarrow> 'p var_ast object" where
  "commit_var s v =
     Obj (obj_addr v) (MkVar (var_name (obj_val v)) (commit_type s (var_type (obj_val v))) (val_init (obj_val v)))"

definition commit_class :: "sema \<Rightarrow> nat \<Rightarrow> 'p ast_class \<Rightarrow> 'p ast_class" where
  "commit_class s a c =
     (case c of
        Names (TypeAST t) \<Rightarrow> Names (TypeAST (type_at s a t))
      | TupleC (TupleAST es b t) \<Rightarrow> TupleC (TupleAST es (b \<or> a \<in> consistent_nodes s) (commit_type s t))
      | Collection (ListAST es b t) \<Rightarrow> Collection (ListAST es (b \<or> a \<in> consistent_nodes s) (commit_type s t))
      | Collection (DictAST es b t) \<Rightarrow> Collection (DictAST es (b \<or> a \<in> consistent_nodes s) (commit_type s t))
      | Extent (SizeOfAST v t) \<Rightarrow> Extent (SizeOfAST v (commit_type s t))
      | Binary (BinOpAST t opn l r) \<Rightarrow> Binary (BinOpAST (commit_type s t) opn l r)
      | Decl (ResourceRefAST nm sel off t) \<Rightarrow> Decl (ResourceRefAST nm sel off (type_at s a t))
      | Bind (FlexBindAST v e) \<Rightarrow> Bind (FlexBindAST (commit_var s v) e)
      | Bind (FinalBindAST v e) \<Rightarrow> Bind (FinalBindAST (commit_var s v) e)
      | Handle (HandleAcquireAST v r m) \<Rightarrow> Handle (HandleAcquireAST (commit_var s v) r m)
      | Function (FunctionAST nm u ps r body) \<Rightarrow> Function (FunctionAST nm u (map (commit_var s) ps) r body)
      | SimpleFunc (SimpleFuncAST nm u ps r body) \<Rightarrow> SimpleFunc (SimpleFuncAST nm u (map (commit_var s) ps) r body)
      | Task (TaskBlockAST body t) \<Rightarrow> Task (TaskBlockAST body (type_at s a t))
      | Flow (FlowBindAST src v fb p d w t) \<Rightarrow> Flow (FlowBindAST src (commit_var s v) fb p d w (type_at s a t))
      | _ \<Rightarrow> c)"

primrec commit :: "sema \<Rightarrow> styio_ast \<Rightarrow> styio_ast" where
  "commit s NullAST = NullAST"
| "commit s (Ast a c) = Ast a (commit_class s a (map_ast_class (commit s) c))"

definition validate_topology :: "nat \<Rightarrow> styio_ast list \<Rightarrow> sema_visitor" where
  "validate_topology a stmts s =
     (case validate_or_throw_main (Some (a, map (commit s) stmts)) ''sema-resource-topology'' of
        Inl (StyioTypeError msg) \<Rightarrow> type_error msg
      | Inl OutOfRange \<Rightarrow> Throw Range_Error
      | Inr u \<Rightarrow> Val s)"

definition infer_main :: "(styio_ast \<Rightarrow> sema_visitor) \<Rightarrow> nat \<Rightarrow> styio_ast list \<Rightarrow> sema_visitor" where
  "infer_main ti a stmts s =
     chain (for_each (declare_statement ti (exported_symbols stmts)) stmts (start_program s))
       (\<lambda>s. chain (for_each (\<lambda>st s. if is_method_def st then Val s else ti st s) stmts s)
         (validate_topology a stmts))"

text \<open>The visitor of each class.\<close>

definition infer_value_class ::
    "(styio_ast \<Rightarrow> sema_visitor) \<Rightarrow> (sema \<Rightarrow> inferer) \<Rightarrow> nat \<Rightarrow> styio_ast ast_class \<Rightarrow> sema_visitor option" where
  "infer_value_class ti ie a c =
     (case c of
        Names (NameAST nm) \<Rightarrow> Some (infer_name nm)
      | TupleC (TupleAST els b t) \<Rightarrow> Some (infer_tuple a els t)
      | Collection (ListAST els b t) \<Rightarrow> Some (infer_list ti ie a els t)
      | Collection (DictAST es b t) \<Rightarrow> Some (infer_dict ti ie a es t)
      | Extent (SizeOfAST v t) \<Rightarrow> Some (infer_size_of ti ie v t)
      | Access (ListOpAST opn l s1 s2) \<Rightarrow> Some (infer_list_op ti ie opn l s1 s2)
      | Access (AttrAST body attr) \<Rightarrow> Some (infer_attr ti ie body attr)
      | Binary (BinCompAST cmp l r) \<Rightarrow> Some (\<lambda>s. chain (ti l s) (ti r))
      | Binary (BinOpAST t opn l r) \<Rightarrow> Some (infer_bin_op ti ie t opn l r)
      | Selector (CondAST x) \<Rightarrow> Some (infer_cond ti x)
      | Selector (GuardSelectorAST b x) \<Rightarrow> Some (\<lambda>s. chain (ti b s) (ti x))
      | Selector (EqProbeAST b v) \<Rightarrow> Some (\<lambda>s. chain (ti b s) (ti v))
      | Wave (WaveMergeAST x t f) \<Rightarrow> Some (\<lambda>s. chain (ti x s) (\<lambda>s. chain (ti t s) (ti f)))
      | Wave (WaveDispatchAST x t f) \<Rightarrow> Some (\<lambda>s. chain (ti x s) (\<lambda>s. chain (ti t s) (ti f)))
      | Wave (FallbackAST p q) \<Rightarrow> Some (\<lambda>s. chain (ti p s) (ti q))
      | Convert (FmtStrAST fs es) \<Rightarrow> Some (for_each ti es)
      | Call (FuncCallAST callee nm args) \<Rightarrow> Some (infer_func_call ti ie callee (obj_val nm) args)
      | Pulse (HistoryProbeAST t d) \<Rightarrow> Some (ti d)
      | Pulse (SeriesIntrinsicAST b opn w) \<Rightarrow> Some (\<lambda>s. chain (ti b s) (ti w))
      | _ \<Rightarrow> None)"

definition name_or_empty :: "name_ast option \<Rightarrow> string" where
  "name_or_empty nm = (case nm of None \<Rightarrow> [] | Some n \<Rightarrow> obj_val n)"

definition infer_resource_class ::
    "(styio_ast \<Rightarrow> sema_visitor) \<Rightarrow> (sema \<Rightarrow> inferer) \<Rightarrow> nat \<Rightarrow> styio_ast ast_class \<Rightarrow> sema_visitor option" where
  "infer_resource_class ti ie a c =
     (case c of
        Structure (FileResourceAST f) \<Rightarrow> Some (ti (file_path f))
      | Handle (HandleAcquireAST v r mode) \<Rightarrow> Some (infer_handle_acquire ti ie a v r mode)
      | Write (ResourceWriteAST data r) \<Rightarrow> Some (infer_resource_write ti ie a data r)
      | Write (ResourceRedirectAST data r) \<Rightarrow> Some (infer_resource_redirect ti ie data r)
      | Resource (ResourceReceiverAST family) \<Rightarrow> Some (infer_receiver family)
      | Method (ResourceMethodDefAST family m fin prop ps body) \<Rightarrow>
          Some (infer_method_def ti family m fin prop (length ps) body)
      | Method (ResourceOrderAST b x) \<Rightarrow> Some (\<lambda>s. chain (unless_null ti b s) (unless_null ti x))
      | Decl (ResourceDeclAST slots driver) \<Rightarrow> Some (infer_resource_decl ti slots driver)
      | Decl (ResourceRefAST nm sel off t) \<Rightarrow> Some (infer_resource_ref a (name_or_empty nm) sel)
      | _ \<Rightarrow> None)"

definition infer_statement_class ::
    "(styio_ast \<Rightarrow> sema_visitor) \<Rightarrow> (sema \<Rightarrow> inferer) \<Rightarrow> nat \<Rightarrow> styio_ast ast_class \<Rightarrow> sema_visitor option" where
  "infer_statement_class ti ie a c =
     (case c of
        Bind (FlexBindAST v e) \<Rightarrow> Some (infer_flex_bind ti ie v e)
      | Bind (FinalBindAST v e) \<Rightarrow> Some (infer_final_bind ti ie v e)
      | Bind (ParallelAssignAST l r) \<Rightarrow> Some (infer_parallel_assign ti ie l r)
      | StateLedger (StateDeclAST w nm init v upd) \<Rightarrow> Some (\<lambda>s. chain (unless_null ti init s) (ti upd))
      | StateLedger (PrintAST es) \<Rightarrow> Some (for_each ti es)
      | Package (CondFlowAST f) \<Rightarrow> Some (infer_cond_flow ti f)
      | Function (FunctionAST nm u ps r body) \<Rightarrow> Some (define_function nm (Ast a c))
      | SimpleFunc (SimpleFuncAST nm u ps r body) \<Rightarrow> Some (define_function nm (Ast a c))
      | Loop (InfiniteLoopAST guard body) \<Rightarrow> Some (infer_infinite_loop ti ie guard (blk_stmts (obj_val body)))
      | Loop (IteratorAST coll ps fs) \<Rightarrow> Some (infer_iterator ti ie coll ps fs)
      | Stream (StreamZipAST ca pa cb pb fs) \<Rightarrow> Some (infer_stream_zip ti ie ca pa cb pb fs)
      | Stream (SnapshotDeclAST nm f) \<Rightarrow> Some (infer_snapshot_decl ti (obj_val nm) (file_path (obj_val f)))
      | Task (InstantPullAST r t) \<Rightarrow> Some (infer_instant_pull ti r t)
      | Task (TaskBlockAST body t) \<Rightarrow> Some (infer_task_block ti ie a (blk_stmts (obj_val body)))
      | Task (TaskGroupLaunchAST es) \<Rightarrow> Some (for_each ti es)
      | Flow (FlowBindAST src v fb p d w t) \<Rightarrow> Some (infer_flow_bind ti ie a src v fb d w)
      | Flow (IterSeqAST coll ps fs tags) \<Rightarrow>
          Some (\<lambda>s. type_error (''iterator sequence hash-tag routing is not implemented; ''
                      @ ''use #(param) => { ... } iterator bodies''))
      | BlockLevel (BlockAST blk) \<Rightarrow> Some (infer_block ti (blk_stmts blk))
      | BlockLevel (MainBlockAST r stmts) \<Rightarrow> Some (infer_main ti a stmts)
      | _ \<Rightarrow> None)"

definition infer_class ::
    "(styio_ast \<Rightarrow> sema_visitor) \<Rightarrow> (sema \<Rightarrow> inferer) \<Rightarrow> nat \<Rightarrow> styio_ast ast_class \<Rightarrow> sema_visitor" where
  "infer_class ti ie a c =
     (case infer_value_class ti ie a c of
        Some v \<Rightarrow> v
      | None \<Rightarrow>
          (case infer_resource_class ti ie a c of
             Some v \<Rightarrow> v
           | None \<Rightarrow> (case infer_statement_class ti ie a c of Some v \<Rightarrow> v | None \<Rightarrow> Val)))"

text \<open>\<open>typeInfer\<close>, with fuel for the depth of the tree; the fuel of \<open>infer_expr_type\<close> is its own.\<close>

fun type_infer :: "nat \<Rightarrow> (sema \<Rightarrow> inferer) \<Rightarrow> styio_ast \<Rightarrow> sema_visitor" where
  "type_infer 0 ie ast s = Stuck"
| "type_infer (Suc n) ie NullAST s = Crash"
| "type_infer (Suc n) ie (Ast a c) s = infer_class (type_infer n ie) ie a c s"

definition analyze :: "nat \<Rightarrow> nat \<Rightarrow> nat \<Rightarrow> styio_ast list \<Rightarrow> sema_visitor" where
  "analyze n k a stmts = infer_main (type_infer n (infer_expr k)) a stmts"

end
