(* ===== verification/Styio_SemaFacts.thy ===== *)
theory Styio_SemaFacts
  imports Styio_Sema
begin

text \<open>
  What semantic analysis guarantees. A locale states what a property of the tables needs in order to survive
  every visitor; a second one adds a kind of node that the property makes the analysis reject. They
  are interpreted for the destroyed resources, the final names and the tasks that were pulled.
\<close>

subsection \<open>Results\<close>

lemma chain_Val: "chain r f = Val y \<longleftrightarrow> (\<exists>x. r = Val x \<and> f x = Val y)"
  by (cases r) auto

lemma check_Val: "check ok msg r = Val y \<longleftrightarrow> ok \<and> r = Val y"
  by (auto simp: check_def type_error_def)

lemma type_error_Val: "type_error msg \<noteq> Val y"
  by (simp add: type_error_def)

lemmas result_simps = chain_Val check_Val type_error_Val

lemma for_each_keeps:
  assumes "for_each f xs s = Val s'" "P s" "\<And>x s s'. x \<in> set xs \<Longrightarrow> f x s = Val s' \<Longrightarrow> P s \<Longrightarrow> P s'"
  shows "P s'"
  using assms
proof (induction xs arbitrary: s)
  case (Cons x xs)
  then obtain s1 where s1: "f x s = Val s1" "for_each f xs s1 = Val s'" by (auto simp: chain_Val)
  show ?case by (rule Cons.IH [OF s1(2)]) (use Cons.prems s1 in auto)
qed simp

lemma for_each_append: "for_each f (xs @ ys) s = chain (for_each f xs s) (for_each f ys)"
proof (induction xs arbitrary: s)
  case (Cons x xs)
  then show ?case by (cases "f x s") auto
qed simp

lemma for_each_split:
  assumes "for_each f xs s = Val s'" "x \<in> set xs"
  obtains ys zs s1 s2 where "xs = ys @ x # zs" "for_each f ys s = Val s1" "f x s1 = Val s2" "for_each f zs s2 = Val s'"
proof -
  from assms(2) obtain ys zs where xs: "xs = ys @ x # zs" by (auto simp: in_set_conv_decomp)
  with assms(1) obtain s1 s2 where "for_each f ys s = Val s1" "f x s1 = Val s2" "for_each f zs s2 = Val s'"
    by (auto simp: for_each_append chain_Val)
  with xs show thesis by (rule that)
qed

text \<open>A property of the value a result has, if it has one, with a rule for each way to build a result.\<close>

definition gives :: "('a \<Rightarrow> bool) \<Rightarrow> 'a sres \<Rightarrow> bool" where
  "gives Q r \<longleftrightarrow> (\<forall>y. r = Val y \<longrightarrow> Q y)"

lemma givesI: "(\<And>y. r = Val y \<Longrightarrow> Q y) \<Longrightarrow> gives Q r"
  by (simp add: gives_def)

lemma givesD: "gives Q r \<Longrightarrow> r = Val y \<Longrightarrow> Q y"
  by (simp add: gives_def)

lemma gives_simps [simp]: "gives Q (Val x) = Q x" "gives Q Stuck" "gives Q Crash" "gives Q (Throw e)" "gives Q (type_error msg)"
  by (auto simp: gives_def type_error_def)

lemma gives_chain: "gives R r \<Longrightarrow> (\<And>x. R x \<Longrightarrow> gives Q (f x)) \<Longrightarrow> gives Q (chain r f)"
  by (cases r) (auto simp: gives_def)

lemma gives_chain_any: "(\<And>x. gives Q (f x)) \<Longrightarrow> gives Q (chain r f)"
  by (cases r) auto

text \<open>What the result only carries a type or a name says nothing about the state.\<close>

lemma gives_data:
  "(\<And>x. gives Q (f1 x)) \<Longrightarrow> gives Q (chain (r1 :: styio_data_type sres) f1)"
  "(\<And>x. gives Q (f2 x)) \<Longrightarrow> gives Q (chain (r2 :: binding_value_kind sres) f2)"
  "(\<And>x. gives Q (f3 x)) \<Longrightarrow> gives Q (chain (r3 :: matrix_literal_info sres) f3)"
  "(\<And>x. gives Q (f4 x)) \<Longrightarrow> gives Q (chain (r4 :: string sres) f4)"
  "(\<And>x. gives Q (f5 x)) \<Longrightarrow> gives Q (chain (r5 :: styio_data_type option sres) f5)"
  by (auto intro: gives_chain_any)

lemma gives_check: "(ok \<Longrightarrow> gives Q r) \<Longrightarrow> gives Q (check ok msg r)"
  by (auto simp: check_def)

lemma gives_if: "(b \<Longrightarrow> gives Q x) \<Longrightarrow> (\<not> b \<Longrightarrow> gives Q y) \<Longrightarrow> gives Q (if b then x else y)"
  by simp

lemma gives_option: "(x = None \<Longrightarrow> gives Q r) \<Longrightarrow> (\<And>y. x = Some y \<Longrightarrow> gives Q (f y)) \<Longrightarrow>
    gives Q (case x of None \<Rightarrow> r | Some y \<Rightarrow> f y)"
  by (cases x) auto

lemma gives_prod: "(\<And>x y. gives Q (f x y)) \<Longrightarrow> gives Q (case p of (x, y) \<Rightarrow> f x y)"
  by (cases p) auto

lemma gives_for_each: "(\<And>x s. x \<in> set xs \<Longrightarrow> P s \<Longrightarrow> gives P (f x s)) \<Longrightarrow> P s \<Longrightarrow> gives P (for_each f xs s)"
  by (rule givesI, rule for_each_keeps) (auto dest: givesD)

lemma gives_list_case: "(\<And>a els b t. gives Q (f a els b t)) \<Longrightarrow> gives Q g \<Longrightarrow>
    gives Q (case expr of Ast a (Collection (ListAST els b t)) \<Rightarrow> f a els b t | _ \<Rightarrow> g)"
  by (auto split: styio_ast.splits ast_class.splits collection_ast.splits)

lemma gives_Val: "Q x \<Longrightarrow> gives Q (Val x)"
  by simp

lemma gives_errors: "gives Q Stuck" "gives Q Crash" "gives Q (Throw e)" "gives Q (type_error msg)"
  by simp_all

lemma gives_index_case: "(\<And>a opn b x y. gives Q (f a opn b x y)) \<Longrightarrow> gives Q g \<Longrightarrow>
    gives Q (case expr of Ast a (Access (ListOpAST opn b x y)) \<Rightarrow> f a opn b x y | _ \<Rightarrow> g)"
  by (auto split: styio_ast.splits ast_class.splits access_ast.splits)

lemma gives_decl_case: "(\<And>a slots d. gives Q (f a slots d)) \<Longrightarrow> gives Q g \<Longrightarrow>
    gives Q (case expr of Ast a (Decl (ResourceDeclAST slots d)) \<Rightarrow> f a slots d | _ \<Rightarrow> g)"
  by (auto split: styio_ast.splits ast_class.splits decl_ast.splits)

lemmas gives_rules = gives_errors gives_check gives_if gives_option gives_prod gives_list_case

subsection \<open>Nodes of a tree\<close>

lemma dict_child: "(k, v) \<in> set es \<Longrightarrow> \<exists>p\<in>set es. k \<in> Basic_BNFs.fsts p \<or> k \<in> Basic_BNFs.snds p"
  "(k, v) \<in> set es \<Longrightarrow> \<exists>p\<in>set es. v \<in> Basic_BNFs.fsts p \<or> v \<in> Basic_BNFs.snds p"
  by (force simp: prod_set_simps)+

lemma block_child: "x \<in> set (blk_stmts (obj_val b)) \<Longrightarrow> \<exists>y\<in>set_object b. x \<in> set_block_ast y"
  by (cases b) (auto simp: block_ast.set_sel)

lemma file_child: "\<exists>y\<in>set_object f. file_path (obj_val f) \<in> set_file_ast y"
  by (cases f) (auto simp: file_ast.set_sel)

lemma flow_cond_child: "cond_value (obj_val (flow_cond f)) \<in> set_cond_flow_ast f"
  "cond_lhs (obj_val (flow_cond f)) \<in> set_cond_flow_ast f" "cond_rhs (obj_val (flow_cond f)) \<in> set_cond_flow_ast f"
  by (cases f; cases "flow_cond f"; auto simp: cond_ast.set_sel)+


primrec all_nodes :: "(styio_ast \<Rightarrow> bool) \<Rightarrow> styio_ast \<Rightarrow> bool" where
  "all_nodes N NullAST \<longleftrightarrow> True"
| "all_nodes N (Ast a c) \<longleftrightarrow> N (Ast a c) \<and> (\<forall>b\<in>set_ast_class (map_ast_class (all_nodes N) c). b)"

lemma all_nodes_Ast [simp]: "all_nodes N (Ast a c) \<longleftrightarrow> N (Ast a c) \<and> (\<forall>x\<in>set_ast_class c. all_nodes N x)"
  by (simp add: ast_class.set_map)

declare all_nodes.simps(2) [simp del]

definition is_main :: "styio_ast \<Rightarrow> bool" where
  "is_main ast = (case ast of Ast a (BlockLevel (MainBlockAST r ss)) \<Rightarrow> True | _ \<Rightarrow> False)"

subsection \<open>Properties of the tables that every visitor keeps\<close>

text \<open>The tables that visitors write only in few ways.\<close>

definition same_ledger :: "sema \<Rightarrow> sema \<Rightarrow> bool" where
  "same_ledger s s' \<longleftrightarrow>
     func_defs s' = func_defs s \<and> snapshot_names s' = snapshot_names s \<and> fixed_names s' = fixed_names s
     \<and> resource_types s' = resource_types s \<and> consumed_tasks s' = consumed_tasks s
     \<and> consumed_resources s' = consumed_resources s \<and> owned_resources s' = owned_resources s"

text \<open>
  \<open>P\<close> is a property of the state and \<open>D\<close> says which nodes may be in a program. \<open>P\<close> depends on these
  tables only, and survives each of the writes the visitors make to them.
\<close>

text \<open>How a result that is a state, alone or with a value, is used.\<close>

lemma gives_state: "gives P r \<Longrightarrow> (\<And>s::sema. P s \<Longrightarrow> gives Q (f s)) \<Longrightarrow> gives Q (chain r f)"
  by (rule gives_chain)

lemma gives_pair: "gives (\<lambda>p. P (snd p)) r \<Longrightarrow> (\<And>x (s::sema). P s \<Longrightarrow> gives Q (f x s)) \<Longrightarrow> gives Q (chain r (\<lambda>(x, s). f x s))"
  by (rule gives_chain [where R = "\<lambda>p. P (snd p)"]) auto

lemma gives_Val_pair: "P s \<Longrightarrow> gives (\<lambda>p. P (snd p)) (Val (x, s))"
  by simp

lemma holds_if: "P x \<Longrightarrow> P y \<Longrightarrow> P (if b then x else y)"
  by simp

lemma holds_option: "P z \<Longrightarrow> (\<And>y. P (f y)) \<Longrightarrow> P (case x of None \<Rightarrow> z | Some y \<Rightarrow> f y)"
  by (cases x) auto

locale sema_invariant =
  fixes P :: "sema \<Rightarrow> bool" and D :: "styio_ast \<Rightarrow> bool"
  assumes ledger: "same_ledger s s' \<Longrightarrow> P s \<Longrightarrow> P s'"
    and snapshot: "P s \<Longrightarrow> P (s\<lparr>snapshot_names := insert nm (snapshot_names s)\<rparr>)"
    and fix_name: "P s \<Longrightarrow> P (s\<lparr>fixed_names := insert nm (fixed_names s)\<rparr>)"
    and own: "P s \<Longrightarrow> P (s\<lparr>owned_resources := insert nm (owned_resources s)\<rparr>)"
    and pull: "P s \<Longrightarrow> P (s\<lparr>consumed_tasks := insert nm (consumed_tasks s)\<rparr>)"
    and consume: "P s \<Longrightarrow> P (s\<lparr>consumed_resources := insert nm (consumed_resources s)\<rparr>)"
    and declare_res: "P s \<Longrightarrow> resource_types s nm = None \<Longrightarrow> P (s\<lparr>resource_types := (resource_types s)(nm \<mapsto> t)\<rparr>)"
    and define_fun: "P s \<Longrightarrow> D f \<Longrightarrow> P (s\<lparr>func_defs := (func_defs s)(nm \<mapsto> f)\<rparr>)"
    and restore_fixed: "P s \<Longrightarrow> P saved \<Longrightarrow> P (s\<lparr>fixed_names := fixed_names saved\<rparr>)"
    and restore_task: "P s \<Longrightarrow> P saved \<Longrightarrow> P (s\<lparr>consumed_tasks := consumed_tasks saved,
                         consumed_resources := consumed_resources saved, owned_resources := owned_resources saved\<rparr>)"
    and no_main: "D f \<Longrightarrow> \<not> is_main f"
begin

lemma free_updates:
  assumes "P s"
  shows "P (put_local nm t s)" "P (put_binding nm b s)" "P (set_type a t s)" "P (set_var_type v t s)"
    "P (s\<lparr>consistent_nodes := cn\<rparr>)" "P (s\<lparr>native_defs := nd\<rparr>)" "P (s\<lparr>collect_writes := cw\<rparr>)"
    "P (s\<lparr>collect_acquires := ca\<rparr>)" "P (s\<lparr>task_outer_stack := st\<rparr>)" "P (s\<lparr>active_receiver := ar\<rparr>)"
    "P ((define_method family m info s)\<lparr>active_receiver := ar\<rparr>)" "P (s\<lparr>local_types := l, bindings := bs\<rparr>)"
  by (rule ledger [OF _ assms],
      simp add: same_ledger_def put_local_def put_binding_def set_type_def set_var_type_def define_method_def)+

lemma restored: assumes "P s" "P saved" shows "P (restore_bindings saved s)"
proof -
  have step: "P (s\<lparr>local_types := local_types saved, bindings := bindings saved\<rparr>)" using assms(1) by (rule free_updates)
  show ?thesis
    by (rule ledger [OF _ restore_fixed [OF step assms(2)]]) (simp add: same_ledger_def restore_bindings_def)
qed

lemma merged: assumes "P s" "P saved" shows "P (merge_branches saved s1 s2 s)"
  by (rule ledger [OF _ restored [OF assms]]) (simp add: same_ledger_def merge_branches_def restore_bindings_def)

lemma left_task: assumes "P s" "P saved" shows "P (leave_task saved s)"
proof -
  have step: "P ((restore_bindings saved s)\<lparr>task_outer_stack := tl (task_outer_stack s)\<rparr>)"
    using restored [OF assms] by (rule free_updates)
  show ?thesis
    by (rule ledger [OF _ restore_task [OF step assms(2)]]) (simp add: same_ledger_def leave_task_def restore_bindings_def)
qed

lemma owned: "P s \<Longrightarrow> P (own_resource nm b s)"
  by (simp add: own_resource_def own)

lemmas kept = free_updates snapshot fix_name own pull consume restored merged left_task owned

lemmas vc = gives_rules gives_data gives_Val [where Q = P] gives_Val_pair [where P = P] gives_state [where P = P]
  gives_pair [where P = P] holds_if [where P = P] holds_option [where P = P] kept

lemma bind_matrix_vc: "P s \<Longrightarrow> gives (\<lambda>p. P (snd p)) (bind_matrix_type ie v expr vt s)"
  unfolding bind_matrix_type_def require_matrix_arg_def require_same_matrix_shape_def Let_def by (intro vc)

lemma record_flex_vc: "P s \<Longrightarrow> P (record_flex_bind nm t k s)"
  unfolding record_flex_bind_def Let_def by (intro vc)

lemma flex_bind_vc:
  assumes "\<And>s. P s \<Longrightarrow> gives P (ti expr s)" "P s"
  shows "gives P (infer_flex_bind ti ie v expr s)"
  unfolding infer_flex_bind_def Let_def reject_whole_copy_def reject_named_copy_def
  by (intro vc record_flex_vc bind_matrix_vc assms)

lemma fixed_local_vc: "P s \<Longrightarrow> P ((put_local nm t s)\<lparr>fixed_names := insert nm (fixed_names s)\<rparr>)"
  using fix_name [OF free_updates(1), of s nm nm t] by (simp add: put_local_def)

lemma final_bind_vc:
  assumes "\<And>s. P s \<Longrightarrow> gives P (ti expr s)" "P s"
  shows "gives P (infer_final_bind ti ie v expr s)"
  unfolding infer_final_bind_def record_final_bind_def Let_def reject_whole_copy_def reject_named_copy_def
  by (intro vc fixed_local_vc bind_matrix_vc assms)

lemma assign_target_vc:
  assumes "\<And>s. P s \<Longrightarrow> gives P (ti lhs s)" "P s"
  shows "gives P (assign_target ti ie (lhs, rhs) s)"
  unfolding assign_target_def assign_name_def assign_element_def Let_def prod.case
  by (intro vc gives_index_case assms)

lemma parallel_assign_vc:
  assumes "\<And>x s. x \<in> set lhs \<union> set rhs \<Longrightarrow> P s \<Longrightarrow> gives P (ti x s)" "P s"
  shows "gives P (infer_parallel_assign ti ie lhs rhs s)"
  unfolding infer_parallel_assign_def reject_named_copy_def
  by (intro vc gives_for_each assms) (auto dest: set_zip_leftD intro!: assign_target_vc assms)

lemma tuple_vc: "P s \<Longrightarrow> gives P (infer_tuple a els t s)"
  unfolding infer_tuple_def Let_def by (cases els) (auto split: styio_ast.splits intro!: kept)

lemma list_vc:
  assumes "\<And>x s. x \<in> set els \<Longrightarrow> P s \<Longrightarrow> gives P (ti x s)" "P s"
  shows "gives P (infer_list ti ie a els t s)"
  unfolding infer_list_def by (intro vc gives_for_each assms)

lemma dict_vc:
  assumes "\<And>k v s. (k, v) \<in> set es \<Longrightarrow> P s \<Longrightarrow> gives P (ti k s) \<and> gives P (ti v s)" "P s"
  shows "gives P (infer_dict ti ie a es t s)"
  unfolding infer_dict_def by (intro vc gives_for_each assms) (use assms(1) in \<open>auto intro!: gives_state\<close>)

lemma size_of_vc:
  assumes "\<And>s. P s \<Longrightarrow> gives P (ti v s)" "P s"
  shows "gives P (infer_size_of ti ie v t s)"
  unfolding infer_size_of_def by (intro vc assms)

lemma unless_null_vc:
  assumes "\<And>s. P s \<Longrightarrow> gives P (ti x s)" "P s"
  shows "gives P (unless_null ti x s)"
  unfolding unless_null_def by (intro vc assms)

lemma list_op_vc:
  assumes "\<And>x s. x \<in> {l, slot1, slot2} \<Longrightarrow> P s \<Longrightarrow> gives P (ti x s)" "P s"
  shows "gives P (infer_list_op ti ie opn l slot1 slot2 s)"
  unfolding infer_list_op_def by (intro vc unless_null_vc assms) auto

lemma cond_vc:
  assumes "\<And>x' s. x' \<in> {cond_value x, cond_lhs x, cond_rhs x} \<Longrightarrow> P s \<Longrightarrow> gives P (ti x' s)" "P s"
  shows "gives P (infer_cond ti x s)"
  unfolding infer_cond_def by (intro vc unless_null_vc assms) auto

lemma bin_op_vc:
  assumes "\<And>x s. x \<in> {lhs, rhs} \<Longrightarrow> P s \<Longrightarrow> gives P (ti x s)" "P s"
  shows "gives P (infer_bin_op ti ie t opn lhs rhs s)"
  unfolding infer_bin_op_def infer_self_assign_def hand_type_def by (intro vc unless_null_vc assms) auto

lemma bind_acquired_vc: "P s \<Longrightarrow> P (bind_acquired flex nm info s)"
  unfolding bind_acquired_def by (intro vc)

lemma handle_acquire_vc:
  assumes "\<And>s. P s \<Longrightarrow> gives P (ti r s)" "P s"
  shows "gives P (infer_handle_acquire ti ie a v r mode s)"
  unfolding infer_handle_acquire_def pull_task_def acquire_resource_def acquire_clone_def acquire_open_def Let_def
  by (intro vc bind_acquired_vc assms)

lemma resource_write_vc:
  assumes "\<And>x s. x \<in> {data, r} \<Longrightarrow> P s \<Longrightarrow> gives P (ti x s)" "P s"
  shows "gives P (infer_resource_write ti ie a data r s)"
  unfolding infer_resource_write_def Let_def by (intro vc assms) auto

lemma consume_vc: "P s \<Longrightarrow> gives P (consume_resource nm s)"
  unfolding consume_resource_def by (intro vc)

lemma resource_redirect_vc:
  assumes "\<And>x s. x \<in> {data, r} \<Longrightarrow> P s \<Longrightarrow> gives P (ti x s)" "P s"
  shows "gives P (infer_resource_redirect ti ie data r s)"
  unfolding infer_resource_redirect_def by (intro vc consume_vc assms) auto

lemma receiver_vc: "P s \<Longrightarrow> gives P (infer_receiver family s)"
  unfolding infer_receiver_def by (intro vc)

lemma method_def_vc:
  assumes "\<And>s. P s \<Longrightarrow> gives P (ti body s)" "P s"
  shows "gives P (infer_method_def ti family m fin prop n body s)"
  unfolding infer_method_def_def Let_def by (intro vc unless_null_vc assms)

lemma block_vc:
  assumes "\<And>x s. x \<in> set stmts \<Longrightarrow> P s \<Longrightarrow> gives P (ti x s)" "P s"
  shows "gives P (infer_block ti stmts s)"
  unfolding infer_block_def by (intro gives_for_each gives_decl_case vc assms)

lemma resource_decl_vc:
  assumes "\<And>b x s. driver = Some b \<Longrightarrow> x \<in> set (blk_stmts (obj_val b)) \<Longrightarrow> P s \<Longrightarrow> gives P (ti x s)" "P s"
  shows "gives P (infer_resource_decl ti slots driver s)"
  unfolding infer_resource_decl_def declare_resource_def Let_def
  by (intro vc gives_for_each block_vc declare_res assms)

lemma resource_ref_vc: "P s \<Longrightarrow> gives P (infer_resource_ref a nm sel s)"
  unfolding infer_resource_ref_def by (intro vc)

lemma args_vc:
  assumes "\<And>x s. x \<in> set args \<Longrightarrow> P s \<Longrightarrow> gives P (ti x s)" "P s"
  shows "gives (\<lambda>p. P (snd p)) (infer_args ti ie args s)"
  using assms
proof (induction args arbitrary: s)
  case (Cons x xs)
  show ?case unfolding infer_args.simps by (intro vc Cons.IH Cons.prems) (use Cons.prems in auto)
qed simp

lemma function_call_vc:
  assumes "\<And>x s. x \<in> set args \<Longrightarrow> P s \<Longrightarrow> gives P (ti x s)" "P s"
  shows "gives P (infer_function_call ti ie nm args s)"
  unfolding infer_function_call_def arity_check_def native_argument_def function_argument_def Let_def
  by (intro vc gives_for_each args_vc assms)

lemma plain_call_vc:
  assumes "\<And>x s. x \<in> set args \<Longrightarrow> P s \<Longrightarrow> gives P (ti x s)" "P s"
  shows "gives P (infer_plain_call ti ie callee nm args s)"
  unfolding infer_plain_call_def by (intro vc gives_for_each function_call_vc assms)

lemma func_call_vc:
  assumes "\<And>x s. x \<in> insert callee (set args) \<Longrightarrow> P s \<Longrightarrow> gives P (ti x s)" "P s"
  shows "gives P (infer_func_call ti ie callee nm args s)"
  unfolding infer_func_call_def infer_list_method_def list_method_arguments_def infer_string_method_def
    infer_resource_method_def Let_def
  by (intro vc gives_for_each plain_call_vc unless_null_vc args_vc consume_vc assms) auto

lemma attr_vc:
  assumes "\<And>s. P s \<Longrightarrow> gives P (ti body s)" "P s"
  shows "gives P (infer_attr ti ie body attr s)"
  unfolding infer_attr_def by (intro vc assms)

lemma cond_flow_vc:
  assumes "\<And>x s. x \<in> {cond_value (obj_val (flow_cond f)), cond_lhs (obj_val (flow_cond f)), cond_rhs (obj_val (flow_cond f)),
      flow_then f, flow_else f} \<Longrightarrow> P s \<Longrightarrow> gives P (ti x s)" "P s"
  shows "gives P (infer_cond_flow ti f s)"
  unfolding infer_cond_flow_def by (intro vc cond_vc assms) auto

lemma bind_parameter_vc: "P s \<Longrightarrow> P (bind_parameter ps t s)"
  unfolding bind_parameter_def by (cases ps) (auto intro: kept)

lemma iterator_vc:
  assumes "\<And>x s. x \<in> insert coll (set body) \<Longrightarrow> P s \<Longrightarrow> gives P (ti x s)" "P s"
  shows "gives P (infer_iterator ti ie coll ps body s)"
  unfolding infer_iterator_def by (intro vc gives_for_each bind_parameter_vc assms) auto

lemma stream_zip_vc:
  assumes "\<And>x s. x \<in> {coll_a, coll_b} \<union> set body \<Longrightarrow> P s \<Longrightarrow> gives P (ti x s)" "P s"
  shows "gives P (infer_stream_zip ti ie coll_a ps_a coll_b ps_b body s)"
  unfolding infer_stream_zip_def by (intro vc gives_for_each bind_parameter_vc assms) auto

lemma infinite_loop_vc:
  assumes "\<And>x s. x \<in> insert guard (set body) \<Longrightarrow> P s \<Longrightarrow> gives P (ti x s)" "P s"
  shows "gives P (infer_infinite_loop ti ie guard body s)"
  unfolding infer_infinite_loop_def by (intro vc block_vc assms) auto

lemma snapshot_decl_vc:
  assumes "\<And>s. P s \<Longrightarrow> gives P (ti path s)" "P s"
  shows "gives P (infer_snapshot_decl ti nm path s)"
  unfolding infer_snapshot_decl_def by (intro kept assms)

lemma instant_pull_vc:
  assumes "\<And>s. P s \<Longrightarrow> gives P (ti r s)" "P s"
  shows "gives P (infer_instant_pull ti r t s)"
  unfolding infer_instant_pull_def by (intro vc assms)

lemma block_result_map:
  "block_result_class ti ie (map_ast_class f c) s =
     (case c of BlockLevel (BlockAST blk) \<Rightarrow> block_result_loop ti ie (map f (blk_stmts blk)) undefined_type s
      | _ \<Rightarrow> Val (i64_type, s))"
proof (cases c)
  case (BlockLevel b)
  then show ?thesis by (cases b) (auto simp: block_result_class_def block_ast.map_sel)
qed (simp_all add: block_result_class_def)

lemma result_loop_vc:
  assumes ti: "\<And>x s. all_nodes D x \<Longrightarrow> P s \<Longrightarrow> gives P (ti x s)"
    and sts: "\<And>st nested s. (st, nested) \<in> set sts \<Longrightarrow> all_nodes D st \<and> (P s \<longrightarrow> gives (\<lambda>p. P (snd p)) (nested s))"
    and s: "P s"
  shows "gives (\<lambda>p. P (snd p)) (block_result_loop ti ie sts t s)"
  using sts s
proof (induction sts arbitrary: t s)
  case (Cons p sts)
  obtain st nested where p: "p = (st, nested)" by (cases p)
  have st: "all_nodes D st" and nested: "\<And>s. P s \<Longrightarrow> gives (\<lambda>p. P (snd p)) (nested s)" using Cons.prems(1) p by auto
  have IH: "\<And>t s. P s \<Longrightarrow> gives (\<lambda>p. P (snd p)) (block_result_loop ti ie sts t s)"
    by (rule Cons.IH) (use Cons.prems in auto)
  have ret: "\<And>a e s. st = Ast a (BlockLevel (ReturnAST e)) \<Longrightarrow> P s \<Longrightarrow> gives P (unless_null ti e s)"
    by (rule unless_null_vc) (use st ti in auto)
  show ?case unfolding p block_result_loop.simps
    by (auto split: styio_ast.split ast_class.split block_level_ast.split intro!: vc IH nested ret Cons.prems(2))
qed simp

lemma block_result_vc:
  assumes ti: "\<And>x s. all_nodes D x \<Longrightarrow> P s \<Longrightarrow> gives P (ti x s)"
  shows "all_nodes D ast \<Longrightarrow> P s \<Longrightarrow> gives (\<lambda>p. P (snd p)) (infer_task_block_result_type ti ie ast s)"
proof (induction ast arbitrary: s)
  case (Ast a c)
  have "P s \<Longrightarrow> gives (\<lambda>p. P (snd p)) (block_result_loop ti ie (map (\<lambda>x. (x, infer_task_block_result_type ti ie x)) (blk_stmts blk)) undefined_type s)"
    if "c = BlockLevel (BlockAST blk)" for blk
  proof (rule result_loop_vc [OF ti])
    fix st nested s assume "(st, nested) \<in> set (map (\<lambda>x. (x, infer_task_block_result_type ti ie x)) (blk_stmts blk))"
    then have st: "st \<in> set_ast_class c" and nested: "nested = infer_task_block_result_type ti ie st"
      by (auto simp: that block_ast.set_sel)
    with Ast.prems(1) have "all_nodes D st" by simp
    with Ast.IH [OF st this] show "all_nodes D st \<and> (P s \<longrightarrow> gives (\<lambda>p. P (snd p)) (nested s))"
      by (simp add: nested)
  qed simp_all
  then show ?case using Ast.prems(2)
    by (auto simp: block_result_map split: ast_class.split block_level_ast.split)
qed simp

lemma task_block_vc:
  assumes ti: "\<And>x s. all_nodes D x \<Longrightarrow> P s \<Longrightarrow> gives P (ti x s)"
    and body: "\<And>x. x \<in> set body \<Longrightarrow> all_nodes D x" and s: "P s"
  shows "gives P (infer_task_block ti ie a body s)"
  unfolding infer_task_block_def
  by (intro vc block_vc ti result_loop_vc [OF ti] s) (auto intro: body block_result_vc [OF ti])

lemma flow_bind_vc:
  assumes "\<And>x s. x \<in> {source, fallback} \<Longrightarrow> P s \<Longrightarrow> gives P (ti x s)" "P s"
  shows "gives P (infer_flow_bind ti ie a source v fallback declares await s)"
  unfolding infer_flow_bind_def flow_target_check_def flow_source_type_def flow_finish_def declare_target_def Let_def
  by (intro vc unless_null_vc assms) auto

lemma chain_vc: "gives P (v s) \<Longrightarrow> (\<And>s. P s \<Longrightarrow> gives P (w s)) \<Longrightarrow> gives P (chain (v s) w)"
  by (rule gives_state)

lemma name_vc: "P s \<Longrightarrow> gives P (infer_name nm s)"
  unfolding infer_name_def by (intro vc)

lemma value_class_vc:
  assumes "infer_value_class ti ie a c = Some v" "\<And>x s. x \<in> set_ast_class c \<Longrightarrow> P s \<Longrightarrow> gives P (ti x s)" "P s"
  shows "gives P (v s)"
  using assms
  by (auto simp: infer_value_class_def cond_ast.set_sel
      split: ast_class.splits names_ast.splits tuple_ast.splits collection_ast.splits extent_ast.splits access_ast.splits
        binary_ast.splits selector_ast.splits wave_ast.splits convert_ast.splits call_ast.splits pulse_ast.splits
      intro: dict_child intro!: chain_vc name_vc tuple_vc list_vc dict_vc size_of_vc list_op_vc attr_vc bin_op_vc cond_vc gives_for_each func_call_vc)

lemma resource_class_vc:
  assumes "infer_resource_class ti ie a c = Some v" "\<And>x s. x \<in> set_ast_class c \<Longrightarrow> P s \<Longrightarrow> gives P (ti x s)" "P s"
  shows "gives P (v s)"
  using assms
  by (auto simp: infer_resource_class_def file_ast.set_sel block_ast.set_sel object.set_sel
      split: ast_class.splits structure_ast.splits handle_ast.splits write_ast.splits resource_ast.splits method_ast.splits
        decl_ast.splits
      intro: block_child intro!: chain_vc unless_null_vc handle_acquire_vc resource_write_vc resource_redirect_vc receiver_vc method_def_vc
        resource_decl_vc resource_ref_vc)

lemma statement_class_vc:
  assumes "infer_statement_class ti ie a c = Some v" "all_nodes D (Ast a c)"
    and ti: "\<And>x s. all_nodes D x \<Longrightarrow> P s \<Longrightarrow> gives P (ti x s)" and "P s"
  shows "gives P (v s)"
proof -
  have nodes: "\<And>x. x \<in> set_ast_class c \<Longrightarrow> all_nodes D x" and here: "D (Ast a c)" using assms(2) by auto
  show ?thesis using assms(1,4) nodes here
    by (auto simp: infer_statement_class_def block_ast.set_sel object.set_sel cond_flow_ast.set_sel cond_ast.set_sel
          file_ast.set_sel define_function_def is_main_def dest: no_main
        split: ast_class.splits bind_ast.splits state_ast.splits package_ast.splits function_ast.splits simple_func_ast.splits
          loop_ast.splits stream_ast.splits task_ast.splits flow_ast.splits block_level_ast.splits option.splits
        intro: block_child file_child flow_cond_child define_fun
        intro!: chain_vc unless_null_vc ti flex_bind_vc final_bind_vc parallel_assign_vc cond_flow_vc gives_for_each infinite_loop_vc
          iterator_vc stream_zip_vc snapshot_decl_vc instant_pull_vc task_block_vc flow_bind_vc block_vc)
qed

theorem type_infer_keeps: "all_nodes D ast \<Longrightarrow> P s \<Longrightarrow> gives P (type_infer n ie ast s)"
proof (induction n arbitrary: ast s)
  case (Suc n)
  show ?case
  proof (cases ast)
    case (Ast a c)
    have ti: "\<And>x s. all_nodes D x \<Longrightarrow> P s \<Longrightarrow> gives P (type_infer n ie x s)" by (rule Suc.IH)
    moreover have "\<And>x s. x \<in> set_ast_class c \<Longrightarrow> P s \<Longrightarrow> gives P (type_infer n ie x s)"
      using Suc.prems(1) Ast by (intro ti) auto
    ultimately show ?thesis using Suc.prems Ast
      by (auto simp: infer_class_def split: option.split
          intro: value_class_vc resource_class_vc statement_class_vc)
  qed simp
qed simp

end

end
